(* ===== verification/Prelude.thy ===== *)
theory Prelude
  imports Main "HOL-Library.Word"
begin

text \<open>
  The vocabulary shared by every theory of the development.

  \<^item> Rust's \<open>str\<close> is a sequence of UTF-8 bytes, and so is HOL's \<open>string\<close>
    (a \<open>char\<close> is one byte): offsets and lengths below are byte offsets and byte lengths,
    as they are in the code. The functions of \<open>str\<close> that the code calls
    (\<open>strip_prefix\<close>, \<open>strip_suffix\<close>, \<open>starts_with\<close>, \<open>find\<close>,
    \<open>split_once\<close>, \<open>trim\<close>, \<open>is_char_boundary\<close>, \<open>parse\<close> for unsigned integers)
    are defined here with their characteristic lemmas.
  \<^item> A duration is its number of nanoseconds (\<open>Duration::as_nanos\<close>) and an instant is the
    number of nanoseconds on the monotonic clock; both are natural numbers.
  \<^item> \<open>Result<T>\<close> is the sum \<open>'e + 'a\<close>, with \<open>Inl\<close> for \<open>Err\<close>.
\<close>

named_theorems str_simps \<open>characteristic equations of the string functions\<close>

type_synonym duration = nat
type_synonym instant = nat
type_synonym uuid = nat

section \<open>Bytes\<close>

definition is_ascii_digit :: "char \<Rightarrow> bool" where
  "is_ascii_digit c \<longleftrightarrow> 48 \<le> (of_char c :: nat) \<and> (of_char c :: nat) \<le> 57"

definition is_ascii_alphabetic :: "char \<Rightarrow> bool" where
  "is_ascii_alphabetic c \<longleftrightarrow>
     (65 \<le> (of_char c :: nat) \<and> (of_char c :: nat) \<le> 90)
     \<or> (97 \<le> (of_char c :: nat) \<and> (of_char c :: nat) \<le> 122)"

definition is_ascii_whitespace :: "char \<Rightarrow> bool" where
  "is_ascii_whitespace c \<longleftrightarrow> (of_char c :: nat) \<in> {9, 10, 12, 13, 32}"

text \<open>A continuation byte \<open>10xxxxxx\<close> of a multi-byte UTF-8 sequence.\<close>

definition is_continuation :: "char \<Rightarrow> bool" where
  "is_continuation c \<longleftrightarrow> 128 \<le> (of_char c :: nat) \<and> (of_char c :: nat) < 192"

definition is_char_boundary :: "string \<Rightarrow> nat \<Rightarrow> bool" where
  "is_char_boundary s i \<longleftrightarrow>
     i = 0 \<or> i = length s \<or> (i < length s \<and> \<not> is_continuation (s ! i))"

lemma is_char_boundary_0 [simp]: "is_char_boundary s 0"
  and is_char_boundary_length [simp]: "is_char_boundary s (length s)"
  by (simp_all add: is_char_boundary_def)

section \<open>Prefixes and suffixes\<close>

fun strip_prefix :: "string \<Rightarrow> string \<Rightarrow> string option" where
  "strip_prefix [] s = Some s"
| "strip_prefix (p # ps) [] = None"
| "strip_prefix (p # ps) (c # cs) = (if p = c then strip_prefix ps cs else None)"

definition starts_with :: "string \<Rightarrow> string \<Rightarrow> bool" where
  "starts_with p s \<longleftrightarrow> strip_prefix p s \<noteq> None"

definition strip_suffix :: "string \<Rightarrow> string \<Rightarrow> string option" where
  "strip_suffix p s = map_option rev (strip_prefix (rev p) (rev s))"

lemma strip_prefix_Some_iff [str_simps]: "strip_prefix p s = Some r \<longleftrightarrow> s = p @ r"
  by (induction p s rule: strip_prefix.induct) auto

lemma strip_prefix_append [simp]: "strip_prefix p (p @ r) = Some r"
  by (simp add: strip_prefix_Some_iff)

lemma strip_prefix_self [simp]: "strip_prefix p p = Some []"
  using strip_prefix_append[of p "[]"] by simp

lemma strip_prefix_None_iff: "strip_prefix p s = None \<longleftrightarrow> (\<forall>r. s \<noteq> p @ r)"
  using strip_prefix_Some_iff[of p s] by (cases "strip_prefix p s") auto

lemma starts_with_iff [str_simps]: "starts_with p s \<longleftrightarrow> (\<exists>r. s = p @ r)"
  by (auto simp: starts_with_def strip_prefix_Some_iff)

lemma starts_with_Nil [simp]: "starts_with [] s"
  by (simp add: starts_with_iff)

lemma starts_with_refl [simp]: "starts_with s s"
  by (simp add: starts_with_iff)

lemma starts_with_append [simp]: "starts_with p (p @ s)"
  by (auto simp: starts_with_iff)

lemma starts_with_single [simp]: "starts_with [c] s \<longleftrightarrow> (\<exists>r. s = c # r)"
  by (auto simp: starts_with_iff)

lemma starts_with_same_append [simp]: "starts_with (p @ q) (p @ s) \<longleftrightarrow> starts_with q s"
  by (auto simp: starts_with_iff)

lemma strip_suffix_Some_iff [str_simps]: "strip_suffix p s = Some r \<longleftrightarrow> s = r @ p"
proof -
  have "strip_suffix p s = Some r \<longleftrightarrow> strip_prefix (rev p) (rev s) = Some (rev r)"
    by (auto simp: strip_suffix_def)
  also have "\<dots> \<longleftrightarrow> s = r @ p"
    by (metis strip_prefix_Some_iff rev_append rev_rev_ident)
  finally show ?thesis .
qed

lemma strip_suffix_append [simp]: "strip_suffix p (r @ p) = Some r"
  by (simp add: strip_suffix_Some_iff)

lemma strip_suffix_None_iff: "strip_suffix p s = None \<longleftrightarrow> (\<forall>r. s \<noteq> r @ p)"
  using strip_suffix_Some_iff[of p s] by (cases "strip_suffix p s") auto

section \<open>Searching\<close>

text \<open>\<open>str::find\<close> with a string or a character pattern: the byte offset of the first match.\<close>

fun find_str :: "string \<Rightarrow> string \<Rightarrow> nat option" where
  "find_str p [] = (if p = [] then Some 0 else None)"
| "find_str p (c # cs) =
     (if starts_with p (c # cs) then Some 0 else map_option Suc (find_str p cs))"

definition split_once :: "string \<Rightarrow> string \<Rightarrow> (string \<times> string) option" where
  "split_once p s =
     (case find_str p s of
        None \<Rightarrow> None
      | Some i \<Rightarrow> Some (take i s, drop (i + length p) s))"

definition slice :: "nat \<Rightarrow> nat \<Rightarrow> string \<Rightarrow> string" where
  "slice i j s = drop i (take j s)"

lemma find_str_Some:
  "find_str p s = Some i \<Longrightarrow> i + length p \<le> length s \<and> s = take i s @ p @ drop (i + length p) s"
proof (induction s arbitrary: i)
  case Nil
  then show ?case by (auto split: if_splits)
next
  case (Cons c cs)
  show ?case
  proof (cases "starts_with p (c # cs)")
    case True
    then obtain r where "c # cs = p @ r" by (auto simp: starts_with_iff)
    moreover from True Cons.prems have "i = 0" by simp
    ultimately show ?thesis by simp
  next
    case False
    with Cons.prems obtain j where "find_str p cs = Some j" and "i = Suc j" by auto
    with Cons.IH show ?thesis by fastforce
  qed
qed

lemma find_str_least:
  "find_str p s = Some i \<Longrightarrow> j < i \<Longrightarrow> \<not> starts_with p (drop j s)"
proof (induction s arbitrary: i j)
  case Nil
  then show ?case by (auto split: if_splits)
next
  case (Cons c cs)
  then show ?case by (cases j) (auto split: if_splits)
qed

lemma find_str_None_iff: "find_str p s = None \<longleftrightarrow> (\<forall>u v. s \<noteq> u @ p @ v)"
proof (induction s)
  case Nil
  then show ?case by auto
next
  case (Cons c cs)
  have "(\<exists>u v. c # cs = u @ p @ v) \<longleftrightarrow>
      starts_with p (c # cs) \<or> (\<exists>u v. cs = u @ p @ v)"
    unfolding starts_with_iff by (auto simp: Cons_eq_append_conv)
  with Cons.IH show ?case by auto
qed

lemma find_str_less:
  "find_str p s = Some i \<Longrightarrow> p \<noteq> [] \<Longrightarrow> i < length s"
  using find_str_Some[of p s i] by (cases p) auto

lemma find_str_single_None [simp]: "find_str [c] s = None \<longleftrightarrow> c \<notin> set s"
proof (induction s)
  case (Cons x xs)
  then show ?case by auto
qed simp

lemma find_str_single_append [simp]:
  "c \<notin> set u \<Longrightarrow> find_str [c] (u @ c # v) = Some (length u)"
  by (induction u) auto

lemma takeWhile_until [simp]: "c \<notin> set u \<Longrightarrow> takeWhile (\<lambda>x. x \<noteq> c) (u @ c # v) = u"
  by (induction u) auto

lemma dropWhile_until [simp]: "c \<notin> set u \<Longrightarrow> dropWhile (\<lambda>x. x \<noteq> c) (u @ c # v) = c # v"
  by (induction u) auto

lemma split_once_Some:
  "split_once p s = Some (u, v) \<Longrightarrow> s = u @ p @ v"
  using find_str_Some by (fastforce simp: split_once_def split: option.splits)

lemma split_once_None_iff: "split_once p s = None \<longleftrightarrow> (\<forall>u v. s \<noteq> u @ p @ v)"
proof -
  have "split_once p s = None \<longleftrightarrow> find_str p s = None"
    by (simp add: split_once_def split: option.splits)
  then show ?thesis by (simp add: find_str_None_iff)
qed

lemma split_once_single_None [simp]: "c \<notin> set s \<Longrightarrow> split_once [c] s = None"
  by (simp add: split_once_def find_str_single_None[THEN iffD2])

lemma split_once_first:
  "split_once p s = Some (u, v) \<Longrightarrow> j < length u \<Longrightarrow> \<not> starts_with p (drop j s)"
  using find_str_least[of p s] find_str_Some[of p s]
  by (fastforce simp: split_once_def split: option.splits)

section \<open>Results and iteration\<close>

text \<open>\<open>Iterator::find_map\<close> over a list of candidates.\<close>

fun find_map :: "('a \<Rightarrow> 'b option) \<Rightarrow> 'a list \<Rightarrow> 'b option" where
  "find_map f [] = None"
| "find_map f (x # xs) = (case f x of Some y \<Rightarrow> Some y | None \<Rightarrow> find_map f xs)"

lemma find_map_Some:
  "find_map f xs = Some y \<Longrightarrow> \<exists>x \<in> set xs. f x = Some y"
  by (induction xs) (auto split: option.splits)

lemma find_map_None_iff [simp]: "find_map f xs = None \<longleftrightarrow> (\<forall>x \<in> set xs. f x = None)"
  by (induction xs) (auto split: option.splits)

lemma find_map_exists: "x \<in> set xs \<Longrightarrow> f x \<noteq> None \<Longrightarrow> find_map f xs \<noteq> None"
  by auto

lemma find_map_cong [fundef_cong]:
  "xs = ys \<Longrightarrow> (\<And>x. x \<in> set ys \<Longrightarrow> f x = g x) \<Longrightarrow> find_map f xs = find_map g ys"
  by (induction xs arbitrary: ys) (auto split: option.splits)

lemma option_eqI: "(\<And>v. a = Some v \<longleftrightarrow> b = Some v) \<Longrightarrow> a = b"
  by (cases a; cases b) auto

text \<open>\<open>collect::<Result<Vec<_>>>()\<close> on a mapped iterator: the first error wins.\<close>

fun collect_results :: "('a \<Rightarrow> 'e + 'b) \<Rightarrow> 'a list \<Rightarrow> 'e + 'b list" where
  "collect_results f [] = Inr []"
| "collect_results f (x # xs) =
     (case f x of
        Inl e \<Rightarrow> Inl e
      | Inr y \<Rightarrow> (case collect_results f xs of Inl e \<Rightarrow> Inl e | Inr ys \<Rightarrow> Inr (y # ys)))"

lemma collect_results_Inr_iff:
  "collect_results f xs = Inr ys \<longleftrightarrow> list_all2 (\<lambda>x y. f x = Inr y) xs ys"
proof (induction xs arbitrary: ys)
  case Nil
  then show ?case by auto
next
  case (Cons x xs)
  have "collect_results f (x # xs) = Inr ys \<longleftrightarrow>
      (\<exists>y zs. f x = Inr y \<and> collect_results f xs = Inr zs \<and> ys = y # zs)"
    by (auto split: sum.splits)
  then show ?case by (auto simp: Cons.IH list_all2_Cons1)
qed

lemma collect_results_map [simp]:
  "(\<And>x. x \<in> set xs \<Longrightarrow> f x = Inr (g x)) \<Longrightarrow> collect_results f xs = Inr (map g xs)"
  by (induction xs) auto

lemma collect_results_in: "collect_results f xs = Inr ys \<Longrightarrow> y \<in> set ys \<Longrightarrow> \<exists>x \<in> set xs. f x = Inr y"
  unfolding collect_results_Inr_iff by (induction rule: list_all2_induct) auto

lemma find_in: "find P xs = Some x \<Longrightarrow> x \<in> set xs \<and> P x"
  by (induction xs) (auto split: if_splits)

section \<open>Machine integers\<close>

definition u64_max :: nat where "u64_max = 2 ^ 64 - 1"
definition u32_max :: nat where "u32_max = 2 ^ 32 - 1"

definition saturating_sub :: "nat \<Rightarrow> nat \<Rightarrow> nat" where
  "saturating_sub a b = a - b"

definition saturating_add_u64 :: "nat \<Rightarrow> nat \<Rightarrow> nat" where
  "saturating_add_u64 a b = min (a + b) u64_max"

definition nanos_per_sec :: nat where "nanos_per_sec = 1000000000"

definition from_secs :: "nat \<Rightarrow> duration" where
  "from_secs s = s * nanos_per_sec"

definition as_secs :: "duration \<Rightarrow> nat" where
  "as_secs d = d div nanos_per_sec"

definition subsec_nanos :: "duration \<Rightarrow> nat" where
  "subsec_nanos d = d mod nanos_per_sec"

lemma as_secs_from_secs [simp]: "as_secs (from_secs s) = s"
  by (simp add: as_secs_def from_secs_def nanos_per_sec_def)

lemma subsec_nanos_from_secs [simp]: "subsec_nanos (from_secs s) = 0"
  by (simp add: subsec_nanos_def from_secs_def)

section \<open>Trimming\<close>

text \<open>
  \<open>str::trim\<close> removes leading and trailing characters with the Unicode property
  \<open>White_Space\<close>: the list below holds their UTF-8 encodings.
\<close>

definition whitespace_texts :: "string list" where
  "whitespace_texts =
     [[CHR 0x09], [CHR 0x0A], [CHR 0x0B], [CHR 0x0C], [CHR 0x0D], [CHR 0x20],
      [CHR 0xC2, CHR 0x85], [CHR 0xC2, CHR 0xA0], [CHR 0xE1, CHR 0x9A, CHR 0x80],
      [CHR 0xE2, CHR 0x80, CHR 0x80], [CHR 0xE2, CHR 0x80, CHR 0x81],
      [CHR 0xE2, CHR 0x80, CHR 0x82], [CHR 0xE2, CHR 0x80, CHR 0x83],
      [CHR 0xE2, CHR 0x80, CHR 0x84], [CHR 0xE2, CHR 0x80, CHR 0x85],
      [CHR 0xE2, CHR 0x80, CHR 0x86], [CHR 0xE2, CHR 0x80, CHR 0x87],
      [CHR 0xE2, CHR 0x80, CHR 0x88], [CHR 0xE2, CHR 0x80, CHR 0x89],
      [CHR 0xE2, CHR 0x80, CHR 0x8A], [CHR 0xE2, CHR 0x80, CHR 0xA8],
      [CHR 0xE2, CHR 0x80, CHR 0xA9], [CHR 0xE2, CHR 0x80, CHR 0xAF],
      [CHR 0xE2, CHR 0x81, CHR 0x9F], [CHR 0xE3, CHR 0x80, CHR 0x80]]"

lemma whitespace_texts_nonempty: "w \<in> set whitespace_texts \<Longrightarrow> w \<noteq> []"
  by (auto simp: whitespace_texts_def)

function trim_start :: "string \<Rightarrow> string" where
  "trim_start s =
     (case find_map (\<lambda>w. strip_prefix w s) whitespace_texts of
        None \<Rightarrow> s
      | Some r \<Rightarrow> trim_start r)"
  by pat_completeness auto
termination
  by (relation "measure length")
    (auto dest!: find_map_Some whitespace_texts_nonempty simp: strip_prefix_Some_iff)

function trim_end :: "string \<Rightarrow> string" where
  "trim_end s =
     (case find_map (\<lambda>w. strip_suffix w s) whitespace_texts of
        None \<Rightarrow> s
      | Some r \<Rightarrow> trim_end r)"
  by pat_completeness auto
termination
  by (relation "measure length")
    (auto dest!: find_map_Some whitespace_texts_nonempty simp: strip_suffix_Some_iff)

declare trim_start.simps [simp del] trim_end.simps [simp del]

definition trim :: "string \<Rightarrow> string" where
  "trim s = trim_end (trim_start s)"

lemma trim_start_id:
  "(\<And>w. w \<in> set whitespace_texts \<Longrightarrow> \<not> starts_with w s) \<Longrightarrow> trim_start s = s"
proof -
  assume "\<And>w. w \<in> set whitespace_texts \<Longrightarrow> \<not> starts_with w s"
  then have none: "find_map (\<lambda>w. strip_prefix w s) whitespace_texts = None"
    by (simp add: starts_with_def)
  show ?thesis
    by (subst trim_start.simps) (simp only: none option.case)
qed

lemma trim_end_id:
  "(\<And>w. w \<in> set whitespace_texts \<Longrightarrow> strip_suffix w s = None) \<Longrightarrow> trim_end s = s"
proof -
  assume "\<And>w. w \<in> set whitespace_texts \<Longrightarrow> strip_suffix w s = None"
  then have none: "find_map (\<lambda>w. strip_suffix w s) whitespace_texts = None"
    by simp
  show ?thesis
    by (subst trim_end.simps) (simp only: none option.case)
qed

text \<open>A text whose first and last bytes are printable ASCII other than space is not trimmed.\<close>

definition is_graphic :: "char \<Rightarrow> bool" where
  "is_graphic c \<longleftrightarrow> 32 < (of_char c :: nat) \<and> (of_char c :: nat) < 128"

lemma whitespace_texts_not_graphic:
  "list_all (\<lambda>w. \<not> is_graphic (hd w) \<and> \<not> is_graphic (last w)) whitespace_texts"
  by (simp add: whitespace_texts_def is_graphic_def)

lemma trim_graphic:
  assumes "s \<noteq> []" and "is_graphic (hd s)" and "is_graphic (last s)"
  shows "trim s = s"
proof -
  have ws: "w \<noteq> []" "\<not> is_graphic (hd w)" "\<not> is_graphic (last w)" if "w \<in> set whitespace_texts" for w
    using that whitespace_texts_not_graphic whitespace_texts_nonempty[OF that]
    by (simp_all add: list_all_iff)
  have "trim_start s = s"
  proof (rule trim_start_id)
    fix w assume "w \<in> set whitespace_texts"
    with assms(2) ws[of w] show "\<not> starts_with w s" by (auto simp: starts_with_iff)
  qed
  moreover have "trim_end s = s"
  proof (rule trim_end_id)
    fix w assume "w \<in> set whitespace_texts"
    with assms(3) ws[of w] show "strip_suffix w s = None" by (auto simp: strip_suffix_None_iff)
  qed
  ultimately show ?thesis by (simp add: trim_def)
qed

lemma trim_start_Nil [simp]: "trim_start [] = []"
  by (rule trim_start_id) (auto simp: starts_with_iff dest: whitespace_texts_nonempty)

lemma trim_end_Nil [simp]: "trim_end [] = []"
  by (rule trim_end_id) (auto simp: strip_suffix_None_iff dest: whitespace_texts_nonempty)

section \<open>Parsing unsigned integers\<close>

definition to_digit :: "nat \<Rightarrow> char \<Rightarrow> nat option" where
  "to_digit radix c =
     (let b = of_char c :: nat;
          d = (if 48 \<le> b \<and> b \<le> 57 then b - 48
               else if 97 \<le> b \<and> b \<le> 122 then b - 87
               else if 65 \<le> b \<and> b \<le> 90 then b - 55
               else radix)
      in if d < radix then Some d else None)"

fun digits_value :: "nat \<Rightarrow> nat \<Rightarrow> string \<Rightarrow> nat option" where
  "digits_value radix acc [] = Some acc"
| "digits_value radix acc (c # cs) =
     (case to_digit radix c of
        None \<Rightarrow> None
      | Some d \<Rightarrow> digits_value radix (acc * radix + d) cs)"

text \<open>
  \<open>from_str_radix\<close> of an unsigned type with the given maximum: one leading \<open>+\<close> is allowed,
  at least one digit is needed, and a value past the maximum is an error.
\<close>

definition from_str_radix :: "nat \<Rightarrow> nat \<Rightarrow> string \<Rightarrow> nat option" where
  "from_str_radix maximum radix s =
     (let ds = (case s of c # cs \<Rightarrow> if c = CHR ''+'' then cs else s | [] \<Rightarrow> [])
      in if ds = [] then None
         else case digits_value radix 0 ds of
                None \<Rightarrow> None
              | Some n \<Rightarrow> if n \<le> maximum then Some n else None)"

definition parse_u64 :: "string \<Rightarrow> nat option" where
  "parse_u64 s = from_str_radix u64_max 10 s"

definition parse_u128 :: "string \<Rightarrow> nat option" where
  "parse_u128 s = from_str_radix (2 ^ 128 - 1) 10 s"

text \<open>Decimal printing of an unsigned integer (\<open>Display\<close>).\<close>

definition digit_char :: "nat \<Rightarrow> char" where
  "digit_char d = char_of (48 + d)"

fun show_nat :: "nat \<Rightarrow> string" where
  "show_nat n = (if n < 10 then [digit_char n] else show_nat (n div 10) @ [digit_char (n mod 10)])"

declare show_nat.simps [simp del]

lemma digit_char_numerals:
  "map digit_char [0, 1, 2, 3, 4, 5, 6, 7, 8, 9] = ''0123456789''"
  by code_simp

lemma of_digit_char [simp]: "d < 10 \<Longrightarrow> (of_char (digit_char d) :: nat) = 48 + d"
  by (simp add: digit_char_def)

lemma to_digit_digit_char [simp]: "d < 10 \<Longrightarrow> to_digit 10 (digit_char d) = Some d"
  by (simp add: to_digit_def Let_def)

lemma digits_value_append:
  "digits_value r a (xs @ ys) =
     (case digits_value r a xs of None \<Rightarrow> None | Some b \<Rightarrow> digits_value r b ys)"
  by (induction xs arbitrary: a) (auto split: option.splits)

lemma digits_value_show_nat: "digits_value 10 0 (show_nat n) = Some n"
proof (induction n rule: show_nat.induct)
  case (1 n)
  show ?case
  proof (cases "n < 10")
    case True
    then show ?thesis by (simp add: show_nat.simps[of n])
  next
    case False
    then show ?thesis
      using "1.IH" by (simp add: show_nat.simps[of n] digits_value_append)
  qed
qed

lemma show_nat_digits: "c \<in> set (show_nat n) \<Longrightarrow> is_ascii_digit c"
proof (induction n arbitrary: c rule: show_nat.induct)
  case (1 n)
  then show ?case
    by (cases "n < 10") (auto simp: show_nat.simps[of n] is_ascii_digit_def)
qed

lemma show_nat_not_Nil [simp]: "show_nat n \<noteq> []"
  by (simp add: show_nat.simps[of n])

lemma show_nat_hd: "\<exists>c cs. show_nat n = c # cs \<and> c \<noteq> CHR ''+''"
proof (cases "show_nat n")
  case (Cons c cs)
  then have "is_ascii_digit c" using show_nat_digits[of c n] by simp
  then have "c \<noteq> CHR ''+''" by (auto simp: is_ascii_digit_def)
  with Cons show ?thesis by simp
qed simp

lemma from_str_radix_show_nat:
  "from_str_radix maximum 10 (show_nat n) = (if n \<le> maximum then Some n else None)"
proof -
  obtain c cs where "show_nat n = c # cs" "c \<noteq> CHR ''+''" using show_nat_hd by blast
  then show ?thesis using digits_value_show_nat[of n] by (simp add: from_str_radix_def Let_def)
qed

lemma parse_u64_show_nat [simp]: "n \<le> u64_max \<Longrightarrow> parse_u64 (show_nat n) = Some n"
  by (simp add: parse_u64_def from_str_radix_show_nat)

lemma parse_u64_bound: "parse_u64 s = Some n \<Longrightarrow> n \<le> u64_max"
  by (auto simp: parse_u64_def from_str_radix_def Let_def split: option.splits if_splits)

text \<open>One lower-case hexadecimal digit.\<close>

definition hex_digit :: "nat \<Rightarrow> char" where
  "hex_digit d = char_of (if d < 10 then 48 + d else 87 + d)"

lemma to_digit_hex_digit: "d < 16 \<Longrightarrow> to_digit 16 (hex_digit d) = Some d"
  by (auto simp: to_digit_def hex_digit_def Let_def)

section \<open>Bytes and UTF-8\<close>

definition byte_in :: "nat \<Rightarrow> nat \<Rightarrow> char \<Rightarrow> bool" where
  "byte_in lo hi c \<longleftrightarrow> lo \<le> (of_char c :: nat) \<and> (of_char c :: nat) \<le> hi"

text \<open>\<open>String::from_utf8\<close> accepts the well-formed sequences: no overlong form, no surrogate, at most U+10FFFF.\<close>

fun utf8_valid :: "string \<Rightarrow> bool" where
  "utf8_valid [] = True"
| "utf8_valid (a # s) =
     (if byte_in 0 0x7F a then utf8_valid s
      else if byte_in 0xC2 0xDF a then (case s of b # t \<Rightarrow> is_continuation b \<and> utf8_valid t | _ \<Rightarrow> False)
      else if byte_in 0xE0 0xEF a
      then (case s of
              b # c # t \<Rightarrow>
                byte_in (if a = CHR 0xE0 then 0xA0 else 0x80) (if a = CHR 0xED then 0x9F else 0xBF) b
                \<and> is_continuation c \<and> utf8_valid t
            | _ \<Rightarrow> False)
      else if byte_in 0xF0 0xF4 a
      then (case s of
              b # c # d # t \<Rightarrow>
                byte_in (if a = CHR 0xF0 then 0x90 else 0x80) (if a = CHR 0xF4 then 0x8F else 0xBF) b
                \<and> is_continuation c \<and> is_continuation d \<and> utf8_valid t
            | _ \<Rightarrow> False)
      else False)"

section \<open>Effects\<close>

text \<open>A fallible operation on a state; \<open>op_bind\<close> is Rust's \<open>?\<close>, which keeps the changes made before an error.\<close>

type_synonym ('e, 'b, 'a) effect = "'b \<Rightarrow> ('e + 'a) \<times> 'b"

definition op_bind :: "('e, 'b, 'a) effect \<Rightarrow> ('a \<Rightarrow> ('e, 'b, 'c) effect) \<Rightarrow> ('e, 'b, 'c) effect" where
  "op_bind m f b = (case m b of (Inl e, b') \<Rightarrow> (Inl e, b') | (Inr x, b') \<Rightarrow> f x b')"

definition op_return :: "'a \<Rightarrow> ('e, 'b, 'a) effect" where
  "op_return x b = (Inr x, b)"

definition op_fail :: "'e \<Rightarrow> ('e, 'b, 'a) effect" where
  "op_fail e b = (Inl e, b)"

definition op_lift :: "'e + 'a \<Rightarrow> ('e, 'b, 'a) effect" where
  "op_lift r b = (r, b)"

lemma op_bind_return [simp]: "op_bind (op_return x) f b = f x b"
  and op_bind_fail [simp]: "op_bind (op_fail e) f b = (Inl e, b)"
  and op_bind_lift_Inr [simp]: "op_bind (op_lift (Inr x)) f b = f x b"
  and op_bind_lift_Inl [simp]: "op_bind (op_lift (Inl e)) f b = (Inl e, b)"
  by (simp_all add: op_bind_def op_return_def op_fail_def op_lift_def)

lemma op_bind_Inr_iff:
  "op_bind m f b = (Inr y, b') \<longleftrightarrow> (\<exists>x b1. m b = (Inr x, b1) \<and> f x b1 = (Inr y, b'))"
  by (auto simp: op_bind_def split: prod.splits sum.splits)

lemma op_bind_Inr: "m b = (Inr x, b1) \<Longrightarrow> op_bind m f b = f x b1"
  and op_bind_Inl: "m b = (Inl e, b1) \<Longrightarrow> op_bind m f b = (Inl e, b1)"
  by (simp_all add: op_bind_def)

section \<open>Checks\<close>

text \<open>A sequence of checks ends at the first that fails; \<open>or_error\<close> is \<open>map_err\<close> and \<open>ok_or_else\<close> Rust's \<open>ok_or_else\<close>.\<close>

definition or_error :: "('x \<Rightarrow> 'e) \<Rightarrow> 'x + 'a \<Rightarrow> 'e + 'a" where
  "or_error f r = (case r of Inl x \<Rightarrow> Inl (f x) | Inr a \<Rightarrow> Inr a)"

definition ok_or_else :: "'e \<Rightarrow> 'a option \<Rightarrow> 'e + 'a" where
  "ok_or_else e v = (case v of None \<Rightarrow> Inl e | Some a \<Rightarrow> Inr a)"

definition check_that :: "bool \<Rightarrow> 'e \<Rightarrow> 'e + unit" where
  "check_that ok e = (if ok then Inr () else Inl e)"

fun first_failure :: "('e + unit) list \<Rightarrow> 'e + unit" where
  "first_failure [] = Inr ()"
| "first_failure (c # cs) = (case c of Inl e \<Rightarrow> Inl e | Inr _ \<Rightarrow> first_failure cs)"

lemma check_that_Inr [simp]: "check_that ok e = Inr u \<longleftrightarrow> ok"
  by (simp add: check_that_def)

lemma first_failure_Cons [simp]: "first_failure (c # cs) = Inr u \<longleftrightarrow> c = Inr () \<and> first_failure cs = Inr ()"
  by (cases c) simp_all

declare first_failure.simps(2) [simp del]

lemma first_failure_Inr: "first_failure cs = Inr () \<longleftrightarrow> (\<forall>c \<in> set cs. c = Inr ())"
  by (induction cs) auto
lemma or_error_Inr [simp]: "or_error f r = Inr a \<longleftrightarrow> r = Inr a"
  by (simp add: or_error_def split: sum.splits)

end
