(* ===== verification/Route.thy ===== *)
theory Route
  imports Prelude
begin

text \<open>
  The addresses of the system (\<open>valkyr-core/src/route.rs\<close>) and the workspace's error type
  (\<open>valkyr-core/src/error.rs\<close>): namespaces with an optional context, keys, key patterns,
  namespace patterns and routes.

  A \<open>NamespaceContext\<close> keeps the text it was built from and the byte offset just after its
  first \<open>::\<close> delimiter. Rust compares and hashes it by its text; the fields are private and
  \<open>new\<close> is the only constructor, so on the values that exist that is HOL equality
  (lemma \<open>ns_eq_iff_as_str\<close>).
\<close>

section \<open>Identifiers\<close>

record namespace_context =
  ns_value :: string
  ctx_start :: "nat option"

datatype key = Key (key_str: string)
datatype key_pattern = KeyPattern (kp_str: string)
datatype namespace_pattern = NamespacePattern (np_str: string)

record route =
  route_namespace :: namespace_context
  route_key :: key

text \<open>
  \<open>Panic\<close> is not a variant of the Rust enum: it stands for the code panicking, so that a
  definition can say where that happens.
\<close>

datatype error =
    EmptyIdentifier string
  | NotFound route
  | NamespaceExists string
  | Protocol string
  | Connection string
  | AuthenticationFailed
  | PermissionDenied string
  | InvalidAuthorization string
  | Encryption string
  | Panic string

type_synonym 'a result = "error + 'a"

section \<open>NamespaceContext\<close>

definition NamespaceContext_new :: "string \<Rightarrow> namespace_context result" where
  "NamespaceContext_new value =
     (if value = [] then Inl (EmptyIdentifier ''namespace'')
      else Inr \<lparr> ns_value = value,
                 ctx_start =
                   (case split_once ''::'' value of
                      None \<Rightarrow> None
                    | Some (namespace, context) \<Rightarrow>
                        if namespace = [] \<or> context = [] then None
                        else Some (length namespace + 2)) \<rparr>)"

definition as_str :: "namespace_context \<Rightarrow> string" where
  "as_str n = ns_value n"

definition ns :: "namespace_context \<Rightarrow> string" where
  "ns n = (case ctx_start n of None \<Rightarrow> as_str n | Some start \<Rightarrow> take (start - 2) (ns_value n))"

definition ctx :: "namespace_context \<Rightarrow> string option" where
  "ctx n = map_option (\<lambda>start. drop start (ns_value n)) (ctx_start n)"

definition ns_serialize :: "namespace_context \<Rightarrow> string" where
  "ns_serialize n = as_str n"

definition ns_deserialize :: "string \<Rightarrow> namespace_context result" where
  "ns_deserialize value = NamespaceContext_new value"

text \<open>A namespace value that exists: one that \<open>new\<close> returned.\<close>

definition wf_ns :: "namespace_context \<Rightarrow> bool" where
  "wf_ns n \<longleftrightarrow> NamespaceContext_new (as_str n) = Inr n"

definition validate_context_move :: "namespace_context \<Rightarrow> namespace_context \<Rightarrow> unit result" where
  "validate_context_move source destination =
     (if ctx source = None
      then Inl (Protocol ''MOVE source must be a namespace::context route'')
      else if ctx destination = None
      then Inl (Protocol ''MOVE destination must be a namespace::context route'')
      else if ns source \<noteq> ns destination
      then Inl (Protocol ''MOVE source and destination must share a base namespace'')
      else Inr ())"

section \<open>Keys and patterns\<close>

definition Key_new :: "string \<Rightarrow> key result" where
  "Key_new value = (if value = [] then Inl (EmptyIdentifier ''key'') else Inr (Key value))"

definition KeyPattern_new :: "string \<Rightarrow> key_pattern result" where
  "KeyPattern_new value =
     (if value = [] then Inl (EmptyIdentifier ''key pattern'') else Inr (KeyPattern value))"

definition NamespacePattern_new :: "string \<Rightarrow> namespace_pattern result" where
  "NamespacePattern_new value =
     (if value = [] then Inl (EmptyIdentifier ''namespace pattern'')
      else Inr (NamespacePattern value))"

definition kp_matches :: "key_pattern \<Rightarrow> key \<Rightarrow> bool" where
  "kp_matches p k =
     (case strip_suffix ''*'' (kp_str p) of
        None \<Rightarrow> kp_str p = key_str k
      | Some prefix \<Rightarrow> starts_with prefix (key_str k))"

definition Route_new :: "namespace_context \<Rightarrow> key \<Rightarrow> route" where
  "Route_new n k = \<lparr> route_namespace = n, route_key = k \<rparr>"

definition route_display :: "route \<Rightarrow> string" where
  "route_display r = as_str (route_namespace r) @ ''/'' @ key_str (route_key r)"

text \<open>The \<open>Display\<close> texts of \<open>error.rs\<close>.\<close>

fun error_display :: "error \<Rightarrow> string" where
  "error_display (EmptyIdentifier field) = field @ '' must not be empty''"
| "error_display (NotFound r) = ''route not found: '' @ route_display r"
| "error_display (NamespaceExists n) = ''destination namespace already exists: '' @ n"
| "error_display (Protocol m) = ''invalid protocol message: '' @ m"
| "error_display (Connection m) = ''connection error: '' @ m"
| "error_display AuthenticationFailed = ''authentication failed''"
| "error_display (PermissionDenied n) = ''permission denied for namespace: '' @ n"
| "error_display (InvalidAuthorization m) = ''invalid authorization record: '' @ m"
| "error_display (Encryption m) = ''encryption failed: '' @ m"
| "error_display (Panic m) = m"

section \<open>Lemmas\<close>

lemma NamespaceContext_new_InrD:
  assumes "NamespaceContext_new s = Inr n"
  shows "as_str n = s" and "s \<noteq> []" and "wf_ns n"
  using assms by (auto simp: NamespaceContext_new_def as_str_def wf_ns_def split: if_splits)

lemma NamespaceContext_new_total: "s \<noteq> [] \<Longrightarrow> \<exists>n. NamespaceContext_new s = Inr n"
  by (simp add: NamespaceContext_new_def)

lemma wf_ns_not_empty: "wf_ns n \<Longrightarrow> as_str n \<noteq> []"
  by (auto simp: wf_ns_def NamespaceContext_new_def)

lemma ns_eq_iff_as_str: "wf_ns a \<Longrightarrow> wf_ns b \<Longrightarrow> a = b \<longleftrightarrow> as_str a = as_str b"
  unfolding wf_ns_def by (metis Inr_inject)

lemma NamespaceContext_new_fields:
  assumes "NamespaceContext_new s = Inr n"
  shows "ns_value n = s"
    and "ctx_start n =
      (case split_once ''::'' s of
         None \<Rightarrow> None
       | Some (u, v) \<Rightarrow> if u = [] \<or> v = [] then None else Some (length u + 2))"
  using assms by (auto simp: NamespaceContext_new_def split: if_splits)

lemma ns_ctx_new:
  assumes new: "NamespaceContext_new s = Inr n"
    and "split_once ''::'' s = Some (u, v)" and "u \<noteq> []" and "v \<noteq> []"
  shows "ns n = u \<and> ctx n = Some v"
proof -
  have "ctx_start n = Some (length u + 2)" and "ns_value n = u @ ''::'' @ v"
    using NamespaceContext_new_fields[OF new] split_once_Some[OF assms(2)] assms(2-4) by simp_all
  then show ?thesis by (simp add: ns_def ctx_def)
qed

lemma ns_no_ctx_new:
  assumes new: "NamespaceContext_new s = Inr n"
    and "\<And>u v. split_once ''::'' s = Some (u, v) \<Longrightarrow> u = [] \<or> v = []"
  shows "ns n = s \<and> ctx n = None"
proof -
  have "ctx_start n = None"
    using NamespaceContext_new_fields(2)[OF new] assms(2) by (auto split: option.splits)
  then show ?thesis
    using NamespaceContext_new_fields(1)[OF new] by (simp add: ns_def ctx_def as_str_def)
qed

lemma wf_ns_cases:
  assumes "wf_ns n"
  obtains (contextual) u v where "split_once ''::'' (as_str n) = Some (u, v)" "u \<noteq> []" "v \<noteq> []"
      "ns n = u" "ctx n = Some v"
    | (plain) "ns n = as_str n" "ctx n = None"
proof -
  have new: "NamespaceContext_new (as_str n) = Inr n" using assms by (simp add: wf_ns_def)
  show thesis
  proof (cases "\<exists>u v. split_once ''::'' (as_str n) = Some (u, v) \<and> u \<noteq> [] \<and> v \<noteq> []")
    case True
    then show ?thesis using ns_ctx_new[OF new] contextual by blast
  next
    case False
    then show ?thesis using ns_no_ctx_new[OF new] plain by blast
  qed
qed

lemma wf_ns_decompose:
  assumes "wf_ns n" and "ctx n = Some c"
  shows "as_str n = ns n @ ''::'' @ c \<and> ns n \<noteq> [] \<and> c \<noteq> []"
  using assms(1)
proof (cases rule: wf_ns_cases)
  case (contextual u v)
  with assms(2) show ?thesis by (auto dest: split_once_Some)
next
  case plain
  with assms(2) show ?thesis by simp
qed

lemma wf_ns_base_not_empty: "wf_ns n \<Longrightarrow> ns n \<noteq> []"
  using wf_ns_not_empty wf_ns_cases by metis

lemma Key_new_Inr_iff [simp]: "Key_new s = Inr k \<longleftrightarrow> s \<noteq> [] \<and> k = Key s"
  by (auto simp: Key_new_def)

lemma KeyPattern_new_Inr_iff [simp]: "KeyPattern_new s = Inr p \<longleftrightarrow> s \<noteq> [] \<and> p = KeyPattern s"
  by (auto simp: KeyPattern_new_def)

lemma NamespacePattern_new_Inr_iff [simp]:
  "NamespacePattern_new s = Inr p \<longleftrightarrow> s \<noteq> [] \<and> p = NamespacePattern s"
  by (auto simp: NamespacePattern_new_def)

lemma kp_matches_prefix [simp]:
  "kp_matches (KeyPattern (p @ ''*'')) k \<longleftrightarrow> starts_with p (key_str k)"
  by (simp add: kp_matches_def)

lemma kp_matches_star [simp]: "kp_matches (KeyPattern ''*'') k"
  using kp_matches_prefix[of "[]" k] by simp

lemma kp_matches_exact:
  "(\<And>p. s \<noteq> p @ ''*'') \<Longrightarrow> kp_matches (KeyPattern s) k \<longleftrightarrow> s = key_str k"
  by (simp add: kp_matches_def strip_suffix_None_iff[THEN iffD2])

section \<open>Properties\<close>

text \<open>
  A namespace text splits at its first \<open>::\<close>: every non-empty text is accepted, is kept
  unchanged, and has a context exactly when both sides of the first \<open>::\<close> are non-empty; the
  base namespace, the delimiter and the context then put the text back together, and no earlier
  \<open>::\<close> exists.
\<close>

theorem namespace_context_decomposition:
  assumes "s \<noteq> []"
  shows "\<exists>n. NamespaceContext_new s = Inr n \<and> as_str n = s \<and> ns n \<noteq> [] \<and>
      (case ctx n of
         Some c \<Rightarrow> s = ns n @ ''::'' @ c \<and> c \<noteq> []
           \<and> (\<forall>j < length (ns n). \<not> starts_with ''::'' (drop j s))
       | None \<Rightarrow> ns n = s
           \<and> (\<forall>u v. split_once ''::'' s = Some (u, v) \<longrightarrow> u = [] \<or> v = []))"
proof -
  obtain n where new: "NamespaceContext_new s = Inr n"
    using NamespaceContext_new_total[OF assms] by blast
  then have str: "as_str n = s" and wf: "wf_ns n" by (rule NamespaceContext_new_InrD)+
  have "case ctx n of
         Some c \<Rightarrow> s = ns n @ ''::'' @ c \<and> c \<noteq> []
           \<and> (\<forall>j < length (ns n). \<not> starts_with ''::'' (drop j s))
       | None \<Rightarrow> ns n = s
           \<and> (\<forall>u v. split_once ''::'' s = Some (u, v) \<longrightarrow> u = [] \<or> v = [])"
    using wf
  proof (cases rule: wf_ns_cases)
    case (contextual u v)
    then show ?thesis
      using split_once_Some[of "''::''" s u v] split_once_first[of "''::''" s u v] str by simp
  next
    case plain
    then show ?thesis using ns_ctx_new[OF new] str by fastforce
  qed
  then show ?thesis using new str wf wf_ns_base_not_empty by blast
qed

end
