(* ===== verification/Pattern.thy ===== *)
theory Pattern
  imports Route
begin

text \<open>
  The route-pattern matcher of \<open>valkyr-core/src/pattern.rs\<close>: a pattern text is cut into
  literal, wildcard and capture tokens, and a value is matched against the tokens by trying the
  split points in the order the code tries them (longest first for \<open>*\<close>, shortest first for a
  capture). The relation \<open>token_match\<close> says which values the tokens denote; the matcher is
  sound and complete for it.
\<close>

section \<open>Tokens\<close>

datatype token = Literal string | Wildcard | Capture string

record pattern =
  source :: string
  pat_tokens :: "token list"

definition capture_offset :: "string \<Rightarrow> nat" where
  "capture_offset tail =
     (if starts_with ''${'' tail then 2 else if starts_with ''{'' tail then 1 else 0)"

text \<open>The capture at the front of the tail, if there is one: its name and the offset of its \<open>}\<close>.\<close>

definition capture_at :: "string \<Rightarrow> (string \<times> nat) option" where
  "capture_at tail =
     (if capture_offset tail \<noteq> 0
      then (case find_str ''}'' tail of
              None \<Rightarrow> None
            | Some end' \<Rightarrow>
                (let name = slice (capture_offset tail) end' tail
                 in if name \<noteq> [] then Some (name, end') else None))
      else None)"

fun min_list_opt :: "nat list \<Rightarrow> nat option" where
  "min_list_opt [] = None"
| "min_list_opt (x # xs) =
     (case min_list_opt xs of None \<Rightarrow> Some x | Some m \<Rightarrow> Some (min x m))"

definition literal_end :: "string \<Rightarrow> nat" where
  "literal_end tail =
     (case min_list_opt (filter (\<lambda>end'. end' > 0)
             (List.map_filter id [find_str ''*'' tail, find_str ''{'' tail, find_str ''${'' tail])) of
        Some end' \<Rightarrow> end'
      | None \<Rightarrow> length tail)"

lemma min_list_opt_in: "min_list_opt xs = Some m \<Longrightarrow> m \<in> set xs"
  by (induction xs arbitrary: m) (auto simp: min_def split: option.splits if_splits)

lemma min_list_opt_None [simp]: "min_list_opt xs = None \<longleftrightarrow> xs = []"
  by (induction xs) (auto split: option.splits)

lemma literal_end_pos: "tail \<noteq> [] \<Longrightarrow> 0 < literal_end tail"
  by (auto simp: literal_end_def dest!: min_list_opt_in split: option.splits)

lemma literal_end_le: "literal_end tail \<le> length tail"
proof (cases "min_list_opt (filter (\<lambda>end'. end' > 0)
      (List.map_filter id [find_str ''*'' tail, find_str ''{'' tail, find_str ''${'' tail]))")
  case None
  then show ?thesis by (simp add: literal_end_def)
next
  case (Some m)
  then have "m \<in> set (filter (\<lambda>end'. end' > 0)
      (List.map_filter id [find_str ''*'' tail, find_str ''{'' tail, find_str ''${'' tail]))"
    by (rule min_list_opt_in)
  then obtain p where "find_str p tail = Some m"
    by (auto simp: List.map_filter_def split: if_splits option.splits)
  with Some show ?thesis using find_str_Some[of p tail m] by (simp add: literal_end_def)
qed

function tokens :: "string \<Rightarrow> token list" where
  "tokens tail =
     (if tail = [] then []
      else if starts_with ''*'' tail then Wildcard # tokens (drop 1 tail)
      else case capture_at tail of
             Some (name, end') \<Rightarrow> Capture name # tokens (drop (end' + 1) tail)
           | None \<Rightarrow> Literal (take (literal_end tail) tail) # tokens (drop (literal_end tail) tail))"
  by pat_completeness auto
termination
  by (relation "measure length") (use literal_end_pos in auto)

declare tokens.simps [simp del]

definition Pattern_new :: "string \<Rightarrow> pattern" where
  "Pattern_new p = \<lparr> source = p, pat_tokens = tokens p \<rparr>"

section \<open>Matching\<close>

primrec match_tokens :: "token list \<Rightarrow> string \<Rightarrow> (string \<times> string) list option" where
  "match_tokens [] value = (if value = [] then Some [] else None)"
| "match_tokens (t # ts) value =
     (case t of
        Literal literal \<Rightarrow>
          (case strip_prefix literal value of None \<Rightarrow> None | Some rest \<Rightarrow> match_tokens ts rest)
      | Wildcard \<Rightarrow>
          find_map (\<lambda>index. match_tokens ts (drop index value))
            (filter (is_char_boundary value) (rev [0..<Suc (length value)]))
      | Capture name \<Rightarrow>
          find_map (\<lambda>index. map_option (\<lambda>captures. (name, take index value) # captures)
                              (match_tokens ts (drop index value)))
            (filter (is_char_boundary value) [1..<Suc (length value)]))"

text \<open>\<open>captures.into_iter().collect()\<close> into a \<open>BTreeMap\<close>: a later entry replaces an earlier one.\<close>

definition pattern_matches :: "pattern \<Rightarrow> string \<Rightarrow> (string \<rightharpoonup> string) option" where
  "pattern_matches p value = map_option (\<lambda>captures. map_of (rev captures)) (match_tokens (pat_tokens p) value)"

definition capture_names :: "pattern \<Rightarrow> string set" where
  "capture_names p = set (List.map_filter
     (\<lambda>t. case t of Capture name \<Rightarrow> Some name | _ \<Rightarrow> None) (pat_tokens p))"

definition has_wildcard_or_capture :: "pattern \<Rightarrow> bool" where
  "has_wildcard_or_capture p \<longleftrightarrow>
     list_ex (\<lambda>t. case t of Wildcard \<Rightarrow> True | Capture _ \<Rightarrow> True | Literal _ \<Rightarrow> False) (pat_tokens p)"

section \<open>What a pattern denotes\<close>

inductive token_match :: "token list \<Rightarrow> string \<Rightarrow> (string \<times> string) list \<Rightarrow> bool" where
  tm_nil: "token_match [] [] []"
| tm_literal: "token_match ts v cs \<Longrightarrow> token_match (Literal l # ts) (l @ v) cs"
| tm_wildcard: "is_char_boundary (u @ v) (length u) \<Longrightarrow> token_match ts v cs \<Longrightarrow>
    token_match (Wildcard # ts) (u @ v) cs"
| tm_capture: "u \<noteq> [] \<Longrightarrow> is_char_boundary (u @ v) (length u) \<Longrightarrow> token_match ts v cs \<Longrightarrow>
    token_match (Capture n # ts) (u @ v) ((n, u) # cs)"

inductive_cases token_match_NilE: "token_match [] v cs"
inductive_cases token_match_LiteralE: "token_match (Literal l # ts) v cs"
inductive_cases token_match_WildcardE: "token_match (Wildcard # ts) v cs"
inductive_cases token_match_CaptureE: "token_match (Capture n # ts) v cs"

lemma match_tokens_sound: "match_tokens ts v = Some cs \<Longrightarrow> token_match ts v cs"
proof (induction ts arbitrary: v cs)
  case Nil
  then show ?case by (auto intro: tm_nil split: if_splits)
next
  case (Cons t ts)
  show ?case
  proof (cases t)
    case (Literal l)
    with Cons show ?thesis
      by (auto simp: strip_prefix_Some_iff intro: tm_literal split: option.splits)
  next
    case Wildcard
    with Cons.prems have "find_map (\<lambda>i. match_tokens ts (drop i v))
        (filter (is_char_boundary v) (rev [0..<Suc (length v)])) = Some cs"
      by (simp del: upt_Suc)
    from find_map_Some[OF this] obtain i where i: "i < Suc (length v)" "is_char_boundary v i"
        "match_tokens ts (drop i v) = Some cs"
      by (auto simp del: upt_Suc)
    then have "token_match (Wildcard # ts) (take i v @ drop i v) cs"
      by (intro tm_wildcard Cons.IH) simp_all
    with Wildcard show ?thesis by simp
  next
    case (Capture n)
    with Cons.prems obtain i cs' where i: "1 \<le> i" "i \<le> length v" "is_char_boundary v i"
        "match_tokens ts (drop i v) = Some cs'" "cs = (n, take i v) # cs'"
      by (fastforce simp del: upt_Suc dest!: find_map_Some)
    then have "token_match (Capture n # ts) (take i v @ drop i v) ((n, take i v) # cs')"
      by (intro tm_capture Cons.IH) (cases v, auto)
    with Capture i show ?thesis by simp
  qed
qed

lemma match_tokens_complete: "token_match ts v cs \<Longrightarrow> match_tokens ts v \<noteq> None"
proof (induction rule: token_match.induct)
  case tm_nil
  then show ?case by simp
next
  case (tm_literal ts v cs l)
  then show ?case by simp
next
  case (tm_wildcard u v ts cs)
  then have "length u \<in> set (filter (is_char_boundary (u @ v)) (rev [0..<Suc (length (u @ v))]))"
    by (simp del: upt_Suc)
  moreover have "match_tokens ts (drop (length u) (u @ v)) \<noteq> None"
    using tm_wildcard.IH by simp
  ultimately show ?case
    unfolding match_tokens.simps token.case by (rule find_map_exists)
next
  case (tm_capture u v ts cs n)
  then have "length u \<in> set (filter (is_char_boundary (u @ v)) [1..<Suc (length (u @ v))])"
    by (cases u) (simp_all del: upt_Suc)
  moreover have "match_tokens ts (drop (length u) (u @ v)) \<noteq> None"
    using tm_capture.IH by simp
  ultimately show ?case
    unfolding match_tokens.simps token.case by (intro find_map_exists[of "length u"]) auto
qed

lemma match_tokens_iff: "match_tokens ts v \<noteq> None \<longleftrightarrow> (\<exists>cs. token_match ts v cs)"
  using match_tokens_sound match_tokens_complete by blast

section \<open>The tokenizer\<close>

fun token_texts :: "token \<Rightarrow> string set" where
  "token_texts (Literal l) = {l}"
| "token_texts Wildcard = {''*''}"
| "token_texts (Capture n) = {''{'' @ n @ ''}'', ''${'' @ n @ ''}''}"

fun wf_token :: "token \<Rightarrow> bool" where
  "wf_token (Literal l) \<longleftrightarrow> l \<noteq> []"
| "wf_token Wildcard \<longleftrightarrow> True"
| "wf_token (Capture n) \<longleftrightarrow> n \<noteq> [] \<and> CHR ''}'' \<notin> set n"

lemma capture_at_Some:
  assumes "capture_at tail = Some (n, e)"
  shows "wf_token (Capture n)" and "\<exists>t \<in> token_texts (Capture n). tail = t @ drop (e + 1) tail"
proof -
  from assms have off: "capture_offset tail \<noteq> 0" and e: "find_str ''}'' tail = Some e"
    and n: "n = slice (capture_offset tail) e tail" and "n \<noteq> []"
    by (auto simp: capture_at_def Let_def split: if_splits option.splits)
  have split: "tail = take e tail @ CHR ''}'' # drop (e + 1) tail"
    using find_str_Some[OF e] by simp
  have first: "CHR ''}'' \<notin> set (take e tail)"
  proof
    assume "CHR ''}'' \<in> set (take e tail)"
    then obtain j where "j < e" "j < length tail" "tail ! j = CHR ''}''"
      by (auto simp: in_set_conv_nth)
    moreover from this have "drop j tail = CHR ''}'' # drop (Suc j) tail"
      by (simp add: Cons_nth_drop_Suc[symmetric])
    ultimately show False using find_str_least[OF e] by fastforce
  qed
  then show "wf_token (Capture n)" using n \<open>n \<noteq> []\<close> by (auto simp: slice_def dest: in_set_dropD)
  consider "starts_with ''${'' tail" "capture_offset tail = 2"
    | "starts_with ''{'' tail" "capture_offset tail = 1"
    using off by (auto simp: capture_offset_def split: if_splits)
  then show "\<exists>t \<in> token_texts (Capture n). tail = t @ drop (e + 1) tail"
  proof cases
    case 1
    then obtain r where "tail = ''${'' @ r" by (auto simp: starts_with_iff)
    moreover from this n 1 \<open>n \<noteq> []\<close> have "take e tail = ''${'' @ n"
      by (cases e; cases "e - 1") (auto simp: slice_def)
    ultimately show ?thesis using split by simp
  next
    case 2
    then obtain r where "tail = ''{'' @ r" by (auto simp: starts_with_iff)
    moreover from this n 2 \<open>n \<noteq> []\<close> have "take e tail = ''{'' @ n"
      by (cases e) (auto simp: slice_def)
    ultimately show ?thesis using split by simp
  qed
qed

lemma tokens_wf: "list_all wf_token (tokens p)"
proof (induction p rule: tokens.induct)
  case (1 tail)
  show ?case
  proof (cases "tail = [] \<or> starts_with ''*'' tail")
    case True
    with "1.IH"(1) show ?thesis by (auto simp: tokens.simps[of tail])
  next
    case False
    then show ?thesis
      using "1.IH"(2,3) capture_at_Some(1)[of tail] literal_end_pos[of tail]
      by (auto simp: tokens.simps[of tail] split: option.split)
  qed
qed

lemma tokens_texts: "\<exists>ss. list_all2 (\<lambda>t s. s \<in> token_texts t) (tokens p) ss \<and> concat ss = p"
proof (induction p rule: tokens.induct)
  case (1 tail)
  consider (empty) "tail = []" | (star) r where "tail = CHR ''*'' # r"
    | (cap) n e where "tail \<noteq> []" "\<not> starts_with ''*'' tail" "capture_at tail = Some (n, e)"
    | (lit) "tail \<noteq> []" "\<not> starts_with ''*'' tail" "capture_at tail = None"
    by (cases "capture_at tail") auto
  then show ?case
  proof cases
    case empty
    then show ?thesis by (simp add: tokens.simps)
  next
    case star
    then obtain ss where "list_all2 (\<lambda>t s. s \<in> token_texts t) (tokens r) ss" "concat ss = r"
      using "1.IH"(1) by auto
    with star show ?thesis by (intro exI[of _ "''*'' # ss"]) (simp add: tokens.simps[of "_ # _"])
  next
    case cap
    then obtain ss where "list_all2 (\<lambda>t s. s \<in> token_texts t) (tokens (drop (e + 1) tail)) ss"
        "concat ss = drop (e + 1) tail"
      using "1.IH"(3)[OF cap(1,2,3) refl] by blast
    moreover obtain t where "t \<in> token_texts (Capture n)" "tail = t @ drop (e + 1) tail"
      using capture_at_Some(2)[OF cap(3)] by blast
    ultimately show ?thesis
      using cap by (intro exI[of _ "t # ss"]) (simp add: tokens.simps[of tail])
  next
    case lit
    then obtain ss where
      "list_all2 (\<lambda>t s. s \<in> token_texts t) (tokens (drop (literal_end tail) tail)) ss"
      "concat ss = drop (literal_end tail) tail"
      using "1.IH"(2) by blast
    with lit show ?thesis
      by (intro exI[of _ "take (literal_end tail) tail # ss"]) (simp add: tokens.simps[of tail])
  qed
qed

lemma tokens_literal:
  assumes "p \<noteq> []" and "CHR ''*'' \<notin> set p" and "CHR ''{'' \<notin> set p"
  shows "tokens p = [Literal p]"
proof -
  have no_brace: "find_str ''${'' p = None" "\<not> starts_with ''${'' p" "\<not> starts_with ''{'' p"
    using assms(3) by (auto simp: find_str_None_iff starts_with_iff)
  then have "capture_at p = None" by (simp add: capture_at_def capture_offset_def)
  moreover have "literal_end p = length p"
    using assms(2,3) no_brace(1) find_str_single_None[of "CHR ''*''" p]
      find_str_single_None[of "CHR ''{''" p]
    by (simp add: literal_end_def List.map_filter_def del: find_str_single_None)
  moreover have "\<not> starts_with ''*'' p" using assms(2) by (auto simp: starts_with_iff)
  ultimately show ?thesis using assms(1) by (simp add: tokens.simps[of p] tokens.simps[of "[]"])
qed

lemma find_map_upt_least:
  "find_map f (filter P [a..<b]) = Some y \<Longrightarrow>
     \<exists>i. a \<le> i \<and> i < b \<and> P i \<and> f i = Some y \<and> (\<forall>j. a \<le> j \<and> j < i \<and> P j \<longrightarrow> f j = None)"
proof (induction "b - a" arbitrary: a)
  case 0
  then show ?case by simp
next
  case (Suc k)
  then have ab: "a < b" by simp
  then have upt: "[a..<b] = a # [Suc a..<b]" by (rule upt_conv_Cons)
  show ?case
  proof (cases "P a \<and> f a \<noteq> None")
    case True
    with Suc.prems upt ab show ?thesis by (intro exI[of _ a]) auto
  next
    case False
    with Suc.prems upt have "find_map f (filter P [Suc a..<b]) = Some y"
      by (auto split: if_splits)
    moreover have "k = b - Suc a" using Suc.hyps(2) by simp
    ultimately obtain i where
      "Suc a \<le> i" "i < b" "P i" "f i = Some y" "\<forall>j. Suc a \<le> j \<and> j < i \<and> P j \<longrightarrow> f j = None"
      using Suc.hyps(1)[of "Suc a"] by blast
    with False show ?thesis
      by (intro exI[of _ i]) (metis Suc_leD le_antisym not_less_eq_eq)
  qed
qed

section \<open>Properties\<close>

text \<open>
  C31. The matcher decides exactly what a pattern denotes: \<open>Pattern::matches\<close> answers
  \<open>None\<close> precisely when the value cannot be cut, at UTF-8 character boundaries, into pieces
  that fit the pattern's tokens, and otherwise returns the captures of one such cut.
\<close>

theorem pattern_match_denotation:
  "case pattern_matches (Pattern_new p) v of
     None \<Rightarrow> \<not> (\<exists>cs. token_match (tokens p) v cs)
   | Some caps \<Rightarrow> (\<exists>cs. token_match (tokens p) v cs \<and> caps = map_of (rev cs))"
proof (cases "match_tokens (tokens p) v")
  case None
  then show ?thesis
    using match_tokens_iff[of "tokens p" v] by (simp add: pattern_matches_def Pattern_new_def)
next
  case (Some cs)
  then show ?thesis
    using match_tokens_sound[OF Some] by (auto simp: pattern_matches_def Pattern_new_def)
qed

text \<open>
  The tokenizer loses nothing: every token is well formed (no empty literal, no empty
  capture name) and the texts of the tokens, a capture being spelled \<open>{name}\<close> or
  \<open>${name}\<close>, concatenate to the pattern text.
\<close>

theorem tokenizer_keeps_text:
  "list_all wf_token (tokens p)
   \<and> (\<exists>ss. list_all2 (\<lambda>t s. s \<in> token_texts t) (tokens p) ss \<and> concat ss = p)"
  using tokens_wf tokens_texts by blast

text \<open>
  A pattern without \<open>*\<close> and \<open>{\<close> matches exactly its own text, with no capture.
\<close>

lemma literal_pattern_exact:
  assumes "p \<noteq> []" and "CHR ''*'' \<notin> set p" and "CHR ''{'' \<notin> set p"
  shows "pattern_matches (Pattern_new p) v = (if v = p then Some Map.empty else None)"
  using tokens_literal[OF assms]
  by (auto simp: pattern_matches_def Pattern_new_def strip_prefix_Some_iff split: option.splits)

text \<open>
  A capture takes the shortest non-empty piece that lets the rest of the pattern match.
\<close>

theorem capture_takes_shortest:
  assumes "match_tokens (Capture n # ts) v = Some ((m, u) # cs)"
    and "token_match (Capture n # ts) v ((n, u') # cs')"
  shows "m = n \<and> u \<noteq> [] \<and> length u \<le> length u'"
proof -
  let ?f = "\<lambda>i. map_option (\<lambda>cs. (n, take i v) # cs) (match_tokens ts (drop i v))"
  have "find_map ?f (filter (is_char_boundary v) [1..<Suc (length v)]) = Some ((m, u) # cs)"
    using assms(1) by (simp del: upt_Suc)
  from find_map_upt_least[OF this] obtain i where
    i: "1 \<le> i" "i < Suc (length v)" "?f i = Some ((m, u) # cs)"
    and least: "\<forall>j. 1 \<le> j \<and> j < i \<and> is_char_boundary v j \<longrightarrow> ?f j = None" by blast
  have u: "m = n" "u = take i v" using i(3) by auto
  obtain w where v: "v = u' @ w" "u' \<noteq> []" "is_char_boundary v (length u')" "token_match ts w cs'"
    using assms(2) by (auto elim: token_match_CaptureE)
  then have "?f (length u') \<noteq> None" using match_tokens_iff[of ts w] by auto
  with least v(2,3) have "\<not> length u' < i" by (cases u') auto
  then show ?thesis using u i(1,2) by auto
qed

end
