(* ===== verification/Registry.thy ===== *)
theory Registry
  imports Pattern "HOL-Library.Word"
begin

text \<open>
  Connection-scoped provider and store registrations, \<open>valkyr-core/src/registry.rs\<close> (with
  \<open>ProvideOptions\<close> of \<open>broker.rs\<close>). The registry keeps the two registration lists in
  registration order and the round-robin counter \<open>next_provider\<close>, a \<open>usize\<close> that wraps.
  Identifiers drawn by \<open>Uuid::new_v4\<close> and the registration instant are arguments.
\<close>

section \<open>State\<close>

record provide_options =
  max_rate :: "nat option"
  timeout_ms :: nat
  miss_ttl_seconds :: nat

definition ProvideOptions_new :: provide_options where
  "ProvideOptions_new = \<lparr> max_rate = None, timeout_ms = 0, miss_ttl_seconds = 0 \<rparr>"

record provider_registration =
  p_id :: uuid
  p_owner :: uuid
  p_namespace_pattern :: string
  p_key_pattern :: string
  p_namespace_matcher :: pattern
  p_key_matcher :: pattern
  p_options :: provide_options
  p_registered_at :: instant

record store_registration =
  s_id :: uuid
  s_owner :: uuid
  s_namespace_pattern :: string
  s_key_pattern :: string
  s_namespace_matcher :: pattern
  s_key_matcher :: pattern
  s_registered_at :: instant

datatype batch_store_match = NoStore | OneStore store_registration | Mixed

record registry =
  providers :: "provider_registration list"
  stores :: "store_registration list"
  next_provider :: "64 word"

definition Registry_new :: registry where
  "Registry_new = \<lparr> providers = [], stores = [], next_provider = 0 \<rparr>"

section \<open>Route matching\<close>

definition matches_namespace :: "pattern \<Rightarrow> string \<Rightarrow> bool" where
  "matches_namespace p namespace \<longleftrightarrow>
     pattern_matches p namespace \<noteq> None
     \<or> (\<not> has_wildcard_or_capture p
        \<and> (case strip_prefix (source p) namespace of
             None \<Rightarrow> False
           | Some suffix \<Rightarrow> starts_with ''::'' suffix))"

definition matches_route :: "pattern \<Rightarrow> pattern \<Rightarrow> namespace_context \<Rightarrow> key \<Rightarrow> bool" where
  "matches_route namespace_p key_p namespace k \<longleftrightarrow>
     matches_namespace namespace_p (as_str namespace)
     \<and> pattern_matches key_p (key_str k) \<noteq> None"

definition pattern_overlap :: "pattern \<Rightarrow> string \<Rightarrow> bool" where
  "pattern_overlap left right \<longleftrightarrow>
     source left = ''*''
     \<or> right = ''*''
     \<or> pattern_matches left right \<noteq> None
     \<or> pattern_matches (Pattern_new right) (source left) \<noteq> None
     \<or> (case strip_suffix ''*'' (source left) of
          None \<Rightarrow> False | Some prefix \<Rightarrow> starts_with prefix right)
     \<or> (case strip_suffix ''*'' right of
          None \<Rightarrow> False | Some prefix \<Rightarrow> starts_with prefix (source left))"

definition patterns_overlap ::
    "pattern \<Rightarrow> pattern \<Rightarrow> namespace_context \<Rightarrow> key_pattern \<Rightarrow> bool" where
  "patterns_overlap namespace_p key_p namespace key_pattern_to_match \<longleftrightarrow>
     matches_namespace namespace_p (as_str namespace)
     \<and> pattern_overlap key_p (kp_str key_pattern_to_match)"

section \<open>Operations\<close>

definition register_provider ::
    "registry \<Rightarrow> uuid \<Rightarrow> instant \<Rightarrow> uuid \<Rightarrow> string \<Rightarrow> string \<Rightarrow> provide_options
     \<Rightarrow> provider_registration \<times> registry" where
  "register_provider r new_id now owner namespace_p key_p options =
     (let registration =
        \<lparr> p_id = new_id, p_owner = owner,
          p_namespace_pattern = namespace_p, p_key_pattern = key_p,
          p_namespace_matcher = Pattern_new namespace_p,
          p_key_matcher = Pattern_new key_p,
          p_options = options, p_registered_at = now \<rparr>
      in (registration, r\<lparr> providers := providers r @ [registration] \<rparr>))"

definition register_store ::
    "registry \<Rightarrow> uuid \<Rightarrow> instant \<Rightarrow> uuid \<Rightarrow> string \<Rightarrow> string
     \<Rightarrow> store_registration \<times> registry" where
  "register_store r new_id now owner namespace_p key_p =
     (let registration =
        \<lparr> s_id = new_id, s_owner = owner,
          s_namespace_pattern = namespace_p, s_key_pattern = key_p,
          s_namespace_matcher = Pattern_new namespace_p,
          s_key_matcher = Pattern_new key_p,
          s_registered_at = now \<rparr>
      in (registration, r\<lparr> stores := stores r @ [registration] \<rparr>))"

definition remove_owner :: "registry \<Rightarrow> uuid \<Rightarrow> registry" where
  "remove_owner r owner =
     r\<lparr> providers := filter (\<lambda>registration. p_owner registration \<noteq> owner) (providers r),
        stores := filter (\<lambda>registration. s_owner registration \<noteq> owner) (stores r) \<rparr>"

definition provider_matches :: "namespace_context \<Rightarrow> key \<Rightarrow> provider_registration \<Rightarrow> bool" where
  "provider_matches namespace k registration \<longleftrightarrow>
     matches_route (p_namespace_matcher registration) (p_key_matcher registration) namespace k"

definition store_overlaps :: "namespace_context \<Rightarrow> store_registration \<Rightarrow> key_pattern \<Rightarrow> bool" where
  "store_overlaps namespace registration p \<longleftrightarrow>
     patterns_overlap (s_namespace_matcher registration) (s_key_matcher registration) namespace p"

definition provider_for ::
    "registry \<Rightarrow> namespace_context \<Rightarrow> key \<Rightarrow> provider_registration option \<times> registry" where
  "provider_for r namespace k =
     (let matching_indices =
            filter (\<lambda>index. provider_matches namespace k (providers r ! index))
              [0..<length (providers r)]
      in if matching_indices = [] then (None, r)
         else (Some (providers r !
                 (matching_indices ! (unat (next_provider r) mod length matching_indices))),
               r\<lparr> next_provider := next_provider r + 1 \<rparr>))"

definition store_for ::
    "registry \<Rightarrow> namespace_context \<Rightarrow> key_pattern \<Rightarrow> store_registration option" where
  "store_for r namespace p = find (\<lambda>registration. store_overlaps namespace registration p) (rev (stores r))"

definition store_for_batch ::
    "registry \<Rightarrow> namespace_context \<Rightarrow> key_pattern list \<Rightarrow> batch_store_match" where
  "store_for_batch r namespace patterns =
     (let candidates = rev (stores r);
          any_matches = list_ex (\<lambda>registration.
            list_ex (\<lambda>p. store_overlaps namespace registration p) patterns) candidates
      in case find (\<lambda>registration. list_all (\<lambda>p. store_overlaps namespace registration p) patterns)
                candidates of
           Some registration \<Rightarrow> OneStore registration
         | None \<Rightarrow> if any_matches then Mixed else NoStore)"

definition provider_count :: "registry \<Rightarrow> nat" where
  "provider_count r = length (providers r)"

section \<open>Lemmas\<close>

definition matching_providers ::
    "registry \<Rightarrow> namespace_context \<Rightarrow> key \<Rightarrow> provider_registration list" where
  "matching_providers r namespace k = filter (provider_matches namespace k) (providers r)"

lemma filter_upt_nth:
  "map ((!) xs) (filter (\<lambda>i. P (xs ! i)) [0..<length xs]) = filter P xs"
  by (metis (no_types, lifting) comp_apply filter_cong filter_map map_nth)

lemma provider_for_eq:
  "provider_for r namespace k =
     (let ms = matching_providers r namespace k
      in if ms = [] then (None, r)
         else (Some (ms ! (unat (next_provider r) mod length ms)),
               r\<lparr> next_provider := next_provider r + 1 \<rparr>))"
proof -
  let ?is = "filter (\<lambda>i. provider_matches namespace k (providers r ! i)) [0..<length (providers r)]"
  have ms: "matching_providers r namespace k = map ((!) (providers r)) ?is"
    by (simp add: matching_providers_def filter_upt_nth)
  show ?thesis
  proof (cases "?is = []")
    case True
    with ms show ?thesis by (simp add: provider_for_def)
  next
    case False
    then have "unat (next_provider r) mod length ?is < length ?is" by simp
    with ms False show ?thesis by (simp add: provider_for_def Let_def)
  qed
qed

fun provider_calls ::
    "nat \<Rightarrow> registry \<Rightarrow> namespace_context \<Rightarrow> key \<Rightarrow> provider_registration option list" where
  "provider_calls 0 r namespace k = []"
| "provider_calls (Suc n) r namespace k =
     (case provider_for r namespace k of (p, r') \<Rightarrow> p # provider_calls n r' namespace k)"

lemma matching_providers_next [simp]:
  "matching_providers (r\<lparr> next_provider := x \<rparr>) namespace k = matching_providers r namespace k"
  by (simp add: matching_providers_def)

lemma unat_Suc_no_wrap: "unat (w :: 64 word) + 1 < 2 ^ 64 \<Longrightarrow> unat (w + 1) = unat w + 1"
  by (simp add: unat_word_ariths)

lemma provider_calls_nth:
  assumes "ms = matching_providers r namespace k" and "ms \<noteq> []"
    and "unat (next_provider r) + n \<le> 2 ^ 64"
  shows "provider_calls n r namespace k =
     map (\<lambda>i. Some (ms ! ((unat (next_provider r) + i) mod length ms))) [0..<n]"
  using assms
proof (induction n arbitrary: r)
  case 0
  then show ?case by simp
next
  case (Suc n)
  let ?r = "r\<lparr> next_provider := next_provider r + 1 \<rparr>"
  let ?pick = "\<lambda>w i. Some (ms ! ((unat w + i) mod length ms))"
  have rest: "provider_calls n ?r namespace k = map (?pick (next_provider r) \<circ> Suc) [0..<n]"
  proof (cases n)
    case (Suc m)
    with Suc.prems have nowrap: "unat (next_provider r + 1) = unat (next_provider r) + 1"
      by (intro unat_Suc_no_wrap) linarith
    with Suc.prems have "provider_calls n ?r namespace k = map (?pick (next_provider r + 1)) [0..<n]"
      using Suc.IH[of ?r] by simp
    with nowrap show ?thesis by simp
  qed simp
  have "provider_calls (Suc n) r namespace k = ?pick (next_provider r) 0 # provider_calls n ?r namespace k"
    using Suc.prems by (simp add: provider_for_eq Let_def)
  with rest show ?case by (simp add: upt_conv_Cons map_Suc_upt[symmetric] del: upt_Suc)
qed

lemma find_SomeD_set: "find P xs = Some x \<Longrightarrow> x \<in> set xs \<and> P x"
  by (induction xs) (auto split: if_splits)

lemma find_rev_SomeD:
  "find P (rev xs) = Some x \<Longrightarrow> \<exists>us vs. xs = us @ x # vs \<and> P x \<and> (\<forall>y \<in> set vs. \<not> P y)"
proof (induction xs rule: rev_induct)
  case Nil
  then show ?case by simp
next
  case (snoc y ys)
  show ?case
  proof (cases "P y")
    case True
    with snoc.prems show ?thesis by (intro exI[of _ ys] exI[of _ "[]"]) simp
  next
    case False
    with snoc.prems snoc.IH obtain us vs where
      "ys = us @ x # vs" "P x" "\<forall>y \<in> set vs. \<not> P y" by auto
    with False show ?thesis by (intro exI[of _ us] exI[of _ "vs @ [y]"]) auto
  qed
qed

lemma find_rev_None_iff: "find P (rev xs) = None \<longleftrightarrow> (\<forall>x \<in> set xs. \<not> P x)"
  by (auto simp: find_None_iff)

section \<open>Properties\<close>

text \<open>
  Round-robin fairness: while the counter does not wrap, as many consecutive queries of a
  route as it has matching providers return a rotation of them, so each matching provider is
  chosen exactly once, in registration order.
\<close>

theorem provider_selection_rotates:
  assumes "ms = matching_providers r namespace k"
    and "unat (next_provider r) + length ms \<le> 2 ^ 64"
  shows "provider_calls (length ms) r namespace k = map Some (rotate (unat (next_provider r)) ms)"
proof (cases "ms = []")
  case False
  have "provider_calls (length ms) r namespace k =
      map (\<lambda>i. Some (ms ! ((unat (next_provider r) + i) mod length ms))) [0..<length ms]"
    by (rule provider_calls_nth[OF assms(1) False assms(2)])
  also have "\<dots> = map Some (rotate (unat (next_provider r)) ms)"
    by (rule nth_equalityI) (simp_all add: nth_rotate)
  finally show ?thesis .
qed simp

definition example_registry :: registry where
  "example_registry =
     (let (_, r1) = register_provider Registry_new 1 0 10 ''/values'' ''entry'' ProvideOptions_new;
          (_, r2) = register_provider r1 2 0 11 ''/values'' ''entry'' ProvideOptions_new
      in r2)"

abbreviation example_ns :: namespace_context where
  "example_ns \<equiv> \<lparr> ns_value = ''/values'', ctx_start = None \<rparr>"

lemma example_tokens: "tokens ''/values'' = [Literal ''/values'']" "tokens ''entry'' = [Literal ''entry'']"
  by (rule tokens_literal; simp)+

lemma example_matching:
  "map p_id (matching_providers example_registry example_ns (Key ''entry'')) = [1, 2]"
  by (simp add: example_registry_def register_provider_def matching_providers_def
      provider_matches_def matches_route_def matches_namespace_def pattern_matches_def
      Pattern_new_def example_tokens as_str_def Registry_new_def Let_def)

text \<open>
  The newest matching store wins: a selected store overlaps the key pattern and no store
  registered after it does; no store is selected exactly when none overlaps.
\<close>

theorem newest_store_wins:
  "case store_for r namespace p of
     Some s \<Rightarrow> (\<exists>older newer. stores r = older @ s # newer \<and> store_overlaps namespace s p
                 \<and> \<not> list_ex (\<lambda>s'. store_overlaps namespace s' p) newer)
   | None \<Rightarrow> \<not> list_ex (\<lambda>s. store_overlaps namespace s p) (stores r)"
  using find_rev_SomeD[of "\<lambda>s. store_overlaps namespace s p" "stores r"]
    find_rev_None_iff[of "\<lambda>s. store_overlaps namespace s p" "stores r"]
  by (fastforce simp: store_for_def list_ex_iff split: option.split)

text \<open>
  A batch is never split: it goes to the newest store that overlaps every key of it, to no
  store when no store overlaps any key, and is reported as \<open>Mixed\<close> otherwise.
\<close>

theorem batch_never_split:
  "case store_for_batch r namespace ps of
     OneStore s \<Rightarrow> (\<exists>older newer. stores r = older @ s # newer
          \<and> list_all (store_overlaps namespace s) ps
          \<and> \<not> list_ex (\<lambda>s'. list_all (store_overlaps namespace s') ps) newer)
   | NoStore \<Rightarrow> \<not> list_ex (\<lambda>s. list_all (store_overlaps namespace s) ps) (stores r)
          \<and> \<not> list_ex (\<lambda>s. list_ex (store_overlaps namespace s) ps) (stores r)
   | Mixed \<Rightarrow> \<not> list_ex (\<lambda>s. list_all (store_overlaps namespace s) ps) (stores r)
          \<and> list_ex (\<lambda>s. list_ex (store_overlaps namespace s) ps) (stores r)"
proof (cases "find (\<lambda>s. list_all (store_overlaps namespace s) ps) (rev (stores r))")
  case None
  then show ?thesis
    using find_rev_None_iff[of "\<lambda>s. list_all (store_overlaps namespace s) ps" "stores r"]
    by (auto simp: store_for_batch_def list_ex_iff)
next
  case (Some s)
  from find_rev_SomeD[OF this] have "\<exists>older newer. stores r = older @ s # newer
          \<and> list_all (store_overlaps namespace s) ps
          \<and> \<not> list_ex (\<lambda>s'. list_all (store_overlaps namespace s') ps) newer"
    unfolding list_ex_iff by blast
  moreover have "store_for_batch r namespace ps = OneStore s"
    using Some by (simp add: store_for_batch_def)
  ultimately show ?thesis by simp
qed

text \<open>
  A disconnected owner leaves nothing behind: after \<open>remove_owner\<close> no registration of that
  owner remains or can be selected, and every other registration is kept in its order.
\<close>

theorem removed_owner_is_never_selected:
  "let r' = remove_owner r owner in
     matching_providers r' namespace k =
       filter (\<lambda>p. p_owner p \<noteq> owner) (matching_providers r namespace k)
     \<and> stores r' = filter (\<lambda>s. s_owner s \<noteq> owner) (stores r)
     \<and> map_option p_owner (fst (provider_for r' namespace k)) \<noteq> Some owner
     \<and> map_option s_owner (store_for r' namespace p) \<noteq> Some owner
     \<and> \<not> (\<exists>s. store_for_batch r' namespace ps = OneStore s \<and> s_owner s = owner)"
proof -
  let ?r = "remove_owner r owner"
  let ?ms = "matching_providers ?r namespace k"
  have ms: "?ms = filter (\<lambda>p. p_owner p \<noteq> owner) (matching_providers r namespace k)"
    by (simp add: remove_owner_def matching_providers_def conj_commute)
  have st: "stores ?r = filter (\<lambda>s. s_owner s \<noteq> owner) (stores r)" by (simp add: remove_owner_def)
  have "map_option p_owner (fst (provider_for ?r namespace k)) \<noteq> Some owner"
  proof (cases "?ms = []")
    case False
    then have "?ms ! (unat (next_provider ?r) mod length ?ms) \<in> set ?ms" by simp
    with ms False show ?thesis by (auto simp: provider_for_eq Let_def)
  qed (simp add: provider_for_eq)
  moreover have sel: "s_owner s \<noteq> owner" if "find P (rev (stores ?r)) = Some s" for P s
    using find_SomeD_set[OF that] st by simp
  moreover have "s_owner s \<noteq> owner" if "store_for_batch ?r namespace ps = OneStore s" for s
    using that sel by (auto simp: store_for_batch_def Let_def split: option.splits if_splits)
  moreover have "map_option s_owner (store_for ?r namespace p) \<noteq> Some owner"
    using sel by (auto simp: store_for_def)
  ultimately show ?thesis using ms st unfolding Let_def by blast
qed

text \<open>
  A key that is itself written like a capture is treated as a pattern when a store is chosen:
  the exact key \<open>{name}\<close> overlaps every non-empty store key pattern, whether or not that
  pattern matches the key.
\<close>

theorem brace_key_overlaps_every_store:
  assumes "p \<noteq> []" and "name \<noteq> []" and "CHR ''}'' \<notin> set name"
  shows "pattern_overlap (Pattern_new p) (''{'' @ name @ ''}'')"
proof -
  let ?k = "''{'' @ name @ ''}''"
  have "find_str ''}'' ?k = Some (Suc (length name))"
    using find_str_single_append[of "CHR ''}''" "''{'' @ name" "[]"] assms(3) by simp
  then have "capture_at ?k = Some (name, Suc (length name))"
    using assms(2) by (simp add: capture_at_def capture_offset_def slice_def starts_with_iff)
  then have "tokens ?k = [Capture name]"
    by (subst tokens.simps) (simp add: tokens.simps[of "[]"] starts_with_iff)
  moreover have "token_match [Capture name] (p @ []) [(name, p)]"
    using assms(1) by (intro tm_capture tm_nil) simp_all
  ultimately have "match_tokens (tokens ?k) p \<noteq> None"
    using match_tokens_complete by (metis append_Nil2)
  then show ?thesis
    by (simp add: pattern_overlap_def pattern_matches_def Pattern_new_def)
qed

end
