(* ===== verification/Protocol.thy ===== *)
theory Protocol
  imports Route
begin

text \<open>
  The transport-independent message types of \<open>valkyr-core/src/protocol.rs\<close> and the JSON
  values they carry. \<open>json\<close> has the constructors of \<open>serde_json::Value\<close>, on which the
  code matches; a number is stored as \<open>serde_json\<close> stores it (an unsigned, a negative or a
  floating-point number, the last kept as its text). Unsigned 64- and 32-bit fields are natural
  numbers; the codec checks their range when it parses them.
\<close>

datatype json_number = PosInt nat | NegInt int | Float string

datatype json =
    JNull
  | JBool bool
  | JNumber json_number
  | JString string
  | JArray "json list"
  | JObject "(string \<times> json) list"

text \<open>\<open>Value::get\<close> on an object, \<open>Value::as_str\<close> and \<open>Value::as_u64\<close>.\<close>

fun json_get :: "string \<Rightarrow> json \<Rightarrow> json option" where
  "json_get k (JObject members) = map_of members k"
| "json_get k _ = None"

fun json_as_str :: "json \<Rightarrow> string option" where
  "json_as_str (JString s) = Some s"
| "json_as_str _ = None"

fun json_as_u64 :: "json \<Rightarrow> nat option" where
  "json_as_u64 (JNumber (PosInt n)) = Some n"
| "json_as_u64 _ = None"

record set_entry =
  entry_key :: key
  entry_value :: json

datatype command =
    Auth string "uuid option"
  | Get namespace_context key
  | Set namespace_context key json "nat option"
  | SetBatch namespace_context "set_entry list" "nat option"
  | Delete namespace_context "key_pattern option"
  | Move namespace_context namespace_context
  | Provide namespace_pattern key_pattern "nat option" "nat option" "nat option"
  | Store namespace_pattern key_pattern
  | Ping
  | StatsCmd

record stats =
  stat_requests :: nat
  stat_hits :: nat
  stat_misses :: nat
  stat_values :: nat

datatype response =
    ROk
  | RValue json "nat option"
  | RMiss nat
  | RUnknown
  | AuthSuccess string nat
  | AuthPending nat
  | AuthFailure string
  | Pong
  | RStats stats
  | RError string

datatype server_command =
    Query uuid namespace_context key
  | PersistSet uuid namespace_context key json "nat option"
  | PersistSetBatch uuid namespace_context "set_entry list" "nat option"
  | PersistDelete uuid namespace_context "key_pattern option"
  | PersistMove uuid namespace_context namespace_context

datatype server_result =
    Operation uuid "string option"
  | QueryResult uuid "json option" "string option" "nat option"

fun request_id :: "server_command \<Rightarrow> uuid" where
  "request_id (Query i _ _) = i"
| "request_id (PersistSet i _ _ _ _) = i"
| "request_id (PersistSetBatch i _ _ _) = i"
| "request_id (PersistDelete i _ _) = i"
| "request_id (PersistMove i _ _) = i"

end
