(* ===== verification/Cache.thy ===== *)
theory Cache
  imports Protocol
begin

text \<open>
  The interface of the concurrent cache library (\<open>moka::future::Cache\<close>) as the code uses it.
  The library is not part of the repository, so its operations are a record of functions that
  the definitions of the stores take as an argument, and the documented behaviour they rely on
  is the locale \<open>moka_cache\<close>: an unbounded cache without an idle policy shows an entry from its
  insertion until the per-entry expiration computed by the \<open>Expiry\<close> policy, and iteration
  yields every visible entry once. Instants are passed in, since the library reads the clock.

  \<open>timed_ops\<close> is a cache that meets the interface (an association list with deadlines); the
  interpretations for the two expiry policies of the code use it, and so do the witnesses.
\<close>

record ('c, 'k, 'v) cache_ops =
  c_empty :: "'c"
  c_get :: "'c \<Rightarrow> instant \<Rightarrow> 'k \<Rightarrow> 'v option \<times> 'c"
  c_insert :: "'c \<Rightarrow> instant \<Rightarrow> 'k \<Rightarrow> 'v \<Rightarrow> 'c"
  c_invalidate :: "'c \<Rightarrow> instant \<Rightarrow> 'k \<Rightarrow> 'c"
  c_invalidate_if :: "'c \<Rightarrow> instant \<Rightarrow> ('k \<Rightarrow> 'v \<Rightarrow> bool) \<Rightarrow> 'c"
  c_iter :: "'c \<Rightarrow> instant \<Rightarrow> ('k \<times> 'v) list"
  c_run_pending_tasks :: "'c \<Rightarrow> instant \<Rightarrow> 'c"

text \<open>The \<open>Expiry\<close> trait: the callbacks an expiry policy implements.\<close>

record ('k, 'v) expiry_policy =
  expire_after_create :: "'k \<Rightarrow> 'v \<Rightarrow> instant \<Rightarrow> duration option"
  expire_after_read :: "'k \<Rightarrow> 'v \<Rightarrow> instant \<Rightarrow> duration option \<Rightarrow> instant \<Rightarrow> duration option"
  expire_after_update :: "'k \<Rightarrow> 'v \<Rightarrow> instant \<Rightarrow> duration option \<Rightarrow> duration option"

definition visible :: "instant \<Rightarrow> duration option \<Rightarrow> instant \<Rightarrow> bool" where
  "visible inserted ttl t \<longleftrightarrow> (case ttl of None \<Rightarrow> True | Some d \<Rightarrow> t < inserted + d)"

locale moka_cache =
  fixes ops :: "('c, 'k, 'v) cache_ops"
    and policy :: "('k, 'v) expiry_policy"
    and invar :: "'c \<Rightarrow> bool"
    and peek :: "'c \<Rightarrow> instant \<Rightarrow> 'k \<Rightarrow> 'v option"
  assumes read_keeps_expiry: "expire_after_read policy k v t rem modified = rem"
    and update_like_create: "expire_after_update policy k v t rem = expire_after_create policy k v t"
    and empty_invar: "invar (c_empty ops)"
    and empty_peek: "peek (c_empty ops) t k = None"
    and get_invar: "invar c \<Longrightarrow> invar (snd (c_get ops c t k))"
    and get_value: "invar c \<Longrightarrow> fst (c_get ops c t k) = peek c t k"
    and get_peek: "invar c \<Longrightarrow> t \<le> u \<Longrightarrow> peek (snd (c_get ops c t k)) u = peek c u"
    and insert_invar: "invar c \<Longrightarrow> invar (c_insert ops c t k v)"
    and insert_peek: "invar c \<Longrightarrow> t \<le> u \<Longrightarrow>
      peek (c_insert ops c t k v) u =
        (peek c u)(k := if visible t (expire_after_create policy k v t) u then Some v else None)"
    and invalidate_invar: "invar c \<Longrightarrow> invar (c_invalidate ops c t k)"
    and invalidate_peek: "invar c \<Longrightarrow> t \<le> u \<Longrightarrow>
      peek (c_invalidate ops c t k) u = (peek c u)(k := None)"
    and invalidate_if_invar: "invar c \<Longrightarrow> invar (c_invalidate_if ops c t P)"
    and invalidate_if_peek: "invar c \<Longrightarrow> t \<le> u \<Longrightarrow>
      peek (c_invalidate_if ops c t P) u k =
        (case peek c u k of None \<Rightarrow> None | Some v \<Rightarrow> if P k v then None else Some v)"
    and iter_distinct: "invar c \<Longrightarrow> distinct (map fst (c_iter ops c t))"
    and iter_peek: "invar c \<Longrightarrow> map_of (c_iter ops c t) = peek c t"
    and pending_invar: "invar c \<Longrightarrow> invar (c_run_pending_tasks ops c t)"
    and pending_peek: "invar c \<Longrightarrow> t \<le> u \<Longrightarrow> peek (c_run_pending_tasks ops c t) u = peek c u"
    and expired_stays: "invar c \<Longrightarrow> t \<le> u \<Longrightarrow> peek c t k = None \<Longrightarrow> peek c u k = None"
begin

lemmas cache_invars =
  empty_invar get_invar insert_invar invalidate_invar invalidate_if_invar pending_invar

lemmas cache_peeks =
  empty_peek get_value get_peek insert_peek invalidate_peek invalidate_if_peek pending_peek

lemma iter_mem_iff: "invar c \<Longrightarrow> (k, v) \<in> set (c_iter ops c t) \<longleftrightarrow> peek c t k = Some v"
  using iter_peek[of c t] iter_distinct[of c t] by (metis map_of_eq_Some_iff)

lemma iter_keys: "invar c \<Longrightarrow> fst ` set (c_iter ops c t) = dom (peek c t)"
  by (simp add: dom_map_of_conv_image_fst[symmetric] iter_peek)

text \<open>The laws hold for every stronger invariant the operations keep.\<close>

lemma strengthen_invariant:
  assumes "\<And>c. J c \<Longrightarrow> invar c"
    and "J (c_empty ops)"
    and "\<And>c t k. J c \<Longrightarrow> J (snd (c_get ops c t k))"
    and "\<And>c t k v. J c \<Longrightarrow> J (c_insert ops c t k v)"
    and "\<And>c t k. J c \<Longrightarrow> J (c_invalidate ops c t k)"
    and "\<And>c t P. J c \<Longrightarrow> J (c_invalidate_if ops c t P)"
    and "\<And>c t. J c \<Longrightarrow> J (c_run_pending_tasks ops c t)"
  shows "moka_cache ops policy J peek"
  by unfold_locales
    (simp_all add: assms read_keeps_expiry update_like_create cache_peeks iter_distinct iter_peek expired_stays)

text \<open>Invalidating, one by one, the keys of a list.\<close>

lemma invalidate_all:
  assumes "invar c"
  shows "invar (fold (\<lambda>k c. c_invalidate ops c t k) ks c)
    \<and> (\<forall>u \<ge> t. peek (fold (\<lambda>k c. c_invalidate ops c t k) ks c) u =
          (\<lambda>k. if k \<in> set ks then None else peek c u k))"
  using assms
proof (induction ks arbitrary: c)
  case Nil
  then show ?case by simp
next
  case (Cons k ks)
  then show ?case
    using Cons.IH[of "c_invalidate ops c t k"] by (auto simp: cache_invars cache_peeks)
qed

text \<open>Inserting, one by one, the entries of a list.\<close>

lemma insert_all:
  assumes "invar c"
  shows "invar (fold (\<lambda>(k, v) c. c_insert ops c t k v) kvs c)
    \<and> (\<forall>u \<ge> t. peek (fold (\<lambda>(k, v) c. c_insert ops c t k v) kvs c) u =
          (\<lambda>k. case map_of (rev kvs) k of
                 None \<Rightarrow> peek c u k
               | Some v \<Rightarrow> if visible t (expire_after_create policy k v t) u then Some v else None))"
  using assms
proof (induction kvs arbitrary: c)
  case Nil
  then show ?case by simp
next
  case (Cons kv kvs)
  obtain k v where kv: "kv = (k, v)" by (cases kv)
  have "invar (c_insert ops c t k v)" using Cons.prems by (rule insert_invar)
  from Cons.IH[OF this] Cons.prems kv show ?case
    by (auto simp: cache_peeks fun_eq_iff map_add_def split: option.splits)
qed

end

section \<open>A cache that meets the interface\<close>

type_synonym ('k, 'v) timed = "('k \<times> 'v \<times> instant option) list"

definition timed_live :: "instant \<Rightarrow> 'k \<times> 'v \<times> instant option \<Rightarrow> bool" where
  "timed_live t e \<longleftrightarrow> (case snd (snd e) of None \<Rightarrow> True | Some deadline \<Rightarrow> t < deadline)"

definition timed_iter :: "('k, 'v) timed \<Rightarrow> instant \<Rightarrow> ('k \<times> 'v) list" where
  "timed_iter c t = map (\<lambda>e. (fst e, fst (snd e))) (filter (timed_live t) c)"

definition timed_peek :: "('k, 'v) timed \<Rightarrow> instant \<Rightarrow> 'k \<Rightarrow> 'v option" where
  "timed_peek c t = map_of (timed_iter c t)"

definition timed_remove :: "('k \<Rightarrow> 'v \<Rightarrow> bool) \<Rightarrow> ('k, 'v) timed \<Rightarrow> ('k, 'v) timed" where
  "timed_remove P c = filter (\<lambda>e. \<not> P (fst e) (fst (snd e))) c"

definition timed_invar :: "('k, 'v) timed \<Rightarrow> bool" where
  "timed_invar c \<longleftrightarrow> distinct (map fst c)"

definition timed_ops :: "('k, 'v) expiry_policy \<Rightarrow> (('k, 'v) timed, 'k, 'v) cache_ops" where
  "timed_ops policy =
     \<lparr> c_empty = [],
       c_get = (\<lambda>c t k. (timed_peek c t k, c)),
       c_insert = (\<lambda>c t k v.
         (if expire_after_create policy k v t = Some 0 then []
          else [(k, v, map_option (\<lambda>d. t + d) (expire_after_create policy k v t))])
         @ timed_remove (\<lambda>k' _. k' = k) c),
       c_invalidate = (\<lambda>c t k. timed_remove (\<lambda>k' _. k' = k) c),
       c_invalidate_if = (\<lambda>c t P. timed_remove P c),
       c_iter = timed_iter,
       c_run_pending_tasks = (\<lambda>c t. filter (timed_live t) c) \<rparr>"

lemma timed_iter_Cons:
  "timed_iter (e # c) t = (if timed_live t e then (fst e, fst (snd e)) # timed_iter c t else timed_iter c t)"
  by (simp add: timed_iter_def)

lemma timed_iter_keys: "fst ` set (timed_iter c t) \<subseteq> fst ` set c"
  by (force simp: timed_iter_def)

lemma timed_invar_Cons:
  "timed_invar (e # c) \<longleftrightarrow> fst e \<notin> fst ` set c \<and> timed_invar c"
  by (simp add: timed_invar_def)

lemma timed_remove_invar: "timed_invar c \<Longrightarrow> timed_invar (timed_remove P c)"
  by (simp add: timed_invar_def timed_remove_def distinct_map_filter)

lemma timed_peek_None: "k \<notin> fst ` set c \<Longrightarrow> timed_peek c t k = None"
  using timed_iter_keys[of c t] by (auto simp: timed_peek_def map_of_eq_None_iff)

lemma timed_peek_Cons:
  "timed_invar (e # c) \<Longrightarrow>
     timed_peek (e # c) t =
       (timed_peek c t)(fst e := if timed_live t e then Some (fst (snd e)) else None)"
  using timed_peek_None[of "fst e" c t]
  by (auto simp: timed_peek_def timed_iter_Cons timed_invar_Cons)

lemma timed_remove_peek:
  "timed_invar c \<Longrightarrow>
     timed_peek (timed_remove P c) t k =
       (case timed_peek c t k of None \<Rightarrow> None | Some v \<Rightarrow> if P k v then None else Some v)"
proof (induction c)
  case Nil
  then show ?case by (simp add: timed_remove_def timed_peek_def timed_iter_def)
next
  case (Cons e c)
  have inv: "timed_invar c" "fst e \<notin> fst ` set c" using Cons.prems by (auto simp: timed_invar_Cons)
  have keep: "timed_invar (e # timed_remove P c)"
    using inv timed_remove_invar[OF inv(1)] by (auto simp: timed_invar_Cons timed_remove_def)
  show ?case
    using Cons.IH[OF inv(1)] inv(2) timed_peek_Cons[OF Cons.prems, of t] timed_peek_Cons[OF keep, of t]
      timed_peek_None[of "fst e" c t]
    by (cases "P (fst e) (fst (snd e))") (auto simp: timed_remove_def split: option.splits)
qed

lemma timed_peek_fun_upd:
  "timed_invar c \<Longrightarrow> timed_peek (timed_remove (\<lambda>k' _. k' = k) c) t = (timed_peek c t)(k := None)"
  by (auto simp: fun_eq_iff timed_remove_peek split: option.splits)

lemma timed_distinct_iter: "timed_invar c \<Longrightarrow> distinct (map fst (timed_iter c t))"
  by (simp add: timed_iter_def timed_invar_def comp_def distinct_map_filter)

lemma timed_pending_iter: "t \<le> u \<Longrightarrow> timed_iter (filter (timed_live t) c) u = timed_iter c u"
  unfolding timed_iter_def filter_filter
  by (rule arg_cong[where f = "map _"], rule filter_cong) (auto simp: timed_live_def split: option.splits)

lemma timed_iter_peek: "map_of (timed_iter c t) = timed_peek c t"
  by (simp add: timed_peek_def)

lemma timed_pending_peek: "t \<le> u \<Longrightarrow> timed_peek (filter (timed_live t) c) u = timed_peek c u"
  by (simp add: timed_peek_def timed_pending_iter)

lemma timed_pending_invar: "timed_invar c \<Longrightarrow> timed_invar (filter (timed_live t) c)"
  by (simp add: timed_invar_def distinct_map_filter)

lemma timed_empty: "timed_invar []" "timed_peek [] t k = None"
  by (simp_all add: timed_invar_def timed_peek_def timed_iter_def)

lemma timed_expired:
  assumes "timed_invar c" and "t \<le> u" and "timed_peek c t k = None"
  shows "timed_peek c u k = None"
  using assms
proof (induction c)
  case Nil
  then show ?case by (simp add: timed_peek_def timed_iter_def)
next
  case (Cons e c)
  then show ?case
    using timed_peek_Cons[of e c t] timed_peek_Cons[of e c u] timed_peek_None[of "fst e" c u]
    by (auto simp: timed_invar_Cons timed_live_def split: option.splits if_splits)
qed

lemma timed_insert_invar: "timed_invar c \<Longrightarrow> timed_invar ((k, x) # timed_remove (\<lambda>k' _. k' = k) c)"
  using timed_remove_invar[of c] by (auto simp: timed_invar_Cons timed_remove_def)

theorem timed_cache_meets_interface:
  assumes "\<And>k v t rem modified. expire_after_read policy k v t rem modified = rem"
    and "\<And>k v t rem. expire_after_update policy k v t rem = expire_after_create policy k v t"
  shows "moka_cache (timed_ops policy) policy timed_invar timed_peek"
proof
  fix c :: "('a, 'b) timed" and t u :: instant and k v
  assume inv: "timed_invar c" and "t \<le> u"
  show "timed_peek (c_insert (timed_ops policy) c t k v) u =
      (timed_peek c u)(k := if visible t (expire_after_create policy k v t) u then Some v else None)"
    using timed_peek_Cons[OF timed_insert_invar[OF inv], of k "(v, _)" u] \<open>t \<le> u\<close>
    by (auto simp: timed_ops_def timed_peek_fun_upd[OF inv] timed_live_def visible_def
        split: option.splits)
qed (simp_all add: assms timed_ops_def timed_insert_invar timed_remove_invar timed_peek_fun_upd
    timed_remove_peek timed_distinct_iter timed_expired timed_iter_peek timed_pending_peek
    timed_pending_invar timed_empty)

end
