(* ===== verification/Store_Interface.thy ===== *)
theory Store_Interface
  imports Protocol
begin

text \<open>
  The storage boundary of the broker, \<open>valkyr-core/src/store.rs\<close>: the \<open>Store\<close> trait as a
  record of functions (a trait object's table), its default \<open>set_batch\<close> and \<open>is_empty\<close>, the
  in-process \<open>CompositeStore\<close>, and the contract \<open>store_spec\<close> a store promises. The state of a
  store is abstracted to the view it shows at each instant; every law is about the instants from
  the operation on.
\<close>

section \<open>The trait\<close>

record stored_value =
  sv_value :: json
  remaining_ttl :: "duration option"

record 's store_ops =
  st_get :: "'s \<Rightarrow> instant \<Rightarrow> namespace_context \<Rightarrow> key \<Rightarrow> stored_value option result \<times> 's"
  st_set :: "'s \<Rightarrow> instant \<Rightarrow> namespace_context \<Rightarrow> key \<Rightarrow> json \<Rightarrow> duration option
     \<Rightarrow> unit result \<times> 's"
  st_set_batch :: "'s \<Rightarrow> instant \<Rightarrow> namespace_context \<Rightarrow> (key \<times> json) list \<Rightarrow> duration option
     \<Rightarrow> unit result \<times> 's"
  st_delete :: "'s \<Rightarrow> instant \<Rightarrow> namespace_context \<Rightarrow> key_pattern option \<Rightarrow> nat result \<times> 's"
  st_scan :: "'s \<Rightarrow> instant \<Rightarrow> namespace_context \<Rightarrow> key_pattern
     \<Rightarrow> (key \<times> stored_value) list result \<times> 's"
  st_move :: "'s \<Rightarrow> instant \<Rightarrow> namespace_context \<Rightarrow> namespace_context \<Rightarrow> unit result \<times> 's"
  st_len :: "'s \<Rightarrow> instant \<Rightarrow> nat result \<times> 's"

fun default_set_batch ::
    "('s \<Rightarrow> instant \<Rightarrow> namespace_context \<Rightarrow> key \<Rightarrow> json \<Rightarrow> duration option \<Rightarrow> unit result \<times> 's)
     \<Rightarrow> 's \<Rightarrow> instant \<Rightarrow> namespace_context \<Rightarrow> (key \<times> json) list \<Rightarrow> duration option
     \<Rightarrow> unit result \<times> 's" where
  "default_set_batch set' s t n [] ttl = (Inr (), s)"
| "default_set_batch set' s t n ((k, v) # entries) ttl =
     (case set' s t n k v ttl of
        (Inl e, s') \<Rightarrow> (Inl e, s')
      | (Inr _, s') \<Rightarrow> default_set_batch set' s' t n entries ttl)"

definition st_is_empty :: "'s store_ops \<Rightarrow> 's \<Rightarrow> instant \<Rightarrow> bool result \<times> 's" where
  "st_is_empty ops s t =
     (case st_len ops s t of (Inl e, s') \<Rightarrow> (Inl e, s') | (Inr n, s') \<Rightarrow> (Inr (n = 0), s'))"

section \<open>The contract\<close>

text \<open>
  \<open>Instant::checked_add\<close>: the clock counts seconds in a signed 64-bit field, and a sum past its
  range is \<open>None\<close>.
\<close>

definition instant_max :: nat where
  "instant_max = 2 ^ 63 * nanos_per_sec - 1"

definition instant_checked_add :: "instant \<Rightarrow> duration \<Rightarrow> instant option" where
  "instant_checked_add t d = (if t + d \<le> instant_max then Some (t + d) else None)"

definition ttl_deadline :: "instant \<Rightarrow> duration option \<Rightarrow> instant option" where
  "ttl_deadline t ttl = (case ttl of None \<Rightarrow> None | Some d \<Rightarrow> instant_checked_add t d)"

text \<open>What a value written at \<open>t\<close> with an optional time to live looks like at \<open>u\<close>.\<close>

definition written_view :: "instant \<Rightarrow> json \<Rightarrow> duration option \<Rightarrow> instant \<Rightarrow> stored_value option" where
  "written_view t v ttl u =
     (case ttl_deadline t ttl of
        None \<Rightarrow> Some \<lparr> sv_value = v, remaining_ttl = None \<rparr>
      | Some deadline \<Rightarrow>
          if u < deadline
          then Some \<lparr> sv_value = v, remaining_ttl = Some (deadline - u) \<rparr>
          else None)"

definition pattern_selects :: "key_pattern option \<Rightarrow> key \<Rightarrow> bool" where
  "pattern_selects p k \<longleftrightarrow> (case p of None \<Rightarrow> True | Some p' \<Rightarrow> kp_matches p' k)"

type_synonym store_view = "namespace_context \<times> key \<Rightarrow> stored_value option"

locale store_spec =
  fixes ops :: "'s store_ops"
    and invar :: "'s \<Rightarrow> bool"
    and view :: "'s \<Rightarrow> instant \<Rightarrow> store_view"
  assumes get_spec: "invar s \<Longrightarrow>
      \<exists>s'. st_get ops s t n k = (Inr (view s t (n, k)), s') \<and> invar s' \<and> (\<forall>u \<ge> t. view s' u = view s u)"
    and set_spec: "invar s \<Longrightarrow>
      \<exists>s'. st_set ops s t n k v ttl = (Inr (), s') \<and> invar s'
        \<and> (\<forall>u \<ge> t. view s' u = (view s u)((n, k) := written_view t v ttl u))"
    and set_batch_spec: "invar s \<Longrightarrow>
      \<exists>s'. st_set_batch ops s t n entries ttl = (Inr (), s') \<and> invar s'
        \<and> (\<forall>u \<ge> t. view s' u = (\<lambda>(n', k).
              case (if n' = n then map_of (rev entries) k else None) of
                None \<Rightarrow> view s u (n', k)
              | Some v \<Rightarrow> written_view t v ttl u))"
    and delete_spec: "invar s \<Longrightarrow>
      \<exists>s'. st_delete ops s t n p = (Inr (card {k. pattern_selects p k \<and> view s t (n, k) \<noteq> None}), s')
        \<and> invar s'
        \<and> (\<forall>u \<ge> t. view s' u = (\<lambda>(n', k). if n' = n \<and> pattern_selects p k then None else view s u (n', k)))"
    and scan_spec: "invar s \<Longrightarrow>
      \<exists>xs s'. st_scan ops s t n kp = (Inr xs, s') \<and> invar s' \<and> (\<forall>u \<ge> t. view s' u = view s u)
        \<and> distinct (map fst xs)
        \<and> map_of xs = (\<lambda>k. if kp_matches kp k then view s t (n, k) else None)"
    and move_spec: "invar s \<Longrightarrow>
      \<exists>s'. st_move ops s t src dst =
          ((if src \<noteq> dst \<and> (\<exists>k. view s t (dst, k) \<noteq> None)
            then Inl (NamespaceExists (as_str dst)) else Inr ()), s')
        \<and> invar s'
        \<and> (\<forall>u \<ge> t. view s' u =
             (if src = dst \<or> (\<exists>k. view s t (dst, k) \<noteq> None) then view s u
              else (\<lambda>(n, k). if n = dst then view s u (src, k)
                             else if n = src then None else view s u (n, k))))"
    and len_spec: "invar s \<Longrightarrow>
      \<exists>s'. st_len ops s t = (Inr (card (dom (view s t))), s') \<and> invar s' \<and> (\<forall>u \<ge> t. view s' u = view s u)"
    and view_expired: "invar s \<Longrightarrow> t \<le> u \<Longrightarrow> view s t nk = None \<Longrightarrow> view s u nk = None"
begin

text \<open>Facts a client of a store uses.\<close>

lemma get_after_set:
  assumes "invar s" and "st_set ops s t n k v ttl = (r, s')" and "t \<le> u"
  shows "r = Inr () \<and> fst (st_get ops s' u n k) = Inr (written_view t v ttl u)"
proof -
  from set_spec[OF assms(1), of t n k v ttl] assms(2) have
    "r = Inr ()" "invar s'" "view s' u (n, k) = written_view t v ttl u"
    using assms(3) by auto
  then show ?thesis using get_spec[of s' u n k] by auto
qed

lemma get_other_after_set:
  assumes "invar s" and "st_set ops s t n k v ttl = (r, s')" and "t \<le> u" and "(n', k') \<noteq> (n, k)"
  shows "fst (st_get ops s' u n' k') = fst (st_get ops s u n' k')"
proof -
  from set_spec[OF assms(1), of t n k v ttl] assms(2-4) have
    "invar s'" "view s' u (n', k') = view s u (n', k')" by auto
  then show ?thesis using get_spec[of s' u n' k'] get_spec[OF assms(1), of u n' k'] by auto
qed

lemma get_after_delete:
  assumes "invar s" and "st_delete ops s t n p = (r, s')" and "t \<le> u"
  shows "fst (st_get ops s' u n' k) =
     (if n' = n \<and> pattern_selects p k then Inr None else fst (st_get ops s u n' k))"
proof -
  from delete_spec[OF assms(1), of t n p] assms(2,3) have
    "invar s'" "view s' u (n', k) = (if n' = n \<and> pattern_selects p k then None else view s u (n', k))"
    by auto
  then show ?thesis using get_spec[of s' u n' k] get_spec[OF assms(1), of u n' k] by auto
qed

lemma get_after_move:
  assumes "invar s" and "st_move ops s t src dst = (Inr (), s')" and "t \<le> u" and "src \<noteq> dst"
  shows "fst (st_get ops s' u dst k) = fst (st_get ops s u src k)"
    and "fst (st_get ops s' u src k) = Inr None"
proof -
  from move_spec[OF assms(1), of t src dst] assms(2,3,4) have
    "invar s'" "view s' u (dst, k) = view s u (src, k)" "view s' u (src, k) = None"
    by (auto split: if_splits)
  then show "fst (st_get ops s' u dst k) = fst (st_get ops s u src k)"
    and "fst (st_get ops s' u src k) = Inr None"
    using get_spec[of s' u dst k] get_spec[of s' u src k] get_spec[OF assms(1), of u src k] by auto
qed

end

section \<open>CompositeStore\<close>

text \<open>
  An ordered list of trait objects: each member carries its own function table and state.
\<close>

type_synonym 's dyn_store = "'s store_ops \<times> 's"

fun composite_get ::
    "'s dyn_store list \<Rightarrow> instant \<Rightarrow> namespace_context \<Rightarrow> key
     \<Rightarrow> stored_value option result \<times> 's dyn_store list" where
  "composite_get [] t n k = (Inr None, [])"
| "composite_get ((ops, s) # ss) t n k =
     (case st_get ops s t n k of
        (Inl e, s') \<Rightarrow> (Inl e, (ops, s') # ss)
      | (Inr (Some v), s') \<Rightarrow> (Inr (Some v), (ops, s') # ss)
      | (Inr None, s') \<Rightarrow>
          (case composite_get ss t n k of (r, ss') \<Rightarrow> (r, (ops, s') # ss')))"

fun composite_set ::
    "'s dyn_store list \<Rightarrow> instant \<Rightarrow> namespace_context \<Rightarrow> key \<Rightarrow> json \<Rightarrow> duration option
     \<Rightarrow> unit result \<times> 's dyn_store list" where
  "composite_set [] t n k v ttl = (Inr (), [])"
| "composite_set ((ops, s) # ss) t n k v ttl =
     (case st_set ops s t n k v ttl of
        (Inl e, s') \<Rightarrow> (Inl e, (ops, s') # ss)
      | (Inr _, s') \<Rightarrow>
          (case composite_set ss t n k v ttl of (r, ss') \<Rightarrow> (r, (ops, s') # ss')))"

fun composite_delete ::
    "'s dyn_store list \<Rightarrow> instant \<Rightarrow> namespace_context \<Rightarrow> key_pattern option
     \<Rightarrow> nat result \<times> 's dyn_store list" where
  "composite_delete [] t n p = (Inr 0, [])"
| "composite_delete ((ops, s) # ss) t n p =
     (case st_delete ops s t n p of
        (Inl e, s') \<Rightarrow> (Inl e, (ops, s') # ss)
      | (Inr deleted, s') \<Rightarrow>
          (case composite_delete ss t n p of
             (Inl e, ss') \<Rightarrow> (Inl e, (ops, s') # ss')
           | (Inr d, ss') \<Rightarrow> (Inr (deleted + d), (ops, s') # ss')))"

fun composite_scan ::
    "'s dyn_store list \<Rightarrow> instant \<Rightarrow> namespace_context \<Rightarrow> key_pattern
     \<Rightarrow> (key \<times> stored_value) list result \<times> 's dyn_store list" where
  "composite_scan [] t n p = (Inr [], [])"
| "composite_scan ((ops, s) # ss) t n p =
     (case st_scan ops s t n p of
        (Inl e, s') \<Rightarrow> (Inl e, (ops, s') # ss)
      | (Inr (x # xs), s') \<Rightarrow> (Inr (x # xs), (ops, s') # ss)
      | (Inr [], s') \<Rightarrow>
          (case composite_scan ss t n p of (r, ss') \<Rightarrow> (r, (ops, s') # ss')))"

fun composite_move ::
    "'s dyn_store list \<Rightarrow> instant \<Rightarrow> namespace_context \<Rightarrow> namespace_context
     \<Rightarrow> unit result \<times> 's dyn_store list" where
  "composite_move [] t src dst = (Inr (), [])"
| "composite_move ((ops, s) # ss) t src dst =
     (case st_move ops s t src dst of
        (Inl e, s') \<Rightarrow> (Inl e, (ops, s') # ss)
      | (Inr _, s') \<Rightarrow>
          (case composite_move ss t src dst of (r, ss') \<Rightarrow> (r, (ops, s') # ss')))"

fun composite_len :: "'s dyn_store list \<Rightarrow> instant \<Rightarrow> nat result \<times> 's dyn_store list" where
  "composite_len [] t = (Inr 0, [])"
| "composite_len ((ops, s) # ss) t =
     (case st_len ops s t of
        (Inl e, s') \<Rightarrow> (Inl e, (ops, s') # ss)
      | (Inr n, s') \<Rightarrow>
          (case composite_len ss t of
             (Inl e, ss') \<Rightarrow> (Inl e, (ops, s') # ss')
           | (Inr m, ss') \<Rightarrow> (Inr (n + m), (ops, s') # ss')))"

definition composite_ops :: "'s dyn_store list store_ops" where
  "composite_ops =
     \<lparr> st_get = composite_get, st_set = composite_set,
       st_set_batch = default_set_batch composite_set,
       st_delete = composite_delete, st_scan = composite_scan,
       st_move = composite_move, st_len = composite_len \<rparr>"

section \<open>Properties of the composition\<close>

text \<open>
  A composite read returns the first hit in order: when every member answers, the result is
  the answer of the first member that has the value.
\<close>

lemma composite_get_first_hit:
  assumes "list_all (\<lambda>m. fst (st_get (fst m) (snd m) t n k) = Inr (answer m)) members"
  shows "fst (composite_get members t n k) = Inr (find_map answer members)"
  using assms
proof (induction members)
  case Nil
  then show ?case by simp
next
  case (Cons m members)
  obtain ops s where m: "m = (ops, s)" by (cases m)
  obtain s' where "st_get ops s t n k = (Inr (answer m), s')"
    using Cons.prems m by (cases "st_get ops s t n k") auto
  with Cons m show ?case by (auto split: option.splits prod.splits)
qed

text \<open>
  A composite write fans out in order and stops at the first failure: the members before the
  failing one hold their new state, the members after it are untouched, and the error is the
  failing member's.
\<close>

theorem composite_set_stops_at_first_failure:
  assumes "list_all (\<lambda>m. fst (st_set (fst m) (snd m) t n k v ttl) = Inr ()) before"
    and "st_set ops s t n k v ttl = (Inl e, s')"
  shows "composite_set (before @ (ops, s) # rest) t n k v ttl =
    (Inl e, map (\<lambda>m. (fst m, snd (st_set (fst m) (snd m) t n k v ttl))) before @ (ops, s') # rest)"
  using assms
proof (induction before)
  case Nil
  then show ?case by simp
next
  case (Cons m ms)
  obtain ops' z where m: "m = (ops', z)" by (cases m)
  obtain z' where "st_set ops' z t n k v ttl = (Inr (), z')"
    using Cons.prems m by (cases "st_set ops' z t n k v ttl") auto
  with Cons m show ?case by auto
qed

definition constant_store :: "stored_value option \<Rightarrow> unit result \<Rightarrow> nat store_ops" where
  "constant_store answer outcome =
     \<lparr> st_get = (\<lambda>s t n k. (Inr answer, s)),
       st_set = (\<lambda>s t n k v ttl. (outcome, Suc s)),
       st_set_batch = (\<lambda>s t n kvs ttl. (outcome, Suc s)),
       st_delete = (\<lambda>s t n p. (Inr 0, s)),
       st_scan = (\<lambda>s t n p. (Inr [], s)),
       st_move = (\<lambda>s t n m. (outcome, s)),
       st_len = (\<lambda>s t. (Inr 0, s)) \<rparr>"

end
