(* ===== verification/Memory.thy ===== *)
theory Memory
  imports Cache Store_Interface
begin

text \<open>
  The in-memory store of \<open>valkyr-core/src/memory.rs\<close>. The operations take the cache library's
  function table (theory \<open>Cache\<close>) and the clock reading; the store-level lock makes each
  operation one atomic step against namespace-wide ones, so an operation is one function on the
  cache state. The main result is that a cache library that meets its interface makes
  \<open>MemoryStore\<close> meet the store contract: \<open>sublocale memory_cache \<subseteq> mem: store_spec\<close>.
\<close>

section \<open>State\<close>

type_synonym cache_key = "namespace_context \<times> key"

record cache_entry =
  ce_value :: json
  expires_at :: "instant option"

definition entry_remaining :: "cache_entry \<Rightarrow> instant \<Rightarrow> duration option" where
  "entry_remaining e now = map_option (\<lambda>deadline. saturating_sub deadline now) (expires_at e)"

definition EntryExpiry :: "(cache_key, cache_entry) expiry_policy" where
  "EntryExpiry =
     \<lparr> expire_after_create = (\<lambda>_ value created_at. entry_remaining value created_at),
       expire_after_read = (\<lambda>_ _ _ duration_until_expiry _. duration_until_expiry),
       expire_after_update = (\<lambda>_ value updated_at _. entry_remaining value updated_at) \<rparr>"

record memory_store_config =
  max_capacity :: "nat option"
  time_to_idle :: "duration option"

definition MemoryStoreConfig_new :: memory_store_config where
  "MemoryStoreConfig_new = \<lparr> max_capacity = None, time_to_idle = None \<rparr>"

definition with_max_capacity :: "memory_store_config \<Rightarrow> nat \<Rightarrow> memory_store_config" where
  "with_max_capacity c n = c\<lparr> max_capacity := Some n \<rparr>"

definition with_time_to_idle :: "memory_store_config \<Rightarrow> duration \<Rightarrow> memory_store_config" where
  "with_time_to_idle c d = c\<lparr> time_to_idle := Some d \<rparr>"

section \<open>Operations\<close>

definition entry_stored_value :: "cache_entry \<Rightarrow> instant \<Rightarrow> stored_value" where
  "entry_stored_value e now = \<lparr> sv_value = ce_value e, remaining_ttl = entry_remaining e now \<rparr>"

definition matching_entries ::
    "('c, cache_key, cache_entry) cache_ops \<Rightarrow> 'c \<Rightarrow> instant \<Rightarrow> namespace_context \<Rightarrow> key_pattern
     \<Rightarrow> (cache_key \<times> cache_entry) list" where
  "matching_entries ops c now n p =
     filter (\<lambda>(cache_key, _). fst cache_key = n \<and> kp_matches p (snd cache_key)) (c_iter ops c now)"

definition memory_get ::
    "('c, cache_key, cache_entry) cache_ops \<Rightarrow> 'c \<Rightarrow> instant \<Rightarrow> namespace_context \<Rightarrow> key
     \<Rightarrow> stored_value option result \<times> 'c" where
  "memory_get ops c now n k =
     (case c_get ops c now (n, k) of
        (None, c') \<Rightarrow> (Inr None, c_invalidate ops c' now (n, k))
      | (Some e, c') \<Rightarrow> (Inr (Some (entry_stored_value e now)), c'))"

definition memory_set ::
    "('c, cache_key, cache_entry) cache_ops \<Rightarrow> 'c \<Rightarrow> instant \<Rightarrow> namespace_context \<Rightarrow> key
     \<Rightarrow> json \<Rightarrow> duration option \<Rightarrow> unit result \<times> 'c" where
  "memory_set ops c now n k v ttl =
     (Inr (), c_insert ops c now (n, k) \<lparr> ce_value = v, expires_at = ttl_deadline now ttl \<rparr>)"

definition memory_set_batch ::
    "('c, cache_key, cache_entry) cache_ops \<Rightarrow> 'c \<Rightarrow> instant \<Rightarrow> namespace_context
     \<Rightarrow> (key \<times> json) list \<Rightarrow> duration option \<Rightarrow> unit result \<times> 'c" where
  "memory_set_batch ops c now n entries ttl =
     (let deadline = ttl_deadline now ttl
      in (Inr (), fold (\<lambda>(k, v) c. c_insert ops c now (n, k) \<lparr> ce_value = v, expires_at = deadline \<rparr>)
                    entries c))"

definition memory_delete ::
    "('c, cache_key, cache_entry) cache_ops \<Rightarrow> 'c \<Rightarrow> instant \<Rightarrow> namespace_context
     \<Rightarrow> key_pattern option \<Rightarrow> nat result \<times> 'c" where
  "memory_delete ops c now n p =
     (case p of
        None \<Rightarrow>
          (let ks = map fst (filter (\<lambda>(cache_key, _). fst cache_key = n) (c_iter ops c now))
           in (Inr (length ks), fold (\<lambda>k c. c_invalidate ops c now k) ks c))
      | Some p' \<Rightarrow>
          (let entries = matching_entries ops c now n p'
           in (Inr (length entries), fold (\<lambda>k c. c_invalidate ops c now k) (map fst entries) c)))"

definition memory_scan ::
    "('c, cache_key, cache_entry) cache_ops \<Rightarrow> 'c \<Rightarrow> instant \<Rightarrow> namespace_context
     \<Rightarrow> key_pattern \<Rightarrow> (key \<times> stored_value) list result \<times> 'c" where
  "memory_scan ops c now n p =
     (Inr (map (\<lambda>(cache_key, e). (snd cache_key, entry_stored_value e now))
             (matching_entries ops c now n p)), c)"

definition memory_move ::
    "('c, cache_key, cache_entry) cache_ops \<Rightarrow> 'c \<Rightarrow> instant \<Rightarrow> namespace_context
     \<Rightarrow> namespace_context \<Rightarrow> unit result \<times> 'c" where
  "memory_move ops c now src dst =
     (if src = dst then (Inr (), c)
      else if list_ex (\<lambda>(cache_key, _). fst cache_key = dst) (c_iter ops c now)
      then (Inl (NamespaceExists (as_str dst)), c)
      else let entries = filter (\<lambda>(cache_key, _). fst cache_key = src) (c_iter ops c now);
               c1 = fold (\<lambda>(k, e) c. c_insert ops c now k e)
                      (map (\<lambda>(cache_key, e). ((dst, snd cache_key), e)) entries) c;
               c2 = fold (\<lambda>k c. c_invalidate ops c now k) (map fst entries) c1
           in (Inr (), c2))"

definition memory_len ::
    "('c, cache_key, cache_entry) cache_ops \<Rightarrow> 'c \<Rightarrow> instant \<Rightarrow> nat result \<times> 'c" where
  "memory_len ops c now =
     (let c' = c_run_pending_tasks ops c now in (Inr (length (c_iter ops c' now)), c'))"

definition memory_ops :: "('c, cache_key, cache_entry) cache_ops \<Rightarrow> 'c store_ops" where
  "memory_ops ops =
     \<lparr> st_get = memory_get ops, st_set = memory_set ops, st_set_batch = memory_set_batch ops,
       st_delete = memory_delete ops, st_scan = memory_scan ops, st_move = memory_move ops,
       st_len = memory_len ops \<rparr>"

section \<open>The store contract\<close>

definition memory_view ::
    "('c \<Rightarrow> instant \<Rightarrow> cache_key \<Rightarrow> cache_entry option) \<Rightarrow> 'c \<Rightarrow> instant \<Rightarrow> store_view" where
  "memory_view peek c u nk = map_option (\<lambda>e. entry_stored_value e u) (peek c u nk)"

lemma expire_after_create_EntryExpiry [simp]:
  "expire_after_create EntryExpiry k e t = entry_remaining e t"
  by (simp add: EntryExpiry_def)

lemma visible_entry: "t \<le> u \<Longrightarrow> visible t (entry_remaining e t) u \<longleftrightarrow>
    (case expires_at e of None \<Rightarrow> True | Some deadline \<Rightarrow> u < deadline)"
  by (auto simp: visible_def entry_remaining_def saturating_sub_def split: option.splits)

lemma written_entry:
  "t \<le> u \<Longrightarrow>
     map_option (\<lambda>e. entry_stored_value e u)
       (if visible t (entry_remaining \<lparr> ce_value = v, expires_at = ttl_deadline t ttl \<rparr> t) u
        then Some \<lparr> ce_value = v, expires_at = ttl_deadline t ttl \<rparr> else None)
     = written_view t v ttl u"
  by (simp add: visible_entry)
    (auto simp: written_view_def entry_stored_value_def entry_remaining_def
      saturating_sub_def split: option.splits)

locale memory_cache = moka_cache ops EntryExpiry invar peek
  for ops :: "('c, cache_key, cache_entry) cache_ops"
    and invar :: "'c \<Rightarrow> bool"
    and peek :: "'c \<Rightarrow> instant \<Rightarrow> cache_key \<Rightarrow> cache_entry option" +
  assumes entry_lifetime: "invar c \<Longrightarrow> t \<le> u \<Longrightarrow> peek c t nk = Some e \<Longrightarrow>
      peek c u nk = (case expires_at e of
        None \<Rightarrow> Some e | Some deadline \<Rightarrow> if u < deadline then Some e else None)"
begin

lemma view_eq_None [simp]: "memory_view peek c u nk = None \<longleftrightarrow> peek c u nk = None"
  by (simp add: memory_view_def)

lemma mem_get:
  assumes "invar c"
  shows "\<exists>c'. memory_get ops c t n k = (Inr (memory_view peek c t (n, k)), c') \<and> invar c'
    \<and> (\<forall>u \<ge> t. memory_view peek c' u = memory_view peek c u)"
proof (cases "c_get ops c t (n, k)")
  case (Pair r c')
  have r: "r = peek c t (n, k)" and inv: "invar c'" and same: "\<And>u. t \<le> u \<Longrightarrow> peek c' u = peek c u"
    using assms Pair get_value[of c t "(n, k)"] get_invar[of c t "(n, k)"] get_peek[of c t _ "(n, k)"]
    by auto
  show ?thesis
  proof (cases r)
    case None
    then have gone: "\<And>u. t \<le> u \<Longrightarrow> peek c u (n, k) = None"
      using expired_stays[OF assms] r by metis
    then have "memory_view peek (c_invalidate ops c' t (n, k)) u = memory_view peek c u" if "t \<le> u" for u
      using that by (auto simp: memory_view_def fun_eq_iff invalidate_peek[OF inv that] same[OF that])
    then show ?thesis
      using None r Pair inv by (auto simp: memory_get_def memory_view_def invalidate_invar)
  next
    case (Some e)
    then show ?thesis
      using r Pair inv same by (auto simp: memory_get_def memory_view_def fun_eq_iff)
  qed
qed

lemma mem_set:
  assumes "invar c"
  shows "\<exists>c'. memory_set ops c t n k v ttl = (Inr (), c') \<and> invar c'
    \<and> (\<forall>u \<ge> t. memory_view peek c' u = (memory_view peek c u)((n, k) := written_view t v ttl u))"
  using assms
  by (auto simp: memory_set_def insert_invar insert_peek memory_view_def fun_eq_iff
      written_entry[symmetric])

lemma mem_set_batch:
  assumes "invar c"
  shows "\<exists>c'. memory_set_batch ops c t n entries ttl = (Inr (), c') \<and> invar c'
    \<and> (\<forall>u \<ge> t. memory_view peek c' u = (\<lambda>(n', k).
          case (if n' = n then map_of (rev entries) k else None) of
            None \<Rightarrow> memory_view peek c u (n', k)
          | Some v \<Rightarrow> written_view t v ttl u))"
  using assms
proof (induction entries arbitrary: c)
  case Nil
  then show ?case by (auto simp: memory_set_batch_def fun_eq_iff)
next
  case (Cons kv entries)
  obtain k v where kv: "kv = (k, v)" by (cases kv)
  obtain c1 where c1: "memory_set ops c t n k v ttl = (Inr (), c1)" "invar c1"
      "\<And>u. t \<le> u \<Longrightarrow> memory_view peek c1 u = (memory_view peek c u)((n, k) := written_view t v ttl u)"
    using mem_set[OF Cons.prems] by blast
  then have "memory_set_batch ops c t n (kv # entries) ttl = memory_set_batch ops c1 t n entries ttl"
    by (auto simp: memory_set_batch_def memory_set_def kv)
  with Cons.IH[OF c1(2)] c1(3) kv show ?case
    by (fastforce simp: fun_eq_iff map_add_def split: option.splits)
qed

lemma iter_filter_keys:
  assumes "invar c"
  shows "distinct (map fst (filter P (c_iter ops c t)))"
    and "set (map fst (filter (\<lambda>(nk, _). Q nk) (c_iter ops c t))) = {nk. Q nk \<and> peek c t nk \<noteq> None}"
proof -
  show "distinct (map fst (filter P (c_iter ops c t)))"
    using iter_distinct[OF assms, of t] by (simp add: distinct_map_filter)
  have "set (map fst (filter (\<lambda>(nk, _). Q nk) (c_iter ops c t))) = {nk \<in> fst ` set (c_iter ops c t). Q nk}"
    by force
  also have "fst ` set (c_iter ops c t) = dom (peek c t)" using assms by (rule iter_keys)
  finally show "set (map fst (filter (\<lambda>(nk, _). Q nk) (c_iter ops c t))) = {nk. Q nk \<and> peek c t nk \<noteq> None}"
    by (auto simp: dom_def)
qed

lemma mem_delete_keys:
  assumes "invar c" and "\<And>nk. Q nk \<longleftrightarrow> fst nk = n \<and> pattern_selects p (snd nk)"
    and "ks = map fst (filter (\<lambda>(nk, _). Q nk) (c_iter ops c t))"
  shows "length ks = card {k. pattern_selects p k \<and> memory_view peek c t (n, k) \<noteq> None}"
    and "invar (fold (\<lambda>k c. c_invalidate ops c t k) ks c)"
    and "t \<le> u \<Longrightarrow> memory_view peek (fold (\<lambda>k c. c_invalidate ops c t k) ks c) u =
      (\<lambda>(n', k). if n' = n \<and> pattern_selects p k then None else memory_view peek c u (n', k))"
proof -
  have mem_ks: "(n', k) \<in> set ks \<longleftrightarrow> n' = n \<and> pattern_selects p k \<and> peek c t (n, k) \<noteq> None" for n' k
    using iter_filter_keys(2)[OF assms(1), of Q t] assms(2,3) by auto
  then have set_ks: "set ks = Pair n ` {k. pattern_selects p k \<and> peek c t (n, k) \<noteq> None}"
    by auto
  have "distinct ks" using iter_filter_keys(1)[OF assms(1)] assms(3) by blast
  then have "length ks = card (set ks)" by (simp add: distinct_card)
  then show "length ks = card {k. pattern_selects p k \<and> memory_view peek c t (n, k) \<noteq> None}"
    by (simp add: set_ks card_image inj_on_def)
  from invalidate_all[OF assms(1), of t ks] show "invar (fold (\<lambda>k c. c_invalidate ops c t k) ks c)" by blast
  assume "t \<le> u"
  then have "peek (fold (\<lambda>k c. c_invalidate ops c t k) ks c) u = (\<lambda>k. if k \<in> set ks then None else peek c u k)"
    using invalidate_all[OF assms(1), of t ks] by blast
  then show "memory_view peek (fold (\<lambda>k c. c_invalidate ops c t k) ks c) u =
      (\<lambda>(n', k). if n' = n \<and> pattern_selects p k then None else memory_view peek c u (n', k))"
    using expired_stays[OF assms(1) \<open>t \<le> u\<close>] by (auto simp: fun_eq_iff memory_view_def mem_ks)
qed

lemma mem_delete:
  assumes "invar c"
  shows "\<exists>c'. memory_delete ops c t n p =
      (Inr (card {k. pattern_selects p k \<and> memory_view peek c t (n, k) \<noteq> None}), c') \<and> invar c'
    \<and> (\<forall>u \<ge> t. memory_view peek c' u =
          (\<lambda>(n', k). if n' = n \<and> pattern_selects p k then None else memory_view peek c u (n', k)))"
proof (cases p)
  case None
  let ?ks = "map fst (filter (\<lambda>(nk, _). fst nk = n) (c_iter ops c t))"
  have "memory_delete ops c t n p = (Inr (length ?ks), fold (\<lambda>k c. c_invalidate ops c t k) ?ks c)"
    by (simp add: memory_delete_def None Let_def del: fold_map)
  with mem_delete_keys[OF assms, of "\<lambda>nk. fst nk = n" n p ?ks t] None show ?thesis
    by (simp add: pattern_selects_def del: fold_map length_map)
next
  case (Some p')
  let ?ks = "map fst (filter (\<lambda>(nk, _). fst nk = n \<and> kp_matches p' (snd nk)) (c_iter ops c t))"
  have "memory_delete ops c t n p = (Inr (length ?ks), fold (\<lambda>k c. c_invalidate ops c t k) ?ks c)"
    by (simp add: memory_delete_def Some Let_def matching_entries_def del: fold_map)
  with mem_delete_keys[OF assms, of "\<lambda>nk. fst nk = n \<and> kp_matches p' (snd nk)" n p ?ks t] Some show ?thesis
    by (simp add: pattern_selects_def del: fold_map length_map)
qed

lemma mem_scan:
  assumes "invar c"
  shows "\<exists>xs. memory_scan ops c t n kp = (Inr xs, c) \<and> distinct (map fst xs)
    \<and> map_of xs = (\<lambda>k. if kp_matches kp k then memory_view peek c t (n, k) else None)"
proof -
  let ?f = "\<lambda>(nk, e). (snd nk, entry_stored_value e t)"
  let ?ms = "matching_entries ops c t n kp"
  have d: "distinct (map fst (map ?f ?ms))"
    using iter_distinct[OF assms, of t]
    by (auto simp: matching_entries_def distinct_map inj_on_def split_def)
      (metis fst_conv prod.collapse prod.inject)
  have "map_of (map ?f ?ms) k = Some sv \<longleftrightarrow>
      (if kp_matches kp k then memory_view peek c t (n, k) else None) = Some sv" for k sv
    using map_of_eq_Some_iff[OF d, of k sv] iter_mem_iff[OF assms, of _ _ t]
    by (auto simp: matching_entries_def memory_view_def image_iff split_def)
  then have "map_of (map ?f ?ms) = (\<lambda>k. if kp_matches kp k then memory_view peek c t (n, k) else None)"
    by (intro ext option_eqI)
  with d show ?thesis by (simp add: memory_scan_def)
qed

lemma mem_len:
  assumes "invar c"
  shows "\<exists>c'. memory_len ops c t = (Inr (card (dom (memory_view peek c t))), c') \<and> invar c'
    \<and> (\<forall>u \<ge> t. memory_view peek c' u = memory_view peek c u)"
proof -
  let ?c = "c_run_pending_tasks ops c t"
  have inv: "invar ?c" using assms by (rule pending_invar)
  have "length (c_iter ops ?c t) = card (set (map fst (c_iter ops ?c t)))"
    using iter_distinct[OF inv, of t] by (metis distinct_card length_map)
  also have "set (map fst (c_iter ops ?c t)) = dom (memory_view peek c t)"
    using iter_filter_keys(2)[OF inv, of "\<lambda>_. True" t] pending_peek[OF assms, of t t]
    by (auto simp: dom_def)
  finally show ?thesis
    using inv pending_peek[OF assms] by (auto simp: memory_len_def memory_view_def fun_eq_iff Let_def)
qed

lemma moved_entries:
  assumes "invar c"
    and "entries = filter (\<lambda>(nk, _). fst nk = src) (c_iter ops c t)"
    and "moved = map (\<lambda>(nk, e). ((dst, snd nk), e)) entries"
  shows "map_of (rev moved) (n, k) = (if n = dst then peek c t (src, k) else None)"
proof -
  have d: "distinct (map fst entries)" using iter_filter_keys(1)[OF assms(1)] assms(2) by blast
  have "\<forall>nk \<in> set (map fst entries). fst nk = src" using assms(2) by auto
  then have "inj_on (\<lambda>nk. (dst, snd nk)) (set (map fst entries))"
    unfolding inj_on_def by (metis prod_eqI snd_conv)
  then have "distinct (map (\<lambda>nk. (dst, snd nk)) (map fst entries))"
    using d by (simp only: distinct_map[of _ "map fst entries"])
  then have dm: "distinct (map fst (rev moved))"
    by (simp add: assms(3) comp_def split_def rev_map[symmetric])
  have "map_of (rev moved) (n, k) = Some e \<longleftrightarrow> n = dst \<and> peek c t (src, k) = Some e" for e
    using map_of_eq_Some_iff[OF dm, of "(n, k)" e] iter_mem_iff[OF assms(1), of "(src, k)" e t]
    by (auto simp: assms(2,3) image_iff split_def)
  then show ?thesis by (intro option_eqI) auto
qed

lemma mem_move:
  assumes "invar c"
  shows "\<exists>c'. memory_move ops c t src dst =
      ((if src \<noteq> dst \<and> (\<exists>k. memory_view peek c t (dst, k) \<noteq> None)
        then Inl (NamespaceExists (as_str dst)) else Inr ()), c')
    \<and> invar c'
    \<and> (\<forall>u \<ge> t. memory_view peek c' u =
         (if src = dst \<or> (\<exists>k. memory_view peek c t (dst, k) \<noteq> None) then memory_view peek c u
          else (\<lambda>(n, k). if n = dst then memory_view peek c u (src, k)
                         else if n = src then None else memory_view peek c u (n, k))))"
proof -
  have exists: "list_ex (\<lambda>(nk, _). fst nk = dst) (c_iter ops c t) \<longleftrightarrow>
      (\<exists>k. memory_view peek c t (dst, k) \<noteq> None)"
  proof -
    have "list_ex (\<lambda>(nk, _). fst nk = dst) (c_iter ops c t) \<longleftrightarrow>
        (\<exists>nk \<in> fst ` set (c_iter ops c t). fst nk = dst)" by (simp add: list_ex_iff split_def)
    then show ?thesis by (auto simp: iter_keys[OF assms] dom_def)
  qed
  show ?thesis
  proof (cases "src = dst \<or> (\<exists>k. memory_view peek c t (dst, k) \<noteq> None)")
    case True
    then show ?thesis using assms exists by (auto simp: memory_move_def)
  next
    case False
    define entries where "entries = filter (\<lambda>(nk, _). fst nk = src) (c_iter ops c t)"
    define moved where "moved = map (\<lambda>(nk, e). ((dst, snd nk), e)) entries"
    define c1 where "c1 = fold (\<lambda>(k, e) c. c_insert ops c t k e) moved c"
    define c2 where "c2 = fold (\<lambda>k c. c_invalidate ops c t k) (map fst entries) c1"
    have inv1: "invar c1" and peek1: "\<And>u. t \<le> u \<Longrightarrow> peek c1 u = (\<lambda>k.
        case map_of (rev moved) k of None \<Rightarrow> peek c u k
        | Some e \<Rightarrow> if visible t (entry_remaining e t) u then Some e else None)"
      using insert_all[OF assms, of t moved] unfolding c1_def expire_after_create_EntryExpiry by blast+
    have inv2: "invar c2" and peek2: "\<And>u. t \<le> u \<Longrightarrow> peek c2 u = (\<lambda>k.
        if k \<in> set (map fst entries) then None else peek c1 u k)"
      using invalidate_all[OF inv1, of t "map fst entries"] unfolding c2_def by blast+
    have keys: "(n, k) \<in> set (map fst entries) \<longleftrightarrow> n = src \<and> peek c t (src, k) \<noteq> None" for n k
      using iter_filter_keys(2)[OF assms, of "\<lambda>nk. fst nk = src" t] unfolding entries_def by auto
    have "peek c2 u (n, k) = (if n = dst then peek c u (src, k)
        else if n = src then None else peek c u (n, k))" if "t \<le> u" for u n k
    proof (cases "peek c t (src, k)")
      case None
      then show ?thesis
        using False expired_stays[OF assms that] moved_entries[OF assms entries_def moved_def, of n k]
          keys[of n k] peek1[OF that] peek2[OF that] by auto
    next
      case (Some e)
      then have "peek c u (src, k) = (if visible t (entry_remaining e t) u then Some e else None)"
        using entry_lifetime[OF assms that Some] visible_entry[OF that, of e] by (simp split: option.splits)
      then show ?thesis
        using Some False moved_entries[OF assms entries_def moved_def, of n k]
          keys[of n k] peek1[OF that] peek2[OF that] by auto
    qed
    then have "memory_view peek c2 u = (\<lambda>(n, k). if n = dst then memory_view peek c u (src, k)
        else if n = src then None else memory_view peek c u (n, k))" if "t \<le> u" for u
      using that by (auto simp: memory_view_def fun_eq_iff)
    moreover have "memory_move ops c t src dst = (Inr (), c2)"
      using False exists by (simp add: memory_move_def c2_def c1_def moved_def entries_def Let_def)
    ultimately show ?thesis using False inv2 by simp
  qed
qed

end

sublocale memory_cache \<subseteq> mem: store_spec "memory_ops ops" invar "memory_view peek"
proof (unfold_locales, goal_cases)
  case 8
  then show ?case using expired_stays by (simp add: memory_view_def)
qed (simp_all only: memory_ops_def store_ops.simps mem_get mem_set mem_set_batch mem_delete mem_move mem_len,
    use mem_scan in blast)

context memory_cache begin

lemma mem_store_spec: "store_spec (memory_ops ops) invar (memory_view peek)"
  by (rule mem.store_spec_axioms)

end

section \<open>The contract on a cache that meets its interface\<close>

definition entry_cache_invar :: "(cache_key, cache_entry) timed \<Rightarrow> bool" where
  "entry_cache_invar c \<longleftrightarrow> timed_invar c \<and> list_all (\<lambda>(_, e, deadline). deadline = expires_at e) c"

lemma moka_cache_entries: "moka_cache (timed_ops EntryExpiry) EntryExpiry timed_invar timed_peek"
  by (rule timed_cache_meets_interface) (simp_all add: EntryExpiry_def)

lemma entry_cache_remove: "entry_cache_invar c \<Longrightarrow> entry_cache_invar (timed_remove P c)"
  using timed_remove_invar[of c P]
  by (auto simp: entry_cache_invar_def list_all_iff timed_remove_def)

lemma entry_cache_pending: "entry_cache_invar c \<Longrightarrow> entry_cache_invar (filter (timed_live t) c)"
  using timed_pending_invar[of c t] by (auto simp: entry_cache_invar_def list_all_iff)

lemma entry_cache_insert:
  assumes "entry_cache_invar c"
  shows "entry_cache_invar (c_insert (timed_ops EntryExpiry) c t k e)"
proof (cases "entry_remaining e t = Some 0")
  case True
  with assms show ?thesis by (simp add: timed_ops_def entry_cache_remove)
next
  case False
  then have "map_option (\<lambda>d. t + d) (entry_remaining e t) = expires_at e"
    by (auto simp: entry_remaining_def saturating_sub_def map_option_case split: option.splits)
  with assms False entry_cache_remove[OF assms, of "\<lambda>k' _. k' = k"] show ?thesis
    using timed_insert_invar[of c k "(e, expires_at e)"] by (simp add: timed_ops_def entry_cache_invar_def)
qed

lemma entry_cache_lifetime:
  assumes "entry_cache_invar c" and "t \<le> u" and "timed_peek c t k = Some e"
  shows "timed_peek c u k = (case expires_at e of
    None \<Rightarrow> Some e | Some deadline \<Rightarrow> if u < deadline then Some e else None)"
  using assms
proof (induction c)
  case Nil
  then show ?case by (simp add: timed_peek_def timed_iter_def)
next
  case (Cons x c)
  obtain k' e' d where x: "x = (k', e', d)" by (cases x)
  have inv: "timed_invar (x # c)" "entry_cache_invar c" "d = expires_at e'"
    using Cons.prems(1) x by (auto simp: entry_cache_invar_def timed_invar_Cons)
  show ?case
    using Cons.IH[OF inv(2) Cons.prems(2)] Cons.prems(3) inv(3) x
      timed_peek_Cons[OF inv(1), of t] timed_peek_Cons[OF inv(1), of u]
    by (auto simp: timed_live_def split: if_splits option.splits)
qed

lemma entry_cache_moka: "moka_cache (timed_ops EntryExpiry) EntryExpiry entry_cache_invar timed_peek"
  by (rule moka_cache.strengthen_invariant[OF moka_cache_entries])
    (simp add: entry_cache_invar_def,
     simp add: timed_ops_def entry_cache_invar_def timed_invar_def,
     simp add: timed_ops_def, rule entry_cache_insert, assumption,
     simp_all add: timed_ops_def entry_cache_remove entry_cache_pending)

interpretation entry_cache: memory_cache "timed_ops EntryExpiry" entry_cache_invar timed_peek
  by (rule memory_cache.intro[OF entry_cache_moka], unfold_locales) (rule entry_cache_lifetime)

section \<open>Properties\<close>

text \<open>
  C28. On a cache library that meets its interface, \<open>MemoryStore\<close> refines the abstract store:
  reads return what is visible, writes show their value until their deadline, deletes remove and
  count exactly the selected live keys, scans list them, moves relocate a namespace with its
  values and deadlines or fail without a change, and the length is the number of live entries.
\<close>

theorem memory_store_refines_store_spec:
  assumes "memory_cache ops invar peek"
  shows "store_spec (memory_ops ops) invar (memory_view peek)"
  using assms by (rule memory_cache.mem_store_spec)

theorem memory_store_refines_store_spec_witness:
  "store_spec (memory_ops (timed_ops EntryExpiry)) entry_cache_invar (memory_view timed_peek)"
  by (rule memory_store_refines_store_spec) (rule entry_cache.memory_cache_axioms)

text \<open>
  A written value is read back, with its remaining time to live rounded down to what is left,
  from the write until its deadline and never after it; a time to live past the clock's range
  does not expire; and no other address is affected.
\<close>

lemma memory_set_then_get:
  assumes "memory_cache ops invar peek" and "invar c" and "t \<le> u"
  shows "fst (memory_get ops (snd (memory_set ops c t n k v ttl)) u n' k') =
    (if (n', k') = (n, k)
     then Inr (case ttl of
            None \<Rightarrow> Some \<lparr> sv_value = v, remaining_ttl = None \<rparr>
          | Some d \<Rightarrow>
              if t + d > instant_max then Some \<lparr> sv_value = v, remaining_ttl = None \<rparr>
              else if u < t + d then Some \<lparr> sv_value = v, remaining_ttl = Some (t + d - u) \<rparr>
              else None)
     else fst (memory_get ops c u n' k'))"
proof -
  note spec = memory_cache.mem_store_spec[OF assms(1)]
  have ops: "st_get (memory_ops ops) = memory_get ops" "st_set (memory_ops ops) = memory_set ops"
    by (simp_all add: memory_ops_def)
  obtain r s' where rs: "memory_set ops c t n k v ttl = (r, s')" by fastforce
  show ?thesis
  proof (cases "(n', k') = (n, k)")
    case True
    then show ?thesis
      using store_spec.get_after_set[OF spec assms(2), unfolded ops, OF rs assms(3)] rs
      by (auto simp: written_view_def ttl_deadline_def instant_checked_add_def split: option.splits)
  next
    case False
    then show ?thesis
      using store_spec.get_other_after_set[OF spec assms(2), unfolded ops, OF rs assms(3) False] rs
      by auto
  qed
qed

text \<open>
  Moving a namespace is all or nothing: it fails with \<open>NamespaceExists\<close>, and changes nothing
  that is visible, exactly when the destination differs and has a live entry; otherwise every
  entry of the source is found under the destination with its value and its deadline, and the
  source is empty.
\<close>

theorem memory_move_all_or_nothing:
  assumes "memory_cache ops invar peek" and "invar c" and "t \<le> u" and "src \<noteq> dst"
    and "memory_move ops c t src dst = (r, c')"
  shows "if \<exists>k. memory_view peek c t (dst, k) \<noteq> None
    then r = Inl (NamespaceExists (as_str dst)) \<and> memory_view peek c' u = memory_view peek c u
    else r = Inr () \<and> (\<forall>k. memory_view peek c' u (dst, k) = memory_view peek c u (src, k)
       \<and> memory_view peek c' u (src, k) = None)"
  using store_spec.move_spec[OF memory_cache.mem_store_spec[OF assms(1)] assms(2), of t src dst] assms(3-5)
  by (auto simp: memory_ops_def)

end
