(* ===== verification/Miss_Cache.thy ===== *)
theory Miss_Cache
  imports Memory
begin

text \<open>
  The cache of confirmed provider misses, \<open>valkyr-core/src/miss_cache.rs\<close>: markers with a
  relative time to live, over the same cache library. \<open>invalidate_pattern\<close> and
  \<open>invalidate_namespace\<close> pass a closure to \<open>invalidate_entries_if\<close>.
\<close>

record marker =
  marker_ttl :: duration

definition MarkerExpiry :: "(cache_key, marker) expiry_policy" where
  "MarkerExpiry =
     \<lparr> expire_after_create = (\<lambda>_ value _. Some (marker_ttl value)),
       expire_after_read = (\<lambda>_ _ _ duration_until_expiry _. duration_until_expiry),
       expire_after_update = (\<lambda>_ value _ _. Some (marker_ttl value)) \<rparr>"

definition MissCache_new :: "('m, cache_key, marker) cache_ops \<Rightarrow> 'm" where
  "MissCache_new ops = c_empty ops"

definition miss_contains ::
    "('m, cache_key, marker) cache_ops \<Rightarrow> 'm \<Rightarrow> instant \<Rightarrow> namespace_context \<Rightarrow> key \<Rightarrow> bool \<times> 'm" where
  "miss_contains ops m now n k = (case c_get ops m now (n, k) of (r, m') \<Rightarrow> (r \<noteq> None, m'))"

definition miss_insert ::
    "('m, cache_key, marker) cache_ops \<Rightarrow> 'm \<Rightarrow> instant \<Rightarrow> namespace_context \<Rightarrow> key \<Rightarrow> duration \<Rightarrow> 'm" where
  "miss_insert ops m now n k ttl =
     (if ttl = 0 then m else c_insert ops m now (n, k) \<lparr> marker_ttl = ttl \<rparr>)"

definition invalidate_exact ::
    "('m, cache_key, marker) cache_ops \<Rightarrow> 'm \<Rightarrow> instant \<Rightarrow> namespace_context \<Rightarrow> key \<Rightarrow> 'm" where
  "invalidate_exact ops m now n k = c_invalidate ops m now (n, k)"

definition invalidate_namespace ::
    "('m, cache_key, marker) cache_ops \<Rightarrow> 'm \<Rightarrow> instant \<Rightarrow> namespace_context \<Rightarrow> 'm" where
  "invalidate_namespace ops m now n = c_invalidate_if ops m now (\<lambda>cache_key _. fst cache_key = n)"

definition invalidate_pattern ::
    "('m, cache_key, marker) cache_ops \<Rightarrow> 'm \<Rightarrow> instant \<Rightarrow> namespace_context \<Rightarrow> key_pattern option \<Rightarrow> 'm" where
  "invalidate_pattern ops m now n p =
     (let p' = (case p of Some q \<Rightarrow> q | None \<Rightarrow> KeyPattern ''*'')
      in c_invalidate_if ops m now (\<lambda>cache_key _. fst cache_key = n \<and> kp_matches p' (snd cache_key)))"

text \<open>The cache library under the marker policy.\<close>

locale marker_cache = moka_cache ops MarkerExpiry invar peek
  for ops :: "('m, cache_key, marker) cache_ops"
    and invar :: "'m \<Rightarrow> bool"
    and peek :: "'m \<Rightarrow> instant \<Rightarrow> cache_key \<Rightarrow> marker option"
begin

lemma contains_eq: "invar m \<Longrightarrow> fst (miss_contains ops m t n k) \<longleftrightarrow> peek m t (n, k) \<noteq> None"
  using get_value[of m t "(n, k)"] by (cases "c_get ops m t (n, k)") (simp add: miss_contains_def)

lemma contains_state:
  assumes "invar m"
  shows "invar (snd (miss_contains ops m t n k))"
    and "t \<le> u \<Longrightarrow> peek (snd (miss_contains ops m t n k)) u = peek m u"
  using get_invar[OF assms, of t "(n, k)"] get_peek[OF assms, of t u "(n, k)"]
  by (auto simp: miss_contains_def split: prod.splits)

lemma miss_invars [intro]:
  assumes "invar m"
  shows "invar (miss_insert ops m t n k ttl)"
    and "invar (invalidate_exact ops m t n k)"
    and "invar (invalidate_namespace ops m t n)"
    and "invar (invalidate_pattern ops m t n p)"
  using assms cache_invars
  by (simp_all add: miss_insert_def invalidate_exact_def invalidate_namespace_def
      invalidate_pattern_def Let_def)

lemma peek_insert:
  "invar m \<Longrightarrow> t \<le> u \<Longrightarrow> peek (miss_insert ops m t n k ttl) u nk =
     (if nk = (n, k) \<and> ttl \<noteq> 0 then if u < t + ttl then Some \<lparr> marker_ttl = ttl \<rparr> else None
      else peek m u nk)"
  by (simp add: miss_insert_def insert_peek visible_def MarkerExpiry_def)

lemma peek_invalidate_exact:
  "invar m \<Longrightarrow> t \<le> u \<Longrightarrow> peek (invalidate_exact ops m t n k) u = (peek m u)((n, k) := None)"
  by (simp add: invalidate_exact_def invalidate_peek)

lemma peek_invalidate_namespace:
  "invar m \<Longrightarrow> t \<le> u \<Longrightarrow> peek (invalidate_namespace ops m t n) u (n', k) =
     (if n' = n then None else peek m u (n', k))"
  by (simp add: invalidate_namespace_def invalidate_if_peek split: option.split)

lemma peek_invalidate_pattern:
  "invar m \<Longrightarrow> t \<le> u \<Longrightarrow> peek (invalidate_pattern ops m t n p) u (n', k) =
     (if n' = n \<and> pattern_selects p k then None else peek m u (n', k))"
  by (auto simp: invalidate_pattern_def invalidate_if_peek Let_def pattern_selects_def
      split: option.split)

end

lemma moka_cache_markers: "moka_cache (timed_ops MarkerExpiry) MarkerExpiry timed_invar timed_peek"
  by (rule timed_cache_meets_interface) (simp_all add: MarkerExpiry_def)

interpretation timed_markers: marker_cache "timed_ops MarkerExpiry" timed_invar timed_peek
  by (rule marker_cache.intro) (rule moka_cache_markers)

section \<open>Properties\<close>

text \<open>
  A confirmed miss is remembered for exactly its time to live at exactly its route, a zero
  time to live remembers nothing, and pattern invalidation forgets exactly the matching keys of
  the namespace.
\<close>

theorem miss_marker_lifetime:
  assumes "marker_cache ops invar peek" and "invar m" and "t \<le> u"
  shows "(fst (miss_contains ops (miss_insert ops m t n k ttl) u n' k') \<longleftrightarrow>
      (if (n', k') = (n, k) \<and> ttl \<noteq> 0 then u < t + ttl else fst (miss_contains ops m u n' k')))
    \<and> (fst (miss_contains ops (invalidate_pattern ops m t n p) u n' k') \<longleftrightarrow>
      (fst (miss_contains ops m u n' k') \<and> \<not> (n' = n \<and> pattern_selects p k')))"
  using marker_cache.peek_insert[OF assms(1-3), of n k ttl "(n', k')"]
    marker_cache.peek_invalidate_pattern[OF assms(1-3), of n p n' k']
    marker_cache.contains_eq[OF assms(1), of _ u n' k']
    marker_cache.miss_invars[OF assms(1,2)] assms(2)
  by auto

end
