(* ===== verification/Mutation_Shards.thy ===== *)
theory Mutation_Shards
  imports Miss_Cache
begin

text \<open>
  The table of routes with a provider refresh under way, \<open>mutation_shards\<close> of
  \<open>valkyr-core/src/broker.rs\<close>. It is split into 32 hash maps by the hash of the route. A
  \<open>MutationRouteState\<close> is shared (\<open>Arc\<close>): a task may hold one that the table has already
  dropped. It is therefore represented by its identity, the \<open>provider_refresh_id\<close> drawn when it
  is created, and its generation counter lives in a separate map from identities
  (\<open>route_generations\<close> of the broker).

  Rust's hash map iterates in an unspecified order; a shard is an association list here. The
  hash function of the standard library is unspecified and is an argument. The locale
  \<open>route_table\<close> is the interface the broker uses; the interpretation shows that the sharded
  table meets it for every hash function.
\<close>

section \<open>Definitions\<close>

definition MUTATION_SHARD_COUNT :: nat where
  "MUTATION_SHARD_COUNT = 32"

type_synonym mutation_route = "namespace_context \<times> key"
type_synonym shards = "(mutation_route \<times> uuid) list list"
type_synonym route_hash = "mutation_route \<Rightarrow> 64 word"

definition new_shards :: shards where
  "new_shards = replicate MUTATION_SHARD_COUNT []"

definition mutation_shard :: "route_hash \<Rightarrow> namespace_context \<Rightarrow> key \<Rightarrow> nat" where
  "mutation_shard hash namespace k = unat (hash (namespace, k)) mod MUTATION_SHARD_COUNT"

definition active_route_state ::
    "route_hash \<Rightarrow> shards \<Rightarrow> namespace_context \<Rightarrow> key \<Rightarrow> uuid option" where
  "active_route_state hash sh namespace k =
     map_of (sh ! mutation_shard hash namespace k) (namespace, k)"

definition get_or_create_route_state ::
    "route_hash \<Rightarrow> shards \<Rightarrow> uuid \<Rightarrow> namespace_context \<Rightarrow> key \<Rightarrow> uuid \<times> shards" where
  "get_or_create_route_state hash sh new_id namespace k =
     (let shard = mutation_shard hash namespace k;
          routes = sh ! shard
      in case map_of routes (namespace, k) of
           Some i \<Rightarrow> (i, sh)
         | None \<Rightarrow> (new_id, sh[shard := routes @ [((namespace, k), new_id)]]))"

definition release_route ::
    "route_hash \<Rightarrow> shards \<Rightarrow> namespace_context \<Rightarrow> key \<Rightarrow> uuid \<Rightarrow> shards" where
  "release_route hash sh namespace k refresh_id =
     (let shard = mutation_shard hash namespace k;
          routes = sh ! shard
      in if map_of routes (namespace, k) = Some refresh_id
         then sh[shard := filter (\<lambda>entry. fst entry \<noteq> (namespace, k)) routes]
         else sh)"

definition active_routes_in_namespace ::
    "shards \<Rightarrow> namespace_context \<Rightarrow> (mutation_route \<times> uuid) list" where
  "active_routes_in_namespace sh namespace =
     concat (map (filter (\<lambda>((route_namespace, _), _). route_namespace = namespace)) sh)"

definition active_route_count :: "shards \<Rightarrow> nat" where
  "active_route_count sh = sum_list (map length sh)"

section \<open>The interface\<close>

locale route_table =
  fixes empty :: "'t"
    and lookup :: "'t \<Rightarrow> namespace_context \<Rightarrow> key \<Rightarrow> uuid option"
    and create :: "'t \<Rightarrow> uuid \<Rightarrow> namespace_context \<Rightarrow> key \<Rightarrow> uuid \<times> 't"
    and release :: "'t \<Rightarrow> namespace_context \<Rightarrow> key \<Rightarrow> uuid \<Rightarrow> 't"
    and routes_in :: "'t \<Rightarrow> namespace_context \<Rightarrow> (mutation_route \<times> uuid) list"
    and count :: "'t \<Rightarrow> nat"
    and invar :: "'t \<Rightarrow> bool"
  assumes empty_table: "invar empty" "lookup empty n k = None"
    and create_table: "invar t \<Longrightarrow> invar (snd (create t i n k))"
      "invar t \<Longrightarrow> fst (create t i n k) = (case lookup t n k of Some j \<Rightarrow> j | None \<Rightarrow> i)"
      "invar t \<Longrightarrow> lookup (snd (create t i n k)) n' k' =
         (if (n', k') = (n, k) then Some (fst (create t i n k)) else lookup t n' k')"
    and release_table: "invar t \<Longrightarrow> invar (release t n k i)"
      "invar t \<Longrightarrow> lookup (release t n k i) n' k' =
         (if (n', k') = (n, k) \<and> lookup t n k = Some i then None else lookup t n' k')"
    and routes_distinct: "invar t \<Longrightarrow> distinct (map fst (routes_in t n))"
    and routes_lookup: "invar t \<Longrightarrow>
      ((n', k), i) \<in> set (routes_in t n) \<longleftrightarrow> n' = n \<and> lookup t n k = Some i"
    and count_lookup: "invar t \<Longrightarrow> count t = card {(n, k). lookup t n k \<noteq> None}"
begin

text \<open>No two routes share a state: the identities of the table's states are distinct.\<close>

definition separate :: "'t \<Rightarrow> bool" where
  "separate t \<longleftrightarrow> (\<forall>n k n' k' i. lookup t n k = Some i \<longrightarrow> lookup t n' k' = Some i \<longrightarrow> (n', k') = (n, k))"

lemma separate_empty: "separate empty"
  by (simp add: separate_def empty_table)

lemma separate_create:
  assumes "invar t" and "separate t" and "\<And>n' k'. lookup t n' k' \<noteq> Some i"
  shows "separate (snd (create t i n k))"
proof -
  have "fst (create t i n k) = i \<or> lookup t n k = Some (fst (create t i n k))"
    using create_table(2)[OF assms(1)] by (auto split: option.splits)
  then show ?thesis
    using assms unfolding separate_def by (auto simp: create_table(3) split: if_splits)
qed

lemma separate_release: "invar t \<Longrightarrow> separate t \<Longrightarrow> separate (release t n k i)"
  unfolding separate_def by (auto simp: release_table split: if_splits)

lemma distinct_route_ids:
  assumes "invar t" and "separate t"
  shows "distinct (map snd (routes_in t n))"
proof -
  have inj: "inj_on snd (set (routes_in t n))"
  proof (rule inj_onI)
    fix x y assume "x \<in> set (routes_in t n)" "y \<in> set (routes_in t n)" "snd x = snd y"
    then show "x = y"
      using routes_lookup[OF assms(1)] assms(2) unfolding separate_def
      by (metis prod.collapse prod.inject)
  qed
  have "distinct (routes_in t n)" using routes_distinct[OF assms(1)] by (simp add: distinct_map)
  then show ?thesis using inj by (simp add: distinct_map)
qed

end

section \<open>The sharded table meets the interface\<close>

definition shards_invar :: "route_hash \<Rightarrow> shards \<Rightarrow> bool" where
  "shards_invar hash sh \<longleftrightarrow>
     length sh = MUTATION_SHARD_COUNT
     \<and> (\<forall>i < length sh. distinct (map fst (sh ! i))
          \<and> (\<forall>((n, k), _) \<in> set (sh ! i). mutation_shard hash n k = i))"

lemma mutation_shard_bound: "shards_invar hash sh \<Longrightarrow> mutation_shard hash n k < length sh"
  by (simp add: shards_invar_def mutation_shard_def MUTATION_SHARD_COUNT_def)

lemma shards_invar_update:
  assumes "shards_invar hash sh" and "i < length sh" and "distinct (map fst xs)"
    and "\<And>n k j. ((n, k), j) \<in> set xs \<Longrightarrow> mutation_shard hash n k = i"
  shows "shards_invar hash (sh[i := xs])"
  using assms by (auto simp: shards_invar_def nth_list_update)

lemma shard_mem:
  assumes "shards_invar hash sh" and "((n, k), j) \<in> set (sh ! i)" and "i < length sh"
  shows "mutation_shard hash n k = i"
  using assms by (fastforce simp: shards_invar_def)

lemma shard_distinct: "shards_invar hash sh \<Longrightarrow> i < length sh \<Longrightarrow> distinct (map fst (sh ! i))"
  by (simp add: shards_invar_def)

lemma active_route_state_iff:
  assumes "shards_invar hash sh"
  shows "active_route_state hash sh n k = Some j \<longleftrightarrow> ((n, k), j) \<in> set (concat sh)"
proof
  assume "active_route_state hash sh n k = Some j"
  then show "((n, k), j) \<in> set (concat sh)"
    using mutation_shard_bound[OF assms, of n k]
    by (auto simp: active_route_state_def dest!: map_of_SomeD intro: nth_mem)
next
  assume "((n, k), j) \<in> set (concat sh)"
  then obtain i where i: "i < length sh" "((n, k), j) \<in> set (sh ! i)"
    by (auto simp: in_set_conv_nth) (metis nth_mem)
  then show "active_route_state hash sh n k = Some j"
    using shard_mem[OF assms i(2,1)] shard_distinct[OF assms i(1)]
    by (simp add: active_route_state_def)
qed

lemma map_of_filter_ne: "map_of (filter (\<lambda>e. fst e \<noteq> r) xs) r' = (if r' = r then None else map_of xs r')"
  by (induction xs) auto

lemma lookup_update:
  assumes "shards_invar hash sh" and "\<And>r. r \<noteq> (n, k) \<Longrightarrow> map_of xs r = map_of (sh ! mutation_shard hash n k) r"
  shows "active_route_state hash (sh[mutation_shard hash n k := xs]) n' k' =
     (if (n', k') = (n, k) then map_of xs (n, k) else active_route_state hash sh n' k')"
  using assms(2) mutation_shard_bound[OF assms(1)]
  by (auto simp: active_route_state_def nth_list_update)

lemma create_invar:
  assumes "shards_invar hash sh"
  shows "shards_invar hash (snd (get_or_create_route_state hash sh i n k))"
proof (cases "map_of (sh ! mutation_shard hash n k) (n, k)")
  case None
  have b: "mutation_shard hash n k < length sh" by (rule mutation_shard_bound[OF assms])
  have "(n, k) \<notin> fst ` set (sh ! mutation_shard hash n k)"
    using None by (simp add: map_of_eq_None_iff)
  then have "shards_invar hash (sh[mutation_shard hash n k :=
      sh ! mutation_shard hash n k @ [((n, k), i)]])"
    using shard_distinct[OF assms b] shard_mem[OF assms _ b]
    by (intro shards_invar_update[OF assms b]) auto
  with None show ?thesis by (simp add: get_or_create_route_state_def Let_def)
qed (simp add: get_or_create_route_state_def Let_def assms)

lemma create_lookup:
  assumes "shards_invar hash sh"
  shows "active_route_state hash (snd (get_or_create_route_state hash sh i n k)) n' k' =
     (if (n', k') = (n, k) then Some (fst (get_or_create_route_state hash sh i n k))
      else active_route_state hash sh n' k')"
proof (cases "map_of (sh ! mutation_shard hash n k) (n, k)")
  case None
  let ?xs = "sh ! mutation_shard hash n k @ [((n, k), i)]"
  have "map_of ?xs r = map_of (sh ! mutation_shard hash n k) r" if "r \<noteq> (n, k)" for r
    using that by (simp add: map_add_def split: option.split)
  from lookup_update[OF assms this, where n' = n' and k' = k'] None show ?thesis
    by (simp add: get_or_create_route_state_def Let_def map_add_def)
next
  case (Some j)
  then show ?thesis by (auto simp: get_or_create_route_state_def Let_def active_route_state_def)
qed

lemma release_invar:
  assumes "shards_invar hash sh"
  shows "shards_invar hash (release_route hash sh n k i)"
proof -
  have b: "mutation_shard hash n k < length sh" by (rule mutation_shard_bound[OF assms])
  have "shards_invar hash (sh[mutation_shard hash n k :=
      filter (\<lambda>e. fst e \<noteq> (n, k)) (sh ! mutation_shard hash n k)])"
    using shard_distinct[OF assms b] shard_mem[OF assms _ b]
    by (intro shards_invar_update[OF assms b]) (auto simp: distinct_map_filter)
  then show ?thesis using assms by (simp add: release_route_def Let_def)
qed

lemma release_lookup:
  assumes "shards_invar hash sh"
  shows "active_route_state hash (release_route hash sh n k i) n' k' =
     (if (n', k') = (n, k) \<and> active_route_state hash sh n k = Some i then None
      else active_route_state hash sh n' k')"
proof (cases "active_route_state hash sh n k = Some i")
  case True
  let ?xs = "filter (\<lambda>e. fst e \<noteq> (n, k)) (sh ! mutation_shard hash n k)"
  have "map_of ?xs r = map_of (sh ! mutation_shard hash n k) r" if "r \<noteq> (n, k)" for r
    using that by (simp add: map_of_filter_ne)
  from lookup_update[OF assms this, where n' = n' and k' = k'] True show ?thesis
    by (simp add: release_route_def Let_def active_route_state_def map_of_filter_ne)
next
  case False
  then show ?thesis by (auto simp: release_route_def Let_def active_route_state_def)
qed

lemma distinct_concat_by_index:
  assumes "\<And>i. i < length xss \<Longrightarrow> distinct (xss ! i)"
    and "\<And>i x. i < length xss \<Longrightarrow> x \<in> set (xss ! i) \<Longrightarrow> f x = i + c"
  shows "distinct (concat xss)"
  using assms
proof (induction xss arbitrary: c)
  case Nil
  then show ?case by simp
next
  case (Cons xs xss)
  have "distinct (concat xss)"
  proof (rule Cons.IH[of "Suc c"])
    show "distinct (xss ! i)" if "i < length xss" for i using Cons.prems(1)[of "Suc i"] that by simp
    show "f x = i + Suc c" if "i < length xss" "x \<in> set (xss ! i)" for i x
      using Cons.prems(2)[of "Suc i" x] that by simp
  qed
  moreover have "f x \<noteq> c" if x: "x \<in> set (concat xss)" for x
  proof -
    obtain ys where "ys \<in> set xss" "x \<in> set ys" using x by auto
    then obtain i where "i < length xss" "x \<in> set (xss ! i)" by (auto simp: in_set_conv_nth[of ys])
    then show ?thesis using Cons.prems(2)[of "Suc i" x] by simp
  qed
  ultimately show ?case using Cons.prems(1)[of 0] Cons.prems(2)[of 0] by fastforce
qed

lemma concat_distinct:
  assumes "shards_invar hash sh"
  shows "distinct (map fst (concat sh))"
proof -
  have "distinct (concat (map (map fst) sh))"
    using shard_distinct[OF assms] shard_mem[OF assms]
    by (intro distinct_concat_by_index[where f = "\<lambda>(n, k). mutation_shard hash n k" and c = 0]) auto
  then show ?thesis by (simp add: map_concat)
qed

lemma routes_in_concat:
  "active_routes_in_namespace sh n = filter (\<lambda>((n', _), _). n' = n) (concat sh)"
  by (simp add: active_routes_in_namespace_def filter_concat)

lemma active_routes_distinct:
  "shards_invar hash sh \<Longrightarrow> distinct (map fst (active_routes_in_namespace sh n))"
  using concat_distinct by (simp add: routes_in_concat distinct_map_filter)

lemma active_route_count_card:
  assumes "shards_invar hash sh"
  shows "active_route_count sh = card {(n, k). active_route_state hash sh n k \<noteq> None}"
proof -
  have "{(n, k). active_route_state hash sh n k \<noteq> None} = set (map fst (concat sh))"
    using active_route_state_iff[OF assms] by force
  then have "card {(n, k). active_route_state hash sh n k \<noteq> None} = length (concat sh)"
    using distinct_card[OF concat_distinct[OF assms]] by simp
  then show ?thesis by (simp add: active_route_count_def length_concat)
qed

lemma new_shards_invar: "shards_invar hash new_shards"
  by (simp add: shards_invar_def new_shards_def)

lemma new_shards_lookup: "active_route_state hash new_shards n k = None"
  by (simp add: active_route_state_def new_shards_def mutation_shard_def MUTATION_SHARD_COUNT_def)

interpretation shards: route_table new_shards "active_route_state hash" "get_or_create_route_state hash"
  "release_route hash" active_routes_in_namespace active_route_count "shards_invar hash"
  for hash :: route_hash
proof unfold_locales
  fix t :: shards and i n k n' k'
  show "shards_invar hash new_shards" "active_route_state hash new_shards n k = None"
    by (rule new_shards_invar, rule new_shards_lookup)
  assume inv: "shards_invar hash t"
  show "shards_invar hash (snd (get_or_create_route_state hash t i n k))" by (rule create_invar[OF inv])
  show "fst (get_or_create_route_state hash t i n k) =
      (case active_route_state hash t n k of Some j \<Rightarrow> j | None \<Rightarrow> i)"
    by (simp add: get_or_create_route_state_def active_route_state_def Let_def split: option.split)
  show "active_route_state hash (snd (get_or_create_route_state hash t i n k)) n' k' =
      (if (n', k') = (n, k) then Some (fst (get_or_create_route_state hash t i n k))
       else active_route_state hash t n' k')"
    by (rule create_lookup[OF inv])
  show "shards_invar hash (release_route hash t n k i)" by (rule release_invar[OF inv])
  show "active_route_state hash (release_route hash t n k i) n' k' =
      (if (n', k') = (n, k) \<and> active_route_state hash t n k = Some i then None
       else active_route_state hash t n' k')"
    by (rule release_lookup[OF inv])
  show "distinct (map fst (active_routes_in_namespace t n))" by (rule active_routes_distinct[OF inv])
  show "((n', k), i) \<in> set (active_routes_in_namespace t n) \<longleftrightarrow>
      n' = n \<and> active_route_state hash t n k = Some i"
    by (auto simp: routes_in_concat active_route_state_iff[OF inv])
  show "active_route_count t = card {(n, k). active_route_state hash t n k \<noteq> None}"
    by (rule active_route_count_card[OF inv])
qed

end
