(* ===== verification/Security.thy ===== *)
theory Security
  imports Store_Interface
begin

text \<open>
  Authentication and authorization, the first half of \<open>valkyr-core/src/security.rs\<close>.

  The session cache of \<open>AuthManager\<close> is a map from API keys to cache entries; the operations
  take the clock reading as an argument. The decoders \<open>serde\<close> derives are a function record,
  an argument of the definitions that use them. \<open>Instant + Duration\<close> is unbounded addition
  here: the session timeout is configuration and the sum stays far below the clock's range.
  Events of the session cache in any order are \<open>auth_event\<close>s, run one after the other (every
  method holds the cache's mutex throughout).
\<close>

section \<open>Roles and permissions\<close>

datatype role =
    RoleRead string
  | RoleWrite string
  | RoleReadEncrypted string
  | RoleWriteEncrypted string
  | RoleAdmin

datatype permission_operation = PermRead | PermWrite | PermReadEncrypted | PermWriteEncrypted | PermAdmin

record permission =
  perm_namespace :: "string option"
  perm_operations :: "permission_operation list"

datatype operation =
    OpRead | OpWrite | OpDelete | OpProvide | OpStore | OpReadEncrypted | OpWriteEncrypted

datatype auth_source = Registry_source | BootstrapAdmin

record auth_info =
  ai_api_key :: string
  ai_client_id :: string
  ai_roles :: "role list"
  ai_source :: auth_source
  authenticated_at :: instant

definition is_bootstrap_admin :: "auth_info \<Rightarrow> bool" where
  "is_bootstrap_admin info \<longleftrightarrow> ai_source info = BootstrapAdmin"

record auth_record =
  ar_client_id :: string
  ar_name :: string
  ar_roles :: "role list"
  ar_permissions :: "permission list"
  ar_enabled :: bool

definition enabled_by_default :: bool where
  "enabled_by_default = True"

definition MAX_AUTH_PERMISSIONS :: nat where
  "MAX_AUTH_PERMISSIONS = 256"

definition permission_role :: "string \<Rightarrow> permission_operation \<Rightarrow> role result" where
  "permission_role namespace operation =
     (case operation of
        PermRead \<Rightarrow> Inr (RoleRead namespace)
      | PermWrite \<Rightarrow> Inr (RoleWrite namespace)
      | PermReadEncrypted \<Rightarrow> Inr (RoleReadEncrypted namespace)
      | PermWriteEncrypted \<Rightarrow> Inr (RoleWriteEncrypted namespace)
      | PermAdmin \<Rightarrow> Inl (Panic ''admin is handled above''))"

definition into_roles :: "permission \<Rightarrow> role list result" where
  "into_roles p =
     (let operations = perm_operations p in
      if operations = []
      then Inl (InvalidAuthorization ''permission requires at least one operation'')
      else if list_ex (\<lambda>index. operations ! index \<in> set (take index operations)) [0..<length operations]
      then Inl (InvalidAuthorization ''permission operations must not contain duplicates'')
      else if PermAdmin \<in> set operations
      then (if length operations \<noteq> 1
            then Inl (InvalidAuthorization ''admin permission must not be combined with other operations'')
            else if perm_namespace p \<noteq> None
            then Inl (InvalidAuthorization ''admin permission must not include a namespace'')
            else Inr [RoleAdmin])
      else case perm_namespace p of
             None \<Rightarrow> Inl (InvalidAuthorization ''permission operations require a namespace'')
           | Some namespace \<Rightarrow>
               if trim namespace = []
               then Inl (InvalidAuthorization ''permission operations require a namespace'')
               else collect_results (permission_role namespace) operations)"

definition into_info :: "auth_record \<Rightarrow> string \<Rightarrow> instant \<Rightarrow> auth_info result" where
  "into_info r api_key now =
     (if trim (ar_client_id r) = []
      then Inl (InvalidAuthorization ''client_id is required'')
      else if trim (ar_name r) = []
      then Inl (InvalidAuthorization ''name is required'')
      else if \<not> ar_enabled r then Inl AuthenticationFailed
      else if length (ar_permissions r) > MAX_AUTH_PERMISSIONS
      then Inl (InvalidAuthorization ''too many permissions'')
      else if length (ar_roles r) + sum_list (map (\<lambda>p. length (perm_operations p)) (ar_permissions r))
              > MAX_AUTH_PERMISSIONS
      then Inl (InvalidAuthorization ''too many permissions'')
      else case collect_results into_roles (ar_permissions r) of
             Inl e \<Rightarrow> Inl e
           | Inr permission_roles \<Rightarrow>
               Inr \<lparr> ai_api_key = api_key, ai_client_id = ar_client_id r,
                     ai_roles = ar_roles r @ concat permission_roles,
                     ai_source = Registry_source, authenticated_at = now \<rparr>)"

definition namespace_permission_matches :: "string \<Rightarrow> string \<Rightarrow> bool" where
  "namespace_permission_matches pattern namespace =
     (case strip_suffix ''*'' pattern of
        Some prefix \<Rightarrow> starts_with prefix namespace
      | None \<Rightarrow>
          namespace = pattern
          \<or> (case strip_prefix pattern namespace of
               None \<Rightarrow> False
             | Some suffix \<Rightarrow> starts_with ''/'' suffix \<or> starts_with ''::'' suffix))"

definition role_allows :: "role \<Rightarrow> string \<Rightarrow> operation \<Rightarrow> bool" where
  "role_allows role namespace operation =
     (case role of
        RoleAdmin \<Rightarrow> True
      | RoleRead pattern \<Rightarrow> operation = OpRead \<and> namespace_permission_matches pattern namespace
      | RoleWrite pattern \<Rightarrow>
          operation \<in> {OpWrite, OpDelete, OpProvide, OpStore}
          \<and> namespace_permission_matches pattern namespace
      | RoleReadEncrypted pattern \<Rightarrow>
          operation = OpReadEncrypted \<and> namespace_permission_matches pattern namespace
      | RoleWriteEncrypted pattern \<Rightarrow>
          operation = OpWriteEncrypted \<and> namespace_permission_matches pattern namespace)"

section \<open>AuthManager\<close>

text \<open>The decoders that \<open>serde\<close> derives, and the text of a JSON value.\<close>

record security_key_record =
  sk_key :: string
  sk_created :: nat

record serde =
  auth_record_from_value :: "json \<Rightarrow> string + auth_record"
  security_key_from_value :: "json \<Rightarrow> string + security_key_record"
  value_to_string :: "json \<Rightarrow> string"

datatype auth_lookup = Authenticated auth_info | Pending | RejectedLookup

datatype auth_cache_entry =
    Loading (store_loading: bool) (dispatched: bool)
  | Ready (ready_info: auth_info) (ready_expires: instant) (scheduled: bool) (loading: bool)
  | Rejected (rejected_expires: instant)

record auth_manager =
  bootstrap_key :: "string option"
  timeout :: duration
  auth_cache :: "string \<rightharpoonup> auth_cache_entry"

definition AuthManager_with_bootstrap_admin :: "string option \<Rightarrow> duration \<Rightarrow> auth_manager" where
  "AuthManager_with_bootstrap_admin key session_timeout =
     \<lparr> bootstrap_key = key, timeout = session_timeout, auth_cache = Map.empty \<rparr>"

definition am_authenticate :: "auth_manager \<Rightarrow> instant \<Rightarrow> string \<Rightarrow> auth_lookup \<times> auth_manager" where
  "am_authenticate m now api_key =
     (if bootstrap_key m = Some api_key
      then (Authenticated \<lparr> ai_api_key = api_key, ai_client_id = ''bootstrap-admin'',
              ai_roles = [RoleAdmin], ai_source = BootstrapAdmin, authenticated_at = now \<rparr>, m)
      else
        let load = (Pending, m\<lparr> auth_cache := (auth_cache m)(api_key \<mapsto> Loading False False) \<rparr>)
        in case auth_cache m api_key of
             Some (Ready info expires sched loading') \<Rightarrow>
               if expires > now
               then (Authenticated info,
                     if \<not> loading' \<and> saturating_sub now (authenticated_at info) \<ge> timeout m div 2
                     then m\<lparr> auth_cache := (auth_cache m)(api_key \<mapsto> Ready info expires True loading') \<rparr>
                     else m)
               else load
           | Some (Loading _ _) \<Rightarrow> (Pending, m)
           | Some (Rejected expires) \<Rightarrow> if expires > now then (RejectedLookup, m) else load
           | None \<Rightarrow> load)"

definition take_store_load :: "auth_manager \<Rightarrow> string \<Rightarrow> bool \<times> auth_manager" where
  "take_store_load m api_key =
     (case auth_cache m api_key of
        Some (Loading False d) \<Rightarrow>
          (True, m\<lparr> auth_cache := (auth_cache m)(api_key \<mapsto> Loading True d) \<rparr>)
      | _ \<Rightarrow> (False, m))"

definition take_scheduled_load :: "auth_manager \<Rightarrow> string \<Rightarrow> bool \<times> auth_manager" where
  "take_scheduled_load m api_key =
     (case auth_cache m api_key of
        Some (Loading s False) \<Rightarrow>
          (True, m\<lparr> auth_cache := (auth_cache m)(api_key \<mapsto> Loading s True) \<rparr>)
      | Some (Ready info expires True False) \<Rightarrow>
          (True, m\<lparr> auth_cache := (auth_cache m)(api_key \<mapsto> Ready info expires False True) \<rparr>)
      | _ \<Rightarrow> (False, m))"

definition schedule_refresh :: "auth_manager \<Rightarrow> instant \<Rightarrow> string \<Rightarrow> bool \<times> auth_manager" where
  "schedule_refresh m now api_key =
     (case auth_cache m api_key of
        Some (Ready info expires sched loading') \<Rightarrow>
          if expires \<le> now \<or> loading' \<or> sched then (False, m)
          else (True, m\<lparr> auth_cache := (auth_cache m)(api_key \<mapsto> Ready info expires True loading') \<rparr>)
      | _ \<Rightarrow> (False, m))"

definition is_ready :: "auth_cache_entry option \<Rightarrow> bool" where
  "is_ready e \<longleftrightarrow> (case e of Some (Ready _ _ _ _) \<Rightarrow> True | _ \<Rightarrow> False)"

definition load_info :: "serde \<Rightarrow> instant \<Rightarrow> string \<Rightarrow> json option \<Rightarrow> auth_info result" where
  "load_info sd now api_key value =
     (case value of
        None \<Rightarrow> Inl AuthenticationFailed
      | Some v \<Rightarrow>
          (case auth_record_from_value sd v of
             Inl e \<Rightarrow> Inl (InvalidAuthorization e)
           | Inr record' \<Rightarrow> into_info record' api_key now))"

definition complete_load ::
    "serde \<Rightarrow> auth_manager \<Rightarrow> instant \<Rightarrow> string \<Rightarrow> json option \<Rightarrow> bool \<times> auth_manager" where
  "complete_load sd m now api_key value =
     (case load_info sd now api_key value of
        Inr info \<Rightarrow>
          (True, m\<lparr> auth_cache := (auth_cache m)(api_key \<mapsto> Ready info (now + timeout m) False False) \<rparr>)
      | Inl _ \<Rightarrow>
          if is_ready (auth_cache m api_key)
          then (False, m\<lparr> auth_cache := (auth_cache m)(api_key := None) \<rparr>)
          else (False, m\<lparr> auth_cache := (auth_cache m)(api_key \<mapsto> Rejected (now + timeout m)) \<rparr>))"

definition complete_provider_load ::
    "serde \<Rightarrow> auth_manager \<Rightarrow> instant \<Rightarrow> string \<Rightarrow> json option \<Rightarrow> duration option \<times> auth_manager" where
  "complete_provider_load sd m now api_key value =
     (case complete_load sd m now api_key value of
        (ok, m') \<Rightarrow> (if ok then Some (timeout m div 2) else None, m'))"

definition complete_store_load ::
    "serde \<Rightarrow> auth_manager \<Rightarrow> instant \<Rightarrow> string \<Rightarrow> json \<Rightarrow> auth_lookup \<times> auth_manager" where
  "complete_store_load sd m now api_key value =
     am_authenticate (snd (complete_load sd m now api_key (Some value))) now api_key"

definition replace_auth_record ::
    "serde \<Rightarrow> auth_manager \<Rightarrow> instant \<Rightarrow> string \<Rightarrow> json \<Rightarrow> auth_manager" where
  "replace_auth_record sd m now api_key value = snd (complete_load sd m now api_key (Some value))"

definition fail_provider_load :: "auth_manager \<Rightarrow> instant \<Rightarrow> string \<Rightarrow> auth_manager" where
  "fail_provider_load m now api_key =
     (if is_ready (auth_cache m api_key)
      then m\<lparr> auth_cache := (auth_cache m)(api_key := None) \<rparr>
      else m\<lparr> auth_cache := (auth_cache m)(api_key \<mapsto> Rejected (now + timeout m)) \<rparr>)"

definition am_authorize ::
    "auth_manager \<Rightarrow> instant \<Rightarrow> auth_info \<Rightarrow> namespace_context \<Rightarrow> operation \<Rightarrow> unit result" where
  "am_authorize m now auth namespace operation =
     (if is_bootstrap_admin auth then Inr ()
      else case auth_cache m (ai_api_key auth) of
             Some (Ready info expires _ _) \<Rightarrow>
               if expires \<le> now then Inl (PermissionDenied (as_str namespace))
               else if list_ex (\<lambda>role. role_allows role (as_str namespace) operation) (ai_roles info)
               then Inr ()
               else Inl (PermissionDenied (as_str namespace))
           | _ \<Rightarrow> Inl (PermissionDenied (as_str namespace)))"

definition am_disconnect :: "auth_manager \<Rightarrow> string \<Rightarrow> auth_manager" where
  "am_disconnect m api_key = m\<lparr> auth_cache := (auth_cache m)(api_key := None) \<rparr>"

definition session_timeout :: "auth_manager \<Rightarrow> duration" where
  "session_timeout m = timeout m"

section \<open>Authenticators\<close>

definition SimpleAuthenticator_authenticate ::
    "(string \<rightharpoonup> auth_record) \<Rightarrow> instant \<Rightarrow> string \<Rightarrow> auth_info result" where
  "SimpleAuthenticator_authenticate records now api_key =
     (case records api_key of
        None \<Rightarrow> Inl AuthenticationFailed
      | Some record' \<Rightarrow> into_info record' api_key now)"

definition StoreAuthenticator_authenticate ::
    "serde \<Rightarrow> 's store_ops \<Rightarrow> 's \<Rightarrow> instant \<Rightarrow> string \<Rightarrow> auth_info result \<times> 's" where
  "StoreAuthenticator_authenticate sd ops s now api_key =
     (case NamespaceContext_new ''/__auth'' of
        Inl e \<Rightarrow> (Inl e, s)
      | Inr namespace \<Rightarrow>
          (case Key_new api_key of
             Inl e \<Rightarrow> (Inl e, s)
           | Inr key' \<Rightarrow>
               (case st_get ops s now namespace key' of
                  (Inl e, s') \<Rightarrow> (Inl e, s')
                | (Inr stored, s') \<Rightarrow> (load_info sd now api_key (map_option sv_value stored), s'))))"

section \<open>Lemmas on roles and permissions\<close>

lemma namespace_permission_matches_star [simp]:
  "namespace_permission_matches (p @ ''*'') n \<longleftrightarrow> starts_with p n"
  by (simp add: namespace_permission_matches_def)

lemma namespace_permission_matches_plain:
  assumes "\<And>q. p \<noteq> q @ ''*''"
  shows "namespace_permission_matches p n \<longleftrightarrow> n = p \<or> (\<exists>r. n = p @ ''/'' @ r \<or> n = p @ ''::'' @ r)"
proof -
  have "strip_suffix ''*'' p = None" using assms by (simp add: strip_suffix_None_iff)
  then show ?thesis
    by (auto simp: namespace_permission_matches_def starts_with_iff strip_prefix_Some_iff
        split: option.split)
qed

lemma duplicate_free_iff:
  "list_ex (\<lambda>i. xs ! i \<in> set (take i xs)) [0..<length xs] \<longleftrightarrow> \<not> distinct xs"
proof -
  have "i < length xs \<Longrightarrow> xs ! i \<in> set (take i xs) \<longleftrightarrow> (\<exists>j < i. xs ! j = xs ! i)" for i
    by (auto simp: in_set_conv_nth)
  then have "list_ex (\<lambda>i. xs ! i \<in> set (take i xs)) [0..<length xs] \<longleftrightarrow>
      (\<exists>i < length xs. \<exists>j < i. xs ! j = xs ! i)"
    by (auto simp: list_ex_iff Bex_def)
  also have "\<dots> \<longleftrightarrow> \<not> distinct xs"
    unfolding distinct_conv_nth by (metis less_trans nat_neq_iff)
  finally show ?thesis .
qed

text \<open>What a permission group of a record grants, stated on the record itself.\<close>

fun operation_covers :: "permission_operation \<Rightarrow> operation \<Rightarrow> bool" where
  "operation_covers PermRead op \<longleftrightarrow> op = OpRead"
| "operation_covers PermWrite op \<longleftrightarrow> op \<in> {OpWrite, OpDelete, OpProvide, OpStore}"
| "operation_covers PermReadEncrypted op \<longleftrightarrow> op = OpReadEncrypted"
| "operation_covers PermWriteEncrypted op \<longleftrightarrow> op = OpWriteEncrypted"
| "operation_covers PermAdmin op \<longleftrightarrow> True"

definition permission_grants :: "permission \<Rightarrow> string \<Rightarrow> operation \<Rightarrow> bool" where
  "permission_grants p n op \<longleftrightarrow>
     (\<exists>o' \<in> set (perm_operations p). operation_covers o' op
        \<and> (o' = PermAdmin \<or> (\<exists>pat. perm_namespace p = Some pat \<and> namespace_permission_matches pat n)))"

text \<open>A group the decoder accepts: distinct operations, and admin alone without a namespace.\<close>

definition valid_permission :: "permission \<Rightarrow> bool" where
  "valid_permission p \<longleftrightarrow>
     perm_operations p \<noteq> [] \<and> distinct (perm_operations p)
     \<and> (if PermAdmin \<in> set (perm_operations p)
        then perm_operations p = [PermAdmin] \<and> perm_namespace p = None
        else \<exists>n. perm_namespace p = Some n \<and> trim n \<noteq> [])"

lemma admin_only: "PermAdmin \<in> set os \<Longrightarrow> length os = Suc 0 \<longleftrightarrow> os = [PermAdmin]"
  by (cases os) auto

lemma collect_permission_roles:
  "PermAdmin \<notin> set os \<Longrightarrow>
   collect_results (permission_role n) os = Inr (map (\<lambda>o'. projr (permission_role n o')) os)"
proof (rule collect_results_map)
  fix o' assume "PermAdmin \<notin> set os" "o' \<in> set os"
  then show "permission_role n o' = Inr (projr (permission_role n o'))"
    by (cases o') (auto simp: permission_role_def)
qed

lemma into_roles_Inr_iff:
  "(\<exists>roles. into_roles p = Inr roles) \<longleftrightarrow> valid_permission p"
  by (auto simp: into_roles_def valid_permission_def Let_def duplicate_free_iff admin_only
      collect_permission_roles split: option.splits)

lemma role_allows_permission_role:
  "o' \<noteq> PermAdmin \<Longrightarrow>
   role_allows (projr (permission_role pat o')) n op \<longleftrightarrow>
     operation_covers o' op \<and> namespace_permission_matches pat n"
  by (cases o') (auto simp: permission_role_def role_allows_def)

lemma into_roles_allow:
  assumes "into_roles p = Inr roles"
  shows "(\<exists>r \<in> set roles. role_allows r n op) \<longleftrightarrow> permission_grants p n op"
proof (cases "PermAdmin \<in> set (perm_operations p)")
  case True
  then have "roles = [RoleAdmin]"
    using assms by (auto simp: into_roles_def Let_def split: if_splits)
  then show ?thesis using True
    by (auto simp: role_allows_def permission_grants_def intro!: bexI[OF _ True])
next
  case False
  then obtain pat where pat: "perm_namespace p = Some pat"
    and roles: "roles = map (\<lambda>o'. projr (permission_role pat o')) (perm_operations p)"
    using assms by (auto simp: into_roles_def Let_def collect_permission_roles split: if_splits option.splits)
  from False have "\<And>o'. o' \<in> set (perm_operations p) \<Longrightarrow> o' \<noteq> PermAdmin" by auto
  then show ?thesis using pat roles by (auto simp: permission_grants_def role_allows_permission_role)
qed

lemma into_roles_length: "into_roles p = Inr roles \<Longrightarrow> length roles = length (perm_operations p)"
  by (auto simp: into_roles_def Let_def collect_permission_roles split: if_splits option.splits)

text \<open>A record the decoder accepts as a principal.\<close>

definition valid_record :: "auth_record \<Rightarrow> bool" where
  "valid_record r \<longleftrightarrow>
     trim (ar_client_id r) \<noteq> [] \<and> trim (ar_name r) \<noteq> [] \<and> ar_enabled r
     \<and> length (ar_permissions r) \<le> 256
     \<and> length (ar_roles r) + sum_list (map (length \<circ> perm_operations) (ar_permissions r)) \<le> 256
     \<and> list_all valid_permission (ar_permissions r)"

definition record_grants :: "auth_record \<Rightarrow> string \<Rightarrow> operation \<Rightarrow> bool" where
  "record_grants r n op \<longleftrightarrow>
     (\<exists>role \<in> set (ar_roles r). role_allows role n op)
     \<or> (\<exists>p \<in> set (ar_permissions r). permission_grants p n op)"

lemma collect_into_roles:
  "(\<exists>rss. collect_results into_roles ps = Inr rss) \<longleftrightarrow> list_all valid_permission ps"
proof (induction ps)
  case Nil
  then show ?case by simp
next
  case (Cons p ps)
  have "(\<exists>rss. collect_results into_roles (p # ps) = Inr rss) \<longleftrightarrow>
      (\<exists>rs. into_roles p = Inr rs) \<and> (\<exists>rss. collect_results into_roles ps = Inr rss)"
    by (auto split: sum.splits)
  then show ?case using Cons.IH by (simp add: into_roles_Inr_iff)
qed

lemma into_info_Inr_iff: "(\<exists>info. into_info r k t = Inr info) \<longleftrightarrow> valid_record r"
  unfolding valid_record_def collect_into_roles[symmetric] into_info_def MAX_AUTH_PERMISSIONS_def
  by (auto simp: o_def split: sum.splits)

lemma collect_into_roles_allow:
  assumes "collect_results into_roles ps = Inr rss"
  shows "(\<exists>r \<in> set (concat rss). role_allows r n op) \<longleftrightarrow> (\<exists>p \<in> set ps. permission_grants p n op)"
  using assms
proof (induction ps arbitrary: rss)
  case Nil
  then show ?case by simp
next
  case (Cons p ps)
  then obtain rs rss' where "into_roles p = Inr rs" "collect_results into_roles ps = Inr rss'"
    and "rss = rs # rss'" by (auto split: sum.splits)
  then show ?case using Cons.IH[of rss'] into_roles_allow[of p rs n op] by auto
qed

lemma into_info_Inr:
  assumes "into_info r k t = Inr info"
  shows "ai_api_key info = k" and "ai_source info = Registry_source" and "authenticated_at info = t"
    and "(\<exists>role \<in> set (ai_roles info). role_allows role n op) \<longleftrightarrow> record_grants r n op"
    and "length (ai_roles info) \<le> 256"
proof -
  obtain rss where rss: "collect_results into_roles (ar_permissions r) = Inr rss"
    and info: "info = \<lparr> ai_api_key = k, ai_client_id = ar_client_id r,
        ai_roles = ar_roles r @ concat rss, ai_source = Registry_source, authenticated_at = t \<rparr>"
    using assms by (auto simp: into_info_def split: if_splits sum.splits)
  show "ai_api_key info = k" "ai_source info = Registry_source" "authenticated_at info = t"
    by (simp_all add: info)
  show "(\<exists>role \<in> set (ai_roles info). role_allows role n op) \<longleftrightarrow> record_grants r n op"
    using collect_into_roles_allow[OF rss, of n op] by (auto simp: info record_grants_def)
  have "list_all2 (\<lambda>p rs. length rs = length (perm_operations p)) (ar_permissions r) rss"
    using rss[unfolded collect_results_Inr_iff] into_roles_length
    by (rule list_all2_mono)
  then have "length (concat rss) = sum_list (map (length \<circ> perm_operations) (ar_permissions r))"
    by (induction rule: list_all2_induct) auto
  moreover have "valid_record r" using assms into_info_Inr_iff by blast
  ultimately show "length (ai_roles info) \<le> 256" by (simp add: info valid_record_def)
qed

section \<open>Runs of the session cache\<close>

text \<open>
  One event per public method that changes the cache; \<open>complete_provider_load\<close>,
  \<open>complete_store_load\<close> and \<open>replace_auth_record\<close> are a completed load (the second followed by
  an \<open>authenticate\<close>).
\<close>

datatype auth_event =
    EvAuthenticate instant string
  | EvTakeStore string
  | EvTakeScheduled string
  | EvSchedule instant string
  | EvComplete instant string "json option"
  | EvFail instant string
  | EvDisconnect string

fun auth_step :: "serde \<Rightarrow> auth_event \<Rightarrow> auth_manager \<Rightarrow> auth_manager" where
  "auth_step sd (EvAuthenticate t k) m = snd (am_authenticate m t k)"
| "auth_step sd (EvTakeStore k) m = snd (take_store_load m k)"
| "auth_step sd (EvTakeScheduled k) m = snd (take_scheduled_load m k)"
| "auth_step sd (EvSchedule t k) m = snd (schedule_refresh m t k)"
| "auth_step sd (EvComplete t k v) m = snd (complete_load sd m t k v)"
| "auth_step sd (EvFail t k) m = fail_provider_load m t k"
| "auth_step sd (EvDisconnect k) m = am_disconnect m k"

text \<open>The events that decide or end the session of an API key.\<close>

fun decides :: "string \<Rightarrow> auth_event \<Rightarrow> bool" where
  "decides k (EvComplete _ k' _) \<longleftrightarrow> k' = k"
| "decides k (EvFail _ k') \<longleftrightarrow> k' = k"
| "decides k (EvDisconnect k') \<longleftrightarrow> k' = k"
| "decides k _ \<longleftrightarrow> False"

lemmas auth_defs = am_authenticate_def take_store_load_def take_scheduled_load_def
  schedule_refresh_def complete_load_def fail_provider_load_def am_disconnect_def

lemmas auth_entry_splits = option.splits auth_cache_entry.splits bool.splits if_splits sum.splits

text \<open>What an event that does not decide the session of \<open>k\<close> does to the entry of \<open>k\<close>.\<close>

definition same_session :: "auth_cache_entry option \<Rightarrow> auth_cache_entry option \<Rightarrow> bool" where
  "same_session e e' \<longleftrightarrow>
     (\<forall>info expires s' l'. e' = Some (Ready info expires s' l') \<longrightarrow>
        (\<exists>s l. e = Some (Ready info expires s l)))"

lemma step_timeout [simp]: "timeout (auth_step sd ev m) = timeout m"
  by (cases ev) (auto simp: auth_defs Let_def split: auth_entry_splits)

lemma step_bootstrap_key [simp]: "bootstrap_key (auth_step sd ev m) = bootstrap_key m"
  by (cases ev) (auto simp: auth_defs Let_def split: auth_entry_splits)

fun event_key :: "auth_event \<Rightarrow> string" where
  "event_key (EvAuthenticate _ k) = k"
| "event_key (EvTakeStore k) = k"
| "event_key (EvTakeScheduled k) = k"
| "event_key (EvSchedule _ k) = k"
| "event_key (EvComplete _ k _) = k"
| "event_key (EvFail _ k) = k"
| "event_key (EvDisconnect k) = k"

lemma step_other_key:
  "event_key ev \<noteq> k \<Longrightarrow> auth_cache (auth_step sd ev m) k = auth_cache m k"
  by (cases ev) (auto simp: auth_defs Let_def split: auth_entry_splits)

lemma step_same_session:
  "\<not> decides k ev \<Longrightarrow> same_session (auth_cache m k) (auth_cache (auth_step sd ev m) k)"
  by (cases ev) (auto simp: same_session_def auth_defs Let_def split: auth_entry_splits)

lemma decided_ready:
  assumes "decides k ev" and "auth_cache (auth_step sd ev m) k = Some (Ready info expires s l)"
  shows "\<exists>t v r. ev = EvComplete t k (Some v) \<and> auth_record_from_value sd v = Inr r
    \<and> into_info r k t = Inr info \<and> expires = t + timeout m"
  using assms
  by (cases ev) (auto simp: auth_defs load_info_def split: auth_entry_splits)

lemma run_timeout: "timeout (fold (auth_step sd) evs m) = timeout m"
  by (induction evs arbitrary: m) simp_all

definition session_origin ::
    "serde \<Rightarrow> duration \<Rightarrow> auth_event list \<Rightarrow> string \<Rightarrow> auth_info \<Rightarrow> instant \<Rightarrow> bool" where
  "session_origin sd T evs k info expires \<longleftrightarrow>
     (\<exists>before t v r after. evs = before @ EvComplete t k (Some v) # after
        \<and> auth_record_from_value sd v = Inr r \<and> into_info r k t = Inr info \<and> expires = t + T
        \<and> list_all (\<lambda>ev. \<not> decides k ev) after)"

lemma session_origin_extend:
  "session_origin sd T evs k info expires \<Longrightarrow> \<not> decides k ev \<Longrightarrow>
   session_origin sd T (evs @ [ev]) k info expires"
  unfolding session_origin_def by (fastforce simp: list_all_iff)

lemma ready_has_origin:
  assumes "auth_cache (fold (auth_step sd) evs (AuthManager_with_bootstrap_admin b T)) k =
      Some (Ready info expires s l)"
  shows "session_origin sd T evs k info expires"
  using assms
proof (induction evs arbitrary: s l rule: rev_induct)
  case Nil
  then show ?case by (simp add: AuthManager_with_bootstrap_admin_def)
next
  case (snoc ev evs)
  let ?m = "fold (auth_step sd) evs (AuthManager_with_bootstrap_admin b T)"
  have T: "timeout ?m = T" by (simp add: run_timeout AuthManager_with_bootstrap_admin_def)
  have now: "auth_cache (auth_step sd ev ?m) k = Some (Ready info expires s l)"
    using snoc.prems by simp
  show ?case
  proof (cases "decides k ev")
    case True
    from decided_ready[OF True now] T show ?thesis
      unfolding session_origin_def by (fastforce simp: list_all_iff)
  next
    case False
    then obtain s' l' where "auth_cache ?m k = Some (Ready info expires s' l')"
      using step_same_session[OF False, of ?m sd] now unfolding same_session_def by blast
    then show ?thesis using snoc.IH session_origin_extend False by blast
  qed
qed

text \<open>The other direction: a decided session stays until it expires or is decided again.\<close>

fun before_instant :: "string \<Rightarrow> instant \<Rightarrow> auth_event \<Rightarrow> bool" where
  "before_instant k e (EvAuthenticate t k') \<longleftrightarrow> k' = k \<longrightarrow> t < e"
| "before_instant k e _ \<longleftrightarrow> True"

lemma step_keeps_ready:
  assumes "auth_cache m k = Some (Ready info expires s l)"
    and "\<not> decides k ev" and "before_instant k expires ev"
  shows "\<exists>s' l'. auth_cache (auth_step sd ev m) k = Some (Ready info expires s' l') \<and> (l \<longrightarrow> l')"
proof (cases "event_key ev = k")
  case True
  then show ?thesis
    using assms by (cases ev; cases s; cases l) (auto simp: auth_defs Let_def)
next
  case False
  then show ?thesis using assms(1) by (simp add: step_other_key)
qed

lemma run_keeps_ready:
  assumes "auth_cache m k = Some (Ready info expires s l)"
    and "list_all (\<lambda>ev. \<not> decides k ev \<and> before_instant k expires ev) evs"
  shows "\<exists>s' l'. auth_cache (fold (auth_step sd) evs m) k = Some (Ready info expires s' l') \<and> (l \<longrightarrow> l')"
  using assms
proof (induction evs arbitrary: m s l)
  case Nil
  then show ?case by simp
next
  case (Cons ev evs)
  then obtain s1 l1 where "auth_cache (auth_step sd ev m) k = Some (Ready info expires s1 l1)"
    and "l \<longrightarrow> l1" using step_keeps_ready[of m k info expires s l ev sd] by auto
  then show ?case using Cons.IH[of "auth_step sd ev m" s1 l1] Cons.prems(2) by auto
qed

lemma run_keeps_loading:
  assumes "auth_cache m k = Some (Loading s True)" and "list_all (\<lambda>ev. \<not> decides k ev) evs"
  shows "\<exists>s'. auth_cache (fold (auth_step sd) evs m) k = Some (Loading s' True)"
  using assms
proof (induction evs arbitrary: m s)
  case Nil
  then show ?case by simp
next
  case (Cons ev evs)
  have "\<exists>s'. auth_cache (auth_step sd ev m) k = Some (Loading s' True)"
  proof (cases "event_key ev = k")
    case True
    then show ?thesis using Cons.prems by (cases ev; cases s) (auto simp: auth_defs Let_def)
  next
    case False
    then show ?thesis using Cons.prems by (simp add: step_other_key)
  qed
  then show ?case using Cons.IH Cons.prems(2) by fastforce
qed

lemma am_authorize_registry:
  assumes "ai_source auth \<noteq> BootstrapAdmin"
  shows "am_authorize m u auth n op = Inr () \<longleftrightarrow>
    (\<exists>info expires s l. auth_cache m (ai_api_key auth) = Some (Ready info expires s l)
       \<and> u < expires \<and> (\<exists>role \<in> set (ai_roles info). role_allows role (as_str n) op))"
  using assms
  by (auto simp: am_authorize_def is_bootstrap_admin_def list_ex_iff
      split: option.splits auth_cache_entry.splits)

lemma am_authorize_error:
  "am_authorize m u auth n op \<noteq> Inr () \<longleftrightarrow> am_authorize m u auth n op = Inl (PermissionDenied (as_str n))"
  by (auto simp: am_authorize_def split: option.splits auth_cache_entry.splits)

section \<open>Properties\<close>

text \<open>
  An authorization record turns into a principal exactly when it is valid (named, enabled, at
  most 256 permissions after expansion, every group well formed), and the roles of that principal
  allow exactly what the record's roles and permission groups grant, with a bound on their number.
\<close>

theorem record_principal_authority:
  "(case into_info r k t of
      Inl _ \<Rightarrow> \<not> valid_record r
    | Inr info \<Rightarrow> valid_record r \<and> ai_api_key info = k \<and> \<not> is_bootstrap_admin info
        \<and> length (ai_roles info) \<le> MAX_AUTH_PERMISSIONS
        \<and> (\<forall>n op. list_ex (\<lambda>role. role_allows role n op) (ai_roles info) = record_grants r n op))"
proof (cases "into_info r k t")
  case (Inl e)
  then show ?thesis using into_info_Inr_iff[of r k t] by simp
next
  case (Inr info)
  then show ?thesis
    using into_info_Inr[OF Inr] into_info_Inr_iff[of r k t]
    by (auto simp: is_bootstrap_admin_def MAX_AUTH_PERMISSIONS_def list_ex_iff)
qed

text \<open>
  C4. Authority always comes from a live record: after any sequence of operations on the session
  cache, an authorization of a registry principal succeeds only if its API key's last deciding
  event completed a load, less than one session timeout ago, of a valid record that grants the
  operation at the namespace. Failed loads, disconnects and failed refreshes therefore revoke.
\<close>

theorem authority_needs_live_record:
  assumes "am_authorize (fold (auth_step sd) evs (AuthManager_with_bootstrap_admin b T)) u auth n op = Inr ()"
    and "ai_source auth \<noteq> BootstrapAdmin"
  shows "\<exists>before t v r after. evs = before @ EvComplete t (ai_api_key auth) (Some v) # after
    \<and> list_all (\<lambda>ev. \<not> decides (ai_api_key auth) ev) after
    \<and> u < t + T \<and> auth_record_from_value sd v = Inr r
    \<and> valid_record r \<and> record_grants r (as_str n) op"
proof -
  let ?k = "ai_api_key auth"
  obtain info expires where "session_origin sd T evs ?k info expires" and "u < expires"
    and allows: "\<exists>role \<in> set (ai_roles info). role_allows role (as_str n) op"
    using assms(1)[unfolded am_authorize_registry[OF assms(2)]] ready_has_origin by blast
  then obtain before t v r after where "evs = before @ EvComplete t ?k (Some v) # after"
    and "auth_record_from_value sd v = Inr r" and info: "into_info r ?k t = Inr info"
    and "expires = t + T" and "list_all (\<lambda>ev. \<not> decides ?k ev) after"
    unfolding session_origin_def by blast
  moreover have "valid_record r" using info into_info_Inr_iff by blast
  moreover have "record_grants r (as_str n) op" using into_info_Inr(4)[OF info] allows by blast
  ultimately show ?thesis using \<open>u < expires\<close> by blast
qed

text \<open>
  A completed load grants until the session timeout: from any state, after a load of a valid
  record, and whatever else happens that does not decide the session again, every operation the
  record grants is authorized before the timeout has passed, and no other.
\<close>

theorem completed_load_grants_until_timeout:
  assumes "auth_record_from_value sd v = Inr r" and "valid_record r"
    and "list_all (\<lambda>ev. \<not> decides (ai_api_key auth) ev
        \<and> before_instant (ai_api_key auth) (t + timeout m) ev) after"
    and "ai_source auth = Registry_source" and "u < t + timeout m"
  shows "am_authorize (fold (auth_step sd) (EvComplete t (ai_api_key auth) (Some v) # after) m) u auth n op
     = (if record_grants r (as_str n) op then Inr () else Inl (PermissionDenied (as_str n)))"
proof -
  let ?k = "ai_api_key auth"
  let ?m = "auth_step sd (EvComplete t ?k (Some v)) m"
  obtain info where info: "into_info r ?k t = Inr info" using assms(2) into_info_Inr_iff by blast
  have "auth_cache ?m ?k = Some (Ready info (t + timeout m) False False)"
    using assms(1) info by (simp add: complete_load_def load_info_def)
  from run_keeps_ready[OF this assms(3), of sd] obtain s l where
    entry: "auth_cache (fold (auth_step sd) after ?m) ?k = Some (Ready info (t + timeout m) s l)"
    by blast
  have "am_authorize (fold (auth_step sd) after ?m) u auth n op = Inr () \<longleftrightarrow> record_grants r (as_str n) op"
    using am_authorize_registry[of auth] into_info_Inr(4)[OF info] entry assms(4,5) by auto
  then show ?thesis using am_authorize_error by auto
qed

text \<open>
  At most one provider load is in flight for an API key: after a load was taken, no sequence
  of operations lets another be taken before the load completes, fails or the key disconnects
  (for a refresh, before the refreshed session expires).
\<close>

theorem provider_load_single_flight:
  assumes "take_scheduled_load m k = (True, m')"
    and "list_all (\<lambda>ev. \<not> decides k ev) evs"
    and "\<And>info expires s l. auth_cache m k = Some (Ready info expires s l) \<Longrightarrow>
        list_all (before_instant k expires) evs"
  shows "take_scheduled_load (fold (auth_step sd) evs m') k = (False, fold (auth_step sd) evs m')"
proof -
  consider (load) s where "auth_cache m' k = Some (Loading s True)"
    | (refresh) info expires where "auth_cache m k = Some (Ready info expires True False)"
        "auth_cache m' k = Some (Ready info expires False True)"
    using assms(1) by (auto simp: take_scheduled_load_def split: auth_entry_splits)
  then show ?thesis
  proof cases
    case load
    then show ?thesis
      using run_keeps_loading[OF load assms(2), of sd] by (auto simp: take_scheduled_load_def)
  next
    case refresh
    then have "list_all (\<lambda>ev. \<not> decides k ev \<and> before_instant k expires ev) evs"
      using assms(2) assms(3)[OF refresh(1)] by (simp add: list_all_iff)
    from run_keeps_ready[OF refresh(2) this, of sd] show ?thesis
      by (auto simp: take_scheduled_load_def split: bool.splits)
  qed
qed

text \<open>A decoder and a record for the concrete instances.\<close>

definition sample_record :: auth_record where
  "sample_record = \<lparr> ar_client_id = ''reader'', ar_name = ''Reader'', ar_roles = [],
     ar_permissions = [\<lparr> perm_namespace = Some ''/people'', perm_operations = [PermRead] \<rparr>],
     ar_enabled = True \<rparr>"

definition sample_serde :: serde where
  "sample_serde = \<lparr> auth_record_from_value = (\<lambda>v. if v = JNull then Inl ''invalid type'' else Inr sample_record),
     security_key_from_value =
       (\<lambda>v. case v of JString s \<Rightarrow> Inr \<lparr> sk_key = s, sk_created = 0 \<rparr> | _ \<Rightarrow> Inl ''invalid type''),
     value_to_string = (\<lambda>v. ''null'') \<rparr>"

definition sample_auth :: auth_info where
  "sample_auth = \<lparr> ai_api_key = ''k1'', ai_client_id = ''reader'', ai_roles = [],
     ai_source = Registry_source, authenticated_at = 0 \<rparr>"

lemma sample_record_valid: "valid_record sample_record"
proof -
  have "trim ''reader'' \<noteq> []" "trim ''Reader'' \<noteq> []" "trim ''/people'' \<noteq> []" by code_simp+
  then show ?thesis by (simp add: valid_record_def sample_record_def valid_permission_def)
qed

theorem authority_needs_live_record_witness:
  "\<exists>before t v r after. [EvAuthenticate 1 ''k1'', EvComplete 2 ''k1'' (Some (JBool True))] =
        before @ EvComplete t (ai_api_key sample_auth) (Some v) # after
    \<and> list_all (\<lambda>ev. \<not> decides (ai_api_key sample_auth) ev) after
    \<and> 5 < t + 10 \<and> auth_record_from_value sample_serde v = Inr r
    \<and> valid_record r \<and> record_grants r (as_str \<lparr> ns_value = ''/people::x'', ctx_start = Some 9 \<rparr>) OpRead"
proof (rule authority_needs_live_record[where b = None])
  show "am_authorize (fold (auth_step sample_serde)
      [EvAuthenticate 1 ''k1'', EvComplete 2 ''k1'' (Some (JBool True))]
      (AuthManager_with_bootstrap_admin None 10)) 5 sample_auth
      \<lparr> ns_value = ''/people::x'', ctx_start = Some 9 \<rparr> OpRead = Inr ()"
    by code_simp
  show "ai_source sample_auth \<noteq> BootstrapAdmin" by (simp add: sample_auth_def)
qed

end
