(* ===== verification/Cipher.thy ===== *)
theory Cipher
  imports Security
begin

text \<open>
  Value encryption, the second half of \<open>valkyr-core/src/security.rs\<close>: hexadecimal keys, the
  additional data a ciphertext is bound to, and the versioned envelope. The AEAD, base64 and
  JSON text libraries are the record \<open>crypto\<close>, an argument of the definitions; bytes are HOL
  characters. The random nonce is an argument of \<open>encrypt\<close>. \<open>crypto_laws\<close> states what the
  code relies on: 32-byte keys, decryption undoing encryption, and base64 decoding undoing
  encoding.
\<close>

section \<open>Definitions\<close>

record crypto =
  aead_new_from_slice :: "string \<Rightarrow> bool"
  aead_encrypt :: "string \<Rightarrow> string \<Rightarrow> string \<Rightarrow> string \<Rightarrow> string option"
  aead_decrypt :: "string \<Rightarrow> string \<Rightarrow> string \<Rightarrow> string \<Rightarrow> string option"
  b64_encode :: "string \<Rightarrow> string"
  b64_decode :: "string \<Rightarrow> string + string"
  json_to_vec :: "json \<Rightarrow> string + string"
  json_from_slice :: "string \<Rightarrow> string + json"

definition XNONCE_LEN :: nat where
  "XNONCE_LEN = 24"

definition hex_pair :: "string \<Rightarrow> nat \<Rightarrow> char result" where
  "hex_pair value index =
     (if \<not> (is_char_boundary value index \<and> is_char_boundary value (index + 2))
      then Inl (Panic ''byte index is not a char boundary'')
      else case from_str_radix 255 16 (slice index (index + 2) value) of
             None \<Rightarrow> Inl (Encryption ''key is not hexadecimal'')
           | Some n \<Rightarrow> Inr (char_of n))"

definition hex_decode :: "string \<Rightarrow> string result" where
  "hex_decode value =
     (if length value mod 2 \<noteq> 0 then Inl (Encryption ''key is not hexadecimal'')
      else collect_results (hex_pair value) (map (\<lambda>i. 2 * i) [0..<length value div 2]))"

definition cipher :: "crypto \<Rightarrow> string \<Rightarrow> string result" where
  "cipher cr key_hex =
     (case hex_decode key_hex of
        Inl e \<Rightarrow> Inl e
      | Inr bytes \<Rightarrow>
          if aead_new_from_slice cr bytes then Inr bytes
          else Inl (Encryption ''key must be exactly 32 bytes encoded as hexadecimal''))"

definition aad :: "namespace_context \<Rightarrow> key \<Rightarrow> string" where
  "aad namespace k = ns namespace @ [CHR 0x0A] @ key_str k"

definition ValueCipher_encrypt ::
    "crypto \<Rightarrow> string \<Rightarrow> string \<Rightarrow> namespace_context \<Rightarrow> key \<Rightarrow> json \<Rightarrow> json result" where
  "ValueCipher_encrypt cr nonce key_hex namespace k value =
     (case cipher cr key_hex of
        Inl e \<Rightarrow> Inl e
      | Inr c \<Rightarrow>
          (case json_to_vec cr value of
             Inl e \<Rightarrow> Inl (Encryption e)
           | Inr plaintext \<Rightarrow>
               (case aead_encrypt cr c nonce (aad namespace k) plaintext of
                  None \<Rightarrow> Inl (Encryption ''encryption rejected the input'')
                | Some ciphertext \<Rightarrow>
                    Inr (JObject
                      [(''ciphertext'', JString (b64_encode cr ciphertext)),
                       (''nonce'', JString (b64_encode cr nonce)),
                       (''version'', JNumber (PosInt 1))]))))"

definition envelope_text :: "string \<Rightarrow> json \<Rightarrow> string result" where
  "envelope_text field envelope =
     (case Option.bind (json_get field envelope) json_as_str of
        None \<Rightarrow> Inl (Encryption (''missing '' @ field))
      | Some text \<Rightarrow> Inr text)"

definition ValueCipher_decrypt ::
    "crypto \<Rightarrow> string \<Rightarrow> namespace_context \<Rightarrow> key \<Rightarrow> json \<Rightarrow> json result" where
  "ValueCipher_decrypt cr key_hex namespace k envelope =
     (case cipher cr key_hex of
        Inl e \<Rightarrow> Inl e
      | Inr c \<Rightarrow>
     (case envelope_text ''nonce'' envelope of
        Inl e \<Rightarrow> Inl e
      | Inr nonce_text \<Rightarrow>
     (case envelope_text ''ciphertext'' envelope of
        Inl e \<Rightarrow> Inl e
      | Inr ciphertext_text \<Rightarrow>
     (if Option.bind (json_get ''version'' envelope) json_as_u64 \<noteq> Some 1
      then Inl (Encryption ''unsupported envelope version'')
      else
     (case b64_decode cr nonce_text of
        Inl e \<Rightarrow> Inl (Encryption e)
      | Inr nonce \<Rightarrow>
     (case b64_decode cr ciphertext_text of
        Inl e \<Rightarrow> Inl (Encryption e)
      | Inr ciphertext \<Rightarrow>
     (if length nonce \<noteq> XNONCE_LEN
      then Inl (Panic ''slice length does not match the nonce length'')
      else
     (case aead_decrypt cr c nonce (aad namespace k) ciphertext of
        None \<Rightarrow> Inl (Encryption ''decryption failed'')
      | Some plaintext \<Rightarrow>
     (case json_from_slice cr plaintext of
        Inl e \<Rightarrow> Inl (Encryption e)
      | Inr value \<Rightarrow> Inr value)))))))))"

section \<open>Hexadecimal keys\<close>

definition hex_encode :: "string \<Rightarrow> string" where
  "hex_encode bytes = concat (map (\<lambda>b. [hex_digit (of_char b div 16), hex_digit (of_char b mod 16)]) bytes)"

lemma hex_digit_ascii: "d < 16 \<Longrightarrow> \<not> is_continuation (hex_digit d)"
  by (auto simp: is_continuation_def hex_digit_def)

lemma hex_digit_not_plus: "d < 16 \<Longrightarrow> hex_digit d \<noteq> CHR ''+''"
proof -
  assume d: "d < 16"
  then have "(of_char (hex_digit d) :: nat) \<noteq> of_char CHR ''+''" by (simp add: hex_digit_def)
  then show ?thesis by auto
qed

lemma length_hex_encode [simp]: "length (hex_encode bs) = 2 * length bs"
  by (induction bs) (simp_all add: hex_encode_def)

lemma char_high_nibble [simp]: "(of_char (b :: char) :: nat) div 16 < 16"
  by (rule less_mult_imp_div_less) simp

lemma hex_encode_ascii: "c \<in> set (hex_encode bs) \<Longrightarrow> \<not> is_continuation c"
  by (auto simp: hex_encode_def hex_digit_ascii)

lemma hex_encode_slice:
  "i < length bs \<Longrightarrow> slice (2 * i) (Suc (Suc (2 * i))) (hex_encode bs) =
     [hex_digit (of_char (bs ! i) div 16), hex_digit (of_char (bs ! i) mod 16)]"
proof (induction bs arbitrary: i)
  case Nil
  then show ?case by simp
next
  case (Cons b bs)
  then show ?case by (cases i) (auto simp: hex_encode_def slice_def)
qed

lemma ascii_is_char_boundary:
  "(\<And>c. c \<in> set s \<Longrightarrow> \<not> is_continuation c) \<Longrightarrow> i \<le> length s \<Longrightarrow> is_char_boundary s i"
  by (auto simp: is_char_boundary_def)

lemma hex_pair_value:
  fixes b :: char
  shows "from_str_radix 255 16 [hex_digit (of_char b div 16), hex_digit (of_char b mod 16)] =
     Some (of_char b)"
proof -
  have "(of_char b :: nat) < 256" by simp
  then have b: "(of_char b :: nat) \<le> 255" by linarith
  have "(of_char b :: nat) mod 16 < 16" by simp
  moreover have "(of_char b :: nat) div 16 * 16 + of_char b mod 16 = of_char b" by simp
  ultimately show ?thesis
    using b by (simp add: from_str_radix_def Let_def hex_digit_not_plus to_digit_hex_digit)
qed

lemma hex_decode_encode: "hex_decode (hex_encode bs) = Inr bs"
proof -
  have "hex_pair (hex_encode bs) (2 * i) = Inr (bs ! i)" if "i < length bs" for i
  proof -
    have "is_char_boundary (hex_encode bs) (2 * i)" "is_char_boundary (hex_encode bs) (2 * i + 2)"
      using that by (auto intro!: ascii_is_char_boundary hex_encode_ascii)
    then show ?thesis using that by (simp add: hex_pair_def hex_encode_slice hex_pair_value)
  qed
  then have "collect_results (hex_pair (hex_encode bs)) (map (\<lambda>i. 2 * i) [0..<length bs]) =
      Inr (map (\<lambda>j. bs ! (j div 2)) (map (\<lambda>i. 2 * i) [0..<length bs]))"
    by (intro collect_results_map) auto
  also have "map (\<lambda>j. bs ! (j div 2)) (map (\<lambda>i. 2 * i) [0..<length bs]) = bs"
    by (simp add: o_def map_nth)
  finally show ?thesis by (simp add: hex_decode_def)
qed

lemma hex_decode_length: "hex_decode s = Inr bs \<Longrightarrow> length s = 2 * length bs"
  by (auto simp: hex_decode_def collect_results_Inr_iff dest!: list_all2_lengthD split: if_splits)

section \<open>The libraries\<close>

locale crypto_laws =
  fixes cr :: crypto
  assumes accepts_32_bytes: "aead_new_from_slice cr bytes \<longleftrightarrow> length bytes = 32"
    and decrypt_encrypt: "aead_new_from_slice cr c \<Longrightarrow> length nonce = XNONCE_LEN \<Longrightarrow>
      aead_encrypt cr c nonce a msg = Some ct \<Longrightarrow> aead_decrypt cr c nonce a ct = Some msg"
    and b64_roundtrip: "b64_decode cr (b64_encode cr bytes) = Inr bytes"
begin

lemma cipher_hex_encode: "length bytes = 32 \<Longrightarrow> cipher cr (hex_encode bytes) = Inr bytes"
  by (simp add: cipher_def hex_decode_encode accepts_32_bytes)

lemma cipher_Inr: "cipher cr h = Inr c \<Longrightarrow> hex_decode h = Inr c \<and> length c = 32 \<and> length h = 64"
  using hex_decode_length by (fastforce simp: cipher_def accepts_32_bytes split: sum.splits if_splits)

lemma decrypt_encrypted:
  assumes "ValueCipher_encrypt cr nonce h n k v = Inr envelope"
    and "length nonce = XNONCE_LEN"
    and "\<And>bytes. json_to_vec cr v = Inr bytes \<Longrightarrow> json_from_slice cr bytes = Inr v"
    and "ns n' = ns n"
  shows "ValueCipher_decrypt cr h n' k envelope = Inr v"
proof -
  obtain c bytes ct where c: "cipher cr h = Inr c" and bytes: "json_to_vec cr v = Inr bytes"
    and ct: "aead_encrypt cr c nonce (aad n k) bytes = Some ct"
    and envelope: "envelope = JObject [(''ciphertext'', JString (b64_encode cr ct)),
        (''nonce'', JString (b64_encode cr nonce)), (''version'', JNumber (PosInt 1))]"
    using assms(1) by (auto simp: ValueCipher_encrypt_def split: sum.splits option.splits)
  have "aead_new_from_slice cr c" using cipher_Inr[OF c] by (simp add: accepts_32_bytes)
  then have "aead_decrypt cr c nonce (aad n' k) ct = Some bytes"
    using decrypt_encrypt assms(2,4) ct by (simp add: aad_def)
  then show ?thesis
    by (simp add: ValueCipher_decrypt_def c envelope envelope_text_def b64_roundtrip
        assms(2) assms(3)[OF bytes])
qed

end

text \<open>
  Libraries for the concrete instances: a cipher that appends the additional data and checks it,
  the identity as the text encoding, and string values as their own JSON text.
\<close>

definition sample_crypto :: crypto where
  "sample_crypto =
     \<lparr> aead_new_from_slice = (\<lambda>bytes. length bytes = 32),
       aead_encrypt = (\<lambda>c nonce a msg. Some (msg @ nonce @ a)),
       aead_decrypt = (\<lambda>c nonce a ct. strip_suffix (nonce @ a) ct),
       b64_encode = id,
       b64_decode = Inr,
       json_to_vec = (\<lambda>v. case v of JString s \<Rightarrow> Inr s | _ \<Rightarrow> Inl ''unsupported''),
       json_from_slice = (\<lambda>bytes. Inr (JString bytes)) \<rparr>"

interpretation sample_cipher: crypto_laws sample_crypto
  by unfold_locales (auto simp: sample_crypto_def strip_suffix_Some_iff)

section \<open>Properties\<close>

text \<open>
  Encryption round trip and context moves: whatever the cipher encrypts at a namespace and
  key decrypts to the same value under the same key, at every namespace with the same base
  namespace, so a move between contexts keeps encrypted values readable.
\<close>

theorem encrypted_value_roundtrip:
  assumes "crypto_laws cr"
    and "ValueCipher_encrypt cr nonce h n k v = Inr envelope"
    and "length nonce = XNONCE_LEN"
    and "\<And>bytes. json_to_vec cr v = Inr bytes \<Longrightarrow> json_from_slice cr bytes = Inr v"
    and "validate_context_move n n' = Inr ()"
  shows "ValueCipher_decrypt cr h n k envelope = Inr v \<and> ValueCipher_decrypt cr h n' k envelope = Inr v"
proof -
  have "ns n' = ns n" using assms(5) by (auto simp: validate_context_move_def split: if_splits)
  then show ?thesis using crypto_laws.decrypt_encrypted[OF assms(1-4)] by simp
qed

text \<open>
  The data a ciphertext is bound to identifies the base namespace and the key exactly, for
  namespaces and keys without a line feed.
\<close>

theorem aad_binds_base_namespace_and_key:
  assumes "CHR 0x0A \<notin> set (ns n)" and "CHR 0x0A \<notin> set (ns n')"
  shows "aad n k = aad n' k' \<longleftrightarrow> ns n = ns n' \<and> k = k'"
proof
  assume eq: "aad n k = aad n' k'"
  then have "takeWhile (\<lambda>c. c \<noteq> CHR 0x0A) (aad n k) = takeWhile (\<lambda>c. c \<noteq> CHR 0x0A) (aad n' k')"
    by simp
  then have "ns n = ns n'"
    using assms by (simp add: aad_def)
  then show "ns n = ns n' \<and> k = k'" using eq by (simp add: aad_def key.expand)
qed (simp add: aad_def)

text \<open>
  The hexadecimal key decoder undoes encoding for every byte string; it returns bytes only for
  texts of twice their length. A text of even length whose two-byte pieces cut a multi-byte
  character panics instead of being reported as not hexadecimal.
\<close>

theorem hex_key_decoding:
  "hex_decode (hex_encode bytes) = Inr bytes
   \<and> (case hex_decode s of Inr bs \<Rightarrow> length s = 2 * length bs | Inl _ \<Rightarrow> True)
   \<and> hex_decode [CHR 0xE2, CHR 0x82, CHR 0xAC, CHR ''0''] = Inl (Panic ''byte index is not a char boundary'')"
proof -
  have "hex_decode [CHR 0xE2, CHR 0x82, CHR 0xAC, CHR ''0''] = Inl (Panic ''byte index is not a char boundary'')"
    by code_simp
  moreover have "case hex_decode s of Inr bs \<Rightarrow> length s = 2 * length bs | Inl _ \<Rightarrow> True"
    using hex_decode_length[of s] by (simp split: sum.split)
  ultimately show ?thesis using hex_decode_encode by blast
qed

section \<open>Witnesses\<close>

definition sample_key_hex :: string where
  "sample_key_hex = hex_encode (replicate 32 (CHR 0x11))"

definition draft_ns :: namespace_context where
  "draft_ns = \<lparr> ns_value = ''/users::draft'', ctx_start = Some 8 \<rparr>"

definition published_ns :: namespace_context where
  "published_ns = \<lparr> ns_value = ''/users::published'', ctx_start = Some 8 \<rparr>"

lemma sample_encrypt:
  "ValueCipher_encrypt sample_crypto nonce sample_key_hex n k (JString s) =
     Inr (JObject [(''ciphertext'', JString (s @ nonce @ aad n k)), (''nonce'', JString nonce),
       (''version'', JNumber (PosInt 1))])"
  unfolding ValueCipher_encrypt_def sample_key_hex_def
    sample_cipher.cipher_hex_encode[OF length_replicate]
  by (simp add: sample_crypto_def)

text \<open>With a line feed in a name the binding is ambiguous.\<close>

lemma aad_line_feed_collision:
  "aad \<lparr> ns_value = ''/a'', ctx_start = None \<rparr> (Key [CHR ''b'', CHR 0x0A, CHR ''c'']) =
   aad \<lparr> ns_value = [CHR ''/'', CHR ''a'', CHR 0x0A, CHR ''b''], ctx_start = None \<rparr> (Key ''c'')"
  by (simp add: aad_def ns_def as_str_def)

end
