(* ===== verification/Broker_State.thy ===== *)
theory Broker_State
  imports Registry Mutation_Shards Cipher
begin

text \<open>
  The broker's state and everything below its command handlers, from
  \<open>valkyr-core/src/broker.rs\<close>: mutation bookkeeping, committing a mutation, confirmed provider
  misses, leases, provider rate limits and encryption keys.

  A method of \<open>Broker\<close> is a function on the record \<open>broker\<close>; one that can fail is an
  \<open>op\<close>, and \<open>op_bind\<close> is Rust's \<open>?\<close> (state changes made before an error stay). What the
  broker calls but does not own is the record \<open>broker_env\<close>: the store's function table, the
  cache library under the miss cache, the decoders, the cryptographic libraries and the hash
  function. The clock reading \<open>now\<close> is an argument. Random identifiers and nonces are drawn
  from the counter \<open>b_draws\<close>: two drawn identifiers differ, and the n-th nonce is
  \<open>nonce_of env n\<close>. Atomic counters are 64-bit words. Logging has no model.
\<close>

type_synonym ('b, 'a) op = "(error, 'b, 'a) effect"

section \<open>Types\<close>

definition AUTH_NAMESPACE :: string where "AUTH_NAMESPACE = ''/__auth''"
definition SECURITY_NAMESPACE :: string where "SECURITY_NAMESPACE = ''/__secrets''"
definition LEASE_NAMESPACE :: string where "LEASE_NAMESPACE = ''/__lease''"
definition LEASE_DURATION :: duration where "LEASE_DURATION = from_secs 30"

lemmas namespace_names = AUTH_NAMESPACE_def SECURITY_NAMESPACE_def LEASE_NAMESPACE_def

record request_context =
  rc_owner :: uuid
  adapter_instance :: "uuid option"
  rc_auth :: "auth_info option"
  rc_variables :: "string \<rightharpoonup> string"

definition anonymous :: "uuid \<Rightarrow> request_context" where
  "anonymous owner = \<lparr> rc_owner = owner, adapter_instance = None, rc_auth = None, rc_variables = Map.empty \<rparr>"

datatype pending_mutation =
    PSet namespace_context key json "duration option"
  | PSetBatch namespace_context "set_entry list" "duration option"
  | PDelete namespace_context "key_pattern option"
  | PMove namespace_context namespace_context

record dispatch =
  d_owner :: uuid
  d_provider_id :: "uuid option"
  d_provider_refresh_id :: "uuid option"
  d_mutation_generation :: "64 word"
  d_command :: server_command
  d_authentication :: bool
  d_provider_options :: "provide_options option"
  d_encrypted :: bool

record broker_outcome =
  o_response :: response
  o_dispatch :: "dispatch option"
  o_pending_mutation :: "pending_mutation option"
  o_authenticated :: "auth_info option"

definition outcome :: "response \<Rightarrow> broker_outcome" where
  "outcome r = \<lparr> o_response = r, o_dispatch = None, o_pending_mutation = None, o_authenticated = None \<rparr>"

record provider_rate_limit =
  window_started :: instant
  rl_requests :: nat

record lease =
  lease_owner :: uuid
  lease_expires_at :: instant

record ('s, 'm) broker =
  b_store :: 's
  b_auth :: "auth_manager option"
  b_registry :: registry
  b_requests :: "64 word"
  b_hits :: "64 word"
  b_misses :: "64 word"
  b_provider_limits :: "uuid \<rightharpoonup> provider_rate_limit"
  b_leases :: "string \<rightharpoonup> lease"
  b_miss_cache :: 'm
  b_mutation_shards :: shards
  b_generations :: "uuid \<Rightarrow> 64 word"
  b_mutation_clock :: "64 word"
  b_draws :: nat

record ('s, 'm) broker_env =
  sops :: "'s store_ops"
  mops :: "('m, cache_key, marker) cache_ops"
  decoders :: serde
  crypt :: crypto
  hash_of :: route_hash
  nonce_of :: "nat \<Rightarrow> string"

definition Broker_new :: "('s, 'm) broker_env \<Rightarrow> 's \<Rightarrow> auth_manager option \<Rightarrow> ('s, 'm) broker" where
  "Broker_new env s auth =
     \<lparr> b_store = s, b_auth = auth, b_registry = Registry_new,
       b_requests = 0, b_hits = 0, b_misses = 0,
       b_provider_limits = Map.empty, b_leases = Map.empty,
       b_miss_cache = MissCache_new (mops env),
       b_mutation_shards = new_shards, b_generations = (\<lambda>_. 0), b_mutation_clock = 0,
       b_draws = 0 \<rparr>"

text \<open>Calls on the store, on the state of the broker.\<close>

definition store_get ::
    "('s, 'm) broker_env \<Rightarrow> instant \<Rightarrow> namespace_context \<Rightarrow> key
     \<Rightarrow> (('s, 'm) broker, stored_value option) op" where
  "store_get env now n k b = (case st_get (sops env) (b_store b) now n k of (r, s) \<Rightarrow> (r, b\<lparr> b_store := s \<rparr>))"

definition store_set ::
    "('s, 'm) broker_env \<Rightarrow> instant \<Rightarrow> namespace_context \<Rightarrow> key \<Rightarrow> json \<Rightarrow> duration option
     \<Rightarrow> (('s, 'm) broker, unit) op" where
  "store_set env now n k v ttl b =
     (case st_set (sops env) (b_store b) now n k v ttl of (r, s) \<Rightarrow> (r, b\<lparr> b_store := s \<rparr>))"

definition store_set_batch ::
    "('s, 'm) broker_env \<Rightarrow> instant \<Rightarrow> namespace_context \<Rightarrow> (key \<times> json) list \<Rightarrow> duration option
     \<Rightarrow> (('s, 'm) broker, unit) op" where
  "store_set_batch env now n kvs ttl b =
     (case st_set_batch (sops env) (b_store b) now n kvs ttl of (r, s) \<Rightarrow> (r, b\<lparr> b_store := s \<rparr>))"

definition store_delete ::
    "('s, 'm) broker_env \<Rightarrow> instant \<Rightarrow> namespace_context \<Rightarrow> key_pattern option
     \<Rightarrow> (('s, 'm) broker, nat) op" where
  "store_delete env now n p b =
     (case st_delete (sops env) (b_store b) now n p of (r, s) \<Rightarrow> (r, b\<lparr> b_store := s \<rparr>))"

definition store_move ::
    "('s, 'm) broker_env \<Rightarrow> instant \<Rightarrow> namespace_context \<Rightarrow> namespace_context
     \<Rightarrow> (('s, 'm) broker, unit) op" where
  "store_move env now src dst b =
     (case st_move (sops env) (b_store b) now src dst of (r, s) \<Rightarrow> (r, b\<lparr> b_store := s \<rparr>))"

definition store_len :: "('s, 'm) broker_env \<Rightarrow> instant \<Rightarrow> (('s, 'm) broker, nat) op" where
  "store_len env now b = (case st_len (sops env) (b_store b) now of (r, s) \<Rightarrow> (r, b\<lparr> b_store := s \<rparr>))"

section \<open>Mutation bookkeeping\<close>

definition mutation_generation :: "('s, 'm) broker \<Rightarrow> 64 word" where
  "mutation_generation b = b_mutation_clock b"

definition route_mutation_generation ::
    "('s, 'm) broker_env \<Rightarrow> namespace_context \<Rightarrow> key \<Rightarrow> ('s, 'm) broker
     \<Rightarrow> (64 word \<times> uuid) \<times> ('s, 'm) broker" where
  "route_mutation_generation env n k b =
     (case get_or_create_route_state (hash_of env) (b_mutation_shards b) (b_draws b) n k of
        (i, sh) \<Rightarrow>
          let b' = (if active_route_state (hash_of env) (b_mutation_shards b) n k = None
                    then b\<lparr> b_mutation_shards := sh,
                            b_generations := (b_generations b)(i := 0),
                            b_draws := Suc (b_draws b) \<rparr>
                    else b)
          in ((b_generations b' i, i), b'))"

definition record_exact_mutation ::
    "('s, 'm) broker_env \<Rightarrow> instant \<Rightarrow> namespace_context \<Rightarrow> key \<Rightarrow> ('s, 'm) broker \<Rightarrow> ('s, 'm) broker" where
  "record_exact_mutation env now n k b =
     (let b' = (case active_route_state (hash_of env) (b_mutation_shards b) n k of
                  None \<Rightarrow> b
                | Some i \<Rightarrow>
                    b\<lparr> b_generations := (b_generations b)(i := b_generations b i + 1),
                       b_miss_cache := invalidate_exact (mops env) (b_miss_cache b) now n k \<rparr>)
      in b'\<lparr> b_mutation_clock := b_mutation_clock b' + 1 \<rparr>)"

definition broker_pattern_matches :: "string \<Rightarrow> string \<Rightarrow> bool" where
  "broker_pattern_matches p k =
     (case strip_suffix ''*'' p of None \<Rightarrow> p = k | Some prefix \<Rightarrow> starts_with prefix k)"

definition bump_route ::
    "('s, 'm) broker_env \<Rightarrow> instant \<Rightarrow> string \<Rightarrow> mutation_route \<times> uuid \<Rightarrow> ('s, 'm) broker \<Rightarrow> ('s, 'm) broker" where
  "bump_route env now pattern_text entry b =
     (case entry of ((route_ns, route_k), i) \<Rightarrow>
        if \<not> broker_pattern_matches pattern_text (key_str route_k) then b
        else b\<lparr> b_generations := (b_generations b)(i := b_generations b i + 1),
                b_miss_cache := invalidate_exact (mops env) (b_miss_cache b) now route_ns route_k \<rparr>)"

definition record_broad_mutation ::
    "('s, 'm) broker_env \<Rightarrow> instant \<Rightarrow> namespace_context \<Rightarrow> key_pattern option
     \<Rightarrow> ('s, 'm) broker \<Rightarrow> ('s, 'm) broker" where
  "record_broad_mutation env now n p b =
     (let pattern_text = (case p of None \<Rightarrow> ''*'' | Some q \<Rightarrow> kp_str q);
          affected = active_routes_in_namespace (b_mutation_shards b) n;
          b1 = fold (bump_route env now pattern_text) affected b;
          b2 = b1\<lparr> b_miss_cache :=
                 (case p of
                    Some q \<Rightarrow> invalidate_pattern (mops env) (b_miss_cache b1) now n (Some q)
                  | None \<Rightarrow> invalidate_namespace (mops env) (b_miss_cache b1) now n) \<rparr>
      in b2\<lparr> b_mutation_clock := b_mutation_clock b2 + 1 \<rparr>)"

definition release_provider_refresh ::
    "('s, 'm) broker_env \<Rightarrow> namespace_context \<Rightarrow> key \<Rightarrow> uuid \<Rightarrow> ('s, 'm) broker \<Rightarrow> ('s, 'm) broker" where
  "release_provider_refresh env n k refresh_id b =
     b\<lparr> b_mutation_shards := release_route (hash_of env) (b_mutation_shards b) n k refresh_id \<rparr>"

section \<open>Committing a mutation\<close>

definition replace_cached_principal ::
    "('s, 'm) broker_env \<Rightarrow> instant \<Rightarrow> namespace_context \<Rightarrow> key \<Rightarrow> json \<Rightarrow> ('s, 'm) broker \<Rightarrow> ('s, 'm) broker" where
  "replace_cached_principal env now n k value b =
     (if as_str n = AUTH_NAMESPACE
      then b\<lparr> b_auth := map_option (\<lambda>m. replace_auth_record (decoders env) m now (key_str k) value) (b_auth b) \<rparr>
      else b)"

fun commit :: "('s, 'm) broker_env \<Rightarrow> instant \<Rightarrow> pending_mutation \<Rightarrow> (('s, 'm) broker, unit) op" where
  "commit env now (PSet n k value ttl) b =
     op_bind (store_set env now n k value ttl)
       (\<lambda>_ b. (Inr (), record_exact_mutation env now n k (replace_cached_principal env now n k value b))) b"
| "commit env now (PSetBatch n entries ttl) b =
     op_bind (store_set_batch env now n (map (\<lambda>e. (entry_key e, entry_value e)) entries) ttl)
       (\<lambda>_ b. (Inr (), fold (record_exact_mutation env now n) (map entry_key entries) b)) b"
| "commit env now (PDelete n p) b =
     op_bind (store_delete env now n p)
       (\<lambda>_ b. (Inr (), record_broad_mutation env now n p b)) b"
| "commit env now (PMove src dst) b =
     op_bind (store_move env now src dst)
       (\<lambda>_ b. (Inr (), record_broad_mutation env now dst None (record_broad_mutation env now src None b))) b"

section \<open>Confirmed provider misses\<close>

text \<open>
  \<open>confirm_provider_miss\<close> waits twice, for the store and for the route's gate. Its two atomic
  parts are separate definitions, so that other tasks can run between them: the check, which
  hands over the route state it found, and the insertion under the gate.
\<close>

definition confirm_check ::
    "('s, 'm) broker_env \<Rightarrow> instant \<Rightarrow> namespace_context \<Rightarrow> key \<Rightarrow> nat \<Rightarrow> 64 word \<Rightarrow> uuid
     \<Rightarrow> ('s, 'm) broker \<Rightarrow> uuid option \<times> ('s, 'm) broker" where
  "confirm_check env now n k miss_ttl refresh_generation refresh_id b =
     (if miss_ttl = 0 then (None, b)
      else case active_route_state (hash_of env) (b_mutation_shards b) n k of
             None \<Rightarrow> (None, b)
           | Some state \<Rightarrow>
               if state \<noteq> refresh_id \<or> b_generations b state \<noteq> refresh_generation
               then (None, release_provider_refresh env n k refresh_id b)
               else case store_get env now n k b of
                      (Inl _, b') \<Rightarrow> (None, release_provider_refresh env n k refresh_id b')
                    | (Inr (Some _), b') \<Rightarrow> (None, release_provider_refresh env n k refresh_id b')
                    | (Inr None, b') \<Rightarrow> (Some state, b'))"

definition confirm_insert ::
    "('s, 'm) broker_env \<Rightarrow> instant \<Rightarrow> namespace_context \<Rightarrow> key \<Rightarrow> nat \<Rightarrow> 64 word \<Rightarrow> uuid \<Rightarrow> uuid
     \<Rightarrow> ('s, 'm) broker \<Rightarrow> ('s, 'm) broker" where
  "confirm_insert env now n k miss_ttl refresh_generation refresh_id state b =
     (if state \<noteq> refresh_id \<or> b_generations b state \<noteq> refresh_generation
      then release_provider_refresh env n k refresh_id b
      else release_provider_refresh env n k refresh_id
             (b\<lparr> b_miss_cache := miss_insert (mops env) (b_miss_cache b) now n k (from_secs miss_ttl) \<rparr>))"

definition confirm_provider_miss ::
    "('s, 'm) broker_env \<Rightarrow> instant \<Rightarrow> namespace_context \<Rightarrow> key \<Rightarrow> nat \<Rightarrow> 64 word \<Rightarrow> uuid
     \<Rightarrow> ('s, 'm) broker \<Rightarrow> ('s, 'm) broker" where
  "confirm_provider_miss env now n k miss_ttl refresh_generation refresh_id b =
     (case confirm_check env now n k miss_ttl refresh_generation refresh_id b of
        (None, b') \<Rightarrow> b'
      | (Some state, b') \<Rightarrow> confirm_insert env now n k miss_ttl refresh_generation refresh_id state b')"

section \<open>Provider rate limits\<close>

definition provider_retry_after_values ::
    "instant \<Rightarrow> uuid \<Rightarrow> nat \<Rightarrow> (uuid \<rightharpoonup> provider_rate_limit) \<Rightarrow> nat option \<times> (uuid \<rightharpoonup> provider_rate_limit)" where
  "provider_retry_after_values now provider_id limit limits =
     (let state = (case limits provider_id of
                     Some st \<Rightarrow> st
                   | None \<Rightarrow> \<lparr> window_started = now, rl_requests = 0 \<rparr>);
          elapsed = saturating_sub now (window_started state);
          state = (if elapsed \<ge> from_secs 1 then \<lparr> window_started = now, rl_requests = 0 \<rparr> else state)
      in if rl_requests state < limit
         then (None, limits(provider_id \<mapsto> state\<lparr> rl_requests := rl_requests state + 1 \<rparr>))
         else (Some (max (saturating_sub (from_secs 1) elapsed div 1000000) 1), limits(provider_id \<mapsto> state)))"

definition provider_retry_after ::
    "instant \<Rightarrow> uuid option \<Rightarrow> nat option \<Rightarrow> ('s, 'm) broker \<Rightarrow> nat option \<times> ('s, 'm) broker" where
  "provider_retry_after now provider_id max_rate' b =
     (case (provider_id, max_rate') of
        (Some i, Some limit) \<Rightarrow>
          (case provider_retry_after_values now i limit (b_provider_limits b) of
             (r, limits) \<Rightarrow> (r, b\<lparr> b_provider_limits := limits \<rparr>))
      | _ \<Rightarrow> (None, b))"

section \<open>Keys\<close>

definition marked_key :: "string \<Rightarrow> string option" where
  "marked_key value =
     (case Option.bind (strip_prefix ''~'' value) (strip_suffix ''~'') of
        Some v \<Rightarrow> if v = [] then None else Some v
      | None \<Rightarrow> None)"

definition normalize_marked_key :: "key \<Rightarrow> (key \<times> bool) result" where
  "normalize_marked_key k =
     (case marked_key (key_str k) of
        Some value \<Rightarrow> (case Key_new value of Inl e \<Rightarrow> Inl e | Inr k' \<Rightarrow> Inr (k', True))
      | None \<Rightarrow> Inr (k, False))"

definition duration_to_seconds :: "duration \<Rightarrow> nat" where
  "duration_to_seconds d = saturating_add_u64 (as_secs d) (if subsec_nanos d \<noteq> 0 then 1 else 0)"

definition security_route :: "namespace_context \<Rightarrow> (namespace_context \<times> key) result" where
  "security_route namespace =
     (case NamespaceContext_new SECURITY_NAMESPACE of
        Inl e \<Rightarrow> Inl e
      | Inr n \<Rightarrow> (case Key_new (ns namespace) of Inl e \<Rightarrow> Inl e | Inr k \<Rightarrow> Inr (n, k)))"

definition parse_security_key :: "serde \<Rightarrow> json \<Rightarrow> string result" where
  "parse_security_key sd value =
     (case security_key_from_value sd value of
        Inl _ \<Rightarrow> Inl (Encryption ''security key record is malformed'')
      | Inr record' \<Rightarrow> Inr (sk_key record'))"

definition security_key ::
    "('s, 'm) broker_env \<Rightarrow> instant \<Rightarrow> namespace_context \<Rightarrow> (('s, 'm) broker, string) op" where
  "security_key env now namespace =
     op_bind (op_lift (security_route namespace)) (\<lambda>(security_namespace, scope_key).
     op_bind (store_get env now security_namespace scope_key) (\<lambda>stored.
       case stored of
         Some value \<Rightarrow> op_lift (parse_security_key (decoders env) (sv_value value))
       | None \<Rightarrow> op_fail (Encryption (''encryption key for scope '' @ [CHR 0x27] @ key_str scope_key @ [CHR 0x27] @ '' is not loaded''))))"

definition encrypt_value ::
    "('s, 'm) broker_env \<Rightarrow> instant \<Rightarrow> namespace_context \<Rightarrow> key \<Rightarrow> json \<Rightarrow> (('s, 'm) broker, json) op" where
  "encrypt_value env now n k value =
     op_bind (security_key env now n) (\<lambda>key_hex b.
       (ValueCipher_encrypt (crypt env) (nonce_of env (b_draws b)) key_hex n k value,
        b\<lparr> b_draws := Suc (b_draws b) \<rparr>))"

definition decrypt_value ::
    "('s, 'm) broker_env \<Rightarrow> instant \<Rightarrow> namespace_context \<Rightarrow> key \<Rightarrow> json \<Rightarrow> (('s, 'm) broker, json) op" where
  "decrypt_value env now n k value =
     op_bind (security_key env now n) (\<lambda>key_hex.
       op_lift (ValueCipher_decrypt (crypt env) key_hex n k value))"

section \<open>Key variables\<close>

definition next_variable :: "string \<Rightarrow> nat \<Rightarrow> (nat \<times> nat) option" where
  "next_variable resolved cursor =
     (case find_str [CHR 0x24, CHR 0x7B] (drop cursor resolved) of
        None \<Rightarrow> None
      | Some i \<Rightarrow>
          (let start = cursor + i in
           case find_str [CHR 0x7D] (drop (start + 2) resolved) of
             None \<Rightarrow> None
           | Some end_offset \<Rightarrow> Some (start, start + 2 + end_offset)))"

lemma next_variable_bounds:
  assumes "next_variable s cursor = Some (start, stop)"
  shows "cursor \<le> start \<and> start + 2 \<le> stop \<and> stop < length s"
  using assms find_str_less[of "[CHR 0x7D]" "drop (start + 2) s"]
  by (fastforce simp: next_variable_def Let_def split: option.splits)

definition variable_value ::
    "('s, 'm) broker_env \<Rightarrow> instant \<Rightarrow> namespace_context \<Rightarrow> (string \<rightharpoonup> string) \<Rightarrow> string
     \<Rightarrow> (('s, 'm) broker, string option) op" where
  "variable_value env now n variables variable =
     (case variables variable of
        Some value \<Rightarrow> op_return (Some value)
      | None \<Rightarrow>
          op_bind (op_lift (Key_new variable)) (\<lambda>k.
          op_bind (store_get env now n k) (\<lambda>stored.
            op_return (map_option
              (\<lambda>sv. case sv_value sv of JString value \<Rightarrow> value | value \<Rightarrow> value_to_string (decoders env) value)
              stored))))"

function resolve_loop ::
    "('s, 'm) broker_env \<Rightarrow> instant \<Rightarrow> namespace_context \<Rightarrow> (string \<rightharpoonup> string) \<Rightarrow> string \<Rightarrow> nat
     \<Rightarrow> ('s, 'm) broker \<Rightarrow> string result \<times> ('s, 'm) broker" where
  "resolve_loop env now n variables resolved cursor b =
     (case next_variable resolved cursor of
        None \<Rightarrow> (Inr resolved, b)
      | Some (start, stop) \<Rightarrow>
          (let variable = slice (start + 2) stop resolved in
           if variable = [] then resolve_loop env now n variables resolved (stop + 1) b
           else case variable_value env now n variables variable b of
                  (Inl e, b') \<Rightarrow> (Inl e, b')
                | (Inr (Some value), b') \<Rightarrow>
                    resolve_loop env now n variables
                      (take start resolved @ value @ drop (stop + 1) resolved)
                      (start + length value) b'
                | (Inr None, b') \<Rightarrow> resolve_loop env now n variables resolved (stop + 1) b'))"
  by pat_completeness auto
termination
  by (relation "measure (\<lambda>(env, now, n, variables, resolved, cursor, b). length resolved - cursor)")
    (auto dest!: next_variable_bounds)

declare resolve_loop.simps [simp del]

definition resolve_key ::
    "('s, 'm) broker_env \<Rightarrow> instant \<Rightarrow> namespace_context \<Rightarrow> key \<Rightarrow> request_context
     \<Rightarrow> (('s, 'm) broker, key) op" where
  "resolve_key env now n k context' =
     op_bind (resolve_loop env now n (rc_variables context') (key_str k) 0) (\<lambda>resolved.
       op_lift (Key_new resolved))"

end
