(* ===== verification/Broker.thy ===== *)
theory Broker
  imports Broker_State
begin

text \<open>
  The command handlers of \<open>valkyr-core/src/broker.rs\<close>, one definition per method, up to
  \<open>execute\<close>, the entry point of every transport. Conventions are those of theory
  \<open>Broker_State\<close>. A dispatch in the outcome is work the transport delivers to an adapter; the
  pending mutation that may come with it is committed by the transport once the adapter has
  answered.
\<close>

section \<open>Guards\<close>

definition authorize ::
    "('s, 'm) broker \<Rightarrow> instant \<Rightarrow> request_context \<Rightarrow> namespace_context \<Rightarrow> operation \<Rightarrow> unit result" where
  "authorize b now context' namespace operation =
     (case b_auth b of
        None \<Rightarrow> Inr ()
      | Some manager \<Rightarrow>
          (case rc_auth context' of
             None \<Rightarrow> Inl AuthenticationFailed
           | Some auth \<Rightarrow> am_authorize manager now auth namespace operation))"

definition authorize_op ::
    "instant \<Rightarrow> request_context \<Rightarrow> namespace_context \<Rightarrow> operation \<Rightarrow> (('s, 'm) broker, unit) op" where
  "authorize_op now context' namespace operation b = (authorize b now context' namespace operation, b)"

definition require_bootstrap :: "request_context \<Rightarrow> unit result" where
  "require_bootstrap context' =
     (case rc_auth context' of
        Some auth \<Rightarrow>
          if is_bootstrap_admin auth then Inr () else Inl (PermissionDenied AUTH_NAMESPACE)
      | None \<Rightarrow> Inl (PermissionDenied AUTH_NAMESPACE))"

definition require_adapter :: "request_context \<Rightarrow> uuid result" where
  "require_adapter context' =
     (case adapter_instance context' of
        Some i \<Rightarrow> if rc_auth context' \<noteq> None then Inr i else Inl (PermissionDenied LEASE_NAMESPACE)
      | None \<Rightarrow> Inl (PermissionDenied LEASE_NAMESPACE))"

section \<open>Leases\<close>

definition acquire_lease ::
    "instant \<Rightarrow> key \<Rightarrow> request_context \<Rightarrow> (('s, 'm) broker, broker_outcome) op" where
  "acquire_lease now k context' =
     op_bind (op_lift (require_adapter context')) (\<lambda>owner b.
       let blocked = (case b_leases b (key_str k) of
                        Some l \<Rightarrow> lease_expires_at l > now \<and> lease_owner l \<noteq> owner
                      | None \<Rightarrow> False);
           b' = (if blocked then b
                 else b\<lparr> b_leases := (b_leases b)(key_str k \<mapsto>
                           \<lparr> lease_owner = owner, lease_expires_at = now + LEASE_DURATION \<rparr>) \<rparr>)
       in (Inr (outcome (RValue (JBool (\<not> blocked))
                  (if blocked then None else Some (as_secs LEASE_DURATION)))), b'))"

definition release_lease ::
    "key \<Rightarrow> json \<Rightarrow> request_context \<Rightarrow> (('s, 'm) broker, broker_outcome) op" where
  "release_lease k value context' =
     op_bind (op_lift (require_adapter context')) (\<lambda>owner b.
       if value \<noteq> JNumber (PosInt 0)
       then (Inl (Protocol ''lease release requires value 0''), b)
       else case b_leases b (key_str k) of
              Some l \<Rightarrow>
                if lease_owner l = owner
                then (Inr (outcome ROk), b\<lparr> b_leases := (b_leases b)(key_str k := None) \<rparr>)
                else (Inl (PermissionDenied LEASE_NAMESPACE), b)
            | None \<Rightarrow> (Inl (PermissionDenied LEASE_NAMESPACE), b))"

section \<open>Preparing a mutation\<close>

definition persist_dispatch :: "uuid \<Rightarrow> server_command \<Rightarrow> dispatch" where
  "persist_dispatch owner command' =
     \<lparr> d_owner = owner, d_provider_id = None, d_provider_refresh_id = None,
       d_mutation_generation = 0, d_command = command', d_authentication = False,
       d_provider_options = None, d_encrypted = False \<rparr>"

definition persist_outcome :: "uuid \<Rightarrow> server_command \<Rightarrow> pending_mutation \<Rightarrow> broker_outcome" where
  "persist_outcome owner command' mutation =
     \<lparr> o_response = ROk, o_dispatch = Some (persist_dispatch owner command'),
       o_pending_mutation = Some mutation, o_authenticated = None \<rparr>"

definition commit_now ::
    "('s, 'm) broker_env \<Rightarrow> instant \<Rightarrow> pending_mutation \<Rightarrow> (('s, 'm) broker, broker_outcome) op" where
  "commit_now env now mutation = op_bind (commit env now mutation) (\<lambda>_. op_return (outcome ROk))"

text \<open>The namespace, the key pattern and the callback of a single mutation.\<close>

fun mutation_target :: "pending_mutation \<Rightarrow> uuid \<Rightarrow> (namespace_context \<times> key_pattern \<times> server_command) result" where
  "mutation_target (PSet n k value ttl) i =
     (case KeyPattern_new (key_str k) of
        Inl e \<Rightarrow> Inl e
      | Inr p \<Rightarrow> Inr (n, p, PersistSet i n k value (map_option as_secs ttl)))"
| "mutation_target (PSetBatch n entries ttl) i = Inl (Panic ''batch returned above'')"
| "mutation_target (PDelete n p) i =
     (case KeyPattern_new ''*'' of
        Inl e \<Rightarrow> Inl e
      | Inr star \<Rightarrow> Inr (n, (case p of Some q \<Rightarrow> q | None \<Rightarrow> star), PersistDelete i n p))"
| "mutation_target (PMove src dst) i =
     (case KeyPattern_new ''*'' of
        Inl e \<Rightarrow> Inl e
      | Inr star \<Rightarrow> Inr (src, star, PersistMove i src dst))"

definition draw :: "('s, 'm) broker \<Rightarrow> uuid \<times> ('s, 'm) broker" where
  "draw b = (b_draws b, b\<lparr> b_draws := Suc (b_draws b) \<rparr>)"

definition prepare_batch ::
    "('s, 'm) broker_env \<Rightarrow> instant \<Rightarrow> namespace_context \<Rightarrow> set_entry list \<Rightarrow> duration option
     \<Rightarrow> (('s, 'm) broker, broker_outcome) op" where
  "prepare_batch env now n entries ttl =
     op_bind (op_lift (collect_results (\<lambda>e. KeyPattern_new (key_str (entry_key e))) entries)) (\<lambda>patterns b.
       case store_for_batch (b_registry b) n patterns of
         OneStore st \<Rightarrow>
           (case draw b of (i, b') \<Rightarrow>
              (Inr (persist_outcome (s_owner st)
                 (PersistSetBatch i n entries (map_option as_secs ttl)) (PSetBatch n entries ttl)), b'))
       | Mixed \<Rightarrow> (Inl (Protocol ''SET batch keys require different storage adapters''), b)
       | NoStore \<Rightarrow> commit_now env now (PSetBatch n entries ttl) b)"

definition prepare_single ::
    "('s, 'm) broker_env \<Rightarrow> instant \<Rightarrow> pending_mutation \<Rightarrow> (('s, 'm) broker, broker_outcome) op" where
  "prepare_single env now mutation b =
     (case draw b of (i, b1) \<Rightarrow>
        op_bind (op_lift (mutation_target mutation i)) (\<lambda>(n, p, command') b.
          case store_for (b_registry b) n p of
            Some st \<Rightarrow> (Inr (persist_outcome (s_owner st) command' mutation), b)
          | None \<Rightarrow> commit_now env now mutation b) b1)"

definition prepare_mutation ::
    "('s, 'm) broker_env \<Rightarrow> instant \<Rightarrow> pending_mutation \<Rightarrow> bool \<Rightarrow> (('s, 'm) broker, broker_outcome) op" where
  "prepare_mutation env now mutation from_adapter =
     (if from_adapter then commit_now env now mutation
      else case mutation of
             PSetBatch n entries ttl \<Rightarrow> prepare_batch env now n entries ttl
           | _ \<Rightarrow> prepare_single env now mutation)"

definition accept_provider_value ::
    "('s, 'm) broker_env \<Rightarrow> instant \<Rightarrow> namespace_context \<Rightarrow> key \<Rightarrow> json \<Rightarrow> duration option \<Rightarrow> bool \<Rightarrow> bool
     \<Rightarrow> (('s, 'm) broker, broker_outcome) op" where
  "accept_provider_value env now n k value ttl from_adapter encrypted =
     op_bind (if encrypted then encrypt_value env now n k value else op_return value) (\<lambda>value.
       prepare_mutation env now (PSet n k value ttl) from_adapter)"

section \<open>Authentication\<close>

definition schedule_auth_refresh :: "instant \<Rightarrow> string \<Rightarrow> ('s, 'm) broker \<Rightarrow> bool \<times> ('s, 'm) broker" where
  "schedule_auth_refresh now api_key b =
     (case b_auth b of
        None \<Rightarrow> (False, b)
      | Some auth \<Rightarrow>
          (case schedule_refresh auth now api_key of (r, auth') \<Rightarrow> (r, b\<lparr> b_auth := Some auth' \<rparr>)))"

definition authenticate_request ::
    "instant \<Rightarrow> string \<Rightarrow> (('s, 'm) broker, auth_info) op" where
  "authenticate_request now api_key b =
     (case b_auth b of
        None \<Rightarrow> (Inl AuthenticationFailed, b)
      | Some auth \<Rightarrow>
          (case am_authenticate auth now api_key of
             (Authenticated info, auth') \<Rightarrow> (Inr info, b\<lparr> b_auth := Some auth' \<rparr>)
           | (_, auth') \<Rightarrow> (Inl AuthenticationFailed, b\<lparr> b_auth := Some auth' \<rparr>)))"

definition query_dispatch :: "provider_registration \<Rightarrow> uuid \<Rightarrow> namespace_context \<Rightarrow> key \<Rightarrow> bool \<Rightarrow> dispatch" where
  "query_dispatch provider i n k authentication =
     \<lparr> d_owner = p_owner provider, d_provider_id = Some (p_id provider), d_provider_refresh_id = None,
       d_mutation_generation = 0, d_command = Query i n k, d_authentication = authentication,
       d_provider_options = None, d_encrypted = False \<rparr>"

text \<open>The registry's provider for a route, with its round-robin counter moved on.\<close>

definition select_provider ::
    "namespace_context \<Rightarrow> key \<Rightarrow> ('s, 'm) broker \<Rightarrow> provider_registration option \<times> ('s, 'm) broker" where
  "select_provider n k b =
     (case provider_for (b_registry b) n k of (p, r) \<Rightarrow> (p, b\<lparr> b_registry := r \<rparr>))"

definition fail_auth_provider_load :: "instant \<Rightarrow> string \<Rightarrow> ('s, 'm) broker \<Rightarrow> ('s, 'm) broker" where
  "fail_auth_provider_load now api_key b =
     b\<lparr> b_auth := map_option (\<lambda>auth. fail_provider_load auth now api_key) (b_auth b) \<rparr>"

definition auth_provider_dispatch ::
    "instant \<Rightarrow> string \<Rightarrow> ('s, 'm) broker \<Rightarrow> dispatch option \<times> ('s, 'm) broker" where
  "auth_provider_dispatch now api_key b =
     (case b_auth b of
        None \<Rightarrow> (None, b)
      | Some auth \<Rightarrow>
          (case take_scheduled_load auth api_key of
             (False, _) \<Rightarrow> (None, b)
           | (True, auth') \<Rightarrow>
               (let b1 = b\<lparr> b_auth := Some auth' \<rparr> in
                case Key_new api_key of
                  Inl _ \<Rightarrow> (None, fail_auth_provider_load now api_key b1)
                | Inr k \<Rightarrow>
                    (let n = projr (NamespaceContext_new AUTH_NAMESPACE) in
                     case select_provider n k b1 of
                       (None, b2) \<Rightarrow> (None, fail_auth_provider_load now api_key b2)
                     | (Some provider, b2) \<Rightarrow>
                         (case draw b2 of (i, b3) \<Rightarrow> (Some (query_dispatch provider i n k True), b3))))))"

definition complete_auth_provider_load ::
    "('s, 'm) broker_env \<Rightarrow> instant \<Rightarrow> string \<Rightarrow> json option \<Rightarrow> ('s, 'm) broker
     \<Rightarrow> duration option \<times> ('s, 'm) broker" where
  "complete_auth_provider_load env now api_key value b =
     (case b_auth b of
        None \<Rightarrow> (None, b)
      | Some auth \<Rightarrow>
          (case complete_provider_load (decoders env) auth now api_key value of
             (r, auth') \<Rightarrow> (r, b\<lparr> b_auth := Some auth' \<rparr>)))"

definition auth_success :: "auth_manager \<Rightarrow> auth_info \<Rightarrow> dispatch option \<Rightarrow> broker_outcome" where
  "auth_success auth info d =
     \<lparr> o_response = AuthSuccess (ai_client_id info) (as_secs (session_timeout auth)),
       o_dispatch = d, o_pending_mutation = None, o_authenticated = Some info \<rparr>"

definition auth_pending :: "dispatch option \<Rightarrow> broker_outcome" where
  "auth_pending d =
     \<lparr> o_response = AuthPending 10, o_dispatch = d, o_pending_mutation = None, o_authenticated = None \<rparr>"

definition authenticate_from_store ::
    "('s, 'm) broker_env \<Rightarrow> instant \<Rightarrow> string \<Rightarrow> (('s, 'm) broker, broker_outcome) op" where
  "authenticate_from_store env now api_key =
     op_bind (op_lift (Key_new api_key)) (\<lambda>k b.
       case store_get env now (projr (NamespaceContext_new AUTH_NAMESPACE)) k b of
         (Inl e, b1) \<Rightarrow> (Inl e, fail_auth_provider_load now api_key b1)
       | (Inr None, b1) \<Rightarrow>
           (case auth_provider_dispatch now api_key b1 of (d, b2) \<Rightarrow> (Inr (auth_pending d), b2))
       | (Inr (Some value), b1) \<Rightarrow>
           (case complete_store_load (decoders env) (the (b_auth b1)) now api_key (sv_value value) of
              (lookup, auth') \<Rightarrow>
                (let b2 = b1\<lparr> b_auth := Some auth' \<rparr> in
                 case lookup of
                   Authenticated info \<Rightarrow> (Inr (auth_success auth' info None), b2)
                 | Pending \<Rightarrow>
                     (case auth_provider_dispatch now api_key b2 of (d, b3) \<Rightarrow> (Inr (auth_pending d), b3))
                 | RejectedLookup \<Rightarrow> (Inr (outcome (AuthFailure ''invalid API key'')), b2))))"

definition authenticate ::
    "('s, 'm) broker_env \<Rightarrow> instant \<Rightarrow> string \<Rightarrow> (('s, 'm) broker, broker_outcome) op" where
  "authenticate env now api_key b =
     (case b_auth b of
        None \<Rightarrow> (Inr (outcome (AuthFailure ''authentication is not configured'')), b)
      | Some auth \<Rightarrow>
          (case am_authenticate auth now api_key of
             (Authenticated info, auth') \<Rightarrow>
               (case auth_provider_dispatch now api_key (b\<lparr> b_auth := Some auth' \<rparr>) of
                  (d, b') \<Rightarrow> (Inr (auth_success auth' info d), b'))
           | (Pending, auth') \<Rightarrow>
               (case take_store_load auth' api_key of
                  (True, auth'') \<Rightarrow> authenticate_from_store env now api_key (b\<lparr> b_auth := Some auth'' \<rparr>)
                | (False, auth'') \<Rightarrow> (Inr (outcome (AuthPending 10)), b\<lparr> b_auth := Some auth'' \<rparr>))
           | (RejectedLookup, auth') \<Rightarrow>
               (Inr (outcome (AuthFailure ''invalid API key'')), b\<lparr> b_auth := Some auth' \<rparr>)))"

section \<open>GET\<close>

definition reserved_read :: "namespace_context \<Rightarrow> bool" where
  "reserved_read n \<longleftrightarrow> as_str n = AUTH_NAMESPACE \<or> as_str n = SECURITY_NAMESPACE"

definition stored_response :: "json \<Rightarrow> stored_value \<Rightarrow> response" where
  "stored_response value stored = RValue value (map_option duration_to_seconds (remaining_ttl stored))"

definition get_miss ::
    "('s, 'm) broker_env \<Rightarrow> instant \<Rightarrow> namespace_context \<Rightarrow> key \<Rightarrow> bool
     \<Rightarrow> (('s, 'm) broker, broker_outcome) op" where
  "get_miss env now n k encrypted b0 =
     (let b = b0\<lparr> b_misses := b_misses b0 + 1 \<rparr> in
      case miss_contains (mops env) (b_miss_cache b) now n k of
        (True, m) \<Rightarrow> (Inr (outcome (RMiss 0)), b\<lparr> b_miss_cache := m \<rparr>)
      | (False, m) \<Rightarrow>
          (case select_provider n k (b\<lparr> b_miss_cache := m \<rparr>) of
             (None, b1) \<Rightarrow> (Inr (outcome RUnknown), b1)
           | (Some provider, b1) \<Rightarrow>
               (case route_mutation_generation env n k b1 of
                  ((generation, refresh_id), b2) \<Rightarrow>
                    (case draw b2 of (i, b3) \<Rightarrow>
                       (Inr \<lparr> o_response = RMiss 10,
                              o_dispatch = Some
                                \<lparr> d_owner = p_owner provider, d_provider_id = Some (p_id provider),
                                  d_provider_refresh_id = Some refresh_id,
                                  d_mutation_generation = generation, d_command = Query i n k,
                                  d_authentication = False,
                                  d_provider_options = Some (p_options provider),
                                  d_encrypted = encrypted \<rparr>,
                              o_pending_mutation = None, o_authenticated = None \<rparr>, b3)))))"

definition get_hit ::
    "('s, 'm) broker_env \<Rightarrow> instant \<Rightarrow> namespace_context \<Rightarrow> key \<Rightarrow> bool \<Rightarrow> stored_value
     \<Rightarrow> (('s, 'm) broker, broker_outcome) op" where
  "get_hit env now n k encrypted stored b =
     op_bind (if encrypted then decrypt_value env now n k (sv_value stored) else op_return (sv_value stored))
       (\<lambda>value. op_return (outcome (stored_response value stored)))
       (b\<lparr> b_hits := b_hits b + 1 \<rparr>)"

definition read_operation :: "bool \<Rightarrow> operation" where
  "read_operation encrypted = (if encrypted then OpReadEncrypted else OpRead)"

definition write_operation :: "bool \<Rightarrow> operation" where
  "write_operation encrypted = (if encrypted then OpWriteEncrypted else OpWrite)"

definition broker_get ::
    "('s, 'm) broker_env \<Rightarrow> instant \<Rightarrow> namespace_context \<Rightarrow> key \<Rightarrow> request_context
     \<Rightarrow> (('s, 'm) broker, broker_outcome) op" where
  "broker_get env now n k context' =
     (if as_str n = LEASE_NAMESPACE then acquire_lease now k context'
      else
        let raw_key_is_encrypted = marked_key (key_str k) \<noteq> None in
        op_bind (if reserved_read n then op_lift (require_bootstrap context')
                 else authorize_op now context' n (read_operation raw_key_is_encrypted)) (\<lambda>_.
        op_bind (resolve_key env now n k context') (\<lambda>resolved.
        op_bind (op_lift (normalize_marked_key resolved)) (\<lambda>(k', encrypted).
        op_bind (if \<not> reserved_read n \<and> encrypted \<noteq> raw_key_is_encrypted
                 then authorize_op now context' n (read_operation encrypted) else op_return ()) (\<lambda>_.
        op_bind (store_get env now n k') (\<lambda>stored.
          case stored of
            None \<Rightarrow> get_miss env now n k' encrypted
          | Some sv \<Rightarrow> get_hit env now n k' encrypted sv))))))"

section \<open>SET, DELETE and MOVE\<close>

definition set_value ::
    "('s, 'm) broker_env \<Rightarrow> instant \<Rightarrow> namespace_context \<Rightarrow> key \<Rightarrow> json \<Rightarrow> duration option \<Rightarrow> request_context
     \<Rightarrow> (('s, 'm) broker, broker_outcome) op" where
  "set_value env now n k value ttl context' =
     op_bind (op_lift (normalize_marked_key k)) (\<lambda>(k', encrypted).
     op_bind (if as_str n \<noteq> AUTH_NAMESPACE then authorize_op now context' n (write_operation encrypted)
              else op_return ()) (\<lambda>_.
     op_bind (if encrypted then encrypt_value env now n k' value else op_return value) (\<lambda>value'.
       prepare_mutation env now (PSet n k' value' ttl) (adapter_instance context' \<noteq> None))))"

definition broker_set ::
    "('s, 'm) broker_env \<Rightarrow> instant \<Rightarrow> namespace_context \<Rightarrow> key \<Rightarrow> json \<Rightarrow> duration option \<Rightarrow> request_context
     \<Rightarrow> (('s, 'm) broker, broker_outcome) op" where
  "broker_set env now n k value ttl context' =
     (if as_str n = LEASE_NAMESPACE then release_lease k value context'
      else if as_str n = AUTH_NAMESPACE
      then op_bind (op_lift (require_bootstrap context')) (\<lambda>_.
           op_bind (op_lift (case auth_record_from_value (decoders env) value of
                               Inl e \<Rightarrow> Inl (InvalidAuthorization e)
                             | Inr _ \<Rightarrow> Inr ())) (\<lambda>_.
             set_value env now n k value ttl context'))
      else if as_str n = SECURITY_NAMESPACE
      then op_bind (op_lift (require_bootstrap context')) (\<lambda>_.
           if marked_key (key_str k) \<noteq> None
           then op_fail (Protocol ''security key records cannot use encrypted keys'')
           else op_bind (op_lift (parse_security_key (decoders env) value)) (\<lambda>_.
                op_bind (store_set env now n k value ttl) (\<lambda>_.
                  op_return (outcome ROk))))
      else set_value env now n k value ttl context')"

definition convert_entry ::
    "('s, 'm) broker_env \<Rightarrow> instant \<Rightarrow> namespace_context \<Rightarrow> request_context \<Rightarrow> set_entry
     \<Rightarrow> (('s, 'm) broker, set_entry) op" where
  "convert_entry env now n context' e =
     op_bind (op_lift (normalize_marked_key (entry_key e))) (\<lambda>(k, encrypted).
     op_bind (authorize_op now context' n (write_operation encrypted)) (\<lambda>_.
     op_bind (if encrypted then encrypt_value env now n k (entry_value e) else op_return (entry_value e)) (\<lambda>v.
       op_return \<lparr> entry_key = k, entry_value = v \<rparr>)))"

fun convert_entries ::
    "('s, 'm) broker_env \<Rightarrow> instant \<Rightarrow> namespace_context \<Rightarrow> request_context \<Rightarrow> set_entry list
     \<Rightarrow> (('s, 'm) broker, set_entry list) op" where
  "convert_entries env now n context' [] = op_return []"
| "convert_entries env now n context' (e # es) =
     op_bind (convert_entry env now n context' e) (\<lambda>c.
     op_bind (convert_entries env now n context' es) (\<lambda>cs. op_return (c # cs)))"

definition set_batch ::
    "('s, 'm) broker_env \<Rightarrow> instant \<Rightarrow> namespace_context \<Rightarrow> set_entry list \<Rightarrow> duration option \<Rightarrow> request_context
     \<Rightarrow> (('s, 'm) broker, broker_outcome) op" where
  "set_batch env now n entries ttl context' =
     (if entries = [] then op_fail (Protocol ''SET batch cannot be empty'')
      else op_bind (convert_entries env now n context' entries) (\<lambda>converted.
             prepare_mutation env now (PSetBatch n converted ttl) (adapter_instance context' \<noteq> None)))"

definition reserved :: "namespace_context \<Rightarrow> bool" where
  "reserved n \<longleftrightarrow> as_str n \<in> {AUTH_NAMESPACE, SECURITY_NAMESPACE, LEASE_NAMESPACE}"

definition broker_delete ::
    "('s, 'm) broker_env \<Rightarrow> instant \<Rightarrow> namespace_context \<Rightarrow> key_pattern option \<Rightarrow> request_context
     \<Rightarrow> (('s, 'm) broker, broker_outcome) op" where
  "broker_delete env now n p context' =
     (if reserved n then op_fail (PermissionDenied (as_str n))
      else op_bind (authorize_op now context' n OpDelete) (\<lambda>_.
        if (case p of Some q \<Rightarrow> marked_key (kp_str q) \<noteq> None | None \<Rightarrow> False)
        then op_fail (Protocol ''encrypted key markers are not supported for delete'')
        else prepare_mutation env now (PDelete n p) (adapter_instance context' \<noteq> None)))"

definition move_namespace ::
    "('s, 'm) broker_env \<Rightarrow> instant \<Rightarrow> namespace_context \<Rightarrow> namespace_context \<Rightarrow> request_context
     \<Rightarrow> (('s, 'm) broker, broker_outcome) op" where
  "move_namespace env now src dst context' =
     (if reserved src \<or> reserved dst then op_fail (PermissionDenied AUTH_NAMESPACE)
      else op_bind (op_lift (validate_context_move src dst)) (\<lambda>_.
           op_bind (authorize_op now context' src OpDelete) (\<lambda>_.
           op_bind (authorize_op now context' dst OpWrite) (\<lambda>_.
             prepare_mutation env now (PMove src dst) (adapter_instance context' \<noteq> None)))))"

section \<open>Registration, statistics and encrypted commands\<close>

definition registration_guard ::
    "instant \<Rightarrow> request_context \<Rightarrow> namespace_context \<Rightarrow> operation \<Rightarrow> (('s, 'm) broker, unit) op" where
  "registration_guard now context' n operation =
     (if reserved_read n then op_lift (require_bootstrap context')
      else if as_str n = LEASE_NAMESPACE then op_fail (PermissionDenied (as_str n))
      else authorize_op now context' n operation)"

definition provide_command ::
    "instant \<Rightarrow> namespace_pattern \<Rightarrow> key_pattern \<Rightarrow> nat option \<Rightarrow> nat option \<Rightarrow> nat option \<Rightarrow> request_context
     \<Rightarrow> (('s, 'm) broker, broker_outcome) op" where
  "provide_command now np kp rate timeout' miss_ttl context' =
     (if rate = Some 0 then op_fail (Protocol ''PROVIDE max_rate must be greater than zero'')
      else op_bind (op_lift (NamespaceContext_new (np_str np))) (\<lambda>n.
           op_bind (registration_guard now context' n OpProvide) (\<lambda>_ b.
             if adapter_instance context' = None
             then (Inl (Protocol ''PROVIDE requires an adapter instance''), b)
             else case draw b of (i, b1) \<Rightarrow>
                    (Inr (outcome ROk),
                     b1\<lparr> b_registry := snd (register_provider (b_registry b1) i now (rc_owner context')
                            (np_str np) (kp_str kp)
                            \<lparr> max_rate = rate,
                              timeout_ms = (case timeout' of Some t \<Rightarrow> t | None \<Rightarrow> 0),
                              miss_ttl_seconds = (case miss_ttl of Some t \<Rightarrow> t | None \<Rightarrow> 0) \<rparr>) \<rparr>))))"

definition store_command ::
    "instant \<Rightarrow> namespace_pattern \<Rightarrow> key_pattern \<Rightarrow> request_context
     \<Rightarrow> (('s, 'm) broker, broker_outcome) op" where
  "store_command now np kp context' =
     op_bind (op_lift (NamespaceContext_new (np_str np))) (\<lambda>n.
     op_bind (registration_guard now context' n OpStore) (\<lambda>_ b.
       if adapter_instance context' = None
       then (Inl (Protocol ''STORE requires an adapter instance''), b)
       else case draw b of (i, b1) \<Rightarrow>
              (Inr (outcome ROk),
               b1\<lparr> b_registry := snd (register_store (b_registry b1) i now (rc_owner context')
                      (np_str np) (kp_str kp)) \<rparr>)))"

definition broker_stats :: "('s, 'm) broker_env \<Rightarrow> instant \<Rightarrow> (('s, 'm) broker, stats) op" where
  "broker_stats env now =
     op_bind (store_len env now) (\<lambda>n b.
       (Inr \<lparr> stat_requests = unat (b_requests b), stat_hits = unat (b_hits b),
              stat_misses = unat (b_misses b), stat_values = n \<rparr>, b))"

definition cached_value_response ::
    "('s, 'm) broker_env \<Rightarrow> instant \<Rightarrow> namespace_context \<Rightarrow> key \<Rightarrow> bool
     \<Rightarrow> (('s, 'm) broker, response option) op" where
  "cached_value_response env now n k encrypted =
     op_bind (store_get env now n k) (\<lambda>stored.
       case stored of
         None \<Rightarrow> op_return None
       | Some sv \<Rightarrow>
           op_bind (if encrypted then decrypt_value env now n k (sv_value sv) else op_return (sv_value sv))
             (\<lambda>value. op_return (Some (stored_response value sv))))"

definition security_key_provider_dispatch ::
    "('s, 'm) broker_env \<Rightarrow> instant \<Rightarrow> namespace_context \<Rightarrow> (('s, 'm) broker, dispatch option) op" where
  "security_key_provider_dispatch env now namespace =
     op_bind (op_lift (security_route namespace)) (\<lambda>(security_namespace, scope_key).
     op_bind (store_get env now security_namespace scope_key) (\<lambda>stored.
       case stored of
         Some value \<Rightarrow>
           op_bind (op_lift (parse_security_key (decoders env) (sv_value value))) (\<lambda>_. op_return None)
       | None \<Rightarrow> (\<lambda>b.
           case select_provider security_namespace scope_key b of
             (None, b1) \<Rightarrow>
               (Inl (Encryption (''no /__secrets provider is registered for scope '' @ [CHR 0x27]
                  @ key_str scope_key @ [CHR 0x27])), b1)
           | (Some provider, b1) \<Rightarrow>
               (case draw b1 of (i, b2) \<Rightarrow>
                  (Inr (Some (query_dispatch provider i security_namespace scope_key False)), b2)))))"

definition authorize_or_bootstrap ::
    "('s, 'm) broker \<Rightarrow> instant \<Rightarrow> request_context \<Rightarrow> namespace_context \<Rightarrow> operation \<Rightarrow> unit result" where
  "authorize_or_bootstrap b now context' n operation =
     (if reserved_read n then require_bootstrap context' else authorize b now context' n operation)"

fun authorize_encrypted_command ::
    "('s, 'm) broker \<Rightarrow> instant \<Rightarrow> command \<Rightarrow> request_context \<Rightarrow> unit result" where
  "authorize_encrypted_command b now (Get n k) context' =
     (if marked_key (key_str k) \<noteq> None
      then authorize_or_bootstrap b now context' n OpReadEncrypted else Inr ())"
| "authorize_encrypted_command b now (Set n k _ _) context' =
     (if marked_key (key_str k) \<noteq> None
      then authorize_or_bootstrap b now context' n OpWriteEncrypted else Inr ())"
| "authorize_encrypted_command b now (SetBatch n entries _) context' =
     (case collect_results
             (\<lambda>e. if marked_key (key_str (entry_key e)) \<noteq> None
                  then authorize_or_bootstrap b now context' n OpWriteEncrypted else Inr ()) entries of
        Inl e \<Rightarrow> Inl e
      | Inr _ \<Rightarrow> Inr ())"
| "authorize_encrypted_command b now _ context' = Inr ()"

section \<open>Commands\<close>

fun run_command ::
    "('s, 'm) broker_env \<Rightarrow> instant \<Rightarrow> command \<Rightarrow> request_context \<Rightarrow> (('s, 'm) broker, broker_outcome) op" where
  "run_command env now (Auth api_key _) context' = authenticate env now api_key"
| "run_command env now (Get n k) context' = broker_get env now n k context'"
| "run_command env now (Set n k value ttl) context' =
     broker_set env now n k value (map_option from_secs ttl) context'"
| "run_command env now (SetBatch n entries ttl) context' =
     set_batch env now n entries (map_option from_secs ttl) context'"
| "run_command env now (Delete n p) context' = broker_delete env now n p context'"
| "run_command env now (Move src dst) context' = move_namespace env now src dst context'"
| "run_command env now (Provide np kp rate timeout' miss_ttl) context' =
     provide_command now np kp rate timeout' miss_ttl context'"
| "run_command env now (Store np kp) context' = store_command now np kp context'"
| "run_command env now Ping context' = op_return (outcome Pong)"
| "run_command env now StatsCmd context' =
     op_bind (broker_stats env now) (\<lambda>s. op_return (outcome (RStats s)))"

definition execute ::
    "('s, 'm) broker_env \<Rightarrow> instant \<Rightarrow> command \<Rightarrow> request_context \<Rightarrow> (('s, 'm) broker, broker_outcome) op" where
  "execute env now command' context' b =
     run_command env now command' context' (b\<lparr> b_requests := b_requests b + 1 \<rparr>)"

end
