(* ===== verification/Broker_Access.thy ===== *)
theory Broker_Access
  imports Broker
begin

text \<open>
  Access control at the broker: the guard of every command, and the client side of the store
  contract. The locale \<open>broker_store\<close> is a broker over a store that meets \<open>store_spec\<close>; inside
  it \<open>quiet\<close> relates broker states that differ only in what a read may change. It is
  interpreted on the in-memory store of the code.
\<close>

section \<open>Brokers over a store that meets its contract\<close>

locale broker_store = st: store_spec "sops env" invar view
  for env :: "('s, 'm) broker_env"
    and invar :: "'s \<Rightarrow> bool"
    and view :: "'s \<Rightarrow> instant \<Rightarrow> store_view"
begin

definition quiet :: "instant \<Rightarrow> ('s, 'm) broker \<Rightarrow> ('s, 'm) broker \<Rightarrow> bool" where
  "quiet now b b' \<longleftrightarrow>
     (\<exists>s d. b' = b\<lparr> b_store := s, b_draws := d \<rparr> \<and> invar s \<and> (\<forall>u \<ge> now. view s u = view (b_store b) u))"

definition quiet_op :: "instant \<Rightarrow> (('s, 'm) broker, 'a) op \<Rightarrow> bool" where
  "quiet_op now m \<longleftrightarrow> (\<forall>b. invar (b_store b) \<longrightarrow> quiet now b (snd (m b)))"

lemma quiet_refl: "invar (b_store b) \<Longrightarrow> quiet now b b"
  unfolding quiet_def by (intro exI[of _ "b_store b"] exI[of _ "b_draws b"]) simp

lemma quiet_trans: "quiet now a b \<Longrightarrow> quiet now b c \<Longrightarrow> quiet now a c"
  unfolding quiet_def by fastforce

lemma quiet_invar: "quiet now b b' \<Longrightarrow> invar (b_store b')"
  unfolding quiet_def by auto

lemma quiet_view: "quiet now b b' \<Longrightarrow> now \<le> u \<Longrightarrow> view (b_store b') u = view (b_store b) u"
  unfolding quiet_def by auto

lemma quiet_fields:
  assumes "quiet now b b'"
  shows "b_auth b' = b_auth b" and "b_registry b' = b_registry b" and "b_leases b' = b_leases b"
    and "b_mutation_shards b' = b_mutation_shards b" and "b_generations b' = b_generations b"
    and "b_miss_cache b' = b_miss_cache b"
  using assms unfolding quiet_def by auto

lemma quiet_op_bind [intro]:
  assumes "quiet_op now m" and "\<And>x. quiet_op now (f x)"
  shows "quiet_op now (op_bind m f)"
  unfolding quiet_op_def
proof (intro allI impI)
  fix b :: "('s, 'm) broker" assume "invar (b_store b)"
  then have first: "quiet now b (snd (m b))" using assms(1) unfolding quiet_op_def by blast
  show "quiet now b (snd (op_bind m f b))"
  proof (cases "fst (m b)")
    case (Inl e)
    then show ?thesis using first by (cases "m b") (simp add: op_bind_def)
  next
    case (Inr x)
    then have "snd (op_bind m f b) = snd (f x (snd (m b)))" by (cases "m b") (simp add: op_bind_def)
    moreover have "quiet now (snd (m b)) (snd (f x (snd (m b))))"
      using assms(2)[of x] quiet_invar[OF first] unfolding quiet_op_def by blast
    ultimately show ?thesis using quiet_trans[OF first] by simp
  qed
qed

lemma quiet_op_pure [intro, simp]:
  "quiet_op now (op_return x)" "quiet_op now (op_fail e)" "quiet_op now (op_lift r)"
  "quiet_op now (authorize_op t c n op)"
  by (auto simp: quiet_op_def op_return_def op_fail_def op_lift_def authorize_op_def intro: quiet_refl)

lemma quiet_op_if [intro]: "quiet_op now m \<Longrightarrow> quiet_op now m' \<Longrightarrow> quiet_op now (if c then m else m')"
  by simp

lemma quiet_op_prod [intro]: "(\<And>x y. quiet_op now (f x y)) \<Longrightarrow> quiet_op now (case p of (x, y) \<Rightarrow> f x y)"
  by (cases p) simp

lemma quiet_op_draw [intro]: "quiet_op now (\<lambda>b. (f b, b\<lparr> b_draws := Suc (b_draws b) \<rparr>))"
  unfolding quiet_op_def quiet_def
proof (intro allI impI)
  fix b :: "('s, 'm) broker" assume "invar (b_store b)"
  then show "\<exists>s d. snd (f b, b\<lparr> b_draws := Suc (b_draws b) \<rparr>) = b\<lparr> b_store := s, b_draws := d \<rparr>
      \<and> invar s \<and> (\<forall>u \<ge> now. view s u = view (b_store b) u)"
    by (intro exI[of _ "b_store b"] exI[of _ "Suc (b_draws b)"]) simp
qed

lemma store_get_spec:
  assumes "invar (b_store b)"
  shows "fst (store_get env now n k b) = Inr (view (b_store b) now (n, k))"
    and "quiet now b (snd (store_get env now n k b))"
proof -
  obtain s where s: "st_get (sops env) (b_store b) now n k = (Inr (view (b_store b) now (n, k)), s)"
    "invar s" "\<forall>u \<ge> now. view s u = view (b_store b) u"
    using st.get_spec[OF assms, of now n k] by blast
  then show "fst (store_get env now n k b) = Inr (view (b_store b) now (n, k))"
    and "quiet now b (snd (store_get env now n k b))"
    by (auto simp: store_get_def quiet_def intro!: exI[of _ s] exI[of _ "b_draws b"])
qed

lemma store_get_eq:
  "invar (b_store b) \<Longrightarrow> \<exists>b'. store_get env now n k b = (Inr (view (b_store b) now (n, k)), b') \<and> quiet now b b'"
  using store_get_spec[of b now n k] by (metis prod.collapse)

lemma quiet_op_store_get [intro]: "quiet_op now (store_get env now n k)"
  by (simp add: quiet_op_def store_get_spec)

lemma quiet_op_security_key [intro]: "quiet_op now (security_key env now n)"
  unfolding security_key_def
  by (intro quiet_op_bind quiet_op_pure) (auto split: prod.split option.split)

lemma quiet_op_encrypt [intro]: "quiet_op now (encrypt_value env now n k v)"
  unfolding encrypt_value_def by (intro quiet_op_bind quiet_op_security_key quiet_op_draw)

lemma quiet_op_decrypt [intro]: "quiet_op now (decrypt_value env now n k v)"
  unfolding decrypt_value_def by (intro quiet_op_bind quiet_op_security_key quiet_op_pure)

lemma quiet_op_variable [intro]: "quiet_op now (variable_value env now n vars x)"
  unfolding variable_value_def by (auto split: option.split)

lemma quiet_resolve_loop:
  "invar (b_store b) \<Longrightarrow> quiet now b (snd (resolve_loop env now n vars s cursor b))"
proof (induction "length s - cursor" arbitrary: s cursor b rule: less_induct)
  case less
  show ?case
  proof (cases "next_variable s cursor")
    case None
    then show ?thesis using less.prems by (simp add: resolve_loop.simps[of env now n vars s] quiet_refl)
  next
    case (Some p)
    obtain start stop where p: "p = (start, stop)" by (cases p)
    have bounds: "cursor \<le> start \<and> start + 2 \<le> stop \<and> stop < length s"
      using next_variable_bounds Some p by simp
    let ?x = "slice (start + 2) stop s"
    let ?r = "variable_value env now n vars ?x b"
    have q: "quiet now b (snd ?r)" using quiet_op_variable less.prems unfolding quiet_op_def by blast
    have dec: "length s - (stop + 1) < length s - cursor"
      "length (take start s @ v @ drop (stop + 1) s) - (start + length v) < length s - cursor" for v :: string
      using bounds by auto
    have again: "quiet now b (snd (resolve_loop env now n vars s (stop + 1) b'))"
      if "quiet now b b'" for b'
      using less.hyps[OF dec(1) quiet_invar[OF that]] quiet_trans[OF that] by blast
    have subst: "quiet now b (snd (resolve_loop env now n vars
        (take start s @ v @ drop (stop + 1) s) (start + length v) (snd ?r)))" for v
      using less.hyps[OF dec(2) quiet_invar[OF q]] quiet_trans[OF q] by blast
    show ?thesis
      using again[OF q] again[OF quiet_refl[OF less.prems]] subst q Some p
      by (subst resolve_loop.simps) (auto simp: Let_def split: prod.splits sum.splits option.splits)
  qed
qed

lemma quiet_op_resolve_key [intro]: "quiet_op now (resolve_key env now n k c)"
  unfolding resolve_key_def
  by (intro quiet_op_bind quiet_op_pure) (simp add: quiet_op_def quiet_resolve_loop)

lemma quiet_op_convert_entry [intro]: "quiet_op now (convert_entry env now n c e)"
  unfolding convert_entry_def
  by (intro quiet_op_bind quiet_op_prod quiet_op_pure quiet_op_if quiet_op_encrypt)

lemma quiet_op_convert_entries [intro]: "quiet_op now (convert_entries env now n c es)"
  by (induction es) auto

end

text \<open>The broker over the in-memory store, with the cache library's reference instance.\<close>

type_synonym memory_state = "(cache_key, cache_entry) timed"
type_synonym miss_state = "(cache_key, marker) timed"
type_synonym memory_broker = "(memory_state, miss_state) broker"

definition memory_env :: "serde \<Rightarrow> crypto \<Rightarrow> route_hash \<Rightarrow> (nat \<Rightarrow> string) \<Rightarrow> (memory_state, miss_state) broker_env" where
  "memory_env sd cr hash nonces =
     \<lparr> sops = memory_ops (timed_ops EntryExpiry), mops = timed_ops MarkerExpiry,
       decoders = sd, crypt = cr, hash_of = hash, nonce_of = nonces \<rparr>"

lemma memory_env_fields [simp]:
  "sops (memory_env sd cr hash nonces) = memory_ops (timed_ops EntryExpiry)"
  "mops (memory_env sd cr hash nonces) = timed_ops MarkerExpiry"
  "decoders (memory_env sd cr hash nonces) = sd" "crypt (memory_env sd cr hash nonces) = cr"
  "hash_of (memory_env sd cr hash nonces) = hash" "nonce_of (memory_env sd cr hash nonces) = nonces"
  by (simp_all add: memory_env_def)

interpretation memory_broker: broker_store "memory_env sd cr hash nonces" entry_cache_invar "memory_view timed_peek"
  for sd cr hash nonces
  by (rule broker_store.intro) (simp add: entry_cache.mem.store_spec_axioms)

section \<open>The guard of a command\<close>

definition adapter_ok :: "request_context \<Rightarrow> bool" where
  "adapter_ok c \<longleftrightarrow> adapter_instance c \<noteq> None \<and> rc_auth c \<noteq> None"

definition bootstrap_ok :: "request_context \<Rightarrow> bool" where
  "bootstrap_ok c \<longleftrightarrow> (\<exists>a. rc_auth c = Some a \<and> is_bootstrap_admin a)"

definition authorized :: "('s, 'm) broker \<Rightarrow> instant \<Rightarrow> request_context \<Rightarrow> namespace_context \<Rightarrow> operation \<Rightarrow> bool" where
  "authorized b now c n op \<longleftrightarrow> authorize b now c n op = Inr ()"

definition is_marked :: "key \<Rightarrow> bool" where
  "is_marked k \<longleftrightarrow> marked_key (key_str k) \<noteq> None"

definition registration_ok :: "('s, 'm) broker \<Rightarrow> instant \<Rightarrow> request_context \<Rightarrow> namespace_pattern \<Rightarrow> operation \<Rightarrow> bool" where
  "registration_ok b now c np op \<longleftrightarrow>
     adapter_instance c \<noteq> None
     \<and> (case NamespaceContext_new (np_str np) of
          Inl _ \<Rightarrow> False
        | Inr n \<Rightarrow> if reserved_read n then bootstrap_ok c
                  else as_str n \<noteq> LEASE_NAMESPACE \<and> authorized b now c n op)"

text \<open>What each command needs before it may do anything.\<close>

fun command_guard :: "('s, 'm) broker \<Rightarrow> instant \<Rightarrow> command \<Rightarrow> request_context \<Rightarrow> bool" where
  "command_guard b now (Get n k) c \<longleftrightarrow>
     (if as_str n = LEASE_NAMESPACE then adapter_ok c
      else if reserved_read n then bootstrap_ok c
      else authorized b now c n (read_operation (is_marked k)))"
| "command_guard b now (Set n k v ttl) c \<longleftrightarrow>
     (if as_str n = LEASE_NAMESPACE then adapter_ok c
      else if reserved_read n then bootstrap_ok c
      else authorized b now c n (write_operation (is_marked k)))"
| "command_guard b now (SetBatch n es ttl) c \<longleftrightarrow>
     es \<noteq> [] \<and> list_all (\<lambda>e. authorized b now c n (write_operation (is_marked (entry_key e)))) es"
| "command_guard b now (Delete n p) c \<longleftrightarrow> \<not> reserved n \<and> authorized b now c n OpDelete"
| "command_guard b now (Move src dst) c \<longleftrightarrow>
     \<not> reserved src \<and> \<not> reserved dst \<and> validate_context_move src dst = Inr ()
     \<and> authorized b now c src OpDelete \<and> authorized b now c dst OpWrite"
| "command_guard b now (Provide np kp rate t m) c \<longleftrightarrow> rate \<noteq> Some 0 \<and> registration_ok b now c np OpProvide"
| "command_guard b now (Store np kp) c \<longleftrightarrow> registration_ok b now c np OpStore"
| "command_guard b now (Auth _ _) c \<longleftrightarrow> True"
| "command_guard b now Ping c \<longleftrightarrow> True"
| "command_guard b now StatsCmd c \<longleftrightarrow> True"

lemma authorize_cong: "b_auth b = b_auth b' \<Longrightarrow> authorize b now c n op = authorize b' now c n op"
  by (simp add: authorize_def)

lemma authorized_requests [simp]:
  "authorized (b\<lparr> b_requests := r \<rparr>) now c n op = authorized b now c n op"
  using authorize_cong[of "b\<lparr> b_requests := r \<rparr>" b] by (simp add: authorized_def)

lemma command_guard_requests [simp]:
  "command_guard (b\<lparr> b_requests := r \<rparr>) now cmd c = command_guard b now cmd c"
  by (cases cmd) (simp_all add: registration_ok_def split: sum.split)

lemma not_authorized: "\<not> authorized b now c n op \<Longrightarrow> \<exists>e. authorize b now c n op = Inl e"
  by (cases "authorize b now c n op") (auto simp: authorized_def)

lemma require_bootstrap_eq:
  "require_bootstrap c = (if bootstrap_ok c then Inr () else Inl (PermissionDenied AUTH_NAMESPACE))"
  by (auto simp: require_bootstrap_def bootstrap_ok_def split: option.split)

lemma require_adapter_eq:
  "require_adapter c =
     (if adapter_ok c then Inr (the (adapter_instance c)) else Inl (PermissionDenied LEASE_NAMESPACE))"
  by (auto simp: require_adapter_def adapter_ok_def split: option.split)

lemma marked_key_not_Nil: "marked_key s = Some v \<Longrightarrow> v \<noteq> []"
  by (auto simp: marked_key_def split: option.splits if_splits)

lemma normalize_marked_key_eq:
  "normalize_marked_key k =
     Inr (case marked_key (key_str k) of Some v \<Rightarrow> (Key v, True) | None \<Rightarrow> (k, False))"
  using marked_key_not_Nil
  by (auto simp: normalize_marked_key_def Key_new_def split: option.splits)

lemma normalize_marked_key_Inr: "\<exists>k'. normalize_marked_key k = Inr (k', is_marked k)"
  by (cases "marked_key (key_str k)") (simp_all add: normalize_marked_key_eq is_marked_def)

lemma normalize_flag: "normalize_marked_key k = Inr (k', m) \<Longrightarrow> m = is_marked k"
  by (auto simp: normalize_marked_key_eq is_marked_def split: option.splits)

lemma op_bind_authorize_fail:
  "\<not> authorized b now c n op \<Longrightarrow> \<exists>e. op_bind (authorize_op now c n op) f b = (Inl e, b)"
  using not_authorized by (fastforce simp: op_bind_def authorize_op_def)

lemma op_bind_authorize_ok:
  "authorized b now c n op \<Longrightarrow> op_bind (authorize_op now c n op) f b = f () b"
  by (simp add: op_bind_def authorize_op_def authorized_def)

lemmas op_bind_authorize = op_bind_authorize_fail op_bind_authorize_ok

lemma registration_guard_fail:
  assumes "NamespaceContext_new (np_str np) = Inr n" and "adapter_instance c \<noteq> None"
    and "\<not> registration_ok b now c np op"
  shows "\<exists>e. op_bind (registration_guard now c n op) f b = (Inl e, b)"
  using assms op_bind_authorize_fail
  by (auto simp: registration_ok_def registration_guard_def require_bootstrap_eq split: if_splits)

lemma registration_denied:
  assumes "\<not> registration_ok b now c np op"
    and "\<And>n b. adapter_instance c = None \<Longrightarrow> \<exists>e. f n () b = (Inl e, b)"
  shows "\<exists>e. op_bind (op_lift (NamespaceContext_new (np_str np))) (\<lambda>n.
      op_bind (registration_guard now c n op) (f n)) b = (Inl e, b)"
proof (cases "NamespaceContext_new (np_str np)")
  case (Inl e)
  then show ?thesis by simp
next
  case (Inr n)
  show ?thesis
  proof (cases "adapter_instance c")
    case None
    obtain r where r: "registration_guard now c n op b = (r, b)"
      by (cases "reserved_read n"; cases "as_str n = LEASE_NAMESPACE")
        (simp_all add: registration_guard_def op_lift_def op_fail_def authorize_op_def)
    then show ?thesis
      using Inr assms(2)[OF None, of n b] by (cases r) (auto simp: op_bind_Inl op_bind_Inr)
  next
    case Some
    then show ?thesis using registration_guard_fail[OF Inr _ assms(1)] Inr by simp
  qed
qed

lemma provide_denied:
  assumes "\<not> (rate \<noteq> Some 0 \<and> registration_ok b now c np OpProvide)"
  shows "\<exists>e. provide_command now np kp rate t m c b = (Inl e, b)"
proof (cases "rate = Some 0")
  case True
  then show ?thesis by (simp add: provide_command_def op_fail_def)
next
  case False
  then show ?thesis
    unfolding provide_command_def using assms by (simp only: if_False, intro registration_denied) auto
qed

lemma move_denied:
  assumes "\<not> command_guard b now (Move src dst) c"
  shows "\<exists>e. move_namespace env now src dst c b = (Inl e, b)"
proof (cases "validate_context_move src dst")
  case (Inl e)
  then show ?thesis by (simp add: move_namespace_def op_fail_def)
next
  case (Inr u)
  then consider "reserved src \<or> reserved dst" | "\<not> authorized b now c src OpDelete"
    | "authorized b now c src OpDelete" "\<not> authorized b now c dst OpWrite"
    using assms by auto
  then show ?thesis
    using Inr
    by cases (auto simp: move_namespace_def op_fail_def op_bind_authorize_ok intro!: op_bind_authorize_fail)
qed

lemma store_denied:
  "\<not> registration_ok b now c np OpStore \<Longrightarrow> \<exists>e. store_command now np kp c b = (Inl e, b)"
  unfolding store_command_def by (intro registration_denied) auto

context broker_store
begin

lemma convert_entries_authorized:
  assumes "convert_entries env now n c es b = (Inr cs, b')" and "invar (b_store b)"
  shows "list_all (\<lambda>e. authorized b now c n (write_operation (is_marked (entry_key e)))) es"
  using assms
proof (induction es arbitrary: b cs)
  case Nil
  then show ?case by simp
next
  case (Cons e es)
  then obtain x b1 cs' where x: "convert_entry env now n c e b = (Inr x, b1)"
    and rest: "convert_entries env now n c es b1 = (Inr cs', b')"
    by (auto simp: op_bind_Inr_iff op_return_def)
  have q: "quiet now b b1"
    using quiet_op_convert_entry Cons.prems(2) x unfolding quiet_op_def by (metis snd_conv)
  have "authorized b now c n (write_operation (is_marked (entry_key e)))"
    using x op_bind_authorize_fail normalize_flag
    by (fastforce simp: convert_entry_def op_bind_Inr_iff op_lift_def authorize_op_def authorized_def
        split: prod.splits)
  moreover have "authorize b1 now c n op = authorize b now c n op" for op
    by (rule authorize_cong) (simp add: quiet_fields[OF q])
  ultimately show ?case
    using Cons.IH[OF rest quiet_invar[OF q]] by (simp add: authorized_def)
qed

lemma set_value_denied:
  assumes "as_str n \<noteq> AUTH_NAMESPACE" and "\<not> authorized b now c n (write_operation (is_marked k))"
  shows "\<exists>e. set_value env now n k v ttl c b = (Inl e, b)"
proof -
  obtain k' where "normalize_marked_key k = Inr (k', is_marked k)"
    using normalize_marked_key_Inr by blast
  then show ?thesis
    using assms by (cases "is_marked k") (auto simp: set_value_def intro!: op_bind_authorize_fail)
qed

lemma convert_entries_denied:
  assumes "invar (b_store b)"
    and "\<not> list_all (\<lambda>e. authorized b now c n (write_operation (is_marked (entry_key e)))) es"
  shows "\<exists>e b'. convert_entries env now n c es b = (Inl e, b') \<and> quiet now b b'"
proof -
  obtain r b' where r: "convert_entries env now n c es b = (r, b')" by fastforce
  then have "quiet now b b'"
    using quiet_op_convert_entries assms(1) unfolding quiet_op_def by (metis snd_conv)
  moreover have "\<exists>e. r = Inl e" using convert_entries_authorized[of now n c es b] assms r by (cases r) auto
  ultimately show ?thesis using r by blast
qed

lemma run_command_denied:
  assumes inv: "invar (b_store b)" and denied: "\<not> command_guard b now cmd c"
  shows "\<exists>e b'. run_command env now cmd c b = (Inl e, b') \<and> quiet now b b'"
proof -
  note refl = quiet_refl[OF inv]
  show ?thesis
  proof (cases cmd)
    case (Get n k)
    then have "\<exists>e. broker_get env now n k c b = (Inl e, b)"
      using denied op_bind_authorize_fail
      by (auto simp: broker_get_def acquire_lease_def require_adapter_eq require_bootstrap_eq Let_def
          is_marked_def split: if_splits)
    then show ?thesis using Get refl by auto
  next
    case (Set n k v ttl)
    then have "\<exists>e. broker_set env now n k v (map_option from_secs ttl) c b = (Inl e, b)"
      using denied set_value_denied[of n b now c k]
      by (auto simp: broker_set_def release_lease_def require_adapter_eq require_bootstrap_eq
          reserved_read_def split: if_splits)
    then show ?thesis using Set refl by auto
  next
    case (SetBatch n es ttl)
    show ?thesis
    proof (cases "es = []")
      case True
      then show ?thesis using SetBatch refl by (auto simp: set_batch_def op_fail_def)
    next
      case False
      then have "\<not> list_all (\<lambda>e. authorized b now c n (write_operation (is_marked (entry_key e)))) es"
        using denied SetBatch by simp
      then obtain e b' where "convert_entries env now n c es b = (Inl e, b')" "quiet now b b'"
        using convert_entries_denied[OF inv] by blast
      then show ?thesis using SetBatch False by (auto simp: set_batch_def op_bind_Inl)
    qed
  next
    case (Delete n p)
    then have "\<exists>e. broker_delete env now n p c b = (Inl e, b)"
      using denied op_bind_authorize_fail by (auto simp: broker_delete_def op_fail_def)
    then show ?thesis using Delete refl by auto
  next
    case (Move src dst)
    then have "\<exists>e. move_namespace env now src dst c b = (Inl e, b)"
      using denied by (auto intro!: move_denied)
    then show ?thesis using Move refl by auto
  next
    case (Provide np kp rate t m)
    then have "\<exists>e. provide_command now np kp rate t m c b = (Inl e, b)"
      using denied provide_denied by fastforce
    then show ?thesis using Provide refl by auto
  next
    case (Store np kp)
    then have "\<exists>e. store_command now np kp c b = (Inl e, b)"
      using denied store_denied by fastforce
    then show ?thesis using Store refl by auto
  qed (use denied in auto)
qed

end

section \<open>Properties\<close>

text \<open>
  C1. A denied command leaves no trace: when the guard of a command fails (the caller lacks the
  role the command needs at its namespace, is not the bootstrap administrator where that is
  needed, or is not an adapter), the command returns an error, dispatches nothing, and changes
  nothing but the request counter; the values every later read sees are the same.
\<close>

theorem denied_command_has_no_effect:
  assumes "store_spec (sops env) invar view" and "invar (b_store b)" and "\<not> command_guard b now cmd c"
  shows "\<exists>e s d. execute env now cmd c b =
      (Inl e, b\<lparr> b_requests := b_requests b + 1, b_store := s, b_draws := d \<rparr>)
    \<and> (\<forall>u \<ge> now. view s u = view (b_store b) u)"
proof -
  have loc: "broker_store env invar view" using assms(1) by (rule broker_store.intro)
  let ?b = "b\<lparr> b_requests := b_requests b + 1 \<rparr>"
  have "invar (b_store ?b)" and "\<not> command_guard ?b now cmd c" using assms(2,3) by simp_all
  from broker_store.run_command_denied[OF loc this] obtain e b' where
    "run_command env now cmd c ?b = (Inl e, b')" and "broker_store.quiet invar view now ?b b'"
    by blast
  then show ?thesis unfolding execute_def broker_store.quiet_def[OF loc] by auto
qed

text \<open>A broker with authentication and an empty store, for the concrete instances.\<close>

definition sample_env :: "(memory_state, miss_state) broker_env" where
  "sample_env = memory_env sample_serde sample_crypto (\<lambda>_. 0) (\<lambda>_. replicate 24 (CHR ''n''))"

definition sample_broker :: memory_broker where
  "sample_broker = Broker_new sample_env [] (Some (AuthManager_with_bootstrap_admin (Some ''root'') 10))"

lemma sample_store_spec:
  "store_spec (sops sample_env) entry_cache_invar (memory_view timed_peek)"
  by (simp add: sample_env_def entry_cache.mem.store_spec_axioms)

lemma sample_invar: "entry_cache_invar (b_store sample_broker)"
  using entry_cache.empty_invar by (simp add: sample_broker_def Broker_new_def timed_ops_def)

theorem denied_command_has_no_effect_witness:
  "\<exists>e s d. execute sample_env 5 (Get draft_ns (Key ''k'')) (anonymous 1) sample_broker =
      (Inl e, sample_broker\<lparr> b_requests := b_requests sample_broker + 1, b_store := s, b_draws := d \<rparr>)
    \<and> (\<forall>u \<ge> 5. memory_view timed_peek s u = memory_view timed_peek (b_store sample_broker) u)"
proof (rule denied_command_has_no_effect[OF sample_store_spec sample_invar])
  show "\<not> command_guard sample_broker 5 (Get draft_ns (Key ''k'')) (anonymous 1)"
    by (simp add: authorized_def authorize_def sample_broker_def Broker_new_def anonymous_def
        draft_ns_def reserved_read_def as_str_def namespace_names)
qed

text \<open>
  Reserved namespaces are compared as text when an adapter registers, but matched as patterns when
  it is selected: a registration for \<open>/__auth*\<close> is guarded like an ordinary one and is selected
  for \<open>/__auth\<close>.
\<close>

lemma wildcard_registration_reaches_auth:
  "\<not> reserved_read (projr (NamespaceContext_new ''/__auth*''))
   \<and> matches_namespace (Pattern_new ''/__auth*'') AUTH_NAMESPACE"
  by code_simp

end
