(* ===== verification/Broker_Data.thy ===== *)
theory Broker_Data
  imports Broker_Access
begin

text \<open>
  What the broker does to stored values. \<open>mutation_effect\<close> and \<open>mutation_result\<close> specify a
  mutation on the view of the store; \<open>commit\<close> refines them. A prepared mutation is either
  committed at once or handed to a storage adapter with nothing changed yet (durable before
  cache). Reserved namespaces change only for the bootstrap administrator, batches excepted.
\<close>

section \<open>The specification of a mutation\<close>

fun mutation_result :: "pending_mutation \<Rightarrow> store_view \<Rightarrow> unit result" where
  "mutation_result (PMove src dst) V =
     (if src \<noteq> dst \<and> (\<exists>k. V (dst, k) \<noteq> None) then Inl (NamespaceExists (as_str dst)) else Inr ())"
| "mutation_result _ V = Inr ()"

fun mutation_effect :: "pending_mutation \<Rightarrow> instant \<Rightarrow> (instant \<Rightarrow> store_view) \<Rightarrow> instant \<Rightarrow> store_view" where
  "mutation_effect (PSet n k v ttl) t V u = (V u)((n, k) := written_view t v ttl u)"
| "mutation_effect (PSetBatch n es ttl) t V u =
     (\<lambda>(n', k). case (if n' = n then map_of (rev (map (\<lambda>e. (entry_key e, entry_value e)) es)) k else None) of
                  None \<Rightarrow> V u (n', k)
                | Some v \<Rightarrow> written_view t v ttl u)"
| "mutation_effect (PDelete n p) t V u =
     (\<lambda>(n', k). if n' = n \<and> pattern_selects p k then None else V u (n', k))"
| "mutation_effect (PMove src dst) t V u =
     (if src = dst \<or> (\<exists>k. V t (dst, k) \<noteq> None) then V u
      else (\<lambda>(n, k). if n = dst then V u (src, k) else if n = src then None else V u (n, k)))"

fun mutation_namespaces :: "pending_mutation \<Rightarrow> namespace_context list" where
  "mutation_namespaces (PSet n k v ttl) = [n]"
| "mutation_namespaces (PSetBatch n es ttl) = [n]"
| "mutation_namespaces (PDelete n p) = [n]"
| "mutation_namespaces (PMove src dst) = [src, dst]"

fun is_set_batch :: "command \<Rightarrow> bool" where
  "is_set_batch (SetBatch _ _ _) \<longleftrightarrow> True"
| "is_set_batch _ \<longleftrightarrow> False"

lemma mutation_effect_other:
  "n \<notin> set (mutation_namespaces m) \<Longrightarrow> mutation_effect m t V u (n, k) = V u (n, k)"
  by (cases m) auto

section \<open>Bookkeeping leaves the store alone\<close>

lemma record_exact_fields [simp]:
  "b_store (record_exact_mutation env now n k b) = b_store b"
  "b_registry (record_exact_mutation env now n k b) = b_registry b"
  "b_mutation_shards (record_exact_mutation env now n k b) = b_mutation_shards b"
  "b_auth (record_exact_mutation env now n k b) = b_auth b"
  by (simp_all add: record_exact_mutation_def Let_def split: option.split)

lemma bump_route_fields [simp]:
  "b_store (bump_route env now p e b) = b_store b"
  "b_registry (bump_route env now p e b) = b_registry b"
  "b_mutation_shards (bump_route env now p e b) = b_mutation_shards b"
  "b_auth (bump_route env now p e b) = b_auth b"
  by (simp_all add: bump_route_def split: prod.split)

lemma fold_bump_fields [simp]:
  "b_store (fold (bump_route env now p) es b) = b_store b"
  "b_registry (fold (bump_route env now p) es b) = b_registry b"
  "b_mutation_shards (fold (bump_route env now p) es b) = b_mutation_shards b"
  "b_auth (fold (bump_route env now p) es b) = b_auth b"
  by (induction es arbitrary: b) simp_all

lemma record_broad_fields [simp]:
  "b_store (record_broad_mutation env now n p b) = b_store b"
  "b_registry (record_broad_mutation env now n p b) = b_registry b"
  "b_mutation_shards (record_broad_mutation env now n p b) = b_mutation_shards b"
  "b_auth (record_broad_mutation env now n p b) = b_auth b"
  by (simp_all add: record_broad_mutation_def Let_def)

lemma fold_record_exact_fields [simp]:
  "b_store (fold (record_exact_mutation env now n) ks b) = b_store b"
  "b_registry (fold (record_exact_mutation env now n) ks b) = b_registry b"
  "b_mutation_shards (fold (record_exact_mutation env now n) ks b) = b_mutation_shards b"
  "b_auth (fold (record_exact_mutation env now n) ks b) = b_auth b"
  by (induction ks arbitrary: b) simp_all

lemma replace_cached_principal_fields [simp]:
  "b_store (replace_cached_principal env now n k v b) = b_store b"
  "b_registry (replace_cached_principal env now n k v b) = b_registry b"
  "b_mutation_shards (replace_cached_principal env now n k v b) = b_mutation_shards b"
  by (simp_all add: replace_cached_principal_def)

lemma replace_cached_principal_other [simp]:
  "as_str n \<noteq> AUTH_NAMESPACE \<Longrightarrow> replace_cached_principal env now n k v b = b"
  by (simp add: replace_cached_principal_def)

section \<open>Committing\<close>

lemma commit_now_eq: "commit_now env now m b = (map_sum id (\<lambda>_. outcome ROk) (fst (commit env now m b)), snd (commit env now m b))"
  by (cases "commit env now m b"; cases "fst (commit env now m b)")
    (auto simp: commit_now_def op_bind_def op_return_def)

context broker_store
begin

lemma commit_refines:
  assumes inv: "invar (b_store b)"
  shows "\<exists>b'. commit env now m b = (mutation_result m (view (b_store b) now), b') \<and> invar (b_store b')
    \<and> b_registry b' = b_registry b
    \<and> (\<forall>u \<ge> now. view (b_store b') u = mutation_effect m now (view (b_store b)) u)"
proof (cases m)
  case (PSet n k v ttl)
  show ?thesis
    using st.set_spec[OF inv, of now n k v ttl] PSet
    by (auto simp: store_set_def op_bind_def)
next
  case (PSetBatch n es ttl)
  show ?thesis
    using st.set_batch_spec[OF inv, of now n "map (\<lambda>e. (entry_key e, entry_value e)) es" ttl] PSetBatch
    by (auto simp: store_set_batch_def op_bind_def)
next
  case (PDelete n p)
  show ?thesis
    using st.delete_spec[OF inv, of now n p] PDelete
    by (auto simp: store_delete_def op_bind_def)
next
  case (PMove src dst)
  show ?thesis
    using st.move_spec[OF inv, of now src dst] PMove
    by (cases "src \<noteq> dst \<and> (\<exists>k. view (b_store b) now (dst, k) \<noteq> None)")
      (auto simp: store_move_def op_bind_def)
qed

text \<open>A state whose stored values are those of another, whatever else changed.\<close>

definition kept :: "instant \<Rightarrow> ('s, 'm) broker \<Rightarrow> ('s, 'm) broker \<Rightarrow> bool" where
  "kept now b b' \<longleftrightarrow> invar (b_store b') \<and> (\<forall>u \<ge> now. view (b_store b') u = view (b_store b) u)"

lemma kept_refl: "invar (b_store b) \<Longrightarrow> kept now b b"
  by (simp add: kept_def)

lemma kept_quiet: "quiet now b b' \<Longrightarrow> kept now b b'"
  by (auto simp: kept_def quiet_def)

lemma kept_trans: "kept now a b \<Longrightarrow> kept now b c \<Longrightarrow> kept now a c"
  by (simp add: kept_def)

lemma kept_same_store: "b_store b' = b_store b \<Longrightarrow> invar (b_store b) \<Longrightarrow> kept now b b'"
  by (simp add: kept_def)

text \<open>
  A prepared mutation is committed now, rejected with nothing stored, or handed over with
  nothing stored.
\<close>

lemma prepare_mutation_cases:
  assumes inv: "invar (b_store b)" and prep: "prepare_mutation env now m fa b = (r, b')"
  obtains (committed) b0 where "b_store b0 = b_store b" "b_registry b0 = b_registry b"
      "commit env now m b0 = (fst (commit env now m b0), b')"
      "r = map_sum id (\<lambda>_. outcome ROk) (fst (commit env now m b0))"
    | (handed_over) owner command' where "\<not> fa" "r = Inr (persist_outcome owner command' m)"
      "b_store b' = b_store b" "b_registry b' = b_registry b" "b_miss_cache b' = b_miss_cache b"
    | (rejected) e where "\<not> fa" "r = Inl e" "b_store b' = b_store b"
proof -
  have now: thesis if "commit_now env now m b0 = (r, b')" "b_store b0 = b_store b" "b_registry b0 = b_registry b" for b0
    using that committed[of b0] by (simp add: commit_now_eq) (metis prod.collapse)
  show thesis
  proof (cases "fa")
    case True
    then show ?thesis using now[of b] prep by (simp add: prepare_mutation_def)
  next
    case False
    show ?thesis
    proof (cases "\<exists>n es ttl. m = PSetBatch n es ttl")
      case True
      then obtain n es ttl where m: "m = PSetBatch n es ttl" by blast
      then show ?thesis
        using False prep now[of b] handed_over rejected
        by (cases "collect_results (\<lambda>e. KeyPattern_new (key_str (entry_key e))) es")
          (auto simp: prepare_mutation_def prepare_batch_def draw_def split: batch_store_match.splits)
    next
      case False
      note single = False
      let ?b = "b\<lparr> b_draws := Suc (b_draws b) \<rparr>"
      have prep': "prepare_single env now m b = (r, b')"
        using prep \<open>\<not> fa\<close> single by (cases m) (auto simp: prepare_mutation_def)
      show ?thesis
      proof (cases "mutation_target m (b_draws b)")
        case (Inl e)
        then show ?thesis using prep' rejected \<open>\<not> fa\<close> by (auto simp: prepare_single_def draw_def)
      next
        case (Inr target)
        then show ?thesis
          using prep' \<open>\<not> fa\<close> now[of ?b] handed_over
          by (cases target) (auto simp: prepare_single_def draw_def split: option.splits)
      qed
    qed
  qed
qed

definition kept_op :: "instant \<Rightarrow> (('s, 'm) broker, 'a) op \<Rightarrow> bool" where
  "kept_op now m \<longleftrightarrow> (\<forall>b. invar (b_store b) \<longrightarrow> kept now b (snd (m b)))"

lemma kept_op_quiet: "quiet_op now m \<Longrightarrow> kept_op now m"
  by (simp add: kept_op_def quiet_op_def kept_quiet)

text \<open>
  A run that leaves the values of one namespace alone and whose pending mutation, if it returns
  one, is of other namespaces.
\<close>

definition spared :: "namespace_context \<Rightarrow> instant \<Rightarrow> ('s, 'm) broker \<Rightarrow> broker_outcome result \<times> ('s, 'm) broker \<Rightarrow> bool" where
  "spared n now b x \<longleftrightarrow>
     invar (b_store (snd x)) \<and> (\<forall>u \<ge> now. \<forall>k. view (b_store (snd x)) u (n, k) = view (b_store b) u (n, k))
     \<and> (\<forall>out p. fst x = Inr out \<longrightarrow> o_pending_mutation out = Some p \<longrightarrow> n \<notin> set (mutation_namespaces p))"

definition spares :: "namespace_context \<Rightarrow> instant \<Rightarrow> (('s, 'm) broker, broker_outcome) op \<Rightarrow> bool" where
  "spares n now m \<longleftrightarrow> (\<forall>b. invar (b_store b) \<longrightarrow> spared n now b (m b))"

lemma sparesI: "(\<And>b. invar (b_store b) \<Longrightarrow> spared n now b (m b)) \<Longrightarrow> spares n now m"
  by (simp add: spares_def)

lemma sparesD: "spares n now m \<Longrightarrow> invar (b_store b) \<Longrightarrow> spared n now b (m b)"
  by (simp add: spares_def)

lemma spared_kept: "kept now b b1 \<Longrightarrow> spared n now b1 x \<Longrightarrow> spared n now b x"
  by (simp add: kept_def spared_def)

lemma spared_store_cong: "b_store b1 = b_store b \<Longrightarrow> spared n now b1 x = spared n now b x"
  by (simp add: spared_def)

lemma spared_no_pending:
  assumes "kept now b b'" and "\<And>out. r = Inr out \<Longrightarrow> o_pending_mutation out = None"
  shows "spared n now b (r, b')"
  using assms by (auto simp: spared_def kept_def)

lemma spares_bind:
  assumes "kept_op now m" and "\<And>x. spares n now (f x)"
  shows "spares n now (op_bind m f)"
proof (rule sparesI)
  fix b :: "('s, 'm) broker"
  assume inv: "invar (b_store b)"
  obtain r1 b1 where m: "m b = (r1, b1)" by fastforce
  have k: "kept now b b1" using assms(1) inv m unfolding kept_op_def by (metis snd_conv)
  show "spared n now b (op_bind m f b)"
  proof (cases r1)
    case (Inl e)
    then show ?thesis using spared_no_pending[OF k, of "Inl e"] m by (simp add: op_bind_def)
  next
    case (Inr x)
    have "spared n now b1 (f x b1)" using assms(2) k by (intro sparesD) (simp_all add: kept_def)
    then show ?thesis using spared_kept[OF k] m Inr by (simp add: op_bind_def)
  qed
qed

lemma spares_same_store:
  assumes "\<And>b. b_store (snd (m b)) = b_store b"
    and "\<And>b out. fst (m b) = Inr out \<Longrightarrow> o_pending_mutation out = None"
  shows "spares n now m"
  using assms by (auto intro!: sparesI simp: spared_def)

lemma spares_shift:
  assumes "spares n now m" and "\<And>b. b_store (f b) = b_store b"
  shows "spares n now (\<lambda>b. m (f b))"
proof (rule sparesI)
  fix b :: "('s, 'm) broker"
  assume "invar (b_store b)"
  then have "spared n now (f b) (m (f b))" using assms by (intro sparesD) simp_all
  then show "spared n now b (m (f b))" using spared_store_cong[OF assms(2)] by blast
qed

lemma spares_return [simp]: "spares n now (op_return (outcome r))"
  and spares_fail [simp]: "spares n now (op_fail e)"
  by (auto intro!: spares_same_store simp: op_return_def op_fail_def outcome_def)

lemma spares_prepare:
  assumes other: "n \<notin> set (mutation_namespaces m)"
  shows "spares n now (prepare_mutation env now m fa)"
proof (rule sparesI)
  fix b :: "('s, 'm) broker"
  assume inv: "invar (b_store b)"
  obtain r b' where prep: "prepare_mutation env now m fa b = (r, b')" by fastforce
  show "spared n now b (prepare_mutation env now m fa b)"
    unfolding prep using inv prep
  proof (cases rule: prepare_mutation_cases)
    case (committed b0)
    obtain b2 where "commit env now m b0 = (mutation_result m (view (b_store b0) now), b2)"
      "invar (b_store b2)" "\<forall>u \<ge> now. view (b_store b2) u = mutation_effect m now (view (b_store b0)) u"
      using commit_refines[of b0 now m] inv committed(1) by auto
    then show "spared n now b (r, b')"
      using committed mutation_effect_other[OF other]
      by (cases "mutation_result m (view (b_store b0) now)") (auto simp: outcome_def spared_def)
  next
    case (handed_over owner command')
    then show "spared n now b (r, b')" using inv other by (simp add: persist_outcome_def spared_def)
  next
    case (rejected e)
    then show "spared n now b (r, b')" using inv by (simp add: spared_def)
  qed
qed

end

lemma fail_auth_store [simp]: "b_store (fail_auth_provider_load now key b) = b_store b"
  by (simp add: fail_auth_provider_load_def)

lemma select_provider_store [simp]: "b_store (snd (select_provider n k b)) = b_store b"
  by (simp add: select_provider_def split: prod.split)

lemma auth_provider_dispatch_store [simp]: "b_store (snd (auth_provider_dispatch now key b)) = b_store b"
proof -
  have sp: "select_provider n k b1 = (p, b2) \<Longrightarrow> b_store b2 = b_store b1" for n k p and b1 b2 :: "('a, 'b) broker"
    using select_provider_store[of n k b1] by simp
  show ?thesis
    by (auto simp: auth_provider_dispatch_def draw_def Let_def dest!: sp
        split: option.split prod.split bool.split sum.split)
qed

lemma route_mutation_generation_store [simp]:
  "b_store (snd (route_mutation_generation env n k b)) = b_store b"
  by (simp add: route_mutation_generation_def Let_def split: prod.split)

lemma dispatch_store: "auth_provider_dispatch now key b = (d, b') \<Longrightarrow> b_store b' = b_store b"
  using auth_provider_dispatch_store[of now key b] by simp

lemma select_store: "select_provider n k b = (p, b') \<Longrightarrow> b_store b' = b_store b"
  using select_provider_store[of n k b] by simp

lemma route_generation_store: "route_mutation_generation env n k b = (g, b') \<Longrightarrow> b_store b' = b_store b"
  using route_mutation_generation_store[of env n k b] by simp

lemma get_miss_effect:
  assumes "get_miss env now n k enc b = (r, b')"
  shows "b_store b' = b_store b \<and> (\<exists>out. r = Inr out \<and> o_pending_mutation out = None)"
  using assms
  by (auto simp: get_miss_def Let_def draw_def outcome_def dest!: select_store route_generation_store
      split: prod.splits bool.splits option.splits)

context broker_store
begin

lemma spares_after_get:
  assumes "\<And>v. spares n now (g v)"
  shows "spares n now (\<lambda>b. case store_get env now n' k b of (Inl e, b1) \<Rightarrow> h e b1 | (Inr v, b1) \<Rightarrow> g v b1)"
proof (rule sparesI)
  fix b :: "('s, 'm) broker"
  assume inv: "invar (b_store b)"
  obtain b1 where get: "store_get env now n' k b = (Inr (view (b_store b) now (n', k)), b1)"
    and q: "quiet now b b1" using store_get_eq[OF inv] by blast
  have "spared n now b1 (g (view (b_store b) now (n', k)) b1)"
    by (rule sparesD[OF assms quiet_invar[OF q]])
  then show "spared n now b (case store_get env now n' k b of (Inl e, b1) \<Rightarrow> h e b1 | (Inr v, b1) \<Rightarrow> g v b1)"
    using spared_kept[OF kept_quiet[OF q]] get by simp
qed

lemma spares_authenticate_from_store: "spares n now (authenticate_from_store env now key)"
proof -
  let ?n = "projr (NamespaceContext_new AUTH_NAMESPACE)"
  let ?g = "\<lambda>v b1. case v of
         None \<Rightarrow> (case auth_provider_dispatch now key b1 of (d, b2) \<Rightarrow> (Inr (auth_pending d), b2))
       | Some value \<Rightarrow>
           (case complete_store_load (decoders env) (the (b_auth b1)) now key (sv_value value) of
              (lookup, auth') \<Rightarrow>
                (let b2 = b1\<lparr> b_auth := Some auth' \<rparr> in
                 case lookup of
                   Authenticated info \<Rightarrow> (Inr (auth_success auth' info None), b2)
                 | Pending \<Rightarrow>
                     (case auth_provider_dispatch now key b2 of (d, b3) \<Rightarrow> (Inr (auth_pending d), b3))
                 | RejectedLookup \<Rightarrow> (Inr (outcome (AuthFailure ''invalid API key'')), b2)))"
  have "spares n now (?g v)" for v
    by (rule spares_same_store)
      (auto simp: Let_def auth_pending_def auth_success_def outcome_def dest!: dispatch_store
        split: option.splits prod.splits auth_lookup.splits)
  from spares_after_get[where g = ?g, OF this, where n' = ?n
      and h = "\<lambda>e b1. (Inl e, fail_auth_provider_load now key b1)"]
  show ?thesis
    unfolding authenticate_from_store_def by (intro spares_bind kept_op_quiet quiet_op_pure)
qed

lemma spares_authenticate: "spares n now (authenticate env now key)"
proof (rule sparesI)
  fix b :: "('s, 'm) broker"
  assume inv: "invar (b_store b)"
  show "spared n now b (authenticate env now key b)"
  proof (cases "\<exists>auth. authenticate env now key b = authenticate_from_store env now key (b\<lparr> b_auth := Some auth \<rparr>)")
    case True
    then obtain auth where eq:
      "authenticate env now key b = authenticate_from_store env now key (b\<lparr> b_auth := Some auth \<rparr>)" ..
    have "spared n now b (authenticate_from_store env now key (b\<lparr> b_auth := Some auth \<rparr>))"
      by (rule sparesD[OF spares_shift[OF spares_authenticate_from_store] inv]) simp
    then show ?thesis by (simp add: eq)
  next
    case False
    then show ?thesis
      using inv
      by (auto simp: authenticate_def outcome_def auth_success_def kept_def intro!: spared_no_pending
          dest!: dispatch_store split: option.splits prod.splits auth_lookup.splits bool.splits)
  qed
qed

lemma spares_get: "spares n now (broker_get env now n' k c)"
proof -
  have lease: "spares n now (acquire_lease now k c)"
    by (rule spares_same_store)
      (auto simp: acquire_lease_def op_bind_def op_lift_def outcome_def Let_def split: sum.splits)
  have miss: "spares n now (get_miss env now n' k' enc)" for k' enc
  proof (rule spares_same_store)
    fix b :: "('s, 'm) broker" and out
    show "b_store (snd (get_miss env now n' k' enc b)) = b_store b"
      using get_miss_effect[of env now n' k' enc b] by (metis prod.collapse)
    show "o_pending_mutation out = None" if "fst (get_miss env now n' k' enc b) = Inr out"
      using get_miss_effect[of env now n' k' enc b] that by (metis prod.collapse Inr_inject)
  qed
  have hit: "spares n now (get_hit env now n' k' enc sv)" for k' enc sv
  proof -
    let ?m = "op_bind (if enc then decrypt_value env now n' k' (sv_value sv) else op_return (sv_value sv))
       (\<lambda>value. op_return (outcome (stored_response value sv)))"
    have "spares n now ?m"
      by (intro spares_bind kept_op_quiet quiet_op_if quiet_op_decrypt quiet_op_pure spares_return)
    from spares_shift[OF this, of "\<lambda>b. b\<lparr> b_hits := b_hits b + 1 \<rparr>"] show ?thesis
      by (simp add: get_hit_def[abs_def])
  qed
  show ?thesis
    unfolding broker_get_def Let_def
    using lease miss hit
    by (auto intro!: spares_bind kept_op_quiet quiet_op_resolve_key quiet_op_store_get split: prod.split option.split)
qed

lemma spares_set:
  assumes "reserved_read n" and "\<not> bootstrap_ok c"
  shows "spares n now (broker_set env now n' k v ttl c)"
proof -
  have lease: "spares n now (release_lease k v c)"
    by (rule spares_same_store)
      (auto simp: release_lease_def op_bind_def op_lift_def outcome_def split: sum.splits option.splits if_splits)
  have plain: "spares n now (set_value env now n' k v ttl c)" if other: "n \<noteq> n'"
    unfolding set_value_def using other
    by (intro spares_bind spares_prepare kept_op_quiet) (auto intro!: spares_bind kept_op_quiet spares_prepare split: prod.split)
  have denied: "spares n now (op_bind (op_lift (require_bootstrap c)) f)" for f
    by (rule spares_same_store) (simp_all add: require_bootstrap_eq assms(2))
  show ?thesis
  proof (cases "reserved_read n'")
    case True
    then show ?thesis
      using lease denied by (auto simp: broker_set_def reserved_read_def)
  next
    case False
    then have "n \<noteq> n'" using assms(1) by auto
    then show ?thesis
      using lease plain False by (simp add: broker_set_def reserved_read_def)
  qed
qed

lemma reserved_read_reserved: "reserved_read n \<Longrightarrow> reserved n"
  by (auto simp: reserved_read_def reserved_def)

lemma spares_delete: "reserved_read n \<Longrightarrow> spares n now (broker_delete env now n' p c)"
  using reserved_read_reserved[of n]
  by (auto simp: broker_delete_def intro!: spares_bind kept_op_quiet spares_prepare)

lemma spares_move: "reserved_read n \<Longrightarrow> spares n now (move_namespace env now src dst c)"
  using reserved_read_reserved[of n]
  by (auto simp: move_namespace_def intro!: spares_bind kept_op_quiet spares_prepare)

lemma quiet_op_registration_guard [intro]: "quiet_op now (registration_guard t c n op)"
  by (simp add: registration_guard_def)

lemma spares_register:
  "spares n now (provide_command t np kp rate tm mt c)" "spares n now (store_command t np kp c)"
proof -
  have "spares n now (\<lambda>b. if adapter_instance c = None then (Inl e, b)
      else case draw b of (i, b1) \<Rightarrow> (Inr (outcome ROk), b1\<lparr> b_registry := f i b1 \<rparr>))" for e f
    by (rule spares_same_store) (auto simp: draw_def outcome_def split: if_splits)
  then show "spares n now (provide_command t np kp rate tm mt c)" "spares n now (store_command t np kp c)"
    unfolding provide_command_def store_command_def
    by (auto intro!: spares_bind kept_op_quiet)
qed

lemma spares_stats: "spares n now (run_command env now StatsCmd c)"
proof -
  have "kept_op now (broker_stats env now)"
    unfolding kept_op_def
  proof (intro allI impI)
    fix b :: "('s, 'm) broker" assume "invar (b_store b)"
    from st.len_spec[OF this, of now] show "kept now b (snd (broker_stats env now b))"
      by (auto simp: broker_stats_def store_len_def op_bind_def kept_def)
  qed
  then show ?thesis by (simp add: spares_bind)
qed

lemma spares_command:
  assumes "reserved_read n" and "\<not> bootstrap_ok c" and "\<not> is_set_batch cmd"
  shows "spares n now (run_command env now cmd c)"
  using assms spares_authenticate spares_get spares_set spares_delete spares_move spares_register spares_stats
  by (cases cmd) simp_all

end

section \<open>Properties\<close>

text \<open>
  C7. Committing a mutation does to the values exactly what the mutation says: a write stores its
  value until its time to live ends, a batch stores all its entries (the last wins), a delete
  removes the matching keys, and a move renames the whole context or fails with the destination
  untouched; every other value stays, at every later instant.
\<close>

theorem commit_refines_mutation:
  assumes "store_spec (sops env) invar view" and "invar (b_store b)"
  shows "\<exists>b'. commit env now m b = (mutation_result m (view (b_store b) now), b') \<and> invar (b_store b')
    \<and> (\<forall>u \<ge> now. view (b_store b') u = mutation_effect m now (view (b_store b)) u)"
  using broker_store.commit_refines[OF broker_store.intro[OF assms(1)] assms(2)] by blast

text \<open>
  C5. The reserved namespaces are the bootstrap administrator's: no command of another caller,
  a batch SET excepted, changes a value of \<open>/__auth\<close> or \<open>/__secrets\<close> at any later instant, or
  leaves a pending mutation that would.
\<close>

theorem reserved_namespaces_need_bootstrap:
  assumes "store_spec (sops env) invar view" and "invar (b_store b)"
    and "as_str n = AUTH_NAMESPACE \<or> as_str n = SECURITY_NAMESPACE"
    and "\<not> (\<exists>a. rc_auth c = Some a \<and> is_bootstrap_admin a)"
    and "\<not> is_set_batch cmd"
    and "execute env now cmd c b = (r, b')"
  shows "(\<forall>u \<ge> now. \<forall>k. view (b_store b') u (n, k) = view (b_store b) u (n, k))
    \<and> (\<forall>out m. r = Inr out \<longrightarrow> o_pending_mutation out = Some m \<longrightarrow> n \<notin> set (mutation_namespaces m))"
proof -
  have loc: "broker_store env invar view" using assms(1) by (rule broker_store.intro)
  let ?b = "b\<lparr> b_requests := b_requests b + 1 \<rparr>"
  have "broker_store.spares invar view n now (run_command env now cmd c)"
    using broker_store.spares_command[OF loc] assms(3,4,5) by (simp add: reserved_read_def bootstrap_ok_def)
  then have "broker_store.spared invar view n now ?b (r, b')"
    using broker_store.sparesD[OF loc, of n now _ ?b] assms(2,6) by (fastforce simp: execute_def)
  then show ?thesis by (simp add: broker_store.spared_def[OF loc])
qed

section \<open>Witnesses\<close>

theorem commit_refines_mutation_witness:
  "\<exists>b'. commit sample_env 5 (PSet draft_ns (Key ''k'') JNull None) sample_broker =
      (mutation_result (PSet draft_ns (Key ''k'') JNull None) (memory_view timed_peek (b_store sample_broker) 5), b')
    \<and> entry_cache_invar (b_store b')
    \<and> (\<forall>u \<ge> 5. memory_view timed_peek (b_store b') u =
        mutation_effect (PSet draft_ns (Key ''k'') JNull None) 5 (memory_view timed_peek (b_store sample_broker)) u)"
  by (rule commit_refines_mutation[OF sample_store_spec sample_invar])

theorem reserved_namespaces_need_bootstrap_witness:
  "let n = projr (NamespaceContext_new ''/__auth'');
       x = execute sample_env 5 (Set n (Key ''k'') JNull None) (anonymous 1) sample_broker in
   (\<forall>u \<ge> 5. \<forall>k. memory_view timed_peek (b_store (snd x)) u (n, k) =
       memory_view timed_peek (b_store sample_broker) u (n, k))
    \<and> (\<forall>out m. fst x = Inr out \<longrightarrow> o_pending_mutation out = Some m \<longrightarrow> n \<notin> set (mutation_namespaces m))"
proof -
  let ?n = "projr (NamespaceContext_new ''/__auth'')"
  let ?x = "execute sample_env 5 (Set ?n (Key ''k'') JNull None) (anonymous 1) sample_broker"
  have "as_str ?n = AUTH_NAMESPACE" by (simp add: NamespaceContext_new_def as_str_def AUTH_NAMESPACE_def)
  then show ?thesis
    using reserved_namespaces_need_bootstrap[OF sample_store_spec sample_invar, of ?n "anonymous 1"
        "Set ?n (Key ''k'') JNull None" 5 "fst ?x" "snd ?x"]
    by (simp add: Let_def anonymous_def)
qed

end
