(* ===== verification/Broker_Roundtrip.thy ===== *)
theory Broker_Roundtrip
  imports Broker_Data
begin

text \<open>
  End-to-end behaviour of the data commands: what a GET returns after a SET, with and without
  encryption, what a batch SET stores, and how variables in a key are resolved.
\<close>

section \<open>Evaluating the handlers\<close>

definition no_variables :: "string \<Rightarrow> bool" where
  "no_variables s \<longleftrightarrow> find_str [CHR 0x24, CHR 0x7B] s = None"

definition plain_key :: "key \<Rightarrow> key" where
  "plain_key k = (case marked_key (key_str k) of Some v \<Rightarrow> Key v | None \<Rightarrow> k)"

lemma normalize_plain_key: "normalize_marked_key k = Inr (plain_key k, is_marked k)"
  by (simp add: normalize_marked_key_eq plain_key_def is_marked_def split: option.split)

lemma plain_key_not_Nil: "key_str k \<noteq> [] \<Longrightarrow> key_str (plain_key k) \<noteq> []"
  using marked_key_not_Nil by (auto simp: plain_key_def split: option.split)

lemma plain_key_id: "\<not> is_marked k \<Longrightarrow> plain_key k = k"
  by (simp add: plain_key_def is_marked_def)

lemma not_reserved:
  "\<not> reserved n \<Longrightarrow> as_str n \<noteq> AUTH_NAMESPACE \<and> as_str n \<noteq> SECURITY_NAMESPACE \<and> as_str n \<noteq> LEASE_NAMESPACE
     \<and> \<not> reserved_read n"
  by (simp add: reserved_def reserved_read_def)

lemma resolve_key_plain:
  "no_variables (key_str k) \<Longrightarrow> key_str k \<noteq> [] \<Longrightarrow> resolve_key env now n k c b = (Inr k, b)"
  by (simp add: resolve_key_def resolve_loop.simps next_variable_def no_variables_def op_bind_def
      op_lift_def Key_new_def)

lemma op_bind_resolve_plain:
  "no_variables (key_str k) \<Longrightarrow> key_str k \<noteq> [] \<Longrightarrow> op_bind (resolve_key env now n k c) f b = f k b"
  by (rule op_bind_Inr) (rule resolve_key_plain)

lemma set_eval:
  assumes "\<not> reserved n" and "authorized b now c n (write_operation (is_marked k))"
  shows "broker_set env now n k v ttl c b =
    op_bind (if is_marked k then encrypt_value env now n (plain_key k) v else op_return v)
      (\<lambda>v'. prepare_mutation env now (PSet n (plain_key k) v' ttl) (adapter_instance c \<noteq> None)) b"
  using not_reserved[OF assms(1)] assms(2)
  by (simp add: broker_set_def set_value_def normalize_plain_key op_bind_authorize_ok)

definition commits_directly :: "('s, 'm) broker \<Rightarrow> request_context \<Rightarrow> namespace_context \<Rightarrow> key \<Rightarrow> bool" where
  "commits_directly b c n k \<longleftrightarrow>
     adapter_instance c \<noteq> None \<or> store_for (b_registry b) n (KeyPattern (key_str k)) = None"

lemma prepare_set_direct:
  assumes "commits_directly b c n k" and "key_str k \<noteq> []"
  shows "\<exists>d. prepare_mutation env now (PSet n k v ttl) (adapter_instance c \<noteq> None) b =
    commit_now env now (PSet n k v ttl) (b\<lparr> b_draws := d \<rparr>)"
proof (cases "adapter_instance c")
  case None
  with assms show ?thesis
    by (auto simp: commits_directly_def prepare_mutation_def prepare_single_def draw_def KeyPattern_new_def)
next
  case (Some i)
  then show ?thesis by (auto simp: prepare_mutation_def intro!: exI[of _ "b_draws b"])
qed

context broker_store
begin

lemma get_eval:
  assumes "invar (b_store b)" and "\<not> reserved n" and "no_variables (key_str k)" and "key_str k \<noteq> []"
    and "authorized b now c n (read_operation (is_marked k))"
  shows "\<exists>b1. quiet now b b1 \<and> broker_get env now n k c b =
    (case view (b_store b) now (n, plain_key k) of
       None \<Rightarrow> get_miss env now n (plain_key k) (is_marked k) b1
     | Some sv \<Rightarrow> get_hit env now n (plain_key k) (is_marked k) sv b1)"
proof -
  obtain b1 where get: "store_get env now n (plain_key k) b = (Inr (view (b_store b) now (n, plain_key k)), b1)"
    and q: "quiet now b b1" using store_get_eq[OF assms(1)] by blast
  have "broker_get env now n k c b = op_bind (store_get env now n (plain_key k)) (\<lambda>stored.
      case stored of None \<Rightarrow> get_miss env now n (plain_key k) (is_marked k)
        | Some sv \<Rightarrow> get_hit env now n (plain_key k) (is_marked k) sv) b"
    using not_reserved[OF assms(2)] assms(3-5)
    unfolding broker_get_def Let_def is_marked_def[symmetric]
    by (simp add: op_bind_authorize_ok op_bind_resolve_plain normalize_plain_key)
  then show ?thesis using get q by (auto simp: op_bind_Inr split: option.split)
qed

lemma security_key_eval:
  assumes "invar (b_store b)" and "ns n \<noteq> []"
    and "view (b_store b) now (projr (NamespaceContext_new SECURITY_NAMESPACE), Key (ns n)) = Some rec"
    and "parse_security_key (decoders env) (sv_value rec) = Inr h"
  shows "\<exists>b1. security_key env now n b = (Inr h, b1) \<and> quiet now b b1"
proof -
  let ?sn = "projr (NamespaceContext_new SECURITY_NAMESPACE)"
  have route: "security_route n = Inr (?sn, Key (ns n))"
    using assms(2) by (simp add: security_route_def NamespaceContext_new_def SECURITY_NAMESPACE_def Key_new_def)
  obtain b1 where "store_get env now ?sn (Key (ns n)) b = (Inr (Some rec), b1)" and "quiet now b b1"
    using store_get_eq[OF assms(1), of now ?sn "Key (ns n)"] assms(3) by auto
  then show ?thesis using route assms(4) by (simp add: security_key_def op_bind_Inr op_lift_def)
qed

lemma encrypt_eval:
  assumes "invar (b_store b)" and "ns n \<noteq> []"
    and "view (b_store b) now (projr (NamespaceContext_new SECURITY_NAMESPACE), Key (ns n)) = Some rec"
    and "parse_security_key (decoders env) (sv_value rec) = Inr h"
  shows "\<exists>i b1. encrypt_value env now n k v b = (ValueCipher_encrypt (crypt env) (nonce_of env i) h n k v, b1)
    \<and> quiet now b b1"
proof -
  obtain bk where key: "security_key env now n b = (Inr h, bk)" and q: "quiet now b bk"
    using security_key_eval[OF assms] by blast
  have "quiet now b (bk\<lparr> b_draws := Suc (b_draws bk) \<rparr>)" using q unfolding quiet_def by fastforce
  then show ?thesis by (auto simp: encrypt_value_def op_bind_def key)
qed

lemma decrypt_eval:
  assumes "invar (b_store b)" and "ns n \<noteq> []"
    and "view (b_store b) now (projr (NamespaceContext_new SECURITY_NAMESPACE), Key (ns n)) = Some rec"
    and "parse_security_key (decoders env) (sv_value rec) = Inr h"
  shows "fst (decrypt_value env now n k v b) = ValueCipher_decrypt (crypt env) h n k v"
  using security_key_eval[OF assms] by (auto simp: decrypt_value_def op_bind_def op_lift_def)

lemma commit_set:
  assumes "invar (b_store b)" and "as_str n \<noteq> AUTH_NAMESPACE"
  shows "\<exists>b1. commit_now env now (PSet n k v ttl) b = (Inr (outcome ROk), b1) \<and> invar (b_store b1)
    \<and> b_auth b1 = b_auth b \<and> (\<forall>u \<ge> now. view (b_store b1) u = (view (b_store b) u)((n, k) := written_view now v ttl u))"
  using st.set_spec[OF assms(1), of now n k v ttl] assms(2)
  by (auto simp: commit_now_def store_set_def op_bind_def op_return_def)

lemma set_commits:
  assumes "invar (b_store b)" and "\<not> reserved n" and "key_str k \<noteq> []"
    and "authorized b now c n (write_operation (is_marked k))"
    and "commits_directly b c n (plain_key k)"
    and "(if is_marked k then encrypt_value env now n (plain_key k) v else op_return v) b = (Inr v', b0)"
    and "quiet now b b0"
  shows "\<exists>b1. broker_set env now n k v ttl c b = (Inr (outcome ROk), b1) \<and> invar (b_store b1)
    \<and> b_auth b1 = b_auth b
    \<and> (\<forall>u \<ge> now. view (b_store b1) u = (view (b_store b) u)((n, plain_key k) := written_view now v' ttl u))"
proof -
  have "commits_directly b0 c n (plain_key k)"
    using assms(5) quiet_fields[OF assms(7)] by (simp add: commits_directly_def)
  from prepare_set_direct[OF this plain_key_not_Nil[OF assms(3)]] obtain d where prep:
    "prepare_mutation env now (PSet n (plain_key k) v' ttl) (adapter_instance c \<noteq> None) b0 =
      commit_now env now (PSet n (plain_key k) v' ttl) (b0\<lparr> b_draws := d \<rparr>)" by blast
  have "broker_set env now n k v ttl c b = commit_now env now (PSet n (plain_key k) v' ttl) (b0\<lparr> b_draws := d \<rparr>)"
    unfolding set_eval[OF assms(2,4)] by (subst op_bind_Inr) (rule assms(6), rule prep)
  moreover have "invar (b_store (b0\<lparr> b_draws := d \<rparr>))" using quiet_invar[OF assms(7)] by simp
  ultimately show ?thesis
    using commit_set[of "b0\<lparr> b_draws := d \<rparr>" n now "plain_key k" v' ttl] not_reserved[OF assms(2)]
      quiet_view[OF assms(7)] quiet_fields[OF assms(7)] by auto
qed

lemma get_stored:
  assumes "invar (b_store b)" and "\<not> reserved n" and "key_str k \<noteq> []" and "no_variables (key_str k)"
    and "authorized b now c n (read_operation (is_marked k))"
    and "view (b_store b) now (n, plain_key k) = Some sv"
    and "\<And>b1. quiet now b b1 \<Longrightarrow>
      fst ((if is_marked k then decrypt_value env now n (plain_key k) (sv_value sv) else op_return (sv_value sv)) b1) = Inr v"
  shows "fst (broker_get env now n k c b) = Inr (outcome (stored_response v sv))"
proof -
  obtain b1 where q: "quiet now b b1"
    and get: "broker_get env now n k c b = get_hit env now n (plain_key k) (is_marked k) sv b1"
    using get_eval[OF assms(1,2,4,3,5)] assms(6) by auto
  let ?m = "if is_marked k then decrypt_value env now n (plain_key k) (sv_value sv) else op_return (sv_value sv)"
  have "fst (?m (b1\<lparr> b_hits := h \<rparr>)) = fst (?m b1)" for h
    by (simp add: decrypt_value_def security_key_def store_get_def op_bind_def op_lift_def op_return_def
        op_fail_def split: sum.splits prod.splits option.splits)
  then have "fst (?m (b1\<lparr> b_hits := b_hits b1 + 1 \<rparr>)) = Inr v" using assms(7)[OF q] by simp
  then obtain b2 where "?m (b1\<lparr> b_hits := b_hits b1 + 1 \<rparr>) = (Inr v, b2)" by (metis prod.collapse)
  then have "get_hit env now n (plain_key k) (is_marked k) sv b1 = (Inr (outcome (stored_response v sv)), b2)"
    unfolding get_hit_def by (subst op_bind_Inr) (assumption, simp add: op_return_def)
  then show ?thesis using get by simp
qed

lemma get_missing:
  assumes "invar (b_store b)" and "\<not> reserved n" and "key_str k \<noteq> []" and "no_variables (key_str k)"
    and "authorized b now c n (read_operation (is_marked k))"
    and "view (b_store b) now (n, plain_key k) = None"
  shows "\<exists>out. fst (broker_get env now n k c b) = Inr out \<and> o_response out \<in> {RMiss 0, RMiss 10, RUnknown}"
proof -
  obtain b1 where "broker_get env now n k c b = get_miss env now n (plain_key k) (is_marked k) b1"
    using get_eval[OF assms(1,2,4,3,5)] assms(6) by auto
  then show ?thesis
    by (auto simp: get_miss_def Let_def draw_def outcome_def split: prod.splits bool.splits option.splits)
qed

end

section \<open>Properties\<close>

text \<open>
  C2. SET then GET: after an authorized SET of an ordinary key that commits directly, an authorized
  GET at any later instant returns the value that was written, with the time it has left rounded
  up to seconds, as long as that time has not passed; afterwards it is a miss.
\<close>

theorem set_then_get_returns_value:
  assumes "store_spec (sops env) invar view" and "invar (b_store b)"
    and "\<not> reserved n" and "\<not> is_marked k" and "key_str k \<noteq> []" and "no_variables (key_str k)"
    and "authorized b now c n OpWrite" and "authorized b u c' n OpRead"
    and "commits_directly b c n k" and "now \<le> u"
    and "execute env now (Set n k v ttl) c b = (r1, b1)" and "execute env u (Get n k) c' b1 = (r2, b2)"
  shows "r1 = Inr (outcome ROk)
    \<and> (case written_view now v (map_option from_secs ttl) u of
         Some sv \<Rightarrow> r2 = Inr (outcome (stored_response v sv))
       | None \<Rightarrow> \<exists>out. r2 = Inr out \<and> o_response out \<in> {RMiss 0, RMiss 10, RUnknown})"
proof -
  have loc: "broker_store env invar view" using assms(1) by (rule broker_store.intro)
  let ?b = "b\<lparr> b_requests := b_requests b + 1 \<rparr>" and ?ttl = "map_option from_secs ttl"
  note plain = plain_key_id[OF assms(4)]
  have "\<exists>b1. broker_set env now n k v ?ttl c ?b = (Inr (outcome ROk), b1) \<and> invar (b_store b1)
    \<and> b_auth b1 = b_auth ?b
    \<and> (\<forall>u \<ge> now. view (b_store b1) u = (view (b_store ?b) u)((n, plain_key k) := written_view now v ?ttl u))"
    using assms broker_store.quiet_refl[OF loc, of ?b]
    by (intro broker_store.set_commits[OF loc])
      (auto simp: plain write_operation_def commits_directly_def op_return_def)
  then have r1: "r1 = Inr (outcome ROk)" and inv1: "invar (b_store b1)" and auth1: "b_auth b1 = b_auth b"
    and view1: "view (b_store b1) u (n, k) = written_view now v ?ttl u"
    using assms(10,11) plain by (auto simp: execute_def)
  let ?b1 = "b1\<lparr> b_requests := b_requests b1 + 1 \<rparr>"
  have auth: "authorized ?b1 u c' n (read_operation (is_marked k))"
    using assms(4,8) auth1 authorize_cong[of ?b1 b] by (simp add: authorized_def read_operation_def)
  have inv: "invar (b_store ?b1)" using inv1 by simp
  have r2: "r2 = fst (broker_get env u n k c' ?b1)" using assms(12) by (simp add: execute_def)
  show ?thesis
  proof (cases "written_view now v ?ttl u")
    case None
    then have "view (b_store ?b1) u (n, plain_key k) = None" using view1 plain by simp
    from broker_store.get_missing[OF loc inv assms(3,5,6) auth this] show ?thesis using None r1 r2 by simp
  next
    case (Some sv)
    have "view (b_store ?b1) u (n, plain_key k) = Some sv" using view1 plain Some by simp
    moreover have "sv_value sv = v" using Some by (auto simp: written_view_def split: option.splits if_splits)
    ultimately show ?thesis
      using broker_store.get_stored[OF loc inv assms(3,5,6) auth, of sv v] Some r1 r2 assms(4)
      by (simp add: op_return_def)
  qed
qed

text \<open>
  C3. Encrypted SET then GET: in a namespace that is not reserved, for a marked key \<open>~k~\<close> without
  request variables that no registered store covers (or that an adapter writes), so that the SET commits directly, and while
  the same key record of the namespace is loaded at both instants: a SET that succeeds answers OK and never stores the
  plain value, what is stored under \<open>k\<close> is the cipher's envelope of it with the lifetime of the SET. An authorized GET
  of \<open>~k~\<close> at any later instant returns the original value, with the time it has left rounded up to
  seconds, as long as that lifetime has not passed; afterwards it is a miss.
\<close>

theorem encrypted_set_then_get:
  assumes "store_spec (sops env) invar view" and "crypto_laws (crypt env)" and "invar (b_store b)"
    and "\<not> reserved n" and "is_marked k" and "key_str k \<noteq> []" and "no_variables (key_str k)" and "ns n \<noteq> []"
    and "authorized b now c n OpWriteEncrypted" and "authorized b u c' n OpReadEncrypted"
    and "commits_directly b c n (plain_key k)" and "now \<le> u"
    and "\<And>t. t \<in> {now, u} \<Longrightarrow> \<exists>rec.
        view (b_store b) t (projr (NamespaceContext_new SECURITY_NAMESPACE), Key (ns n)) = Some rec
        \<and> parse_security_key (decoders env) (sv_value rec) = Inr h"
    and "\<And>i. length (nonce_of env i) = XNONCE_LEN"
    and "\<And>bytes. json_to_vec (crypt env) v = Inr bytes \<Longrightarrow> json_from_slice (crypt env) bytes = Inr v"
    and "execute env now (Set n k v ttl) c b = (Inr out, b1)" and "execute env u (Get n k) c' b1 = (r2, b2)"
  shows "\<exists>i envelope. ValueCipher_encrypt (crypt env) (nonce_of env i) h n (plain_key k) v = Inr envelope
    \<and> out = outcome ROk
    \<and> view (b_store b1) u (n, plain_key k) = written_view now envelope (map_option from_secs ttl) u
    \<and> (case written_view now envelope (map_option from_secs ttl) u of
         Some sv \<Rightarrow> r2 = Inr (outcome (stored_response v sv))
       | None \<Rightarrow> \<exists>out'. r2 = Inr out' \<and> o_response out' \<in> {RMiss 0, RMiss 10, RUnknown})"
proof -
  have loc: "broker_store env invar view" using assms(1) by (rule broker_store.intro)
  let ?b = "b\<lparr> b_requests := b_requests b + 1 \<rparr>" and ?b1 = "b1\<lparr> b_requests := b_requests b1 + 1 \<rparr>"
    and ?ttl = "map_option from_secs ttl"
  let ?sec = "(projr (NamespaceContext_new SECURITY_NAMESPACE), Key (ns n))"
  have invb: "invar (b_store ?b)" using assms(3) by simp
  have auth: "authorized ?b now c n (write_operation (is_marked k))"
    using assms(5,9) by (simp add: write_operation_def)
  have set: "broker_set env now n k v ?ttl c ?b = (Inr out, b1)" using assms(16) by (simp add: execute_def)
  obtain rec where "view (b_store ?b) now ?sec = Some rec" "parse_security_key (decoders env) (sv_value rec) = Inr h"
    using assms(13)[of now] by auto
  from broker_store.encrypt_eval[OF loc invb assms(8) this] obtain i bk where encv:
    "encrypt_value env now n (plain_key k) v ?b = (ValueCipher_encrypt (crypt env) (nonce_of env i) h n (plain_key k) v, bk)"
    and quiet: "broker_store.quiet invar view now ?b bk" by blast
  obtain envelope where env: "ValueCipher_encrypt (crypt env) (nonce_of env i) h n (plain_key k) v = Inr envelope"
    using set[unfolded set_eval[OF assms(4) auth] op_bind_Inr_iff] assms(5) encv by auto
  have "\<exists>b1. broker_set env now n k v ?ttl c ?b = (Inr (outcome ROk), b1) \<and> invar (b_store b1)
    \<and> b_auth b1 = b_auth ?b \<and> (\<forall>u \<ge> now. view (b_store b1) u =
        (view (b_store ?b) u)((n, plain_key k) := written_view now envelope ?ttl u))"
    using assms(5,11) encv env
    by (intro broker_store.set_commits[OF loc invb assms(4,6) auth _ _ quiet]) (auto simp: commits_directly_def)
  then have out: "out = outcome ROk" and inv: "invar (b_store ?b1)" and auth1: "b_auth ?b1 = b_auth b"
    and view1: "view (b_store ?b1) u = (view (b_store b) u)((n, plain_key k) := written_view now envelope ?ttl u)"
    using assms(12) set by auto
  then have stored: "view (b_store ?b1) u (n, plain_key k) = written_view now envelope ?ttl u" by simp
  have authr: "authorized ?b1 u c' n (read_operation (is_marked k))"
    using assms(5,10) auth1 authorize_cong[of ?b1 b] by (simp add: authorized_def read_operation_def)
  have "n \<noteq> fst ?sec"
    using not_reserved[OF assms(4)] by (auto simp: NamespaceContext_new_def SECURITY_NAMESPACE_def as_str_def)
  then have sec1: "view (b_store ?b1) u ?sec = view (b_store b) u ?sec" using view1 by auto
  have dec: "ValueCipher_decrypt (crypt env) h n (plain_key k) envelope = Inr v"
    by (rule crypto_laws.decrypt_encrypted[OF assms(2) env assms(14,15)]) simp_all
  have read: "fst ((if is_marked k then decrypt_value env u n (plain_key k) envelope else op_return envelope) b3) = Inr v"
    if q: "broker_store.quiet invar view u ?b1 b3" for b3
  proof -
    obtain rec where "view (b_store b3) u ?sec = Some rec" "parse_security_key (decoders env) (sv_value rec) = Inr h"
      using assms(13)[of u] sec1 broker_store.quiet_view[OF loc q order_refl] by auto
    from broker_store.decrypt_eval[OF loc broker_store.quiet_invar[OF loc q] assms(8) this]
    show ?thesis using dec assms(5) by simp
  qed
  have r2: "r2 = fst (broker_get env u n k c' ?b1)" using assms(17) by (simp add: execute_def)
  have "case written_view now envelope ?ttl u of
         Some sv \<Rightarrow> r2 = Inr (outcome (stored_response v sv))
       | None \<Rightarrow> \<exists>out'. r2 = Inr out' \<and> o_response out' \<in> {RMiss 0, RMiss 10, RUnknown}"
  proof (cases "written_view now envelope ?ttl u")
    case None
    from broker_store.get_missing[OF loc inv assms(4,6,7) authr stored[unfolded None]] show ?thesis using None r2 by simp
  next
    case (Some sv)
    then have "sv_value sv = envelope" by (auto simp: written_view_def split: option.splits if_splits)
    then show ?thesis
      using broker_store.get_stored[OF loc inv assms(4,6,7) authr stored[unfolded Some], of v] read Some r2 by auto
  qed
  then show ?thesis using env out stored by auto
qed

section \<open>Batches\<close>

lemma convert_plain_entries:
  assumes "list_all (\<lambda>e. \<not> is_marked (entry_key e)) es" and "authorized b now c n OpWrite"
  shows "convert_entries env now n c es b = (Inr es, b)"
  using assms(1)
proof (induction es)
  case (Cons e es)
  have "convert_entry env now n c e b = (Inr e, b)"
    using Cons.prems assms(2)
    by (simp add: convert_entry_def normalize_plain_key plain_key_id op_bind_authorize_ok write_operation_def op_return_def)
  with Cons show ?case by (simp add: op_bind_Inr op_return_def)
qed (simp add: op_return_def)

text \<open>
  A batch SET of ordinary keys stores all its entries at once, at any namespace its caller may
  write: the write permission of the namespace is the only guard, also for \<open>/__auth\<close> and
  \<open>/__secrets\<close>, which a single SET reserves for the bootstrap administrator.
\<close>

theorem batch_set_needs_only_write:
  assumes "store_spec (sops env) invar view" and "invar (b_store b)"
    and "es \<noteq> []" and "list_all (\<lambda>e. \<not> is_marked (entry_key e)) es"
    and "authorized b now c n OpWrite" and "adapter_instance c \<noteq> None"
  shows "\<exists>b'. execute env now (SetBatch n es ttl) c b = (Inr (outcome ROk), b')
    \<and> (\<forall>u \<ge> now. view (b_store b') u =
        mutation_effect (PSetBatch n es (map_option from_secs ttl)) now (view (b_store b)) u)"
proof -
  let ?b = "b\<lparr> b_requests := b_requests b + 1 \<rparr>" and ?m = "PSetBatch n es (map_option from_secs ttl)"
  have loc: "broker_store env invar view" using assms(1) by (rule broker_store.intro)
  have "execute env now (SetBatch n es ttl) c b = commit_now env now ?m ?b"
    using convert_plain_entries[OF assms(4), of ?b now c n env] assms(3,5,6)
    by (simp add: execute_def set_batch_def op_bind_Inr prepare_mutation_def)
  moreover have "invar (b_store ?b)" using assms(2) by simp
  ultimately show ?thesis
    using broker_store.commit_refines[OF loc, of ?b now ?m]
    by (auto simp: commit_now_def op_bind_def op_return_def)
qed

section \<open>Witnesses\<close>

definition open_broker :: memory_broker where
  "open_broker = Broker_new sample_env [] None"

lemma open_invar: "entry_cache_invar (b_store open_broker)"
  using sample_invar by (simp add: open_broker_def sample_broker_def Broker_new_def)

lemma open_authorized: "b_auth b = None \<Longrightarrow> authorized b now c n op"
  by (simp add: authorized_def authorize_def)

lemma draft_not_reserved: "\<not> reserved draft_ns"
  by (simp add: reserved_def draft_ns_def as_str_def namespace_names)

theorem set_then_get_returns_value_witness:
  "fst (execute sample_env 9 (Get draft_ns (Key ''k'')) (anonymous 1)
      (snd (execute sample_env 5 (Set draft_ns (Key ''k'') (JBool True) None) (anonymous 1) open_broker)))
   = Inr (outcome (RValue (JBool True) None))"
proof -
  let ?x = "execute sample_env 5 (Set draft_ns (Key ''k'') (JBool True) None) (anonymous 1) open_broker"
  let ?y = "execute sample_env 9 (Get draft_ns (Key ''k'')) (anonymous 1) (snd ?x)"
  have "\<not> is_marked (Key ''k'')" and "no_variables (key_str (Key ''k''))" by code_simp+
  moreover have "commits_directly open_broker (anonymous 1) draft_ns (Key ''k'')" by code_simp
  moreover have "authorized open_broker t c n op" for t c n op
    by (rule open_authorized) (simp add: open_broker_def Broker_new_def)
  ultimately show ?thesis
    using set_then_get_returns_value[OF sample_store_spec open_invar draft_not_reserved, of "Key ''k''" 5
        "anonymous 1" 9 "anonymous 1" "JBool True" None "fst ?x" "snd ?x" "fst ?y" "snd ?y"]
    by (simp add: written_view_def ttl_deadline_def stored_response_def)
qed

text \<open>A registry principal with the role to write under \<open>/*\<close>, not a bootstrap administrator.\<close>

definition writer_broker :: memory_broker where
  "writer_broker = open_broker\<lparr> b_auth := Some
     \<lparr> bootstrap_key = Some ''root'', timeout = 10,
       auth_cache = [''k1'' \<mapsto> Ready (sample_auth\<lparr> ai_roles := [RoleWrite ''/*''] \<rparr>) 100 False False] \<rparr> \<rparr>"

definition writer_context :: request_context where
  "writer_context = \<lparr> rc_owner = 1, adapter_instance = Some 2, rc_auth = Some sample_auth, rc_variables = Map.empty \<rparr>"

text \<open>A store that holds the encryption key of the base namespace \<open>/users\<close>.\<close>

definition secrets_ns :: namespace_context where
  "secrets_ns = projr (NamespaceContext_new SECURITY_NAMESPACE)"

definition keyed_broker :: memory_broker where
  "keyed_broker = open_broker\<lparr> b_store :=
     c_insert (timed_ops EntryExpiry) (c_empty (timed_ops EntryExpiry)) 0 (secrets_ns, Key ''/users'')
       \<lparr> ce_value = JString sample_key_hex, expires_at = None \<rparr> \<rparr>"

lemma keyed_invar: "entry_cache_invar (b_store keyed_broker)"
  unfolding keyed_broker_def by (simp add: entry_cache.insert_invar entry_cache.empty_invar)

lemma keyed_view:
  "memory_view timed_peek (b_store keyed_broker) t (secrets_ns, Key ''/users'') =
     Some \<lparr> sv_value = JString sample_key_hex, remaining_ttl = None \<rparr>"
  using entry_cache.insert_peek[OF entry_cache.empty_invar, of 0 t "(secrets_ns, Key ''/users'')"]
  by (simp add: keyed_broker_def memory_view_def entry_stored_value_def entry_remaining_def visible_def)

theorem encrypted_set_then_get_witness:
  "let k = Key ''~pin~'';
       b1 = snd (execute sample_env 5 (Set draft_ns k (JString ''1234'') (Some 10)) (anonymous 1) keyed_broker)
   in (\<exists>i envelope. ValueCipher_encrypt (crypt sample_env) (nonce_of sample_env i) sample_key_hex draft_ns
           (plain_key k) (JString ''1234'') = Inr envelope
       \<and> memory_view timed_peek (b_store b1) 9 (draft_ns, plain_key k) =
           Some \<lparr> sv_value = envelope, remaining_ttl = Some 9999999996 \<rparr>
       \<and> fst (execute sample_env 9 (Get draft_ns k) (anonymous 1) b1) = Inr (outcome (RValue (JString ''1234'') (Some 10))))"
proof -
  let ?k = "Key ''~pin~''" and ?v = "JString ''1234''"
  let ?x = "execute sample_env 5 (Set draft_ns ?k ?v (Some 10)) (anonymous 1) keyed_broker"
  let ?y = "execute sample_env 9 (Get draft_ns ?k) (anonymous 1) (snd ?x)"
  have auth: "authorized keyed_broker t c n op" for t c n op
    by (rule open_authorized) (simp add: keyed_broker_def open_broker_def Broker_new_def)
  have ns: "ns draft_ns = ''/users''" by (simp add: draft_ns_def ns_def)
  have key: "is_marked ?k" "key_str ?k \<noteq> []" "no_variables (key_str ?k)" by code_simp+
  have direct: "commits_directly keyed_broker (anonymous 1) draft_ns (plain_key ?k)"
    by (simp add: commits_directly_def keyed_broker_def open_broker_def Broker_new_def Registry_new_def store_for_def)
  have parse: "parse_security_key (decoders sample_env) (JString sample_key_hex) = Inr sample_key_hex"
    by (simp add: parse_security_key_def sample_env_def sample_serde_def)
  have nonce: "length (nonce_of sample_env i) = XNONCE_LEN" for i by (simp add: sample_env_def XNONCE_LEN_def)
  have json: "json_from_slice (crypt sample_env) bytes = Inr ?v" if "json_to_vec (crypt sample_env) ?v = Inr bytes" for bytes
    using that by (simp add: sample_env_def sample_crypto_def)
  have laws: "crypto_laws (crypt sample_env)" by (simp add: sample_env_def sample_cipher.crypto_laws_axioms)
  have lifetime: "written_view 5 e (Some (from_secs 10)) 9 = Some \<lparr> sv_value = e, remaining_ttl = Some 9999999996 \<rparr>" for e
    by (simp add: written_view_def ttl_deadline_def from_secs_def instant_checked_add_def instant_max_def nanos_per_sec_def)
  have seconds: "stored_response ?v \<lparr> sv_value = e, remaining_ttl = Some 9999999996 \<rparr> = RValue ?v (Some 10)" for e
    by (simp add: stored_response_def duration_to_seconds_def as_secs_def subsec_nanos_def nanos_per_sec_def saturating_add_u64_def u64_max_def)
  have "fst ?x = Inr (outcome ROk)"
  proof -
    let ?b = "keyed_broker\<lparr> b_requests := b_requests keyed_broker + 1 \<rparr>"
    note loc = broker_store.intro[OF sample_store_spec]
    have inv: "entry_cache_invar (b_store ?b)" using keyed_invar by simp
    have "\<exists>i b0. encrypt_value sample_env 5 draft_ns (plain_key ?k) ?v ?b =
        (ValueCipher_encrypt (crypt sample_env) (nonce_of sample_env i) sample_key_hex draft_ns (plain_key ?k) ?v, b0)
        \<and> broker_store.quiet entry_cache_invar (memory_view timed_peek) 5 ?b b0"
      using keyed_view[unfolded secrets_ns_def] parse ns
      by (intro broker_store.encrypt_eval[OF loc inv,
            where rec = "\<lparr> sv_value = JString sample_key_hex, remaining_ttl = None \<rparr>"]) simp_all
    then obtain e b0 where "encrypt_value sample_env 5 draft_ns (plain_key ?k) ?v ?b = (Inr e, b0)"
      and quiet: "broker_store.quiet entry_cache_invar (memory_view timed_peek) 5 ?b b0"
      by (auto simp: sample_env_def sample_encrypt)
    then have "\<exists>b1. broker_set sample_env 5 draft_ns ?k ?v (Some (from_secs 10)) (anonymous 1) ?b = (Inr (outcome ROk), b1)"
      using broker_store.set_commits[OF loc inv draft_not_reserved key(2) _ _ _ quiet, of "anonymous 1" ?v e "Some (from_secs 10)"]
        key(1) auth direct by (auto simp: commits_directly_def)
    then show ?thesis by (auto simp: execute_def)
  qed
  then have x: "?x = (Inr (outcome ROk), snd ?x)" by (metis prod.collapse)
  show ?thesis
    using encrypted_set_then_get[OF sample_store_spec laws keyed_invar draft_not_reserved key _ auth auth direct _
        _ nonce json x prod.collapse[symmetric], of 9 sample_key_hex "anonymous 1"]
      keyed_view[unfolded secrets_ns_def] parse ns
    by (simp add: Let_def lifetime seconds)
qed

end
