(* ===== verification/Key_Variables.thy ===== *)
theory Key_Variables
  imports Broker_Roundtrip
begin

text \<open>
  Resolution of \<open>${name}\<close> variables in GET keys. The code rewrites one string in place with a
  cursor (\<open>resolve_key\<close> of \<open>broker.rs\<close>); \<open>expand\<close> is the reference: a left-to-right
  substitution on the rest of the text. The two agree, which shows that a substituted value is
  never scanned again, that unknown and empty variables stay as written, and that the loop ends.
\<close>

function expand :: "(string \<Rightarrow> string option) \<Rightarrow> string \<Rightarrow> string" where
  "expand f s =
     (case split_once [CHR 0x24, CHR 0x7B] s of
        None \<Rightarrow> s
      | Some (before, rest) \<Rightarrow>
          (case split_once [CHR 0x7D] rest of
             None \<Rightarrow> s
           | Some (name, after) \<Rightarrow>
               before
               @ (case (if name = [] then None else f name) of
                    Some v \<Rightarrow> v
                  | None \<Rightarrow> [CHR 0x24, CHR 0x7B] @ name @ [CHR 0x7D])
               @ expand f after))"
  by pat_completeness auto
termination
  by (relation "measure (\<lambda>(f, s). length s)") (auto dest!: split_once_Some)

declare expand.simps [simp del]

text \<open>The text a variable stands for: a caller's value first, then the stored value.\<close>

definition variable_text ::
    "serde \<Rightarrow> (string \<rightharpoonup> string) \<Rightarrow> (key \<Rightarrow> stored_value option) \<Rightarrow> string \<Rightarrow> string option" where
  "variable_text sd variables stored name =
     (case variables name of
        Some v \<Rightarrow> Some v
      | None \<Rightarrow> map_option
          (\<lambda>sv. case sv_value sv of JString v \<Rightarrow> v | v \<Rightarrow> value_to_string sd v) (stored (Key name)))"

lemma next_variable_split:
  "next_variable (p @ s) (length p) =
     (case split_once [CHR 0x24, CHR 0x7B] s of
        None \<Rightarrow> None
      | Some (before, rest) \<Rightarrow>
          (case split_once [CHR 0x7D] rest of
             None \<Rightarrow> None
           | Some (name, after) \<Rightarrow>
               Some (length p + length before, length p + length before + 2 + length name)))"
proof (cases "find_str [CHR 0x24, CHR 0x7B] s")
  case None
  then show ?thesis by (simp add: next_variable_def split_once_def)
next
  case (Some i)
  have bound: "i + 2 \<le> length s" using find_str_Some[OF Some] by simp
  show ?thesis
  proof (cases "find_str [CHR 0x7D] (drop (i + 2) s)")
    case None
    then show ?thesis
      using Some bound by (simp add: next_variable_def split_once_def Let_def del: find_str_single_None)
  next
    case (Some j)
    then show ?thesis
      using \<open>find_str _ s = Some i\<close> bound find_str_Some[OF Some]
      by (simp add: next_variable_def split_once_def Let_def)
  qed
qed

text \<open>One round of the loop, on the text before the cursor and the rest.\<close>

lemma resolve_loop_round:
  fixes b :: "('s, 'm) broker" and p :: string
  assumes "split_once [CHR 0x24, CHR 0x7B] s = Some (before, rest)" and "split_once [CHR 0x7D] rest = Some (name, after)"
  defines "q \<equiv> p @ before @ [CHR 0x24, CHR 0x7B] @ name @ [CHR 0x7D]"
  shows "resolve_loop env now n vars (p @ s) (length p) b =
    (if name = [] then resolve_loop env now n vars (q @ after) (length q) b
     else case variable_value env now n vars name b of
            (Inl e, b') \<Rightarrow> (Inl e, b')
          | (Inr (Some v), b') \<Rightarrow>
              resolve_loop env now n vars ((p @ before @ v) @ after) (length (p @ before @ v)) b'
          | (Inr None, b') \<Rightarrow> resolve_loop env now n vars (q @ after) (length q) b')"
proof -
  have s: "s = before @ [CHR 0x24, CHR 0x7B] @ name @ [CHR 0x7D] @ after"
    using split_once_Some[OF assms(1)] split_once_Some[OF assms(2)] by simp
  let ?start = "length p + length before" and ?stop = "length p + length before + 2 + length name"
  have "next_variable (p @ s) (length p) = Some (?start, ?stop)"
    using assms(1,2) by (simp add: next_variable_split)
  moreover have "slice (?start + 2) ?stop (p @ s) = name" "take ?start (p @ s) = p @ before"
    "drop (?stop + 1) (p @ s) = after" "q @ after = p @ s" "length q = ?stop + 1"
    by (simp_all add: s slice_def numeral_3_eq_3 q_def)
  ultimately show ?thesis
    by (subst resolve_loop.simps) (auto simp: Let_def add.assoc split: prod.split sum.split option.split)
qed

context broker_store
begin

lemma variable_value_eval:
  assumes "invar (b_store b)" and "name \<noteq> []"
  shows "\<exists>b1. variable_value env now n vars name b =
      (Inr (variable_text (decoders env) vars (\<lambda>k. view (b_store b) now (n, k)) name), b1) \<and> quiet now b b1"
proof (cases "vars name")
  case (Some v)
  then show ?thesis
    using quiet_refl[OF assms(1)] by (auto simp: variable_value_def variable_text_def op_return_def)
next
  case None
  obtain b1 where "store_get env now n (Key name) b = (Inr (view (b_store b) now (n, Key name)), b1)"
    and "quiet now b b1" using store_get_eq[OF assms(1)] by blast
  then show ?thesis
    using None assms(2) by (simp add: variable_value_def variable_text_def op_bind_Inr Key_new_def op_return_def)
qed

lemma resolve_loop_expand:
  assumes "invar (b_store b)"
  shows "fst (resolve_loop env now n vars (p @ s) (length p) b) =
    Inr (p @ expand (variable_text (decoders env) vars (\<lambda>k. view (b_store b) now (n, k))) s)"
  using assms
proof (induction "length s" arbitrary: p s b rule: less_induct)
  case less
  let ?f = "\<lambda>b. variable_text (decoders env) vars (\<lambda>k. view (b_store b) now (n, k))"
  show ?case
  proof (cases "next_variable (p @ s) (length p)")
    case None
    then have "expand (?f b) s = s"
      by (subst expand.simps) (auto simp: next_variable_split split: option.splits prod.splits)
    then show ?thesis using None by (simp add: resolve_loop.simps[of env now n vars "p @ s"])
  next
    case (Some r)
    then obtain before rest name after where
      split: "split_once [CHR 0x24, CHR 0x7B] s = Some (before, rest)" "split_once [CHR 0x7D] rest = Some (name, after)"
      by (auto simp: next_variable_split split: option.splits)
    have "length after < length s"
      using split_once_Some[OF split(1)] split_once_Some[OF split(2)] by simp
    note IH = less.hyps[OF this]
    note round = resolve_loop_round[OF split, of env now n vars p b]
    let ?q = "p @ before @ [CHR 0x24, CHR 0x7B] @ name @ [CHR 0x7D]"
    note unfold = expand.simps[of "?f b" s]
    show ?thesis
    proof (cases "name = []")
      case True
      then show ?thesis using IH[OF less.prems, of ?q] split by (simp only: round unfold) simp
    next
      case False
      obtain b1 where val: "variable_value env now n vars name b = (Inr (?f b name), b1)" and q: "quiet now b b1"
        using variable_value_eval[OF less.prems False] by blast
      have f: "?f b1 = ?f b" using quiet_view[OF q order_refl] by simp
      show ?thesis
        using IH[OF quiet_invar[OF q], of ?q] IH[OF quiet_invar[OF q], of "p @ before @ the (?f b name)"] split False f
        by (cases "?f b name") (simp_all only: round unfold val, simp_all)
    qed
  qed
qed

lemma resolve_key_expand:
  assumes "invar (b_store b)"
  shows "fst (resolve_key env now n k c b) =
    Key_new (expand (variable_text (decoders env) (rc_variables c) (\<lambda>k. view (b_store b) now (n, k))) (key_str k))"
  using resolve_loop_expand[OF assms, of now n "rc_variables c" "[]" "key_str k"]
  by (auto simp: resolve_key_def op_bind_def op_lift_def split: prod.splits)

end

section \<open>Properties\<close>

text \<open>
  C33. Key variables: resolving a key always ends, and its result is the left-to-right expansion
  of the key's text, each \<open>${name}\<close> replaced once by the caller's value or else by the stored
  value of that name in the namespace; an expansion to the empty text is rejected.
\<close>

theorem resolve_key_is_expansion:
  assumes "store_spec (sops env) invar view" and "invar (b_store b)"
  shows "fst (resolve_key env now n k c b) =
    Key_new (expand (variable_text (decoders env) (rc_variables c) (\<lambda>k. view (b_store b) now (n, k))) (key_str k))"
  by (rule broker_store.resolve_key_expand[OF broker_store.intro[OF assms(1)] assms(2)])

theorem resolve_key_is_expansion_witness:
  "fst (resolve_key sample_env 5 draft_ns (Key (''a'' @ [CHR 0x24, CHR 0x7B] @ ''x'' @ [CHR 0x7D] @ ''b''))
      ((anonymous 1)\<lparr> rc_variables := [''x'' \<mapsto> [CHR 0x24, CHR 0x7B] @ ''y'' @ [CHR 0x7D]] \<rparr>) sample_broker)
   = Inr (Key (''a'' @ [CHR 0x24, CHR 0x7B] @ ''y'' @ [CHR 0x7D] @ ''b''))"
  by (subst resolve_key_is_expansion[OF sample_store_spec sample_invar])
    (simp add: expand.simps split_once_def starts_with_def variable_text_def anonymous_def Key_new_def)

end
