(* ===== verification/Broker_Coordination.thy ===== *)
theory Broker_Coordination
  imports Broker_Data
begin

text \<open>
  Coordination between adapters and requests: leases exclude each other until they expire,
  provider rate limits bound the admitted refreshes, and a provider's confirmed miss is never
  remembered past a mutation of its route.
\<close>

section \<open>Rate limits\<close>

text \<open>How many of a provider's calls, at the given instants, are admitted.\<close>

fun admitted :: "instant list \<Rightarrow> uuid \<Rightarrow> nat \<Rightarrow> (uuid \<rightharpoonup> provider_rate_limit) \<Rightarrow> nat" where
  "admitted [] i limit limits = 0"
| "admitted (t # ts) i limit limits =
     (case provider_retry_after_values t i limit limits of
        (r, limits') \<Rightarrow> (if r = None then 1 else 0) + admitted ts i limit limits')"

lemma admitted_within_window:
  assumes "limits i = Some st" and "\<forall>t \<in> set ts. t < window_started st + from_secs 1"
  shows "admitted ts i limit limits \<le> limit - rl_requests st"
  using assms
proof (induction ts arbitrary: limits st)
  case Nil
  then show ?case by simp
next
  case (Cons t ts)
  have same: "\<not> from_secs 1 \<le> saturating_sub t (window_started st)"
    using Cons.prems(2) by (auto simp: saturating_sub_def from_secs_def nanos_per_sec_def)
  show ?case
  proof (cases "rl_requests st < limit")
    case True
    let ?st = "st\<lparr> rl_requests := rl_requests st + 1 \<rparr>"
    have "admitted ts i limit (limits(i \<mapsto> ?st)) \<le> limit - rl_requests ?st"
      using Cons.prems(2) by (intro Cons.IH) simp_all
    then show ?thesis using Cons.prems(1) same True by (simp add: provider_retry_after_values_def Let_def)
  next
    case False
    have "admitted ts i limit (limits(i \<mapsto> st)) \<le> limit - rl_requests st"
      using Cons.prems(2) by (intro Cons.IH) simp_all
    then show ?thesis using Cons.prems(1) same False by (simp add: provider_retry_after_values_def Let_def)
  qed
qed

lemma admitted_fresh_window:
  assumes "\<forall>u \<in> set ts. u < t + from_secs 1"
    and "case limits i of None \<Rightarrow> True | Some st \<Rightarrow> from_secs 1 \<le> saturating_sub t (window_started st)"
  shows "admitted (t # ts) i limit limits \<le> limit"
proof -
  let ?new = "\<lambda>r. limits(i \<mapsto> \<lparr> window_started = t, rl_requests = r \<rparr>)"
  have "admitted ts i limit (?new r) \<le> limit - r" for r
    using admitted_within_window[of "?new r" i "\<lparr> window_started = t, rl_requests = r \<rparr>" ts limit] assms(1) by simp
  from this[of 0] this[of 1] show ?thesis
    using assms(2) by (cases "limits i"; cases "0 < limit") (auto simp: provider_retry_after_values_def Let_def)
qed

lemma admitted_two_windows:
  assumes "sorted ts" and "\<forall>t \<in> set ts. a \<le> t \<and> t < a + from_secs 1" and "limits i = Some st"
  shows "admitted ts i limit limits \<le> (limit - rl_requests st) + limit"
  using assms
proof (induction ts arbitrary: limits st)
  case Nil
  then show ?case by simp
next
  case (Cons t ts)
  show ?case
  proof (cases "from_secs 1 \<le> saturating_sub t (window_started st)")
    case True
    have "\<forall>u \<in> set ts. u < t + from_secs 1" using Cons.prems(2) by fastforce
    from admitted_fresh_window[OF this, of limits i limit] show ?thesis using Cons.prems(3) True by simp
  next
    case False
    let ?st = "\<lambda>r. st\<lparr> rl_requests := r \<rparr>"
    have "admitted ts i limit (limits(i \<mapsto> ?st r)) \<le> (limit - r) + limit" for r
    proof -
      have "admitted ts i limit (limits(i \<mapsto> ?st r)) \<le> (limit - rl_requests (?st r)) + limit"
        using Cons.prems(1,2) by (intro Cons.IH) simp_all
      then show ?thesis by simp
    qed
    from this[of "rl_requests st"] this[of "rl_requests st + 1"] show ?thesis
      using Cons.prems(3) False
      by (cases "rl_requests st < limit") (auto simp: provider_retry_after_values_def Let_def)
  qed
qed

text \<open>
  C32. Provider rate limits hold over time: for calls in the order of their instants, a provider is
  admitted at most its limit of times in a window that starts fresh, and at most twice its limit in
  any interval of one second, whatever was admitted before; other providers' limits are untouched.
\<close>

theorem provider_rate_is_bounded:
  assumes "sorted ts" and "\<forall>t \<in> set ts. a \<le> t \<and> t < a + from_secs 1"
  shows "admitted ts i limit limits \<le> 2 * limit
    \<and> (limits i = None \<longrightarrow> admitted ts i limit limits \<le> limit)
    \<and> (\<forall>t j. j \<noteq> i \<longrightarrow> snd (provider_retry_after_values t i limit limits) j = limits j)"
proof (intro conjI impI allI)
  have fresh: "admitted ts i limit limits \<le> limit" if none: "limits i = None"
  proof (cases ts)
    case (Cons t us)
    have "\<forall>u \<in> set us. u < t + from_secs 1" using assms(2) Cons by fastforce
    then show ?thesis using admitted_fresh_window[of us t limits i limit] none Cons by simp
  qed simp
  show "admitted ts i limit limits \<le> limit" if "limits i = None" using fresh[OF that] .
  show "admitted ts i limit limits \<le> 2 * limit"
  proof (cases "limits i")
    case None
    then show ?thesis using fresh by simp
  next
    case (Some st)
    then show ?thesis using admitted_two_windows[OF assms, of limits i st limit] by simp
  qed
  show "snd (provider_retry_after_values t i limit limits) j = limits j" if "j \<noteq> i" for t j
    using that by (simp add: provider_retry_after_values_def Let_def)
qed

theorem provider_rate_is_bounded_witness:
  "admitted [5, 6, 7] 1 2 Map.empty \<le> 2 * 2 \<and> admitted [5, 6, 7] 1 2 Map.empty \<le> 2"
  using provider_rate_is_bounded[of "[5, 6, 7]" 5 1 2 Map.empty]
  by (simp add: from_secs_def nanos_per_sec_def)

section \<open>Leases\<close>

definition leases_op :: "(('s, 'm) broker, 'a) op \<Rightarrow> bool" where
  "leases_op m \<longleftrightarrow> (\<forall>b. b_leases (snd (m b)) = b_leases b)"

lemma leases_opI: "(\<And>b. b_leases (snd (m b)) = b_leases b) \<Longrightarrow> leases_op m"
  by (simp add: leases_op_def)

lemma leases_opD: "leases_op m \<Longrightarrow> m b = (r, b') \<Longrightarrow> b_leases b' = b_leases b"
  by (metis leases_op_def snd_conv)

lemma leases_op_bind [intro]: "leases_op m \<Longrightarrow> (\<And>x. leases_op (f x)) \<Longrightarrow> leases_op (op_bind m f)"
proof (rule leases_opI)
  fix b
  assume m: "leases_op m" and f: "\<And>x. leases_op (f x)"
  obtain r b1 where run: "m b = (r, b1)" by fastforce
  then show "b_leases (snd (op_bind m f b)) = b_leases b"
    using leases_opD[OF m run] f by (cases r) (simp_all add: op_bind_def leases_op_def)
qed

lemma leases_op_pure [intro, simp]:
  "leases_op (op_return x)" "leases_op (op_fail e)" "leases_op (op_lift r)" "leases_op (authorize_op t c n o')"
  by (simp_all add: leases_op_def op_return_def op_fail_def op_lift_def authorize_op_def)

lemma leases_op_store [intro, simp]:
  "leases_op (store_get env now n k)" "leases_op (store_set env now n k v ttl)"
  "leases_op (store_set_batch env now n kvs ttl)" "leases_op (store_delete env now n p)"
  "leases_op (store_move env now n n')" "leases_op (store_len env now)"
  by (simp_all add: leases_op_def store_get_def store_set_def store_set_batch_def store_delete_def
      store_move_def store_len_def split: prod.split)

lemma leases_op_prod [intro]: "(\<And>x y. leases_op (f x y)) \<Longrightarrow> leases_op (case p of (x, y) \<Rightarrow> f x y)"
  by (cases p) simp

lemma leases_op_if [intro]: "leases_op m \<Longrightarrow> leases_op m' \<Longrightarrow> leases_op (if c then m else m')"
  by simp

lemma leases_op_option [intro]: "leases_op m \<Longrightarrow> (\<And>x. leases_op (f x)) \<Longrightarrow> leases_op (case o' of None \<Rightarrow> m | Some x \<Rightarrow> f x)"
  by (cases o') simp_all

lemma record_exact_leases [simp]: "b_leases (record_exact_mutation env now n k b) = b_leases b"
  by (simp add: record_exact_mutation_def Let_def split: option.split)

lemma bump_leases [simp]: "b_leases (fold (bump_route env now p) es b) = b_leases b"
  by (induction es arbitrary: b) (simp_all add: bump_route_def split: prod.split)

lemma record_broad_leases [simp]: "b_leases (record_broad_mutation env now n p b) = b_leases b"
  by (simp add: record_broad_mutation_def Let_def)

lemma fold_record_leases [simp]: "b_leases (fold (record_exact_mutation env now n) ks b) = b_leases b"
  by (induction ks arbitrary: b) simp_all

lemma replace_cached_leases [simp]: "b_leases (replace_cached_principal env now n k v b) = b_leases b"
  by (simp add: replace_cached_principal_def)

lemma leases_op_commit [intro, simp]: "leases_op (commit env now m)"
  by (rule leases_opI, cases m)
    (auto simp: store_set_def store_set_batch_def store_delete_def store_move_def op_bind_def
      split: prod.splits sum.splits)

lemma leases_op_prepare [intro, simp]: "leases_op (prepare_mutation env now m fa)"
proof -
  have now: "leases_op (commit_now env now m)" for m by (auto simp: commit_now_def)
  have batch: "leases_op (prepare_batch env now n es ttl)" for n es ttl
    unfolding prepare_batch_def
    by (intro leases_op_bind leases_op_pure, rule leases_opI)
      (simp add: draw_def leases_opD[OF now, OF prod.collapse[symmetric]] split: batch_store_match.split)
  have single: "leases_op (prepare_single env now m)"
  proof (rule leases_opI)
    fix b :: "('a, 'b) broker"
    show "b_leases (snd (prepare_single env now m b)) = b_leases b"
      by (cases "mutation_target m (b_draws b)")
        (simp_all add: prepare_single_def draw_def leases_opD[OF now, OF prod.collapse[symmetric]]
          split: prod.split option.split)
  qed
  show ?thesis using now batch single by (cases m) (simp_all add: prepare_mutation_def)
qed

lemma leases_op_keys [intro, simp]:
  "leases_op (security_key env now n)" "leases_op (encrypt_value env now n k v)"
  "leases_op (decrypt_value env now n k v)" "leases_op (variable_value env now n vars x)"
proof -
  show sk: "leases_op (security_key env now n)"
    unfolding security_key_def by (intro leases_op_bind leases_op_prod leases_op_option leases_op_pure leases_op_store)
  show "leases_op (encrypt_value env now n k v)"
    unfolding encrypt_value_def using sk by (intro leases_op_bind) (simp_all add: leases_op_def)
  show "leases_op (decrypt_value env now n k v)"
    unfolding decrypt_value_def using sk by (intro leases_op_bind leases_op_pure)
  show "leases_op (variable_value env now n vars x)"
    unfolding variable_value_def by (intro leases_op_bind leases_op_option leases_op_pure leases_op_store)
qed

lemma resolve_loop_leases: "b_leases (snd (resolve_loop env now n vars s cursor b)) = b_leases b"
proof (induction env now n vars s cursor b rule: resolve_loop.induct)
  case (1 env now n vars s cursor b)
  have v: "variable_value env now n vars x b = (r, b') \<Longrightarrow> b_leases b' = b_leases b" for x r b'
    using leases_opD[OF leases_op_keys(4)] .
  show ?case
    using "1.IH" by (subst resolve_loop.simps)
      (auto simp: Let_def v split: option.splits prod.splits sum.splits)
qed

lemma leases_op_resolve [intro, simp]: "leases_op (resolve_key env now n k c)"
  unfolding resolve_key_def by (intro leases_op_bind leases_op_pure) (simp add: leases_op_def resolve_loop_leases)

lemma select_leases: "select_provider n k b = (p, b') \<Longrightarrow> b_leases b' = b_leases b"
  by (auto simp: select_provider_def split: prod.splits)

lemma dispatch_leases: "auth_provider_dispatch now key b = (d, b') \<Longrightarrow> b_leases b' = b_leases b"
  by (auto simp: auth_provider_dispatch_def fail_auth_provider_load_def draw_def Let_def dest!: select_leases
      split: option.splits prod.splits bool.splits sum.splits)

lemma route_generation_leases: "route_mutation_generation env n k b = (g, b') \<Longrightarrow> b_leases b' = b_leases b"
  by (auto simp: route_mutation_generation_def Let_def split: prod.splits)

lemma store_get_leases: "store_get env now n k b = (r, b') \<Longrightarrow> b_leases b' = b_leases b"
  using leases_opD[OF leases_op_store(1)] .

lemma leases_op_authenticate [simp]: "leases_op (authenticate env now key)"
proof -
  have from_store: "leases_op (authenticate_from_store env now key)"
    unfolding authenticate_from_store_def
    by (intro leases_op_bind leases_op_pure, rule leases_opI)
      (auto simp: Let_def fail_auth_provider_load_def dest!: store_get_leases dispatch_leases
        split: prod.split sum.split option.split auth_lookup.split)
  have fs: "b_leases (snd (authenticate_from_store env now key (b\<lparr> b_auth := a \<rparr>))) = b_leases b" for a and b :: "('a, 'b) broker"
    using from_store by (simp add: leases_op_def)
  show ?thesis
    by (rule leases_opI)
      (auto simp: authenticate_def fs dest!: dispatch_leases
        split: option.split prod.split auth_lookup.split bool.split)
qed

lemma leases_op_get [simp]: "as_str n \<noteq> LEASE_NAMESPACE \<Longrightarrow> leases_op (broker_get env now n k c)"
proof -
  have miss: "leases_op (get_miss env now n k' enc)" for k' enc
    by (rule leases_opI)
      (auto simp: get_miss_def Let_def draw_def dest!: select_leases route_generation_leases
        split: prod.split bool.split option.split)
  have hit: "leases_op (get_hit env now n k' enc sv)" for k' enc sv
  proof (rule leases_opI)
    fix b :: "('a, 'b) broker"
    have "leases_op (op_bind (if enc then decrypt_value env now n k' (sv_value sv) else op_return (sv_value sv))
       (\<lambda>value. op_return (outcome (stored_response value sv))) :: (('a, 'b) broker, broker_outcome) op)"
      by (intro leases_op_bind leases_op_if leases_op_keys leases_op_pure)
    then show "b_leases (snd (get_hit env now n k' enc sv b)) = b_leases b"
      by (simp add: get_hit_def leases_op_def)
  qed
  assume "as_str n \<noteq> LEASE_NAMESPACE"
  then show ?thesis
    unfolding broker_get_def Let_def
    by (simp only: if_False)
      (intro leases_op_bind leases_op_if leases_op_prod leases_op_option leases_op_resolve leases_op_pure
        leases_op_store miss hit)
qed

lemma leases_op_set [simp]: "as_str n \<noteq> LEASE_NAMESPACE \<Longrightarrow> leases_op (broker_set env now n k v ttl c)"
  unfolding broker_set_def set_value_def
  by (simp only: if_False)
    (intro leases_op_bind leases_op_if leases_op_prod leases_op_keys leases_op_prepare leases_op_pure leases_op_store)

lemma leases_op_convert [intro, simp]: "leases_op (convert_entries env now n c es)"
proof (induction es)
  case (Cons e es)
  have "leases_op (convert_entry env now n c e)"
    unfolding convert_entry_def by (intro leases_op_bind leases_op_prod leases_op_if leases_op_keys leases_op_pure)
  with Cons show ?case by (simp add: leases_op_bind)
qed simp

lemma leases_op_registration [simp]:
  "leases_op (provide_command t np kp rate tm mt c)" "leases_op (store_command t np kp c)"
proof -
  have guard: "leases_op (registration_guard t c n o')" for n o' by (simp add: registration_guard_def)
  have reg: "leases_op (\<lambda>b. if adapter_instance c = None then (Inl e, b)
      else case draw b of (i, b1) \<Rightarrow> (Inr (outcome ROk), b1\<lparr> b_registry := f i b1 \<rparr>))" for e f
    by (rule leases_opI) (simp add: draw_def)
  show "leases_op (provide_command t np kp rate tm mt c)" "leases_op (store_command t np kp c)"
    unfolding provide_command_def store_command_def
    by (intro leases_op_bind leases_op_if leases_op_pure guard reg)+
qed

text \<open>The lease a command is about.\<close>

fun lease_key :: "command \<Rightarrow> string option" where
  "lease_key (Get n k) = (if as_str n = LEASE_NAMESPACE then Some (key_str k) else None)"
| "lease_key (Set n k v ttl) = (if as_str n = LEASE_NAMESPACE then Some (key_str k) else None)"
| "lease_key _ = None"

lemma leases_op_command: "lease_key cmd = None \<Longrightarrow> leases_op (run_command env now cmd c)"
proof (cases cmd)
  case (SetBatch n es ttl)
  then show ?thesis by (simp add: set_batch_def leases_op_bind)
next
  case (Delete n p)
  then show ?thesis
    by (simp only: run_command.simps broker_delete_def)
      (intro leases_op_bind leases_op_if leases_op_prepare leases_op_pure)
next
  case (Move src dst)
  then show ?thesis
    by (simp only: run_command.simps move_namespace_def)
      (intro leases_op_bind leases_op_if leases_op_prepare leases_op_pure)
next
  case StatsCmd
  then show ?thesis
    by (simp add: broker_stats_def leases_op_bind leases_opI)
qed (simp_all split: if_splits)

lemma acquire_keeps_held:
  assumes "b_leases b key = Some l" and "u < lease_expires_at l"
    and "key_str k = key \<Longrightarrow> adapter_instance c \<noteq> Some (lease_owner l)"
  shows "b_leases (snd (acquire_lease u k c b)) key = Some l"
  using assms by (cases "adapter_ok c") (auto simp: acquire_lease_def require_adapter_eq adapter_ok_def Let_def)

lemma release_keeps_held:
  assumes "b_leases b key = Some l" and "key_str k = key \<Longrightarrow> adapter_instance c \<noteq> Some (lease_owner l)"
  shows "b_leases (snd (release_lease k v c b)) key = Some l"
  using assms
  by (cases "adapter_ok c")
    (auto simp: release_lease_def require_adapter_eq adapter_ok_def split: option.splits)

lemma held_lease_kept:
  assumes "b_leases b key = Some l" and "u < lease_expires_at l"
    and "lease_key cmd = Some key \<Longrightarrow> adapter_instance c \<noteq> Some (lease_owner l)"
  shows "b_leases (snd (execute env u cmd c b)) key = Some l"
proof (cases "lease_key cmd")
  case None
  then show ?thesis using leases_op_command[OF None, of env u c] assms(1) by (simp add: execute_def leases_op_def)
next
  case (Some key')
  let ?b = "b\<lparr> b_requests := b_requests b + 1 \<rparr>"
  have b: "b_leases ?b key = Some l" using assms(1) by simp
  from Some consider n k where "cmd = Get n k" "as_str n = LEASE_NAMESPACE" "key' = key_str k"
    | n k v ttl where "cmd = Set n k v ttl" "as_str n = LEASE_NAMESPACE" "key' = key_str k"
    by (cases cmd) (auto split: if_splits)
  then show ?thesis
    using acquire_keeps_held[OF b assms(2)] release_keeps_held[OF b] assms(3)
    by cases (auto simp: execute_def broker_get_def broker_set_def)
qed

text \<open>A run of commands, each with its instant and its caller.\<close>

definition run_all ::
    "('s, 'm) broker_env \<Rightarrow> (instant \<times> command \<times> request_context) list \<Rightarrow> ('s, 'm) broker \<Rightarrow> ('s, 'm) broker" where
  "run_all env evs b = fold (\<lambda>(u, cmd, c) b. snd (execute env u cmd c b)) evs b"

lemma held_lease_kept_all:
  assumes "b_leases b key = Some l"
    and "list_all (\<lambda>(u, cmd, c). u < lease_expires_at l
        \<and> (lease_key cmd = Some key \<longrightarrow> adapter_instance c \<noteq> Some (lease_owner l))) evs"
  shows "b_leases (run_all env evs b) key = Some l"
  using assms
proof (induction evs arbitrary: b)
  case Nil
  then show ?case by (simp add: run_all_def)
next
  case (Cons ev evs)
  obtain u cmd c where ev: "ev = (u, cmd, c)" by (cases ev)
  have "b_leases (snd (execute env u cmd c b)) key = Some l"
    using Cons.prems ev by (intro held_lease_kept) auto
  from Cons.IH[OF this] Cons.prems(2) ev show ?case by (simp add: run_all_def)
qed

lemma granted_lease:
  assumes "execute env t (Get n k) c b = (Inr (outcome (RValue (JBool True) ttl)), b1)"
    and "as_str n = LEASE_NAMESPACE" and "adapter_instance c = Some i"
  shows "b_leases b1 (key_str k) = Some \<lparr> lease_owner = i, lease_expires_at = t + LEASE_DURATION \<rparr>"
  using assms
  by (cases "adapter_ok c")
    (auto simp: execute_def broker_get_def acquire_lease_def require_adapter_eq Let_def outcome_def
      split: option.splits if_splits)

text \<open>
  C12. Leases exclude each other: after an adapter was granted a lease, and whatever commands anyone
  executes in the meantime that are not its own on that lease, no other adapter is granted the
  lease before its thirty seconds have passed, and no other adapter can release it.
\<close>

theorem lease_mutual_exclusion:
  assumes "execute env t (Get n k) c b = (Inr (outcome (RValue (JBool True) ttl)), b1)"
    and "as_str n = LEASE_NAMESPACE" and "adapter_instance c = Some i"
    and "list_all (\<lambda>(u, cmd, c'). u < t + LEASE_DURATION
        \<and> (lease_key cmd = Some (key_str k) \<longrightarrow> adapter_instance c' \<noteq> Some i)) evs"
    and "u < t + LEASE_DURATION" and "adapter_instance c' = Some j" and "j \<noteq> i" and "rc_auth c' \<noteq> None"
  shows "fst (execute env u (Get n k) c' (run_all env evs b1)) = Inr (outcome (RValue (JBool False) None))
    \<and> (\<exists>e. fst (execute env u (Set n k v None) c' (run_all env evs b1)) = Inl e)
    \<and> b_leases (snd (execute env u (Set n k v None) c' (run_all env evs b1))) (key_str k) =
        Some \<lparr> lease_owner = i, lease_expires_at = t + LEASE_DURATION \<rparr>"
proof -
  let ?l = "\<lparr> lease_owner = i, lease_expires_at = t + LEASE_DURATION \<rparr>"
  have held: "b_leases (run_all env evs b1) (key_str k) = Some ?l"
    using assms(4) by (intro held_lease_kept_all[OF granted_lease[OF assms(1-3)]]) simp
  have "b_leases (snd (execute env u (Set n k v None) c' (run_all env evs b1))) (key_str k) = Some ?l"
    using assms(5,6,7) by (intro held_lease_kept[OF held]) simp_all
  then show ?thesis
    using held assms(2,5,6,7,8)
    by (auto simp: execute_def broker_get_def broker_set_def acquire_lease_def release_lease_def
        require_adapter_eq adapter_ok_def Let_def)
qed

theorem lease_mutual_exclusion_witness:
  "let n = \<lparr> ns_value = ''/__lease'', ctx_start = None \<rparr>;
       c = \<lambda>i. \<lparr> rc_owner = 1, adapter_instance = Some i, rc_auth = Some sample_auth, rc_variables = Map.empty \<rparr>;
       b1 = snd (execute sample_env 5 (Get n (Key ''job'')) (c 1) sample_broker);
       b2 = run_all sample_env [(6, Ping, c 2), (7, Set n (Key ''job'') (JNumber (PosInt 0)) None, c 2)] b1
   in fst (execute sample_env 8 (Get n (Key ''job'')) (c 2) b2) = Inr (outcome (RValue (JBool False) None))"
proof -
  let ?n = "\<lparr> ns_value = ''/__lease'', ctx_start = None \<rparr>"
  let ?c = "\<lambda>i. \<lparr> rc_owner = 1, adapter_instance = Some i, rc_auth = Some sample_auth, rc_variables = Map.empty \<rparr>"
  let ?b1 = "snd (execute sample_env 5 (Get ?n (Key ''job'')) (?c 1) sample_broker)"
  have "execute sample_env 5 (Get ?n (Key ''job'')) (?c 1) sample_broker =
      (Inr (outcome (RValue (JBool True) (Some 30))), ?b1)"
    by (simp add: execute_def broker_get_def as_str_def LEASE_NAMESPACE_def acquire_lease_def
        require_adapter_eq adapter_ok_def Let_def sample_broker_def Broker_new_def LEASE_DURATION_def)
  from lease_mutual_exclusion[OF this, where i = 1 and j = 2 and c' = "?c 2" and u = 8
      and evs = "[(6, Ping, ?c 2), (7, Set ?n (Key ''job'') (JNumber (PosInt 0)) None, ?c 2)]"]
  show ?thesis
    by (simp add: Let_def as_str_def LEASE_NAMESPACE_def LEASE_DURATION_def from_secs_def nanos_per_sec_def)
qed

end
