(* ===== verification/Broker_Misses.thy ===== *)
theory Broker_Misses
  imports Broker_Data
begin

text \<open>
  Confirmed provider misses against concurrent mutations (\<open>broker.rs\<close>,
  \<open>confirm_provider_miss\<close> and the mutation bookkeeping). A GET that dispatches a provider query
  hands out the route's refresh identity and generation; every commit that touches the route
  moves the generation on; the miss is remembered only under the generation it was asked for.
  Between the dispatch and the insertion any number of commits, other dispatches and other
  releases may run, in any order.
\<close>

section \<open>The route table of the broker\<close>

definition route_of :: "('s, 'm) broker_env \<Rightarrow> ('s, 'm) broker \<Rightarrow> namespace_context \<Rightarrow> key \<Rightarrow> uuid option" where
  "route_of env b n k = active_route_state (hash_of env) (b_mutation_shards b) n k"

text \<open>The table is well formed, its states are distinct, and their identities were drawn.\<close>

definition routes_wf :: "('s, 'm) broker_env \<Rightarrow> ('s, 'm) broker \<Rightarrow> bool" where
  "routes_wf env b \<longleftrightarrow>
     shards_invar (hash_of env) (b_mutation_shards b)
     \<and> (\<forall>n k n' k' i. route_of env b n k = Some i \<longrightarrow> route_of env b n' k' = Some i \<longrightarrow> (n', k') = (n, k))
     \<and> (\<forall>n k i. route_of env b n k = Some i \<longrightarrow> i < b_draws b)"

lemma routes_wf_separate:
  "routes_wf env b \<Longrightarrow> shards.separate (hash_of env) (b_mutation_shards b)"
  unfolding routes_wf_def shards.separate_def route_of_def by blast

lemma routes_wf_new: "routes_wf env (Broker_new env s a)"
  using shards.empty_table by (simp add: routes_wf_def route_of_def Broker_new_def)

lemma broker_pattern_matches_kp: "broker_pattern_matches (kp_str p) (key_str k) = kp_matches p k"
  by (simp add: broker_pattern_matches_def kp_matches_def split: option.split)

lemma broker_pattern_matches_all: "broker_pattern_matches ''*'' s"
  using strip_suffix_append[of "''*''" "[]"] by (simp add: broker_pattern_matches_def)

lemma broker_pattern_selects:
  "broker_pattern_matches (case p of None \<Rightarrow> ''*'' | Some q \<Rightarrow> kp_str q) (key_str k) = pattern_selects p k"
  by (simp add: pattern_selects_def broker_pattern_matches_kp broker_pattern_matches_all split: option.split)

section \<open>Generations\<close>

text \<open>How often a committed mutation moves a route's generation on.\<close>

fun touches :: "pending_mutation \<Rightarrow> namespace_context \<Rightarrow> key \<Rightarrow> nat" where
  "touches (PSet n' k' v ttl) n k = (if (n', k') = (n, k) then 1 else 0)"
| "touches (PSetBatch n' es ttl) n k = (if n' = n then length (filter (\<lambda>e. entry_key e = k) es) else 0)"
| "touches (PDelete n' p) n k = (if n' = n \<and> pattern_selects p k then 1 else 0)"
| "touches (PMove src dst) n k = (if src = n then 1 else 0) + (if dst = n then 1 else 0)"

lemma record_exact_generation:
  assumes "routes_wf env b" and "route_of env b n k = Some i"
  shows "b_generations (record_exact_mutation env now n' k' b) i =
    b_generations b i + (if (n', k') = (n, k) then 1 else 0)"
proof (cases "route_of env b n' k'")
  case None
  then show ?thesis using assms(2) by (auto simp: record_exact_mutation_def route_of_def Let_def)
next
  case (Some j)
  then have "j = i \<longleftrightarrow> (n', k') = (n, k)" using assms unfolding routes_wf_def by fastforce
  then show ?thesis using Some by (auto simp: record_exact_mutation_def route_of_def Let_def)
qed

lemma record_exact_routes [simp]:
  "route_of env (record_exact_mutation env now n' k' b) = route_of env b"
  "routes_wf env (record_exact_mutation env now n' k' b) = routes_wf env b"
proof -
  have "b_draws (record_exact_mutation env now n' k' b) = b_draws b"
    by (simp add: record_exact_mutation_def Let_def split: option.split)
  then show "route_of env (record_exact_mutation env now n' k' b) = route_of env b"
    "routes_wf env (record_exact_mutation env now n' k' b) = routes_wf env b"
    by (simp_all add: route_of_def routes_wf_def fun_eq_iff)
qed

lemma fold_record_exact_generation:
  assumes "routes_wf env b" and "route_of env b n k = Some i"
  shows "b_generations (fold (record_exact_mutation env now n') ks b) i =
    b_generations b i + of_nat (if n' = n then length (filter (\<lambda>k'. k' = k) ks) else 0)"
  using assms
proof (induction ks arbitrary: b)
  case (Cons k' ks)
  then show ?case
    using record_exact_generation[OF Cons.prems, of now n' k']
      Cons.IH[of "record_exact_mutation env now n' k' b"] by auto
qed simp

lemma fold_bump_generation:
  assumes "distinct (map snd es)"
  shows "b_generations (fold (bump_route env now p) es b) i =
    b_generations b i + (if \<exists>r. (r, i) \<in> set es \<and> broker_pattern_matches p (key_str (snd r)) then 1 else 0)"
  using assms
proof (induction es arbitrary: b)
  case Nil
  then show ?case by simp
next
  case (Cons e es)
  obtain rn rk j where e: "e = ((rn, rk), j)" by (metis surj_pair)
  have IH: "b_generations (fold (bump_route env now p) es (bump_route env now p e b)) i =
      b_generations (bump_route env now p e b) i
      + (if \<exists>r. (r, i) \<in> set es \<and> broker_pattern_matches p (key_str (snd r)) then 1 else 0)"
    using Cons by simp
  have bump: "b_generations (bump_route env now p e b) i =
      b_generations b i + (if i = j \<and> broker_pattern_matches p (key_str rk) then 1 else 0)"
    by (simp add: bump_route_def e)
  have "\<not> (\<exists>r. (r, j) \<in> set es)" using Cons.prems e by force
  then show ?case using IH bump e by auto
qed

lemma record_broad_generation:
  assumes "routes_wf env b" and "route_of env b n k = Some i"
  shows "b_generations (record_broad_mutation env now n' p b) i =
    b_generations b i + (if n' = n \<and> pattern_selects p k then 1 else 0)"
proof -
  let ?es = "active_routes_in_namespace (b_mutation_shards b) n'"
  let ?p = "case p of None \<Rightarrow> ''*'' | Some q \<Rightarrow> kp_str q"
  have inv: "shards_invar (hash_of env) (b_mutation_shards b)" using assms(1) by (simp add: routes_wf_def)
  have mem: "((rn, rk), j) \<in> set ?es \<longleftrightarrow> rn = n' \<and> route_of env b n' rk = Some j" for rn rk j
    using shards.routes_lookup[OF inv] by (simp add: route_of_def)
  have "distinct (map snd ?es)"
    by (rule shards.distinct_route_ids[OF inv routes_wf_separate[OF assms(1)]])
  from fold_bump_generation[OF this, of env now ?p b i]
  have "b_generations (record_broad_mutation env now n' p b) i = b_generations b i +
      (if \<exists>r. (r, i) \<in> set ?es \<and> broker_pattern_matches ?p (key_str (snd r)) then 1 else 0)"
    by (simp add: record_broad_mutation_def Let_def)
  moreover have "(\<exists>r. (r, i) \<in> set ?es \<and> broker_pattern_matches ?p (key_str (snd r))) \<longleftrightarrow> n' = n \<and> pattern_selects p k"
  proof
    assume "\<exists>r. (r, i) \<in> set ?es \<and> broker_pattern_matches ?p (key_str (snd r))"
    then obtain rn rk where "((rn, rk), i) \<in> set ?es" and match: "broker_pattern_matches ?p (key_str rk)" by auto
    then have "route_of env b n' rk = Some i" by (simp add: mem)
    then have "(n', rk) = (n, k)" using assms unfolding routes_wf_def by blast
    then show "n' = n \<and> pattern_selects p k" using match by (simp add: broker_pattern_selects)
  next
    assume "n' = n \<and> pattern_selects p k"
    then have "((n, k), i) \<in> set ?es \<and> broker_pattern_matches ?p (key_str (snd (n, k)))"
      using mem[of n k i] assms(2) by (simp add: broker_pattern_selects)
    then show "\<exists>r. (r, i) \<in> set ?es \<and> broker_pattern_matches ?p (key_str (snd r))" by blast
  qed
  ultimately show ?thesis by simp
qed

lemma fold_bump_draws [simp]: "b_draws (fold (bump_route env now p) es b) = b_draws b"
  by (induction es arbitrary: b) (simp_all add: bump_route_def split: prod.split)

lemma record_broad_routes [simp]:
  "route_of env (record_broad_mutation env now n' p b) = route_of env b"
  "routes_wf env (record_broad_mutation env now n' p b) = routes_wf env b"
proof -
  have "b_draws (record_broad_mutation env now n' p b) = b_draws b"
    by (simp add: record_broad_mutation_def Let_def)
  then show "route_of env (record_broad_mutation env now n' p b) = route_of env b"
    "routes_wf env (record_broad_mutation env now n' p b) = routes_wf env b"
    by (simp_all add: route_of_def routes_wf_def fun_eq_iff)
qed

lemma fold_record_exact_routes [simp]:
  "route_of env (fold (record_exact_mutation env now n') ks b) = route_of env b"
  "routes_wf env (fold (record_exact_mutation env now n') ks b) = routes_wf env b"
  by (induction ks arbitrary: b) simp_all

text \<open>Steps that change only the store or the session cache.\<close>

lemma routes_other_fields [simp]:
  "route_of env (b\<lparr> b_store := s \<rparr>) = route_of env b" "routes_wf env (b\<lparr> b_store := s \<rparr>) = routes_wf env b"
  "route_of env (replace_cached_principal env now n k v b) = route_of env b"
  "routes_wf env (replace_cached_principal env now n k v b) = routes_wf env b"
  "b_generations (replace_cached_principal env now n k v b) = b_generations b"
  by (simp_all add: route_of_def routes_wf_def fun_eq_iff replace_cached_principal_def)

lemma commit_generation:
  assumes "routes_wf env b" and "commit env now m b = (r, b')"
  shows "routes_wf env b' \<and> route_of env b' = route_of env b
    \<and> (\<forall>n k i. route_of env b n k = Some i \<longrightarrow>
        b_generations b' i = b_generations b i + of_nat (if r = Inr () then touches m n k else 0))"
proof (cases m)
  case (PSet n' k' v ttl)
  obtain r1 s where "st_set (sops env) (b_store b) now n' k' v ttl = (r1, s)" by fastforce
  then show ?thesis
    using assms PSet record_exact_generation[of env "replace_cached_principal env now n' k' v (b\<lparr> b_store := s \<rparr>)"]
    by (cases r1) (auto simp: store_set_def op_bind_def)
next
  case (PSetBatch n' es ttl)
  let ?kvs = "map (\<lambda>e. (entry_key e, entry_value e)) es"
  obtain r1 s where "st_set_batch (sops env) (b_store b) now n' ?kvs ttl = (r1, s)" by fastforce
  then show ?thesis
    using assms PSetBatch fold_record_exact_generation[of env "b\<lparr> b_store := s \<rparr>" _ _ _ now n' "map entry_key es"]
    by (cases r1) (auto simp: store_set_batch_def op_bind_def filter_map o_def)
next
  case (PDelete n' p)
  obtain r1 s where "st_delete (sops env) (b_store b) now n' p = (r1, s)" by fastforce
  then show ?thesis
    using assms PDelete record_broad_generation[of env "b\<lparr> b_store := s \<rparr>"]
    by (cases r1) (auto simp: store_delete_def op_bind_def)
next
  case (PMove src dst)
  obtain r1 s where "st_move (sops env) (b_store b) now src dst = (r1, s)" by fastforce
  then show ?thesis
    using assms PMove record_broad_generation[of env "b\<lparr> b_store := s \<rparr>"]
      record_broad_generation[of env "record_broad_mutation env now src None (b\<lparr> b_store := s \<rparr>)"]
    by (cases r1) (auto simp: store_move_def op_bind_def pattern_selects_def)
qed

section \<open>What may run between the dispatch and the confirmation\<close>

datatype route_event =
    EvCommit instant pending_mutation
  | EvDispatch namespace_context key
  | EvRelease namespace_context key uuid

fun route_step :: "('s, 'm) broker_env \<Rightarrow> route_event \<Rightarrow> ('s, 'm) broker \<Rightarrow> ('s, 'm) broker" where
  "route_step env (EvCommit t m) b = snd (commit env t m b)"
| "route_step env (EvDispatch n k) b = snd (route_mutation_generation env n k b)"
| "route_step env (EvRelease n k i) b = release_provider_refresh env n k i b"

text \<open>How many of the generations of a route a run of events uses up.\<close>

fun route_mutations :: "('s, 'm) broker_env \<Rightarrow> namespace_context \<Rightarrow> key \<Rightarrow> route_event list \<Rightarrow> ('s, 'm) broker \<Rightarrow> nat" where
  "route_mutations env n k [] b = 0"
| "route_mutations env n k (ev # evs) b =
     (case ev of EvCommit t m \<Rightarrow> if fst (commit env t m b) = Inr () then touches m n k else 0 | _ \<Rightarrow> 0)
     + route_mutations env n k evs (route_step env ev b)"

lemma route_dispatch:
  assumes "routes_wf env b" and "route_mutation_generation env n k b = ((g, i), b')"
  shows "routes_wf env b' \<and> route_of env b' n k = Some i \<and> b_generations b' i = g
    \<and> (\<forall>n' k' j. route_of env b n' k' = Some j \<longrightarrow> route_of env b' n' k' = Some j \<and> b_generations b' j = b_generations b j)"
proof (cases "route_of env b n k")
  case (Some j)
  then show ?thesis
    using assms
    by (auto simp: route_mutation_generation_def route_of_def get_or_create_route_state_def active_route_state_def Let_def)
next
  case None
  let ?sh = "snd (get_or_create_route_state (hash_of env) (b_mutation_shards b) (b_draws b) n k)"
  have inv: "shards_invar (hash_of env) (b_mutation_shards b)" using assms(1) by (simp add: routes_wf_def)
  have fst: "fst (get_or_create_route_state (hash_of env) (b_mutation_shards b) (b_draws b) n k) = b_draws b"
    using shards.create_table(2)[OF inv] None by (simp add: route_of_def)
  have b': "b' = b\<lparr> b_mutation_shards := ?sh, b_generations := (b_generations b)(i := 0), b_draws := Suc (b_draws b) \<rparr>"
    and i: "i = b_draws b" and g: "g = 0"
    using assms(2) None fst by (auto simp: route_mutation_generation_def route_of_def Let_def split: prod.splits)
  have look: "route_of env b' n' k' = (if (n', k') = (n, k) then Some i else route_of env b n' k')" for n' k'
    using shards.create_table(3)[OF inv, of "b_draws b" n k n' k'] fst b' i by (simp add: route_of_def)
  have drawn: "route_of env b n' k' = Some j \<Longrightarrow> j < i" for n' k' j
    using assms(1) i unfolding routes_wf_def by blast
  have "routes_wf env b'"
    unfolding routes_wf_def
  proof (intro conjI allI impI)
    show "shards_invar (hash_of env) (b_mutation_shards b')" using shards.create_table(1)[OF inv] b' by simp
    fix n' k' n2 k2 j
    assume "route_of env b' n' k' = Some j" "route_of env b' n2 k2 = Some j"
    then show "(n2, k2) = (n', k')"
      using assms(1) drawn unfolding look routes_wf_def by (metis less_irrefl option.inject)
  next
    fix n' k' j assume "route_of env b' n' k' = Some j"
    then have "j = i \<or> j < i" using drawn by (auto simp: look split: if_splits)
    then show "j < b_draws b'" using i b' by auto
  qed
  moreover have "b_generations b' = (b_generations b)(i := 0)" using b' by simp
  ultimately show ?thesis using None drawn g by (auto simp: look)
qed

lemma route_release:
  assumes "routes_wf env b"
  shows "routes_wf env (release_provider_refresh env n k i b)
    \<and> (\<forall>n' k' j. (n', k', j) \<noteq> (n, k, i) \<longrightarrow> route_of env b n' k' = Some j \<longrightarrow>
        route_of env (release_provider_refresh env n k i b) n' k' = Some j)"
proof -
  let ?b = "release_provider_refresh env n k i b"
  have inv: "shards_invar (hash_of env) (b_mutation_shards b)" using assms by (simp add: routes_wf_def)
  have look: "route_of env ?b n' k' = (if (n', k') = (n, k) \<and> route_of env b n k = Some i then None else route_of env b n' k')" for n' k'
    using shards.release_table(2)[OF inv] by (simp add: route_of_def release_provider_refresh_def)
  have "shards_invar (hash_of env) (b_mutation_shards ?b)"
    using shards.release_table(1)[OF inv] by (simp add: release_provider_refresh_def)
  moreover have "b_draws ?b = b_draws b" by (simp add: release_provider_refresh_def)
  moreover have "route_of env b n' k' = Some j" if "route_of env ?b n' k' = Some j" for n' k' j
    using that by (simp add: look split: if_splits)
  ultimately have "routes_wf env ?b" using assms unfolding routes_wf_def by metis
  then show ?thesis by (auto simp: look)
qed

lemma run_generation:
  assumes "routes_wf env b" and "route_of env b n k = Some i" and "EvRelease n k i \<notin> set evs"
  shows "route_of env (fold (route_step env) evs b) n k = Some i
    \<and> b_generations (fold (route_step env) evs b) i = b_generations b i + of_nat (route_mutations env n k evs b)"
  using assms
proof (induction evs arbitrary: b)
  case Nil
  then show ?case by simp
next
  case (Cons ev evs)
  let ?b = "route_step env ev b"
  let ?d = "case ev of EvCommit t m \<Rightarrow> if fst (commit env t m b) = Inr () then touches m n k else 0 | _ \<Rightarrow> 0"
  have "routes_wf env ?b \<and> route_of env ?b n k = Some i \<and> b_generations ?b i = b_generations b i + of_nat ?d"
  proof (cases ev)
    case (EvCommit t m)
    then show ?thesis
      using commit_generation[OF Cons.prems(1), of t m "fst (commit env t m b)" "snd (commit env t m b)"] Cons.prems(2)
      by auto
  next
    case (EvDispatch n' k')
    obtain g j b' where "route_mutation_generation env n' k' b = ((g, j), b')" by (metis surj_pair)
    then show ?thesis using route_dispatch[OF Cons.prems(1)] Cons.prems(2) EvDispatch by auto
  next
    case (EvRelease n' k' j)
    then show ?thesis
      using route_release[OF Cons.prems(1), of n' k' j] Cons.prems(2,3) by (auto simp: release_provider_refresh_def)
  qed
  then show ?case using Cons.IH[of ?b] Cons.prems(3) by (simp add: add.assoc)
qed

section \<open>Properties\<close>

text \<open>
  C8. A confirmed miss never outlives a mutation of its route: let a GET dispatch a provider query
  for a route, and let any number of commits, other dispatches and other releases run before the
  provider's miss is confirmed. The marker is inserted exactly if none of those commits touched
  the route (as long as fewer than \<open>2^64\<close> did, the range of the generation counter).
\<close>

theorem miss_confirmed_only_without_mutation:
  assumes "routes_wf env b"
    and "route_mutation_generation env n k b = ((generation, refresh_id), b1)"
    and "EvRelease n k refresh_id \<notin> set evs"
    and "route_mutations env n k evs b1 < 2 ^ 64"
    and "b2 = fold (route_step env) evs b1"
  shows "b_miss_cache (confirm_insert env now n k ttl generation refresh_id refresh_id b2) =
    (if route_mutations env n k evs b1 = 0
     then miss_insert (mops env) (b_miss_cache b2) now n k (from_secs ttl)
     else b_miss_cache b2)"
proof -
  note d = route_dispatch[OF assms(1,2)]
  have "b_generations b2 refresh_id = generation + of_nat (route_mutations env n k evs b1)"
    using run_generation[of env b1 n k refresh_id evs] d assms(3,5) by simp
  moreover have "(of_nat (route_mutations env n k evs b1) :: 64 word) = 0 \<longleftrightarrow> route_mutations env n k evs b1 = 0"
    using assms(4) nat_dvd_not_less[of "route_mutations env n k evs b1" "2 ^ 64"]
    by (cases "route_mutations env n k evs b1 = 0") (simp_all add: word_of_nat_eq_0_iff)
  ultimately show ?thesis by (simp add: confirm_insert_def release_provider_refresh_def)
qed

theorem miss_confirmed_only_without_mutation_witness:
  "let b1 = snd (route_mutation_generation sample_env draft_ns (Key ''k'') sample_broker);
       b2 = fold (route_step sample_env)
              [EvCommit 6 (PSet draft_ns (Key ''k'') JNull None), EvDispatch draft_ns (Key ''other'')] b1
   in b_miss_cache (confirm_insert sample_env 7 draft_ns (Key ''k'') 30 0 0 0 b2) = b_miss_cache b2"
proof -
  let ?b1 = "snd (route_mutation_generation sample_env draft_ns (Key ''k'') sample_broker)"
  let ?evs = "[EvCommit 6 (PSet draft_ns (Key ''k'') JNull None), EvDispatch draft_ns (Key ''other'')]"
  have d: "route_mutation_generation sample_env draft_ns (Key ''k'') sample_broker = ((0, 0), ?b1)"
    by (simp add: route_mutation_generation_def get_or_create_route_state_def active_route_state_def
        sample_broker_def Broker_new_def new_shards_def mutation_shard_def MUTATION_SHARD_COUNT_def Let_def
        sample_env_def)
  have wf: "routes_wf sample_env sample_broker" by (simp add: sample_broker_def routes_wf_new)
  have "fst (commit sample_env 6 (PSet draft_ns (Key ''k'') JNull None) ?b1) = Inr ()"
    by (simp add: sample_env_def store_set_def memory_ops_def memory_set_def op_bind_def)
  then have one: "route_mutations sample_env draft_ns (Key ''k'') ?evs ?b1 = 1" by simp
  show ?thesis
    using miss_confirmed_only_without_mutation[OF wf d, of ?evs "fold (route_step sample_env) ?evs ?b1" 7 30] one
    by (simp add: Let_def)
qed

text \<open>
  A marker that was confirmed earlier survives a later SET of its route when no refresh of the
  route is under way: the exact-mutation record then skips the miss cache.
\<close>

lemma set_without_refresh_keeps_marker:
  assumes "route_of env b n k = None" and "as_str n \<noteq> AUTH_NAMESPACE"
  shows "b_miss_cache (snd (commit env now (PSet n k v ttl) b)) = b_miss_cache b"
  using assms
  by (simp add: store_set_def op_bind_def record_exact_mutation_def route_of_def Let_def
      split: prod.split sum.split)

end
