(* ===== verification/Durations.thy ===== *)
theory Durations
  imports Route
begin

text \<open>
  Unit-bearing durations of adapter configuration, \<open>valkyr-core/src/duration.rs\<close>: parsing with
  checked 128-bit arithmetic, printing, and conversion to whole wire units. Errors are their
  messages. The serde wrappers (\<open>deserialize\<close>, \<open>serialize\<close> and the \<open>option\<close> module) call
  these functions on the text of a field.
\<close>

definition u128_max :: nat where
  "u128_max = 2 ^ 128 - 1"

definition checked_u128 :: "nat \<Rightarrow> nat option" where
  "checked_u128 n = (if n \<le> u128_max then Some n else None)"

definition quoted_text :: "string \<Rightarrow> string" where
  "quoted_text s = [CHR 0x27] @ s @ [CHR 0x27]"

text \<open>The micro sign U+00B5 in UTF-8.\<close>

definition micro :: string where
  "micro = [CHR 0xC2, CHR 0xB5]"

fun find_unit :: "string \<Rightarrow> nat option" where
  "find_unit [] = None"
| "find_unit (c # cs) =
     (if is_ascii_alphabetic c \<or> starts_with micro (c # cs) then Some 0
      else map_option Suc (find_unit cs))"

definition nanos_per_unit :: "string \<Rightarrow> nat option" where
  "nanos_per_unit unit =
     (if unit = ''ns'' then Some 1
      else if unit = ''us'' \<or> unit = micro @ ''s'' then Some 1000
      else if unit = ''ms'' then Some 1000000
      else if unit = ''s'' then Some nanos_per_sec
      else if unit = ''m'' then Some (60 * nanos_per_sec)
      else if unit = ''h'' then Some (3600 * nanos_per_sec)
      else None)"

definition fraction_nanos :: "string \<Rightarrow> string \<Rightarrow> string \<Rightarrow> nat \<Rightarrow> string + nat" where
  "fraction_nanos input num fraction per_unit =
     (if fraction = [] then Inr 0
      else case checked_u128 (10 ^ (length fraction mod 2 ^ 32)) of
             None \<Rightarrow> Inl (''duration '' @ quoted_text input @ '' has too many fractional digits'')
           | Some denominator \<Rightarrow>
               (case parse_u128 fraction of
                  None \<Rightarrow> Inl (''duration number '' @ quoted_text num @ '' overflows u128'')
                | Some n \<Rightarrow>
                    (case checked_u128 (n * per_unit) of
                       None \<Rightarrow> Inl (''duration '' @ quoted_text input @ '' overflows'')
                     | Some numerator \<Rightarrow>
                         if numerator mod denominator \<noteq> 0
                         then Inl (''duration '' @ quoted_text input @ '' is not representable in nanoseconds'')
                         else Inr (numerator div denominator))))"

definition parse_number :: "string \<Rightarrow> string \<Rightarrow> string \<Rightarrow> string + duration" where
  "parse_number input num unit =
     (if num = [] \<or> length (filter (\<lambda>c. c = CHR ''.'') num) > 1
      then Inl (''invalid duration number '' @ quoted_text num)
      else
        let (whole, fraction) = (case split_once ''.'' num of Some p \<Rightarrow> p | None \<Rightarrow> (num, [])) in
        if whole = [] \<and> fraction = [] \<or> \<not> list_all is_ascii_digit whole \<or> \<not> list_all is_ascii_digit fraction
        then Inl (''invalid duration number '' @ quoted_text num)
        else case nanos_per_unit unit of
               None \<Rightarrow> Inl (''unsupported duration unit '' @ quoted_text unit)
             | Some per_unit \<Rightarrow>
                 (case parse_u128 whole of
                    None \<Rightarrow> Inl (''duration number '' @ quoted_text num @ '' overflows u128'')
                  | Some w \<Rightarrow>
                      (case checked_u128 (w * per_unit) of
                         None \<Rightarrow> Inl (''duration '' @ quoted_text input @ '' overflows'')
                       | Some whole_nanos \<Rightarrow>
                           (case fraction_nanos input num fraction per_unit of
                              Inl e \<Rightarrow> Inl e
                            | Inr f \<Rightarrow>
                                (case checked_u128 (whole_nanos + f) of
                                   None \<Rightarrow> Inl (''duration '' @ quoted_text input @ '' overflows'')
                                 | Some total_nanos \<Rightarrow>
                                     if total_nanos div nanos_per_sec > u64_max
                                     then Inl (''duration '' @ quoted_text input @ '' overflows'')
                                     else Inr total_nanos)))))"

definition duration_parse :: "string \<Rightarrow> string + duration" where
  "duration_parse text =
     (let input = trim text in
      if input = [] then Inl ''duration must not be empty''
      else if starts_with ''-'' input then Inl ''negative durations are not supported''
      else case find_unit input of
             None \<Rightarrow> Inl ''duration must include an explicit unit''
           | Some split \<Rightarrow> parse_number input (take split input) (drop split input))"

definition duration_units :: "(string \<times> nat) list" where
  "duration_units =
     [(''h'', 3600 * nanos_per_sec), (''m'', 60 * nanos_per_sec), (''s'', nanos_per_sec),
      (''ms'', 1000000), (''us'', 1000), (''ns'', 1)]"

definition duration_format :: "duration \<Rightarrow> string" where
  "duration_format total_nanos =
     (if total_nanos = 0 then ''0s''
      else case find (\<lambda>(unit, per_unit). total_nanos mod per_unit = 0) duration_units of
             Some (unit, per_unit) \<Rightarrow> show_nat (total_nanos div per_unit) @ unit
           | None \<Rightarrow> [])"

definition to_wire_unit :: "duration \<Rightarrow> nat \<Rightarrow> string \<Rightarrow> string + nat" where
  "to_wire_unit nanos per_unit unit =
     (if nanos mod per_unit \<noteq> 0 then Inl (''duration is not an exact whole '' @ unit)
      else if nanos div per_unit > u64_max then Inl (''duration overflows '' @ unit)
      else Inr (nanos div per_unit))"

definition to_millis :: "duration \<Rightarrow> string + nat" where
  "to_millis d = to_wire_unit d 1000000 ''milliseconds''"

definition to_seconds :: "duration \<Rightarrow> string + nat" where
  "to_seconds d = to_wire_unit d nanos_per_sec ''seconds''"

section \<open>Lemmas\<close>

lemma digit_not_unit:
  "is_ascii_digit c \<Longrightarrow> \<not> is_ascii_alphabetic c \<and> \<not> starts_with micro (c # cs)"
  by (auto simp: is_ascii_digit_def is_ascii_alphabetic_def starts_with_iff micro_def)

lemma find_unit_digits:
  "list_all is_ascii_digit ds \<Longrightarrow> is_ascii_alphabetic u \<Longrightarrow> find_unit (ds @ u # us) = Some (length ds)"
  by (induction ds) (auto simp: digit_not_unit)

lemma digits_no_dot: "list_all is_ascii_digit ds \<Longrightarrow> CHR ''.'' \<notin> set ds"
  by (auto simp: list_all_iff is_ascii_digit_def)

lemma graphic_digit: "is_ascii_digit c \<Longrightarrow> is_graphic c"
  by (auto simp: is_ascii_digit_def is_graphic_def)

lemma graphic_alphabetic: "is_ascii_alphabetic c \<Longrightarrow> is_graphic c"
  by (auto simp: is_ascii_alphabetic_def is_graphic_def)

lemma show_nat_all_digits [simp]: "list_all is_ascii_digit (show_nat n)"
  by (simp add: list_all_iff show_nat_digits)

text \<open>A plain number with a unit of letters reaches the arithmetic with the text split at the unit.\<close>

lemma parse_whole_number:
  assumes "list_all is_ascii_alphabetic unit" and "unit \<noteq> []"
  shows "duration_parse (show_nat n @ unit) = parse_number (show_nat n @ unit) (show_nat n) unit"
proof -
  obtain u us where unit: "unit = u # us" using assms(2) by (cases unit) auto
  obtain d ds where digits: "show_nat n = d # ds" by (cases "show_nat n") auto
  have d: "is_ascii_digit d" using show_nat_digits[of d n] digits by simp
  have last: "is_graphic (last (show_nat n @ unit))"
    using assms last_in_set[of unit] by (simp add: list_all_iff graphic_alphabetic)
  have trim: "trim (show_nat n @ unit) = show_nat n @ unit"
    by (rule trim_graphic) (use d digits last in \<open>simp_all add: graphic_digit\<close>)
  have minus: "\<not> starts_with ''-'' (show_nat n @ unit)"
    using d digits by (auto simp: is_ascii_digit_def)
  have "find_unit (show_nat n @ unit) = Some (length (show_nat n))"
    using find_unit_digits[of "show_nat n" u us] assms unit by simp
  with trim minus show ?thesis by (simp add: duration_parse_def Let_def)
qed

lemma parse_number_whole:
  assumes "nanos_per_unit unit = Some per_unit" and "n * per_unit div nanos_per_sec \<le> u64_max"
    and "0 < per_unit"
  shows "parse_number input (show_nat n) unit = Inr (n * per_unit)"
proof -
  have "n * per_unit < (u64_max + 1) * nanos_per_sec"
    using assms(2) by (simp add: div_less_iff_less_mult nanos_per_sec_def less_Suc_eq_le[symmetric])
  then have total: "n * per_unit \<le> u128_max"
    by (simp add: u64_max_def u128_max_def nanos_per_sec_def)
  moreover have "n \<le> n * per_unit" using assms(3) by simp
  ultimately have n: "n \<le> u128_max" by (rule order_trans[rotated])
  have whole: "parse_u128 (show_nat n) = Some n"
    using n by (simp add: parse_u128_def from_str_radix_show_nat u128_max_def)
  have dots: "filter (\<lambda>c. c = CHR ''.'') (show_nat n) = []"
    using digits_no_dot[OF show_nat_all_digits[of n]] by (auto simp: filter_empty_conv)
  have no_dot: "split_once ''.'' (show_nat n) = None"
    by (rule split_once_single_None[OF digits_no_dot]) simp
  show ?thesis
    using assms(1,2) total whole dots no_dot
    by (simp add: parse_number_def fraction_nanos_def checked_u128_def)
qed

lemma duration_units_ok:
  "(unit, per_unit) \<in> set duration_units \<Longrightarrow>
     nanos_per_unit unit = Some per_unit \<and> 0 < per_unit \<and> unit \<noteq> []
       \<and> list_all is_ascii_alphabetic unit"
  by (auto simp: duration_units_def nanos_per_unit_def micro_def nanos_per_sec_def is_ascii_alphabetic_def)

lemma duration_format_cases:
  obtains n unit per_unit where "(unit, per_unit) \<in> set duration_units" "d = n * per_unit"
    "duration_format d = show_nat n @ unit"
proof (cases "d = 0")
  case True
  moreover have "show_nat 0 = ''0''" by code_simp
  ultimately have "d = 0 * nanos_per_sec" "duration_format d = show_nat 0 @ ''s''"
    by (simp_all add: duration_format_def)
  moreover have "(''s'', nanos_per_sec) \<in> set duration_units" by (simp add: duration_units_def)
  ultimately show ?thesis using that by blast
next
  case False
  let ?P = "\<lambda>(unit :: string, per_unit). d mod per_unit = 0"
  have "find ?P duration_units \<noteq> None"
    by (simp add: find_None_iff duration_units_def)
  then obtain unit per_unit where found: "find ?P duration_units = Some (unit, per_unit)" by auto
  then have "(unit, per_unit) \<in> set duration_units" and rest: "d mod per_unit = 0"
    by (auto simp: find_Some_iff in_set_conv_nth)
  moreover have "duration_format d = show_nat (d div per_unit) @ unit"
    using False found by (simp add: duration_format_def)
  moreover have "d = d div per_unit * per_unit" using rest by auto
  ultimately show ?thesis using that by blast
qed

text \<open>The value of a digit string, split at any place.\<close>

lemma digits_value_shift:
  "digits_value 10 a ds = map_option (\<lambda>n. a * 10 ^ length ds + n) (digits_value 10 0 ds)"
proof (induction ds arbitrary: a)
  case (Cons c cs)
  show ?case
  proof (cases "to_digit 10 c")
    case (Some e)
    have "digits_value 10 (a * 10 + e) cs = map_option (\<lambda>n. (a * 10 + e) * 10 ^ length cs + n) (digits_value 10 0 cs)"
      and "digits_value 10 e cs = map_option (\<lambda>n. e * 10 ^ length cs + n) (digits_value 10 0 cs)"
      by (rule Cons.IH)+
    with Some show ?thesis by (simp add: option.map_comp comp_def algebra_simps)
  qed simp
qed simp

lemma digits_value_concat:
  "digits_value 10 0 whole = Some w \<Longrightarrow> digits_value 10 0 fraction = Some f \<Longrightarrow>
     digits_value 10 0 (whole @ fraction) = Some (w * 10 ^ length fraction + f)"
  by (simp add: digits_value_append digits_value_shift[of w])

lemma parse_u128_digits:
  assumes "parse_u128 ds = Some n" and "list_all is_ascii_digit ds"
  shows "ds \<noteq> [] \<and> digits_value 10 0 ds = Some n"
  using assms
  by (cases ds) (auto simp: parse_u128_def from_str_radix_def Let_def is_ascii_digit_def split: option.splits if_splits)

lemma fraction_nanos_exact:
  assumes "fraction_nanos input num fraction per_unit = Inr f" and "list_all is_ascii_digit fraction"
    and "length fraction < 2 ^ 32"
  shows "\<exists>n. digits_value 10 0 fraction = Some n \<and> f * 10 ^ length fraction = n * per_unit"
proof (cases "fraction = []")
  case True
  with assms(1) show ?thesis by (simp add: fraction_nanos_def)
next
  case False
  with assms(1,3) obtain n where n: "parse_u128 fraction = Some n"
    and f: "n * per_unit mod 10 ^ length fraction = 0" "f = n * per_unit div 10 ^ length fraction"
    by (auto simp: fraction_nanos_def checked_u128_def split: option.splits if_splits)
  from f have "f * 10 ^ length fraction = n * per_unit" by auto
  with parse_u128_digits[OF n assms(2)] show ?thesis by blast
qed

text \<open>The text of a number with its optional fraction.\<close>

definition number_text :: "string \<Rightarrow> string \<Rightarrow> string \<Rightarrow> bool" where
  "number_text num whole fraction \<longleftrightarrow>
     list_all is_ascii_digit whole \<and> list_all is_ascii_digit fraction \<and> whole \<noteq> []
     \<and> (num = whole @ ''.'' @ fraction \<or> num = whole \<and> fraction = [])"

lemma parse_number_exact:
  assumes parsed: "parse_number input num unit = Inr d" and short: "length num < 2 ^ 32"
  shows "\<exists>whole fraction per_unit v. number_text num whole fraction
      \<and> nanos_per_unit unit = Some per_unit \<and> digits_value 10 0 (whole @ fraction) = Some v
      \<and> d * 10 ^ length fraction = v * per_unit \<and> d div nanos_per_sec \<le> u64_max"
proof -
  obtain whole fraction where split: "(whole, fraction) = (case split_once ''.'' num of Some p \<Rightarrow> p | None \<Rightarrow> (num, []))"
    by (metis surj_pair)
  from parsed split obtain per_unit w f where unit: "nanos_per_unit unit = Some per_unit"
    and digits: "list_all is_ascii_digit whole" "list_all is_ascii_digit fraction"
    and w: "parse_u128 whole = Some w" and f: "fraction_nanos input num fraction per_unit = Inr f"
    and d: "d = w * per_unit + f" "d div nanos_per_sec \<le> u64_max"
    by (auto simp: parse_number_def checked_u128_def Let_def split: option.splits if_splits sum.splits prod.splits)
  have whole: "whole \<noteq> []" "digits_value 10 0 whole = Some w"
    using parse_u128_digits[OF w digits(1)] by simp_all
  have num: "num = whole @ ''.'' @ fraction \<or> num = whole \<and> fraction = []"
    using split by (auto dest: split_once_Some split: option.splits)
  then have "length fraction < 2 ^ 32" using short by auto
  from fraction_nanos_exact[OF f digits(2) this] obtain n where
    n: "digits_value 10 0 fraction = Some n" "f * 10 ^ length fraction = n * per_unit" by blast
  have "d * 10 ^ length fraction = (w * 10 ^ length fraction + n) * per_unit"
    using d(1) n(2) by (simp add: algebra_simps)
  with unit digits whole num d(2) digits_value_concat[OF whole(2) n(1)] show ?thesis
    unfolding number_text_def by blast
qed

text \<open>
  A number without integer digits passes the guard of the number's shape (only both parts empty
  are refused there) and is then refused with the message of an overflow.
\<close>

lemma leading_point_refused:
  "duration_parse ''.5s'' = Inl (''duration number '' @ quoted_text ''.5'' @ '' overflows u128'')"
proof -
  have trim: "trim ''.5s'' = ''.5s''" by (rule trim_graphic) (simp_all add: is_graphic_def)
  have unit: "find_unit ''.5s'' = Some 2"
    by (simp add: is_ascii_alphabetic_def micro_def starts_with_iff)
  have split: "split_once ''.'' ''.5'' = Some ([], ''5'')"
    by (simp add: split_once_def)
  have "parse_number ''.5s'' ''.5'' ''s''
      = Inl (''duration number '' @ quoted_text ''.5'' @ '' overflows u128'')"
    by (simp add: parse_number_def split nanos_per_unit_def micro_def parse_u128_def from_str_radix_def
        is_ascii_digit_def)
  then show ?thesis by (simp add: duration_parse_def Let_def trim unit del: find_unit.simps)
qed

text \<open>Conversion to a wire unit succeeds exactly on whole units that fit 64 bits.\<close>

lemma to_wire_unit_Inr_iff:
  "0 < per_unit \<Longrightarrow> to_wire_unit d per_unit unit = Inr n \<longleftrightarrow> d = n * per_unit \<and> n \<le> u64_max"
  by (auto simp: to_wire_unit_def)

section \<open>Properties\<close>

text \<open>
  What \<open>format\<close> prints, \<open>parse\<close> reads back: every duration the type can hold (seconds in
  64 bits) round trips exactly through its configuration text, whichever unit was chosen.
\<close>

theorem duration_format_parse:
  assumes "d div nanos_per_sec \<le> u64_max"
  shows "duration_parse (duration_format d) = Inr d"
proof -
  obtain n unit per_unit where unit: "(unit, per_unit) \<in> set duration_units"
    and d: "d = n * per_unit" and printed: "duration_format d = show_nat n @ unit"
    by (rule duration_format_cases)
  from duration_units_ok[OF unit] have "nanos_per_unit unit = Some per_unit" "0 < per_unit"
    and "duration_parse (show_nat n @ unit) = parse_number (show_nat n @ unit) (show_nat n) unit"
    by (simp_all add: parse_whole_number)
  with assms d printed show ?thesis by (simp add: parse_number_whole)
qed

text \<open>
  A successful parse is exact and in range: the text has a unit, the number before it is
  decimal with at most one point, and the result is the number times the unit with nothing lost:
  scaled by the fraction's power of ten it equals the digits times the nanoseconds of the unit.
  Its seconds fit 64 bits.
\<close>

theorem duration_parse_exact:
  assumes "duration_parse s = Inr d" and "length (trim s) < 2 ^ 32"
  shows "\<exists>num unit whole fraction per_unit v.
      trim s = num @ unit \<and> number_text num whole fraction
      \<and> nanos_per_unit unit = Some per_unit \<and> digits_value 10 0 (whole @ fraction) = Some v
      \<and> d * 10 ^ length fraction = v * per_unit \<and> d div nanos_per_sec \<le> u64_max"
proof -
  from assms(1) obtain i where
    parsed: "parse_number (trim s) (take i (trim s)) (drop i (trim s)) = Inr d"
    by (auto simp: duration_parse_def Let_def split: if_splits option.splits)
  have "length (take i (trim s)) < 2 ^ 32" using assms(2) by simp
  from parse_number_exact[OF parsed this] show ?thesis
    by (metis append_take_drop_id)
qed

end
