(* ===== verification/Line_Protocol.thy ===== *)
theory Line_Protocol
  imports Protocol
begin

text \<open>
  The text codec of the native protocol, \<open>valkyr-core/src/line_protocol.rs\<close>: the frame scanner,
  the argument helpers and the encoders and decoders of commands, responses, callbacks and callback
  results. The JSON and UUID libraries it calls are the fields of \<open>codec\<close>.
\<close>

record codec =
  json_string_from :: "string \<Rightarrow> string option"
  json_value_from :: "string \<Rightarrow> json option"
  json_string_to :: "string \<Rightarrow> string"
  json_value_to :: "json \<Rightarrow> string + string"
  uuid_parse_str :: "string \<Rightarrow> uuid option"
  uuid_to_string :: "uuid \<Rightarrow> string"

definition MAX_FRAME_BYTES :: nat where
  "MAX_FRAME_BYTES = 1024 * 1024"

section \<open>Results\<close>

definition and_then :: "'a result \<Rightarrow> ('a \<Rightarrow> 'b result) \<Rightarrow> 'b result" where
  "and_then r f = (case r of Inl e \<Rightarrow> Inl e | Inr a \<Rightarrow> f a)"

lemma and_then_simps [simp]: "and_then (Inl e) f = Inl e" "and_then (Inr a) f = f a"
  by (simp_all add: and_then_def)

lemma and_then_Inr_iff: "and_then r f = Inr b \<longleftrightarrow> (\<exists>a. r = Inr a \<and> f a = Inr b)"
  by (cases r) auto

lemmas and_then_elims = and_then_Inr_iff[THEN iffD1, elim_format]

definition protocol_error :: "string \<Rightarrow> 'a result" where
  "protocol_error message = Inl (Protocol message)"

lemma protocol_error_not_Inr [simp]: "protocol_error m \<noteq> Inr a" "Inr a \<noteq> protocol_error m"
  by (simp_all add: protocol_error_def)

lemma and_then_protocol_error [simp]: "and_then (protocol_error m) f = protocol_error m"
  by (simp add: protocol_error_def)

definition ok_or :: "string \<Rightarrow> 'a option \<Rightarrow> 'a result" where
  "ok_or message x = (case x of None \<Rightarrow> protocol_error message | Some a \<Rightarrow> Inr a)"

lemma ok_or_simps [simp]: "ok_or m None = protocol_error m" "ok_or m (Some a) = Inr a"
  by (simp_all add: ok_or_def)

lemma ok_or_Inr_iff [simp]: "ok_or m x = Inr a \<longleftrightarrow> x = Some a"
  by (cases x) auto

text \<open>\<open>Option<Result<T>>::transpose\<close>.\<close>

definition transpose :: "'a result option \<Rightarrow> 'a option result" where
  "transpose x = (case x of None \<Rightarrow> Inr None | Some r \<Rightarrow> and_then r (\<lambda>a. Inr (Some a)))"

lemma transpose_simps [simp]: "transpose None = Inr None" "transpose (Some (Inr a)) = Inr (Some a)"
  by (simp_all add: transpose_def)

section \<open>The scanner\<close>

record scanner =
  sc_input :: string
  sc_index :: nat

record frame_token =
  tok_text :: string
  tok_quoted :: bool

definition Scanner_new :: "string \<Rightarrow> scanner result" where
  "Scanner_new input =
     (if input = [] \<or> length input > MAX_FRAME_BYTES
      then protocol_error ''frame is empty or too large''
      else if CHR 0x0D \<in> set input \<or> CHR 0x0A \<in> set input
      then protocol_error ''frame contains a line break''
      else Inr \<lparr> sc_input = input, sc_index = 0 \<rparr>)"

text \<open>The loop over a quoted token, on the bytes from the index on: the index past its end.\<close>

fun scan_quoted :: "bool \<Rightarrow> string \<Rightarrow> nat \<Rightarrow> nat result" where
  "scan_quoted escaped [] index = protocol_error ''unterminated quoted token''"
| "scan_quoted escaped (byte # bytes) index =
     (if escaped then
        if byte \<notin> {CHR 0x22, CHR 0x5C, CHR ''n'', CHR ''r'', CHR ''t''}
        then protocol_error ''invalid quoted escape''
        else scan_quoted False bytes (index + 1)
      else if byte = CHR 0x5C then scan_quoted True bytes (index + 1)
      else if byte = CHR 0x22 then Inr (index + 1)
      else scan_quoted False bytes (index + 1))"

text \<open>The loop over a structured value; the top of the stack is the head of the list.\<close>

fun scan_structured ::
  "char list \<Rightarrow> nat \<Rightarrow> bool \<Rightarrow> bool \<Rightarrow> string \<Rightarrow> nat \<Rightarrow> nat result" where
  "scan_structured stack depth quoted escaped [] index = protocol_error ''incomplete structured value''"
| "scan_structured stack depth quoted escaped (byte # bytes) index =
     (if quoted then
        if escaped then scan_structured stack depth True False bytes (index + 1)
        else if byte = CHR 0x5C then scan_structured stack depth True True bytes (index + 1)
        else if byte = CHR 0x22 then scan_structured stack depth False False bytes (index + 1)
        else scan_structured stack depth True False bytes (index + 1)
      else if byte = CHR 0x22 then scan_structured stack depth True escaped bytes (index + 1)
      else if byte = CHR ''['' \<or> byte = CHR ''{'' then
        scan_structured (byte # stack) (depth + 1) False escaped bytes (index + 1)
      else if byte = CHR '']'' \<or> byte = CHR ''}'' then
        (let expected = (if byte = CHR '']'' then CHR ''['' else CHR ''{'')
         in case stack of
              [] \<Rightarrow> protocol_error ''unbalanced structured value''
            | opener # stack' \<Rightarrow>
                if opener \<noteq> expected then protocol_error ''unbalanced structured value''
                else if depth = 0 then protocol_error ''unbalanced structured value''
                else if depth - 1 = 0 then Inr (index + 1)
                else scan_structured stack' (depth - 1) False escaped bytes (index + 1))
      else scan_structured stack depth False escaped bytes (index + 1))"

definition scanner_next :: "codec \<Rightarrow> scanner \<Rightarrow> (frame_token option \<times> scanner) result" where
  "scanner_next cd sc =
     (let input = sc_input sc;
          start = sc_index sc + length (takeWhile is_ascii_whitespace (drop (sc_index sc) input))
      in if start = length input then Inr (None, sc\<lparr>sc_index := start\<rparr>)
         else case drop start input of
                [] \<Rightarrow> Inl (Panic ''index out of bounds'')
              | first # bytes \<Rightarrow>
                  if first = CHR 0x22 then
                    and_then (scan_quoted False bytes (start + 1)) (\<lambda>index.
                    and_then (ok_or ''invalid quoted token'' (json_string_from cd (slice start index input)))
                      (\<lambda>value. Inr (Some \<lparr> tok_text = value, tok_quoted = True \<rparr>, sc\<lparr>sc_index := index\<rparr>)))
                  else if first = CHR ''['' \<or> first = CHR ''{'' then
                    and_then (scan_structured [first] 1 False False bytes (start + 1)) (\<lambda>index.
                    and_then (ok_or ''invalid structured value'' (json_value_from cd (slice start index input)))
                      (\<lambda>_. Inr (Some \<lparr> tok_text = slice start index input, tok_quoted = False \<rparr>,
                                sc\<lparr>sc_index := index\<rparr>)))
                  else
                    let index = start + length (takeWhile (\<lambda>b. \<not> is_ascii_whitespace b) (first # bytes))
                    in Inr (Some \<lparr> tok_text = slice start index input, tok_quoted = False \<rparr>,
                            sc\<lparr>sc_index := index\<rparr>))"

lemma scan_quoted_bounds:
  "scan_quoted escaped bytes index = Inr i \<Longrightarrow> index < i \<and> i \<le> index + length bytes"
  by (induction escaped bytes index rule: scan_quoted.induct) (fastforce split: if_splits)+

lemma scan_structured_bounds:
  "scan_structured stack depth quoted escaped bytes index = Inr i \<Longrightarrow>
     index < i \<and> i \<le> index + length bytes"
proof (induction bytes arbitrary: stack depth quoted escaped index)
  case (Cons byte bytes)
  from Cons.prems have "i = index + 1 \<or>
      (\<exists>st d q e. scan_structured st d q e bytes (index + 1) = Inr i)"
    by (auto simp: Let_def split: if_splits list.splits)
  then show ?case using Cons.IH by fastforce
qed simp

text \<open>Every token the scanner returns moves its index forward, inside the input.\<close>

lemma scanner_next_progress:
  assumes "scanner_next cd sc = Inr (Some t, sc')"
  shows "sc_input sc' = sc_input sc \<and> sc_index sc < sc_index sc' \<and> sc_index sc' \<le> length (sc_input sc)"
proof -
  let ?start = "sc_index sc + length (takeWhile is_ascii_whitespace (drop (sc_index sc) (sc_input sc)))"
  from assms obtain first bytes where drop: "drop ?start (sc_input sc) = first # bytes"
    by (auto simp: scanner_next_def Let_def split: if_splits list.splits)
  then have len: "?start + length (first # bytes) = length (sc_input sc)"
    by (metis length_drop le_add_diff_inverse less_or_eq_imp_le not_le drop_all list.distinct(1))
  have rest: "drop ?start (sc_input sc) = dropWhile is_ascii_whitespace (drop (sc_index sc) (sc_input sc))"
    by (metis add.commute drop_drop dropWhile_eq_drop)
  with drop have "dropWhile is_ascii_whitespace (drop (sc_index sc) (sc_input sc)) = first # bytes"
    by simp
  then have first: "\<not> is_ascii_whitespace first"
    unfolding dropWhile_eq_Cons_conv by simp
  from assms drop len show ?thesis
    using scan_quoted_bounds[of False bytes "?start + 1"]
      scan_structured_bounds[of "[first]" 1 False False bytes "?start + 1"]
      length_takeWhile_le[of "\<lambda>b. \<not> is_ascii_whitespace b" bytes] first
    by (auto simp: scanner_next_def Let_def and_then_Inr_iff split: if_splits)
qed

text \<open>The loop of \<open>all\<close>, which takes tokens until the input is used up.\<close>

function scanner_loop :: "codec \<Rightarrow> scanner \<Rightarrow> frame_token list result" where
  "scanner_loop cd sc =
     (case scanner_next cd sc of
        Inl e \<Rightarrow> Inl e
      | Inr (None, sc') \<Rightarrow> Inr []
      | Inr (Some token, sc') \<Rightarrow> and_then (scanner_loop cd sc') (\<lambda>tokens. Inr (token # tokens)))"
  by pat_completeness auto
termination
  by (relation "measure (\<lambda>(cd, sc). length (sc_input sc) - sc_index sc)")
    (auto dest!: scanner_next_progress)

declare scanner_loop.simps [simp del]

definition scanner_all :: "codec \<Rightarrow> scanner \<Rightarrow> frame_token list result" where
  "scanner_all cd sc =
     and_then (scanner_loop cd sc) (\<lambda>tokens.
       if tokens = [] then protocol_error ''empty frame'' else Inr tokens)"

definition frame_tokens :: "codec \<Rightarrow> string \<Rightarrow> frame_token list result" where
  "frame_tokens cd frame = and_then (Scanner_new frame) (scanner_all cd)"


section \<open>Arguments\<close>

definition get_token :: "frame_token list \<Rightarrow> nat \<Rightarrow> frame_token option" where
  "get_token tokens index = (if index < length tokens then Some (tokens ! index) else None)"

definition exact :: "frame_token list \<Rightarrow> nat \<Rightarrow> unit result" where
  "exact tokens expected =
     (if length tokens \<noteq> expected then protocol_error ''unexpected number of arguments'' else Inr ())"

definition word_arg :: "frame_token list \<Rightarrow> nat \<Rightarrow> string result" where
  "word_arg tokens index = ok_or ''missing argument'' (map_option tok_text (get_token tokens index))"

definition keyword :: "frame_token list \<Rightarrow> nat \<Rightarrow> string \<Rightarrow> unit result" where
  "keyword tokens index expected =
     and_then (ok_or ''missing argument'' (get_token tokens index)) (\<lambda>token.
       if tok_quoted token \<or> tok_text token \<noteq> expected
       then protocol_error (''expected '' @ expected) else Inr ())"

definition number :: "frame_token list \<Rightarrow> nat \<Rightarrow> nat result" where
  "number tokens index =
     and_then (word_arg tokens index) (\<lambda>w. ok_or ''invalid unsigned integer'' (parse_u64 w))"

definition uuid_arg :: "codec \<Rightarrow> frame_token list \<Rightarrow> nat \<Rightarrow> uuid result" where
  "uuid_arg cd tokens index =
     and_then (word_arg tokens index) (\<lambda>w.
     and_then (ok_or ''invalid UUID'' (uuid_parse_str cd w)) (\<lambda>value.
       if uuid_to_string cd value \<noteq> w
       then protocol_error ''UUID must use canonical lowercase encoding'' else Inr value))"

definition namespace_arg :: "frame_token list \<Rightarrow> nat \<Rightarrow> namespace_context result" where
  "namespace_arg tokens index = and_then (word_arg tokens index) NamespaceContext_new"

definition key_arg :: "frame_token list \<Rightarrow> nat \<Rightarrow> key result" where
  "key_arg tokens index = and_then (word_arg tokens index) Key_new"

definition key_pattern_arg :: "frame_token list \<Rightarrow> nat \<Rightarrow> key_pattern result" where
  "key_pattern_arg tokens index = and_then (word_arg tokens index) KeyPattern_new"

definition namespace_pattern_arg :: "frame_token list \<Rightarrow> nat \<Rightarrow> namespace_pattern result" where
  "namespace_pattern_arg tokens index = and_then (word_arg tokens index) NamespacePattern_new"

definition value_literal :: "codec \<Rightarrow> frame_token \<Rightarrow> json result" where
  "value_literal cd token =
     (if tok_quoted token then Inr (JString (tok_text token))
      else ok_or ''invalid value literal'' (json_value_from cd (tok_text token)))"

definition value_text :: "codec \<Rightarrow> json \<Rightarrow> string result" where
  "value_text cd v = (case json_value_to cd v of Inl e \<Rightarrow> protocol_error e | Inr s \<Rightarrow> Inr s)"

definition is_ascii_alphanumeric :: "char \<Rightarrow> bool" where
  "is_ascii_alphanumeric c \<longleftrightarrow> is_ascii_alphabetic c \<or> is_ascii_digit c"

definition is_bare :: "char \<Rightarrow> bool" where
  "is_bare c \<longleftrightarrow> is_ascii_alphanumeric c \<or> c \<in> set ''_./:*~$-''"

definition quote :: "codec \<Rightarrow> string \<Rightarrow> string" where
  "quote cd s = (if s \<noteq> [] \<and> list_all is_bare s then s else json_string_to cd s)"

definition option_arg :: "frame_token list \<Rightarrow> nat \<Rightarrow> string \<Rightarrow> nat option result" where
  "option_arg tokens index name =
     (if index = length tokens then Inr None
      else and_then (keyword tokens index name) (\<lambda>_.
           and_then (number tokens (index + 1)) (\<lambda>n. Inr (Some n))))"

definition is_unquoted :: "frame_token list \<Rightarrow> nat \<Rightarrow> string \<Rightarrow> bool" where
  "is_unquoted tokens index s =
     (case get_token tokens index of None \<Rightarrow> False | Some t \<Rightarrow> \<not> tok_quoted t \<and> tok_text t = s)"

definition batch_key :: "codec \<Rightarrow> string \<Rightarrow> string" where
  "batch_key cd s = (if s = ''EX'' then json_string_to cd s else quote cd s)"

fun answer_allowed :: "command \<Rightarrow> response \<Rightarrow> bool" where
  "answer_allowed (Auth _ _) r =
     (case r of AuthSuccess _ _ \<Rightarrow> True | AuthPending _ \<Rightarrow> True | AuthFailure _ \<Rightarrow> True | _ \<Rightarrow> False)"
| "answer_allowed (Get _ _) r =
     (case r of RValue _ _ \<Rightarrow> True | RMiss _ \<Rightarrow> True | RUnknown \<Rightarrow> True | RError _ \<Rightarrow> True | _ \<Rightarrow> False)"
| "answer_allowed Ping r = (case r of Pong \<Rightarrow> True | RError _ \<Rightarrow> True | _ \<Rightarrow> False)"
| "answer_allowed StatsCmd r = (case r of RStats _ \<Rightarrow> True | RError _ \<Rightarrow> True | _ \<Rightarrow> False)"
| "answer_allowed _ r = (case r of ROk \<Rightarrow> True | RError _ \<Rightarrow> True | _ \<Rightarrow> False)"

section \<open>Commands\<close>

definition ttl_suffix :: "nat option \<Rightarrow> string" where
  "ttl_suffix ttl = (case ttl of None \<Rightarrow> [] | Some n \<Rightarrow> '' EX '' @ show_nat n)"

definition option_suffix :: "string \<Rightarrow> nat option \<Rightarrow> string" where
  "option_suffix name n = (case n of None \<Rightarrow> [] | Some v \<Rightarrow> '' '' @ name @ '' '' @ show_nat v)"

text \<open>The loop that appends the entries of a batch.\<close>

fun push_entries :: "codec \<Rightarrow> string \<Rightarrow> set_entry list \<Rightarrow> string result" where
  "push_entries cd output [] = Inr output"
| "push_entries cd output (e # es) =
     and_then (value_text cd (entry_value e)) (\<lambda>v.
       push_entries cd (output @ '' '' @ batch_key cd (key_str (entry_key e)) @ '' '' @ v) es)"

fun encode_command :: "codec \<Rightarrow> command \<Rightarrow> string result" where
  "encode_command cd (Auth api_key adapter_instance) =
     Inr (''AUTH '' @ quote cd api_key
          @ (case adapter_instance of None \<Rightarrow> [] | Some i \<Rightarrow> '' ADAPTER '' @ uuid_to_string cd i))"
| "encode_command cd (Get n k) = Inr (''GET '' @ quote cd (as_str n) @ '' '' @ quote cd (key_str k))"
| "encode_command cd (Set n k v ttl) =
     and_then (value_text cd v) (\<lambda>s.
       Inr (''SET '' @ quote cd (as_str n) @ '' '' @ quote cd (key_str k) @ '' '' @ s @ ttl_suffix ttl))"
| "encode_command cd (SetBatch n entries ttl) =
     (if entries = [] then protocol_error ''SET_BATCH requires an entry''
      else and_then (push_entries cd (''SET_BATCH '' @ quote cd (as_str n)) entries) (\<lambda>output.
             Inr (output @ ttl_suffix ttl)))"
| "encode_command cd (Delete n p) =
     Inr (''DELETE '' @ quote cd (as_str n)
          @ (case p of None \<Rightarrow> [] | Some kp \<Rightarrow> '' '' @ quote cd (kp_str kp)))"
| "encode_command cd (Move s d) = Inr (''MOVE '' @ quote cd (as_str s) @ '' '' @ quote cd (as_str d))"
| "encode_command cd (Provide n k max_rate timeout miss_ttl) =
     Inr (''PROVIDE '' @ quote cd (np_str n) @ '' '' @ quote cd (kp_str k)
          @ option_suffix ''MAX_RATE'' max_rate @ option_suffix ''TIMEOUT'' timeout
          @ option_suffix ''MISS_TTL'' miss_ttl)"
| "encode_command cd (Store n k) = Inr (''STORE '' @ quote cd (np_str n) @ '' '' @ quote cd (kp_str k))"
| "encode_command cd Ping = Inr ''PING''"
| "encode_command cd StatsCmd = Inr ''STATS''"

definition decode_auth :: "codec \<Rightarrow> frame_token list \<Rightarrow> command result" where
  "decode_auth cd t =
     (if \<not> (length t = 2 \<or> length t = 4 \<and> is_unquoted t 2 ''ADAPTER'')
      then protocol_error ''invalid AUTH arguments''
      else and_then (word_arg t 1) (\<lambda>api_key.
           and_then (transpose (if length t = 4 then Some (uuid_arg cd t 3) else None)) (\<lambda>i.
             Inr (Auth api_key i))))"

definition decode_set :: "codec \<Rightarrow> frame_token list \<Rightarrow> command result" where
  "decode_set cd t =
     (if \<not> (length t = 4 \<or> length t = 6) then protocol_error ''invalid SET arguments''
      else and_then (option_arg t 4 ''EX'') (\<lambda>ttl.
           and_then (namespace_arg t 1) (\<lambda>n.
           and_then (key_arg t 2) (\<lambda>k.
           and_then (value_literal cd (t ! 3)) (\<lambda>v. Inr (Set n k v ttl))))))"

text \<open>The loop over the entries of a batch, from index \<open>i\<close> to \<open>finish\<close>.\<close>

function decode_entries :: "codec \<Rightarrow> frame_token list \<Rightarrow> nat \<Rightarrow> nat \<Rightarrow> set_entry list result" where
  "decode_entries cd t i finish =
     (if i < finish then
        and_then (key_arg t i) (\<lambda>k.
        and_then (value_literal cd (t ! (i + 1))) (\<lambda>v.
        and_then (decode_entries cd t (i + 2) finish) (\<lambda>es.
          Inr (\<lparr> entry_key = k, entry_value = v \<rparr> # es))))
      else Inr [])"
  by pat_completeness auto
termination
  by (relation "measure (\<lambda>(cd, t, i, finish). finish - i)") auto

declare decode_entries.simps [simp del]

definition batch_end :: "frame_token list \<Rightarrow> nat \<Rightarrow> nat" where
  "batch_end t least =
     (if least \<le> length t \<and> is_unquoted t (length t - 2) ''EX'' then length t - 2 else length t)"

definition batch_ttl :: "frame_token list \<Rightarrow> nat \<Rightarrow> nat option result" where
  "batch_ttl t finish =
     (if finish < length t then and_then (number t (length t - 1)) (\<lambda>n. Inr (Some n)) else Inr None)"

definition decode_set_batch :: "codec \<Rightarrow> frame_token list \<Rightarrow> command result" where
  "decode_set_batch cd t =
     (if length t < 4 then protocol_error ''SET_BATCH requires entries''
      else let finish = batch_end t 3 in
        if finish \<le> 2 \<or> (finish - 2) mod 2 \<noteq> 0
        then protocol_error ''SET_BATCH requires key/value pairs''
        else and_then (decode_entries cd t 2 finish) (\<lambda>entries.
             and_then (namespace_arg t 1) (\<lambda>n.
             and_then (batch_ttl t finish) (\<lambda>ttl. Inr (SetBatch n entries ttl)))))"

definition decode_delete :: "frame_token list \<Rightarrow> command result" where
  "decode_delete t =
     (if \<not> (length t = 2 \<or> length t = 3) then protocol_error ''invalid DELETE arguments''
      else and_then (namespace_arg t 1) (\<lambda>n.
           and_then (transpose (map_option (\<lambda>v. KeyPattern_new (tok_text v)) (get_token t 2))) (\<lambda>p.
             Inr (Delete n p))))"

text \<open>One optional named argument of \<open>PROVIDE\<close>: the value and the index past it.\<close>

definition provide_option :: "frame_token list \<Rightarrow> nat \<Rightarrow> string \<Rightarrow> (nat option \<times> nat) result" where
  "provide_option t i name =
     (if i < length t \<and> is_unquoted t i name
      then and_then (number t (i + 1)) (\<lambda>n. Inr (Some n, i + 2))
      else Inr (None, i))"

definition provide_max_rate :: "frame_token list \<Rightarrow> nat \<Rightarrow> (nat option \<times> nat) result" where
  "provide_max_rate t i =
     (if i < length t \<and> is_unquoted t i ''MAX_RATE''
      then and_then (number t (i + 1)) (\<lambda>n.
             if n > u32_max then protocol_error ''MAX_RATE overflows u32'' else Inr (Some n, i + 2))
      else Inr (None, i))"

definition decode_provide :: "frame_token list \<Rightarrow> command result" where
  "decode_provide t =
     (if length t < 3 then protocol_error ''invalid PROVIDE arguments''
      else and_then (provide_max_rate t 3) (\<lambda>(max_rate, i).
           and_then (provide_option t i ''TIMEOUT'') (\<lambda>(timeout, i).
           and_then (provide_option t i ''MISS_TTL'') (\<lambda>(miss_ttl, i).
             if i \<noteq> length t then protocol_error ''invalid PROVIDE options''
             else and_then (namespace_pattern_arg t 1) (\<lambda>n.
                  and_then (key_pattern_arg t 2) (\<lambda>k.
                    Inr (Provide n k max_rate timeout miss_ttl)))))))"

definition decode_command :: "codec \<Rightarrow> string \<Rightarrow> command result" where
  "decode_command cd frame =
     and_then (frame_tokens cd frame) (\<lambda>t.
       if tok_quoted (t ! 0) then protocol_error ''command keyword must be unquoted''
       else and_then (word_arg t 0) (\<lambda>w.
         if w = ''AUTH'' then decode_auth cd t
         else if w = ''GET'' then
           and_then (exact t 3) (\<lambda>_. and_then (namespace_arg t 1) (\<lambda>n.
           and_then (key_arg t 2) (\<lambda>k. Inr (Get n k))))
         else if w = ''SET'' then decode_set cd t
         else if w = ''SET_BATCH'' then decode_set_batch cd t
         else if w = ''DELETE'' then decode_delete t
         else if w = ''MOVE'' then
           and_then (exact t 3) (\<lambda>_. and_then (namespace_arg t 1) (\<lambda>s.
           and_then (namespace_arg t 2) (\<lambda>d. Inr (Move s d))))
         else if w = ''PROVIDE'' then decode_provide t
         else if w = ''STORE'' then
           and_then (exact t 3) (\<lambda>_. and_then (namespace_pattern_arg t 1) (\<lambda>n.
           and_then (key_pattern_arg t 2) (\<lambda>k. Inr (Store n k))))
         else if w = ''PING'' then and_then (exact t 1) (\<lambda>_. Inr Ping)
         else if w = ''STATS'' then and_then (exact t 1) (\<lambda>_. Inr StatsCmd)
         else protocol_error ''unknown command''))"

section \<open>Responses\<close>

fun encode_response :: "codec \<Rightarrow> command \<Rightarrow> response \<Rightarrow> string result" where
  "encode_response cd c r =
     (if \<not> answer_allowed c r then protocol_error ''answer does not match command''
      else case r of
        ROk \<Rightarrow> Inr ''OK''
      | RValue v ttl \<Rightarrow>
          (case c of
             Get n k \<Rightarrow>
               and_then (value_text cd v) (\<lambda>s.
                 Inr (''SET '' @ quote cd (as_str n) @ '' '' @ quote cd (key_str k) @ '' '' @ s
                      @ ttl_suffix ttl))
           | _ \<Rightarrow> protocol_error ''VALUE answer requires GET context'')
      | RMiss retry \<Rightarrow> Inr (''MISS '' @ show_nat retry)
      | AuthPending retry \<Rightarrow> Inr (''MISS '' @ show_nat retry)
      | RUnknown \<Rightarrow> Inr ''UNKNOWN''
      | AuthSuccess client_id ttl \<Rightarrow> Inr (''OK '' @ quote cd client_id @ '' TTL '' @ show_nat ttl)
      | AuthFailure message \<Rightarrow> Inr (''KO '' @ quote cd message)
      | RError message \<Rightarrow> Inr (''KO '' @ quote cd message)
      | Pong \<Rightarrow> Inr ''PONG''
      | RStats s \<Rightarrow>
          Inr (''STATS REQUESTS '' @ show_nat (stat_requests s) @ '' HITS '' @ show_nat (stat_hits s)
               @ '' MISSES '' @ show_nat (stat_misses s) @ '' VALUES '' @ show_nat (stat_values s)))"

declare encode_response.simps [simp del]

fun is_auth :: "command \<Rightarrow> bool" where
  "is_auth (Auth _ _) = True"
| "is_auth _ = False"

fun is_get :: "command \<Rightarrow> bool" where
  "is_get (Get _ _) = True"
| "is_get _ = False"

text \<open>The commands that \<open>OK\<close> alone answers.\<close>

fun is_acknowledged :: "command \<Rightarrow> bool" where
  "is_acknowledged (Set _ _ _ _) = True"
| "is_acknowledged (SetBatch _ _ _) = True"
| "is_acknowledged (Delete _ _) = True"
| "is_acknowledged (Move _ _) = True"
| "is_acknowledged (Provide _ _ _ _ _) = True"
| "is_acknowledged (Store _ _) = True"
| "is_acknowledged _ = False"

definition decode_value_answer :: "codec \<Rightarrow> command \<Rightarrow> frame_token list \<Rightarrow> response result" where
  "decode_value_answer cd c t =
     (if \<not> (length t = 4 \<or> length t = 6) then protocol_error ''invalid SET answer''
      else case c of
        Get expected_ns expected_key \<Rightarrow>
          and_then (word_arg t 1) (\<lambda>n.
          and_then (if n \<noteq> as_str expected_ns then Inr True
                    else and_then (word_arg t 2) (\<lambda>k. Inr (k \<noteq> key_str expected_key))) (\<lambda>mismatch.
            if mismatch then protocol_error ''SET answer route mismatch''
            else and_then (value_literal cd (t ! 3)) (\<lambda>v.
                 and_then (option_arg t 4 ''EX'') (\<lambda>ttl. Inr (RValue v ttl)))))
      | _ \<Rightarrow> protocol_error ''SET answer requires GET context'')"

definition decode_stats_answer :: "command \<Rightarrow> frame_token list \<Rightarrow> response result" where
  "decode_stats_answer c t =
     and_then (exact t 9) (\<lambda>_.
       if c \<noteq> StatsCmd then protocol_error ''STATS answer has invalid context''
       else
         and_then (keyword t 1 ''REQUESTS'') (\<lambda>_. and_then (keyword t 3 ''HITS'') (\<lambda>_.
         and_then (keyword t 5 ''MISSES'') (\<lambda>_. and_then (keyword t 7 ''VALUES'') (\<lambda>_.
         and_then (number t 2) (\<lambda>requests. and_then (number t 4) (\<lambda>hits.
         and_then (number t 6) (\<lambda>misses. and_then (number t 8) (\<lambda>vals.
           Inr (RStats \<lparr> stat_requests = requests, stat_hits = hits, stat_misses = misses,
                         stat_values = vals \<rparr>))))))))))"

definition decode_miss_answer :: "command \<Rightarrow> frame_token list \<Rightarrow> response result" where
  "decode_miss_answer c t =
     and_then (exact t 2) (\<lambda>_. and_then (number t 1) (\<lambda>retry.
       if is_auth c then Inr (AuthPending retry)
       else if is_get c then Inr (RMiss retry)
       else protocol_error ''MISS answer has invalid context''))"

definition decode_response :: "codec \<Rightarrow> command \<Rightarrow> string \<Rightarrow> response result" where
  "decode_response cd c frame =
     and_then (frame_tokens cd frame) (\<lambda>t.
       if tok_quoted (t ! 0) then protocol_error ''answer keyword must be unquoted''
       else and_then (word_arg t 0) (\<lambda>w.
         if w = ''OK'' \<and> is_auth c then
           and_then (exact t 4) (\<lambda>_. and_then (keyword t 2 ''TTL'') (\<lambda>_.
           and_then (word_arg t 1) (\<lambda>client_id. and_then (number t 3) (\<lambda>ttl.
             Inr (AuthSuccess client_id ttl)))))
         else if w = ''OK'' \<and> is_acknowledged c then and_then (exact t 1) (\<lambda>_. Inr ROk)
         else if w = ''SET'' then decode_value_answer cd c t
         else if w = ''MISS'' then decode_miss_answer c t
         else if w = ''UNKNOWN'' then
           and_then (exact t 1) (\<lambda>_.
             if \<not> is_get c then protocol_error ''UNKNOWN answer has invalid context'' else Inr RUnknown)
         else if w = ''PONG'' then
           and_then (exact t 1) (\<lambda>_.
             if c \<noteq> Ping then protocol_error ''PONG answer has invalid context'' else Inr Pong)
         else if w = ''STATS'' then decode_stats_answer c t
         else if w = ''KO'' then
           if length t \<noteq> 2 then protocol_error ''invalid KO answer''
           else and_then (word_arg t 1) (\<lambda>message.
             Inr (if is_auth c then AuthFailure message else RError message))
         else protocol_error ''answer does not match command''))"

section \<open>Callbacks\<close>

fun encode_server_command :: "codec \<Rightarrow> server_command \<Rightarrow> string result" where
  "encode_server_command cd (Query i n k) =
     Inr (''QUERY '' @ uuid_to_string cd i @ '' '' @ quote cd (as_str n) @ '' '' @ quote cd (key_str k))"
| "encode_server_command cd (PersistSet i n k v ttl) =
     and_then (value_text cd v) (\<lambda>s.
       Inr (''PERSIST_SET '' @ uuid_to_string cd i @ '' '' @ quote cd (as_str n) @ '' ''
            @ quote cd (key_str k) @ '' '' @ s @ ttl_suffix ttl))"
| "encode_server_command cd (PersistSetBatch i n entries ttl) =
     and_then (push_entries cd (''PERSIST_SET_BATCH '' @ uuid_to_string cd i @ '' '' @ quote cd (as_str n))
       entries) (\<lambda>s. Inr (s @ ttl_suffix ttl))"
| "encode_server_command cd (PersistDelete i n p) =
     Inr (''PERSIST_DELETE '' @ uuid_to_string cd i @ '' '' @ quote cd (as_str n)
          @ (case p of None \<Rightarrow> [] | Some kp \<Rightarrow> '' '' @ quote cd (kp_str kp)))"
| "encode_server_command cd (PersistMove i s d) =
     Inr (''PERSIST_MOVE '' @ uuid_to_string cd i @ '' '' @ quote cd (as_str s) @ '' '' @ quote cd (as_str d))"

definition decode_persist_set :: "codec \<Rightarrow> uuid \<Rightarrow> frame_token list \<Rightarrow> server_command result" where
  "decode_persist_set cd i t =
     (if \<not> (length t = 5 \<or> length t = 7) then protocol_error ''invalid PERSIST_SET''
      else and_then (namespace_arg t 2) (\<lambda>n.
           and_then (key_arg t 3) (\<lambda>k.
           and_then (value_literal cd (t ! 4)) (\<lambda>v.
           and_then (option_arg t 5 ''EX'') (\<lambda>ttl. Inr (PersistSet i n k v ttl))))))"

definition decode_persist_set_batch :: "codec \<Rightarrow> uuid \<Rightarrow> frame_token list \<Rightarrow> server_command result" where
  "decode_persist_set_batch cd i t =
     (if length t < 5 then protocol_error ''invalid PERSIST_SET_BATCH''
      else let finish = batch_end t 4 in
        if finish \<le> 3 \<or> (finish - 3) mod 2 \<noteq> 0 then protocol_error ''invalid batch entries''
        else and_then (decode_entries cd t 3 finish) (\<lambda>entries.
             and_then (namespace_arg t 2) (\<lambda>n.
             and_then (batch_ttl t finish) (\<lambda>ttl. Inr (PersistSetBatch i n entries ttl)))))"

definition decode_persist_delete :: "uuid \<Rightarrow> frame_token list \<Rightarrow> server_command result" where
  "decode_persist_delete i t =
     (if \<not> (length t = 3 \<or> length t = 4) then protocol_error ''invalid PERSIST_DELETE''
      else and_then (namespace_arg t 2) (\<lambda>n.
           and_then (transpose (map_option (\<lambda>v. KeyPattern_new (tok_text v)) (get_token t 3))) (\<lambda>p.
             Inr (PersistDelete i n p))))"

definition decode_server_command :: "codec \<Rightarrow> string \<Rightarrow> server_command result" where
  "decode_server_command cd frame =
     and_then (frame_tokens cd frame) (\<lambda>t.
       if tok_quoted (t ! 0) then protocol_error ''callback keyword must be unquoted''
       else and_then (uuid_arg cd t 1) (\<lambda>i. and_then (word_arg t 0) (\<lambda>w.
         if w = ''QUERY'' then
           and_then (exact t 4) (\<lambda>_. and_then (namespace_arg t 2) (\<lambda>n.
           and_then (key_arg t 3) (\<lambda>k. Inr (Query i n k))))
         else if w = ''PERSIST_SET'' then decode_persist_set cd i t
         else if w = ''PERSIST_SET_BATCH'' then decode_persist_set_batch cd i t
         else if w = ''PERSIST_DELETE'' then decode_persist_delete i t
         else if w = ''PERSIST_MOVE'' then
           and_then (exact t 4) (\<lambda>_. and_then (namespace_arg t 2) (\<lambda>s.
           and_then (namespace_arg t 3) (\<lambda>d. Inr (PersistMove i s d))))
         else protocol_error ''unknown callback command'')))"

text \<open>The answer of a provider to a query, after its keyword and request id.\<close>

definition encode_query_answer ::
  "codec \<Rightarrow> namespace_context \<Rightarrow> key \<Rightarrow> json option \<Rightarrow> string option \<Rightarrow> nat option \<Rightarrow> string result" where
  "encode_query_answer cd n k v e ttl =
     (case e of
        Some message \<Rightarrow> Inr (''KO '' @ quote cd message)
      | None \<Rightarrow>
          (case v of
             Some found \<Rightarrow>
               and_then (value_text cd found) (\<lambda>s.
                 Inr (''SET '' @ quote cd (as_str n) @ '' '' @ quote cd (key_str k) @ '' '' @ s
                      @ ttl_suffix ttl))
           | None \<Rightarrow> Inr ''MISS''))"

definition encode_operation_result :: "codec \<Rightarrow> uuid \<Rightarrow> server_result \<Rightarrow> string result" where
  "encode_operation_result cd i r =
     (case r of
        Operation actual e \<Rightarrow>
          if actual = i
          then Inr (''OPERATION '' @ uuid_to_string cd i @ '' ''
                    @ (case e of Some message \<Rightarrow> ''KO '' @ quote cd message | None \<Rightarrow> ''OK''))
          else protocol_error ''callback result kind mismatch''
      | QueryResult _ _ _ _ \<Rightarrow> protocol_error ''callback result kind mismatch'')"

fun encode_server_result :: "codec \<Rightarrow> server_command \<Rightarrow> server_result \<Rightarrow> string result" where
  "encode_server_result cd (Query i n k) r =
     (case r of
        QueryResult actual v e ttl \<Rightarrow>
          if actual = i
          then and_then (encode_query_answer cd n k v e ttl) (\<lambda>s.
                 Inr (''QUERY_RESULT '' @ uuid_to_string cd i @ '' '' @ s))
          else protocol_error ''callback result kind mismatch''
      | Operation _ _ \<Rightarrow> protocol_error ''callback result kind mismatch'')"
| "encode_server_result cd (PersistSet i _ _ _ _) r = encode_operation_result cd i r"
| "encode_server_result cd (PersistSetBatch i _ _ _) r = encode_operation_result cd i r"
| "encode_server_result cd (PersistDelete i _ _) r = encode_operation_result cd i r"
| "encode_server_result cd (PersistMove i _ _) r = encode_operation_result cd i r"

definition decode_query_result ::
  "codec \<Rightarrow> uuid \<Rightarrow> namespace_context \<Rightarrow> key \<Rightarrow> frame_token list \<Rightarrow> server_result result" where
  "decode_query_result cd i n k t =
     and_then (keyword t 0 ''QUERY_RESULT'') (\<lambda>_. and_then (word_arg t 2) (\<lambda>w.
       if w = ''MISS'' \<and> is_unquoted t 2 ''MISS'' then
         and_then (exact t 3) (\<lambda>_. Inr (QueryResult i None None None))
       else if w = ''KO'' \<and> is_unquoted t 2 ''KO'' then
         and_then (exact t 4) (\<lambda>_. and_then (word_arg t 3) (\<lambda>message.
           Inr (QueryResult i None (Some message) None)))
       else if w = ''SET'' \<and> is_unquoted t 2 ''SET'' then
         and_then (if \<not> (length t = 6 \<or> length t = 8) then Inr True
                   else and_then (word_arg t 3) (\<lambda>a.
                        if a \<noteq> as_str n then Inr True
                        else and_then (word_arg t 4) (\<lambda>b. Inr (b \<noteq> key_str k)))) (\<lambda>mismatch.
           if mismatch then protocol_error ''callback route mismatch''
           else and_then (value_literal cd (t ! 5)) (\<lambda>v.
                and_then (option_arg t 6 ''EX'') (\<lambda>ttl.
                  Inr (QueryResult i (Some v) None ttl))))
       else protocol_error ''invalid query result''))"

definition decode_operation_result :: "uuid \<Rightarrow> frame_token list \<Rightarrow> server_result result" where
  "decode_operation_result i t =
     and_then (keyword t 0 ''OPERATION'') (\<lambda>_. and_then (word_arg t 2) (\<lambda>w.
       if w = ''OK'' \<and> is_unquoted t 2 ''OK'' then
         and_then (exact t 3) (\<lambda>_. Inr (Operation i None))
       else if w = ''KO'' \<and> is_unquoted t 2 ''KO'' then
         and_then (exact t 4) (\<lambda>_. and_then (word_arg t 3) (\<lambda>message.
           Inr (Operation i (Some message))))
       else protocol_error ''invalid operation result''))"

definition decode_server_result :: "codec \<Rightarrow> server_command \<Rightarrow> string \<Rightarrow> server_result result" where
  "decode_server_result cd c frame =
     and_then (frame_tokens cd frame) (\<lambda>t.
       if tok_quoted (t ! 0) then protocol_error ''callback result keyword must be unquoted''
       else and_then (uuid_arg cd t 1) (\<lambda>i.
         if i \<noteq> request_id c then protocol_error ''callback correlation mismatch''
         else case c of
           Query _ n k \<Rightarrow> decode_query_result cd i n k t
         | _ \<Rightarrow> decode_operation_result i t))"

definition callback_request_id :: "codec \<Rightarrow> string \<Rightarrow> uuid result" where
  "callback_request_id cd frame =
     and_then (frame_tokens cd frame) (\<lambda>t.
     and_then (if tok_quoted (t ! 0) then Inr False
               else and_then (word_arg t 0) (\<lambda>w. Inr (w = ''OPERATION'' \<or> w = ''QUERY_RESULT''))) (\<lambda>callback.
       if \<not> callback then protocol_error ''not a callback result'' else uuid_arg cd t 1))"

end
