(* ===== verification/Line_Scanner.thy ===== *)
theory Line_Scanner
  imports Line_Protocol
begin

text \<open>
  What the frame scanner reads back. The reference is the compact JSON text (RFC 8259) of strings and
  values: a string in quotes with its control characters, quotes and backslashes escaped, arrays and
  objects without white space. A frame built from keywords, texts and such literals separated by
  single spaces scans into exactly its arguments, unless a string outside a structured value has a
  control character other than tab, line feed and carriage return: then the scanner refuses the escape.
\<close>

section \<open>Compact JSON text\<close>

definition json_escape :: "char \<Rightarrow> string" where
  "json_escape b =
     (if b = CHR 0x22 then [CHR 0x5C, CHR 0x22]
      else if b = CHR 0x5C then [CHR 0x5C, CHR 0x5C]
      else if b = CHR 0x08 then [CHR 0x5C, CHR ''b'']
      else if b = CHR 0x09 then [CHR 0x5C, CHR ''t'']
      else if b = CHR 0x0A then [CHR 0x5C, CHR ''n'']
      else if b = CHR 0x0C then [CHR 0x5C, CHR ''f'']
      else if b = CHR 0x0D then [CHR 0x5C, CHR ''r'']
      else if (of_char b :: nat) < 32
      then [CHR 0x5C, CHR ''u'', CHR ''0'', CHR ''0'', hex_digit (of_char b div 16), hex_digit (of_char b mod 16)]
      else [b])"

definition json_quote :: "string \<Rightarrow> string" where
  "json_quote s = CHR 0x22 # concat (map json_escape s) @ [CHR 0x22]"

fun json_number_text :: "json_number \<Rightarrow> string" where
  "json_number_text (PosInt n) = show_nat n"
| "json_number_text (NegInt i) = CHR ''-'' # show_nat (nat (- i))"
| "json_number_text (Float s) = s"

fun comma_separated :: "string list \<Rightarrow> string" where
  "comma_separated [] = []"
| "comma_separated (x # xs) = x @ concat (map (\<lambda>y. CHR '','' # y) xs)"

fun json_compact :: "json \<Rightarrow> string" where
  "json_compact JNull = ''null''"
| "json_compact (JBool b) = (if b then ''true'' else ''false'')"
| "json_compact (JNumber n) = json_number_text n"
| "json_compact (JString s) = json_quote s"
| "json_compact (JArray vs) = CHR ''['' # comma_separated (map json_compact vs) @ '']''"
| "json_compact (JObject ms) =
     CHR ''{'' # comma_separated (map (\<lambda>(k, v). json_quote k @ CHR '':'' # json_compact v) ms) @ ''}''"

text \<open>The characters of a number's text; every number in a value is made of them.\<close>

definition is_number_char :: "char \<Rightarrow> bool" where
  "is_number_char c \<longleftrightarrow> is_ascii_alphanumeric c \<or> c \<in> set ''+-.''"

fun numbers_ok :: "json \<Rightarrow> bool" where
  "numbers_ok (JNumber n) \<longleftrightarrow> json_number_text n \<noteq> [] \<and> list_all is_number_char (json_number_text n)"
| "numbers_ok (JArray vs) \<longleftrightarrow> (\<forall>v \<in> set vs. numbers_ok v)"
| "numbers_ok (JObject ms) \<longleftrightarrow> (\<forall>(k, v) \<in> set ms. numbers_ok v)"
| "numbers_ok _ \<longleftrightarrow> True"

text \<open>Strings whose escapes the scanner accepts in a quoted token.\<close>

definition wire_byte :: "char \<Rightarrow> bool" where
  "wire_byte b \<longleftrightarrow> 32 \<le> (of_char b :: nat) \<or> b \<in> {CHR 0x09, CHR 0x0A, CHR 0x0D}"

definition wire_safe :: "string \<Rightarrow> bool" where
  "wire_safe s \<longleftrightarrow> list_all wire_byte s"

lemma alphanumeric_range:
  "is_ascii_alphanumeric c \<Longrightarrow> 48 \<le> (of_char c :: nat) \<and> (of_char c :: nat) \<le> 122"
  by (auto simp: is_ascii_alphanumeric_def is_ascii_alphabetic_def is_ascii_digit_def)

lemma hex_digit_alphanumeric: "n < 16 \<Longrightarrow> is_ascii_alphanumeric (hex_digit n)"
  by (auto simp: hex_digit_def is_ascii_alphanumeric_def is_ascii_digit_def is_ascii_alphabetic_def)

lemma hex_digit_not_special [simp]:
  assumes "n < 16"
  shows "hex_digit n \<noteq> CHR 0x22" and "hex_digit n \<noteq> CHR 0x5C"
    and "hex_digit n \<noteq> CHR 0x0A" and "hex_digit n \<noteq> CHR 0x0D"
  using hex_digit_alphanumeric[OF assms]
  by (auto simp: is_ascii_alphanumeric_def is_ascii_alphabetic_def is_ascii_digit_def)

section \<open>Quoted tokens\<close>

lemma scan_quoted_escape:
  "scan_quoted False (json_escape b @ r) i =
     (if wire_byte b then scan_quoted False r (i + length (json_escape b))
      else protocol_error ''invalid quoted escape'')"
  by (auto simp: json_escape_def wire_byte_def)

lemma scan_quoted_body:
  "scan_quoted False (concat (map json_escape s) @ CHR 0x22 # r) i =
     (if wire_safe s then Inr (i + length (concat (map json_escape s)) + 1)
      else protocol_error ''invalid quoted escape'')"
  by (induction s arbitrary: i) (auto simp: wire_safe_def scan_quoted_escape)

section \<open>Structured tokens\<close>

text \<open>A text that the scan of a structured value passes over with its stack unchanged.\<close>

definition balanced :: "string \<Rightarrow> bool" where
  "balanced s \<longleftrightarrow>
     (\<forall>stack depth r i. 0 < depth \<longrightarrow>
        scan_structured stack depth False False (s @ r) i
          = scan_structured stack depth False False r (i + length s))"

lemma balanced_step:
  "balanced s \<Longrightarrow> 0 < depth \<Longrightarrow>
     scan_structured stack depth False False (s @ r) i
       = scan_structured stack depth False False r (i + length s)"
  by (simp add: balanced_def)

lemma balanced_append: "balanced s \<Longrightarrow> balanced t \<Longrightarrow> balanced (s @ t)"
  by (simp add: balanced_def add.assoc)

lemma balanced_plain:
  "list_all (\<lambda>b. b \<notin> set [CHR 0x22, CHR ''['', CHR ''{'', CHR '']'', CHR ''}'']) s \<Longrightarrow> balanced s"
  unfolding balanced_def
proof (induction s)
  case (Cons b s)
  then have "balanced s" by (simp add: balanced_def)
  with Cons.prems show ?case by (simp add: balanced_step)
qed simp

lemma balanced_Cons:
  "b \<notin> set [CHR 0x22, CHR ''['', CHR ''{'', CHR '']'', CHR ''}''] \<Longrightarrow> balanced s \<Longrightarrow> balanced (b # s)"
  using balanced_append[OF balanced_plain[of "[b]"]] by simp

lemma balanced_brackets:
  assumes "balanced s"
  shows "balanced (CHR ''['' # s @ '']'')" and "balanced (CHR ''{'' # s @ ''}'')"
  unfolding balanced_def using balanced_step[OF assms] by (simp_all add: Let_def)

lemma scan_structured_escape:
  "scan_structured stack depth True False (json_escape b @ r) i
     = scan_structured stack depth True False r (i + length (json_escape b))"
proof -
  have "of_char b div 16 < (16 :: nat)" if "of_char b < (32 :: nat)" using that by simp
  then show ?thesis by (cases "of_char b < (32 :: nat)") (simp_all add: json_escape_def)
qed

lemma scan_structured_body:
  "scan_structured stack depth True False (concat (map json_escape s) @ r) i
     = scan_structured stack depth True False r (i + length (concat (map json_escape s)))"
  by (induction s arbitrary: i) (simp_all add: scan_structured_escape add.assoc)

lemma balanced_quote: "balanced (json_quote s)"
  by (simp add: balanced_def json_quote_def scan_structured_body)

lemma balanced_comma:
  assumes "\<And>x. x \<in> set xs \<Longrightarrow> balanced x"
  shows "balanced (comma_separated xs)"
proof -
  have tail: "(\<And>x. x \<in> set ys \<Longrightarrow> balanced x) \<Longrightarrow> balanced (concat (map (\<lambda>y. CHR '','' # y) ys))" for ys
    by (induction ys) (simp_all add: balanced_plain balanced_Cons balanced_append)
  show ?thesis
    using assms by (cases xs) (simp_all add: balanced_plain balanced_append tail)
qed

lemma number_char_plain:
  "is_number_char b \<Longrightarrow> b \<notin> set [CHR 0x22, CHR ''['', CHR ''{'', CHR '']'', CHR ''}'']"
  by (auto simp: is_number_char_def is_ascii_alphanumeric_def is_ascii_alphabetic_def is_ascii_digit_def)

lemma balanced_json: "numbers_ok v \<Longrightarrow> balanced (json_compact v)"
proof (induction v rule: json_compact.induct)
  case (3 n)
  have "list_all is_number_char (json_number_text n)" using 3 by simp
  then show ?case
    unfolding json_compact.simps by (rule balanced_plain[OF list.pred_mono_strong]) (rule number_char_plain)
next
  case (5 vs)
  then have "balanced (comma_separated (map json_compact vs))"
    by (auto intro!: balanced_comma)
  then show ?case by (simp add: balanced_brackets)
next
  case (6 ms)
  then have "balanced (comma_separated (map (\<lambda>(k, v). json_quote k @ CHR '':'' # json_compact v) ms))"
    by (fastforce intro!: balanced_comma balanced_append[OF balanced_quote] balanced_Cons)
  then show ?case by (simp add: balanced_brackets)
qed (simp_all add: balanced_plain balanced_quote)

text \<open>The text of a structured value ends the scan exactly at its closing bracket.\<close>

definition is_structured :: "json \<Rightarrow> bool" where
  "is_structured v \<longleftrightarrow> (\<exists>vs. v = JArray vs) \<or> (\<exists>ms. v = JObject ms)"

lemma scan_structured_json:
  assumes "numbers_ok v" and "is_structured v"
  obtains opener body where "json_compact v = opener # body" "opener = CHR ''['' \<or> opener = CHR ''{''"
    "\<And>r i. scan_structured [opener] 1 False False (body @ r) i = Inr (i + length body)"
proof -
  from assms(2) consider vs where "v = JArray vs" | ms where "v = JObject ms"
    by (auto simp: is_structured_def)
  then show thesis
  proof cases
    case 1
    with assms(1) have "balanced (comma_separated (map json_compact vs))"
      by (auto intro!: balanced_comma balanced_json)
    with 1 show ?thesis by (intro that) (auto simp: balanced_step Let_def)
  next
    case 2
    with assms(1) have "balanced (comma_separated (map (\<lambda>(k, v). json_quote k @ CHR '':'' # json_compact v) ms))"
      by (fastforce intro!: balanced_comma balanced_append[OF balanced_quote] balanced_Cons balanced_json)
    with 2 show ?thesis by (intro that) (auto simp: balanced_step Let_def)
  qed
qed

section \<open>One scanner step\<close>

lemma slice_append [simp]: "slice (length a) (length a + length b) (a @ b @ c) = b"
  by (simp add: slice_def)

text \<open>The scanner at white space followed by a token.\<close>

lemma scanner_next_at:
  assumes "list_all is_ascii_whitespace sp" and "\<not> is_ascii_whitespace first"
  shows "scanner_next cd \<lparr> sc_input = pre @ sp @ first # bytes, sc_index = length pre \<rparr> =
    (let input = pre @ sp @ first # bytes; start = length pre + length sp;
         at = (\<lambda>i. \<lparr> sc_input = input, sc_index = i \<rparr>)
     in if first = CHR 0x22 then
          and_then (scan_quoted False bytes (start + 1)) (\<lambda>index.
          and_then (ok_or ''invalid quoted token'' (json_string_from cd (slice start index input)))
            (\<lambda>value. Inr (Some \<lparr> tok_text = value, tok_quoted = True \<rparr>, at index)))
        else if first = CHR ''['' \<or> first = CHR ''{'' then
          and_then (scan_structured [first] 1 False False bytes (start + 1)) (\<lambda>index.
          and_then (ok_or ''invalid structured value'' (json_value_from cd (slice start index input)))
            (\<lambda>_. Inr (Some \<lparr> tok_text = slice start index input, tok_quoted = False \<rparr>, at index)))
        else
          let index = start + length (takeWhile (\<lambda>b. \<not> is_ascii_whitespace b) (first # bytes))
          in Inr (Some \<lparr> tok_text = slice start index input, tok_quoted = False \<rparr>, at index))"
proof -
  let ?input = "pre @ sp @ first # bytes"
  have ws: "length (takeWhile is_ascii_whitespace (drop (length pre) ?input)) = length sp"
    using assms by (simp add: takeWhile_append2 list_all_iff)
  have more: "length pre + length sp = length ?input \<longleftrightarrow> False" by simp
  have rest: "drop (length pre + length sp) ?input = first # bytes" by simp
  show ?thesis
    by (simp only: scanner_next_def Let_def scanner.simps ws more rest if_False list.case)
qed

text \<open>A text that is read back as one token, or refused, when a space or the end follows it.\<close>

definition scans :: "codec \<Rightarrow> string \<Rightarrow> frame_token result \<Rightarrow> bool" where
  "scans cd s r \<longleftrightarrow>
     (\<forall>pre sp rest. list_all is_ascii_whitespace sp \<longrightarrow> (rest = [] \<or> is_ascii_whitespace (hd rest)) \<longrightarrow>
        scanner_next cd \<lparr> sc_input = pre @ sp @ s @ rest, sc_index = length pre \<rparr>
          = and_then r (\<lambda>t. Inr (Some t, \<lparr> sc_input = pre @ sp @ s @ rest,
                                            sc_index = length pre + length sp + length s \<rparr>)))"

lemma scans_bare:
  assumes "s \<noteq> []" and "list_all (\<lambda>b. \<not> is_ascii_whitespace b) s"
    and "hd s \<notin> set [CHR 0x22, CHR ''['', CHR ''{'']"
  shows "scans cd s (Inr \<lparr> tok_text = s, tok_quoted = False \<rparr>)"
  unfolding scans_def
proof (intro allI impI)
  fix pre sp rest :: string
  assume sp: "list_all is_ascii_whitespace sp" and rest: "rest = [] \<or> is_ascii_whitespace (hd rest)"
  obtain first s' where s: "s = first # s'" using assms(1) by (cases s) auto
  have "takeWhile (\<lambda>b. \<not> is_ascii_whitespace b) (s @ rest) = s"
    using assms(2) rest by (cases rest) (simp_all add: takeWhile_append2 list_all_iff)
  moreover have "slice (length pre + length sp) (length pre + length sp + length s) (pre @ sp @ s @ rest) = s"
    using slice_append[of "pre @ sp" s rest] by simp
  ultimately show "scanner_next cd \<lparr> sc_input = pre @ sp @ s @ rest, sc_index = length pre \<rparr>
      = and_then (Inr \<lparr> tok_text = s, tok_quoted = False \<rparr>) (\<lambda>t. Inr (Some t,
          \<lparr> sc_input = pre @ sp @ s @ rest, sc_index = length pre + length sp + length s \<rparr>))"
    using scanner_next_at[OF sp, of first cd pre "s' @ rest"] assms s by (simp add: Let_def)
qed

definition quoted_result :: "string \<Rightarrow> frame_token result" where
  "quoted_result s =
     (if wire_safe s then Inr \<lparr> tok_text = s, tok_quoted = True \<rparr>
      else protocol_error ''invalid quoted escape'')"

lemma scans_quote:
  assumes "json_string_from cd (json_quote s) = Some s"
  shows "scans cd (json_quote s) (quoted_result s)"
  unfolding scans_def
proof (intro allI impI)
  fix pre sp rest :: string
  assume sp: "list_all is_ascii_whitespace sp"
  let ?body = "concat (map json_escape s)"
  have quoted: "json_quote s @ rest = CHR 0x22 # ?body @ CHR 0x22 # rest" by (simp add: json_quote_def)
  have "slice (length pre + length sp) (length pre + length sp + length (json_quote s))
      (pre @ sp @ json_quote s @ rest) = json_quote s"
    using slice_append[of "pre @ sp" "json_quote s" rest] by simp
  then show "scanner_next cd \<lparr> sc_input = pre @ sp @ json_quote s @ rest, sc_index = length pre \<rparr>
      = and_then (quoted_result s) (\<lambda>t. Inr (Some t,
          \<lparr> sc_input = pre @ sp @ json_quote s @ rest,
            sc_index = length pre + length sp + length (json_quote s) \<rparr>))"
    using scanner_next_at[OF sp, of "CHR 0x22" cd pre "?body @ CHR 0x22 # rest"] assms
    by (simp add: Let_def quoted scan_quoted_body quoted_result_def is_ascii_whitespace_def)
      (simp add: json_quote_def)
qed

lemma scans_structured:
  assumes "numbers_ok v" and "is_structured v" and "json_value_from cd (json_compact v) = Some v"
  shows "scans cd (json_compact v) (Inr \<lparr> tok_text = json_compact v, tok_quoted = False \<rparr>)"
  unfolding scans_def
proof (intro allI impI)
  fix pre sp rest :: string
  assume sp: "list_all is_ascii_whitespace sp"
  obtain opener body where v: "json_compact v = opener # body" "opener = CHR ''['' \<or> opener = CHR ''{''"
    and scan: "\<And>r i. scan_structured [opener] 1 False False (body @ r) i = Inr (i + length body)"
    using scan_structured_json[OF assms(1,2)] by blast
  have ws: "\<not> is_ascii_whitespace opener" and not_quote: "opener \<noteq> CHR 0x22"
    using v(2) by (auto simp: is_ascii_whitespace_def)
  have "slice (length pre + length sp) (length pre + length sp + length (json_compact v))
      (pre @ sp @ json_compact v @ rest) = json_compact v"
    using slice_append[of "pre @ sp" "json_compact v" rest] by simp
  then show "scanner_next cd \<lparr> sc_input = pre @ sp @ json_compact v @ rest, sc_index = length pre \<rparr>
      = and_then (Inr \<lparr> tok_text = json_compact v, tok_quoted = False \<rparr>) (\<lambda>t. Inr (Some t,
          \<lparr> sc_input = pre @ sp @ json_compact v @ rest,
            sc_index = length pre + length sp + length (json_compact v) \<rparr>))"
    using scanner_next_at[OF sp ws, of cd pre "body @ rest"] assms(3) v not_quote
    by (simp add: Let_def scan[simplified])
qed

end
