(* ===== verification/Line_Roundtrip.thy ===== *)
theory Line_Roundtrip
  imports Line_Scanner
begin

text \<open>
  What the encoders write, the decoders read. Every frame is a keyword and arguments separated by
  single spaces; \<open>wire_arg\<close> names the kinds of argument with their text and their token. The
  contract of the JSON and UUID libraries is the locale \<open>codec_laws\<close>.
\<close>

section \<open>Arguments and frames\<close>

datatype wire_arg = Word string | Text string | Quoted string | Lit json

definition is_bare_text :: "string \<Rightarrow> bool" where
  "is_bare_text s \<longleftrightarrow> s \<noteq> [] \<and> list_all is_bare s"

fun arg_text :: "wire_arg \<Rightarrow> string" where
  "arg_text (Word w) = w"
| "arg_text (Text s) = (if is_bare_text s then s else json_quote s)"
| "arg_text (Quoted s) = json_quote s"
| "arg_text (Lit v) = json_compact v"

fun arg_token :: "wire_arg \<Rightarrow> frame_token" where
  "arg_token (Word w) = \<lparr> tok_text = w, tok_quoted = False \<rparr>"
| "arg_token (Text s) = \<lparr> tok_text = s, tok_quoted = (\<not> is_bare_text s) \<rparr>"
| "arg_token (Quoted s) = \<lparr> tok_text = s, tok_quoted = True \<rparr>"
| "arg_token (Lit v) =
     (case v of JString s \<Rightarrow> \<lparr> tok_text = s, tok_quoted = True \<rparr>
              | _ \<Rightarrow> \<lparr> tok_text = json_compact v, tok_quoted = False \<rparr>)"

fun arg_safe :: "wire_arg \<Rightarrow> bool" where
  "arg_safe (Word w) = True"
| "arg_safe (Text s) = wire_safe s"
| "arg_safe (Quoted s) = wire_safe s"
| "arg_safe (Lit v) = (case v of JString s \<Rightarrow> wire_safe s | _ \<Rightarrow> True)"

definition arg_result :: "wire_arg \<Rightarrow> frame_token result" where
  "arg_result a = (if arg_safe a then Inr (arg_token a) else protocol_error ''invalid quoted escape'')"

fun frame_text :: "wire_arg list \<Rightarrow> string" where
  "frame_text [] = []"
| "frame_text (a # as) = arg_text a @ concat (map (\<lambda>b. CHR '' '' # arg_text b) as)"

lemma bare_safe: "is_bare b \<Longrightarrow> wire_byte b"
  by (auto simp: is_bare_def wire_byte_def dest: alphanumeric_range)

lemma bare_graphic: "is_bare b \<Longrightarrow> \<not> is_ascii_whitespace b \<and> b \<notin> set [CHR 0x22, CHR ''['', CHR ''{'']"
  by (auto simp: is_bare_def is_ascii_alphanumeric_def is_ascii_alphabetic_def is_ascii_digit_def
      is_ascii_whitespace_def)

lemma bare_text_safe: "is_bare_text s \<Longrightarrow> wire_safe s"
  by (auto simp: is_bare_text_def wire_safe_def list_all_iff bare_safe)

lemma scans_bare_text:
  assumes "is_bare_text s"
  shows "scans cd s (Inr \<lparr> tok_text = s, tok_quoted = False \<rparr>)"
proof (rule scans_bare)
  show "s \<noteq> []" and "list_all (\<lambda>b. \<not> is_ascii_whitespace b) s"
    using assms bare_graphic by (auto simp: is_bare_text_def list_all_iff)
  show "hd s \<notin> set [CHR 0x22, CHR ''['', CHR ''{'']"
    using assms bare_graphic[of "hd s"] by (cases s) (auto simp: is_bare_text_def)
qed

lemma number_char_graphic:
  "is_number_char b \<Longrightarrow> \<not> is_ascii_whitespace b \<and> b \<notin> set [CHR 0x22, CHR ''['', CHR ''{'']"
  by (auto simp: is_number_char_def is_ascii_alphanumeric_def is_ascii_alphabetic_def is_ascii_digit_def
      is_ascii_whitespace_def)

lemma scans_scalar:
  assumes "numbers_ok v" and "\<not> is_structured v" and "\<And>s. v \<noteq> JString s"
  shows "scans cd (json_compact v) (Inr \<lparr> tok_text = json_compact v, tok_quoted = False \<rparr>)"
proof -
  have chars: "json_compact v \<noteq> [] \<and> list_all is_number_char (json_compact v)"
    using assms by (cases v)
      (auto simp: is_structured_def is_number_char_def is_ascii_alphanumeric_def is_ascii_alphabetic_def)
  show ?thesis
  proof (rule scans_bare)
    show "json_compact v \<noteq> []" and "list_all (\<lambda>b. \<not> is_ascii_whitespace b) (json_compact v)"
      using chars number_char_graphic by (auto simp: list_all_iff)
    show "hd (json_compact v) \<notin> set [CHR 0x22, CHR ''['', CHR ''{'']"
      using chars number_char_graphic[of "hd (json_compact v)"] by (cases "json_compact v") auto
  qed
qed

lemma collect_args:
  "collect_results arg_result as =
     (if list_all arg_safe as then Inr (map arg_token as) else protocol_error ''invalid quoted escape'')"
  by (induction as) (auto simp: arg_result_def protocol_error_def)

text \<open>No argument puts a line break into the frame.\<close>

definition unbroken :: "string \<Rightarrow> bool" where
  "unbroken s \<longleftrightarrow> CHR 0x0D \<notin> set s \<and> CHR 0x0A \<notin> set s"

lemma unbroken_append [simp]: "unbroken (s @ t) \<longleftrightarrow> unbroken s \<and> unbroken t"
  and unbroken_Cons [simp]: "unbroken (c # t) \<longleftrightarrow> c \<noteq> CHR 0x0D \<and> c \<noteq> CHR 0x0A \<and> unbroken t"
  and unbroken_Nil [simp]: "unbroken []"
  by (auto simp: unbroken_def)

lemma unbroken_concat [simp]: "unbroken (concat ss) \<longleftrightarrow> (\<forall>s \<in> set ss. unbroken s)"
  by (auto simp: unbroken_def)

lemma unbroken_escape: "unbroken (json_escape b)"
proof -
  have "of_char b div 16 < (16 :: nat)" if "of_char b < (32 :: nat)" using that by simp
  then show ?thesis by (simp add: json_escape_def hex_digit_not_special[symmetric])
qed

lemma unbroken_quote [simp]: "unbroken (json_quote s)"
  by (simp add: json_quote_def unbroken_escape)

lemma unbroken_comma: "(\<And>x. x \<in> set xs \<Longrightarrow> unbroken x) \<Longrightarrow> unbroken (comma_separated xs)"
  by (cases xs) auto

lemma unbroken_number: "list_all is_number_char s \<Longrightarrow> unbroken s"
  using number_char_graphic[of "CHR 0x0D"] number_char_graphic[of "CHR 0x0A"]
  by (auto simp: unbroken_def list_all_iff is_ascii_whitespace_def)

lemma unbroken_bare: "is_bare_text s \<Longrightarrow> unbroken s"
  using bare_graphic[of "CHR 0x0D"] bare_graphic[of "CHR 0x0A"]
  by (auto simp: is_bare_text_def unbroken_def list_all_iff is_ascii_whitespace_def)

lemma unbroken_json: "numbers_ok v \<Longrightarrow> unbroken (json_compact v)"
proof (induction v rule: json_compact.induct)
  case (5 vs)
  then show ?case by (auto intro!: unbroken_comma)
next
  case (6 ms)
  then show ?case by (fastforce intro!: unbroken_comma)
qed (simp_all add: unbroken_number)

section \<open>The contract of the libraries\<close>

locale codec_laws =
  fixes cd :: codec and representable :: "json \<Rightarrow> bool"
  assumes string_to: "json_string_to cd s = json_quote s"
    and string_from: "json_string_from cd (json_quote s) = Some s"
    and value_to: "representable v \<Longrightarrow> json_value_to cd v = Inr (json_compact v)"
    and value_from: "representable v \<Longrightarrow> json_value_from cd (json_compact v) = Some v"
    and number_form: "representable v \<Longrightarrow> numbers_ok v"
    and uuid_from_to: "uuid_parse_str cd (uuid_to_string cd i) = Some i"
    and uuid_form: "is_bare_text (uuid_to_string cd i)"
begin

definition arg_ok :: "wire_arg \<Rightarrow> bool" where
  "arg_ok a = (case a of Word w \<Rightarrow> is_bare_text w | Lit v \<Rightarrow> representable v | _ \<Rightarrow> True)"

lemma arg_ok_simps [simp]:
  "arg_ok (Word w) = is_bare_text w" "arg_ok (Text s)" "arg_ok (Quoted s)" "arg_ok (Lit v) = representable v"
  by (simp_all add: arg_ok_def)

lemma scans_quoted_result: "scans cd (json_quote s) (quoted_result s)"
  by (rule scans_quote) (rule string_from)

lemma quoted_arg_result:
  "arg_result (Quoted s) = quoted_result s" "arg_result (Lit (JString s)) = quoted_result s"
  "\<not> is_bare_text s \<Longrightarrow> arg_result (Text s) = quoted_result s"
  "is_bare_text s \<Longrightarrow> arg_result (Text s) = Inr \<lparr> tok_text = s, tok_quoted = False \<rparr>"
  by (simp_all add: arg_result_def quoted_result_def bare_text_safe)

lemma scans_arg: "arg_ok a \<Longrightarrow> scans cd (arg_text a) (arg_result a)"
proof (cases a)
  case (Lit v)
  assume "arg_ok a"
  with Lit have v: "representable v" by simp
  consider s where "v = JString s" | "is_structured v" | "\<not> is_structured v" "\<And>s. v \<noteq> JString s"
    by blast
  then show ?thesis
  proof cases
    case 1
    with Lit show ?thesis by (simp add: quoted_arg_result scans_quoted_result)
  next
    case 2
    then have "arg_result a = Inr \<lparr> tok_text = json_compact v, tok_quoted = False \<rparr>"
      using Lit by (auto simp: arg_result_def is_structured_def)
    with scans_structured[OF number_form[OF v] 2 value_from[OF v]] Lit show ?thesis by simp
  next
    case 3
    then have "arg_result a = Inr \<lparr> tok_text = json_compact v, tok_quoted = False \<rparr>"
      using Lit by (cases v) (auto simp: arg_result_def)
    with scans_scalar[OF number_form[OF v] 3] Lit show ?thesis by simp
  qed
next
  case (Word w)
  assume "arg_ok a"
  with Word show ?thesis by (simp add: arg_result_def scans_bare_text)
qed (simp_all add: quoted_arg_result scans_quoted_result scans_bare_text)

lemma loop_end: "scanner_loop cd \<lparr> sc_input = input, sc_index = length input \<rparr> = Inr []"
  by (subst scanner_loop.simps) (simp add: scanner_next_def Let_def)

lemma loop_step:
  assumes "arg_ok a" and "list_all is_ascii_whitespace sp" and "rest = [] \<or> is_ascii_whitespace (hd rest)"
  shows "scanner_loop cd \<lparr> sc_input = pre @ sp @ arg_text a @ rest, sc_index = length pre \<rparr> =
    and_then (arg_result a) (\<lambda>t.
      and_then (scanner_loop cd \<lparr> sc_input = (pre @ sp @ arg_text a) @ rest,
                                  sc_index = length (pre @ sp @ arg_text a) \<rparr>) (\<lambda>ts. Inr (t # ts)))"
proof -
  have "scanner_next cd \<lparr> sc_input = pre @ sp @ arg_text a @ rest, sc_index = length pre \<rparr> =
      and_then (arg_result a) (\<lambda>t. Inr (Some t, \<lparr> sc_input = pre @ sp @ arg_text a @ rest,
          sc_index = length pre + length sp + length (arg_text a) \<rparr>))"
    using scans_arg[OF assms(1)] assms(2,3) unfolding scans_def by blast
  then show ?thesis
    by (subst scanner_loop.simps) (cases "arg_result a"; simp add: add.assoc)
qed

lemma loop_args:
  assumes "\<And>b. b \<in> set bs \<Longrightarrow> arg_ok b"
  shows "scanner_loop cd \<lparr> sc_input = pre @ concat (map (\<lambda>b. CHR '' '' # arg_text b) bs),
                           sc_index = length pre \<rparr> = collect_results arg_result bs"
  using assms
proof (induction bs arbitrary: pre)
  case Nil
  then show ?case using loop_end[of pre] by simp
next
  case (Cons b bs)
  let ?rest = "concat (map (\<lambda>b. CHR '' '' # arg_text b) bs)"
  have "?rest = [] \<or> is_ascii_whitespace (hd ?rest)"
    by (cases bs) (simp_all add: is_ascii_whitespace_def)
  from loop_step[OF _ _ this, of b "'' ''" pre] Cons.prems Cons.IH[of "pre @ '' '' @ arg_text b"]
  show ?case by (cases "arg_result b") (auto simp: is_ascii_whitespace_def and_then_def split: sum.splits)
qed

lemma unbroken_arg: "arg_ok a \<Longrightarrow> unbroken (arg_text a)"
  by (cases a) (auto intro: unbroken_bare unbroken_json number_form)

text \<open>A frame of valid arguments scans into their tokens, or its first unsafe string is refused.\<close>

lemma frame_tokens_args:
  assumes "as \<noteq> []" and ok: "\<And>a. a \<in> set as \<Longrightarrow> arg_ok a" and "length (frame_text as) \<le> MAX_FRAME_BYTES"
  shows "frame_tokens cd (frame_text as) =
    (if list_all arg_safe as then Inr (map arg_token as) else protocol_error ''invalid quoted escape'')"
proof -
  obtain a bs where as: "as = a # bs" using assms(1) by (cases as) auto
  let ?rest = "concat (map (\<lambda>b. CHR '' '' # arg_text b) bs)"
  have rest: "?rest = [] \<or> is_ascii_whitespace (hd ?rest)"
    by (cases bs) (simp_all add: is_ascii_whitespace_def)
  have "unbroken (frame_text as)"
    using ok unbroken_arg as by auto
  moreover have "frame_text as \<noteq> []"
    using loop_step[of a "[]" "[]" "[]"] loop_end[of "[]"] ok as by (auto simp: arg_result_def and_then_Inr_iff protocol_error_def split: if_splits)
  ultimately have new: "Scanner_new (frame_text as) = Inr \<lparr> sc_input = frame_text as, sc_index = 0 \<rparr>"
    using assms(3) by (auto simp: Scanner_new_def unbroken_def)
  have "scanner_loop cd \<lparr> sc_input = frame_text as, sc_index = 0 \<rparr> = collect_results arg_result as"
    using loop_step[of a "[]" ?rest "[]"] loop_args[of bs "arg_text a"] rest ok as
    by (cases "arg_result a") (auto simp: and_then_def split: sum.splits)
  then have "scanner_loop cd \<lparr> sc_input = frame_text as, sc_index = 0 \<rparr> =
      (if list_all arg_safe as then Inr (map arg_token as) else protocol_error ''invalid quoted escape'')"
    by (simp only: collect_args)
  then show ?thesis
    using assms(1) by (simp add: frame_tokens_def scanner_all_def new)
qed

text \<open>A decoder that scans first inverts any encoder that writes the same arguments.\<close>

lemma frame_roundtrip:
  assumes "as \<noteq> []" and "\<And>a. a \<in> set as \<Longrightarrow> arg_ok a" and "length (frame_text as) \<le> MAX_FRAME_BYTES"
    and "list_all arg_safe as \<longleftrightarrow> safe"
    and "\<And>f. frame_tokens cd f = Inr (map arg_token as) \<Longrightarrow> decode f = Inr x"
    and "\<And>f m. frame_tokens cd f = protocol_error m \<Longrightarrow> decode f = protocol_error m"
  shows "decode (frame_text as) = (if safe then Inr x else protocol_error ''invalid quoted escape'')"
  using frame_tokens_args[OF assms(1-3)] assms(4-6) by simp

lemma quote_arg: "quote cd s = arg_text (Text s)"
  by (simp add: quote_def is_bare_text_def string_to)

lemma batch_key_arg: "batch_key cd s = arg_text (if s = ''EX'' then Quoted s else Text s)"
  by (simp add: batch_key_def quote_arg string_to del: arg_text.simps(2))

lemma value_text_arg: "representable v \<Longrightarrow> value_text cd v = Inr (arg_text (Lit v))"
  by (simp add: value_text_def value_to)

end

section \<open>Commands as arguments\<close>

definition named_args :: "string \<Rightarrow> nat option \<Rightarrow> wire_arg list" where
  "named_args name n = (case n of None \<Rightarrow> [] | Some v \<Rightarrow> [Word name, Word (show_nat v)])"

definition entry_args :: "set_entry \<Rightarrow> wire_arg list" where
  "entry_args e =
     (let k = key_str (entry_key e)
      in [if k = ''EX'' then Quoted k else Text k, Lit (entry_value e)])"

fun command_args :: "codec \<Rightarrow> command \<Rightarrow> wire_arg list" where
  "command_args cd (Auth k i) =
     [Word ''AUTH'', Text k]
     @ (case i of None \<Rightarrow> [] | Some j \<Rightarrow> [Word ''ADAPTER'', Word (uuid_to_string cd j)])"
| "command_args cd (Get n k) = [Word ''GET'', Text (as_str n), Text (key_str k)]"
| "command_args cd (Set n k v ttl) =
     [Word ''SET'', Text (as_str n), Text (key_str k), Lit v] @ named_args ''EX'' ttl"
| "command_args cd (SetBatch n es ttl) =
     [Word ''SET_BATCH'', Text (as_str n)] @ concat (map entry_args es) @ named_args ''EX'' ttl"
| "command_args cd (Delete n p) =
     [Word ''DELETE'', Text (as_str n)] @ (case p of None \<Rightarrow> [] | Some kp \<Rightarrow> [Text (kp_str kp)])"
| "command_args cd (Move s d) = [Word ''MOVE'', Text (as_str s), Text (as_str d)]"
| "command_args cd (Provide n k r t m) =
     [Word ''PROVIDE'', Text (np_str n), Text (kp_str k)]
     @ named_args ''MAX_RATE'' r @ named_args ''TIMEOUT'' t @ named_args ''MISS_TTL'' m"
| "command_args cd (Store n k) = [Word ''STORE'', Text (np_str n), Text (kp_str k)]"
| "command_args cd Ping = [Word ''PING'']"
| "command_args cd StatsCmd = [Word ''STATS'']"

text \<open>Commands that exist: identifiers built by their constructors, numbers in range, values the
  library can print.\<close>

definition fits :: "nat \<Rightarrow> nat option \<Rightarrow> bool" where
  "fits m n = (case n of None \<Rightarrow> True | Some v \<Rightarrow> v \<le> m)"

lemma fits_simps [simp]: "fits m None" "fits m (Some v) = (v \<le> m)"
  by (simp_all add: fits_def)

definition wf_entry :: "(json \<Rightarrow> bool) \<Rightarrow> set_entry \<Rightarrow> bool" where
  "wf_entry representable e \<longleftrightarrow> key_str (entry_key e) \<noteq> [] \<and> representable (entry_value e)"

fun wf_command :: "(json \<Rightarrow> bool) \<Rightarrow> command \<Rightarrow> bool" where
  "wf_command R (Auth _ _) \<longleftrightarrow> True"
| "wf_command R (Get n k) \<longleftrightarrow> wf_ns n \<and> key_str k \<noteq> []"
| "wf_command R (Set n k v ttl) \<longleftrightarrow> wf_ns n \<and> key_str k \<noteq> [] \<and> R v \<and> fits u64_max ttl"
| "wf_command R (SetBatch n es ttl) \<longleftrightarrow>
     wf_ns n \<and> es \<noteq> [] \<and> (\<forall>e \<in> set es. wf_entry R e) \<and> fits u64_max ttl"
| "wf_command R (Delete n p) \<longleftrightarrow> wf_ns n \<and> (case p of None \<Rightarrow> True | Some kp \<Rightarrow> kp_str kp \<noteq> [])"
| "wf_command R (Move s d) \<longleftrightarrow> wf_ns s \<and> wf_ns d"
| "wf_command R (Provide n k r t m) \<longleftrightarrow>
     np_str n \<noteq> [] \<and> kp_str k \<noteq> [] \<and> fits u32_max r \<and> fits u64_max t \<and> fits u64_max m"
| "wf_command R (Store n k) \<longleftrightarrow> np_str n \<noteq> [] \<and> kp_str k \<noteq> []"
| "wf_command R Ping \<longleftrightarrow> True"
| "wf_command R StatsCmd \<longleftrightarrow> True"

text \<open>The strings of a command that travel as texts of their own, outside a structured value.\<close>

definition safe_value :: "json \<Rightarrow> bool" where
  "safe_value v = (case v of JString s \<Rightarrow> wire_safe s | _ \<Rightarrow> True)"

definition safe_entry :: "set_entry \<Rightarrow> bool" where
  "safe_entry e \<longleftrightarrow> wire_safe (key_str (entry_key e)) \<and> safe_value (entry_value e)"

fun safe_command :: "command \<Rightarrow> bool" where
  "safe_command (Auth k _) \<longleftrightarrow> wire_safe k"
| "safe_command (Get n k) \<longleftrightarrow> wire_safe (as_str n) \<and> wire_safe (key_str k)"
| "safe_command (Set n k v _) \<longleftrightarrow> wire_safe (as_str n) \<and> wire_safe (key_str k) \<and> safe_value v"
| "safe_command (SetBatch n es _) \<longleftrightarrow> wire_safe (as_str n) \<and> list_all safe_entry es"
| "safe_command (Delete n p) \<longleftrightarrow>
     wire_safe (as_str n) \<and> (case p of None \<Rightarrow> True | Some kp \<Rightarrow> wire_safe (kp_str kp))"
| "safe_command (Move s d) \<longleftrightarrow> wire_safe (as_str s) \<and> wire_safe (as_str d)"
| "safe_command (Provide n k _ _ _) \<longleftrightarrow> wire_safe (np_str n) \<and> wire_safe (kp_str k)"
| "safe_command (Store n k) \<longleftrightarrow> wire_safe (np_str n) \<and> wire_safe (kp_str k)"
| "safe_command Ping \<longleftrightarrow> True"
| "safe_command StatsCmd \<longleftrightarrow> True"

lemma named_args_safe [simp]: "list_all arg_safe (named_args name n)"
  by (simp add: named_args_def split: option.splits)

lemma entry_args_safe [simp]: "list_all arg_safe (entry_args e) \<longleftrightarrow> safe_entry e"
  by (simp add: entry_args_def Let_def safe_entry_def safe_value_def)

lemma entries_args_safe [simp]: "list_all arg_safe (concat (map entry_args es)) \<longleftrightarrow> list_all safe_entry es"
  by (induction es) simp_all

lemma command_args_safe: "list_all arg_safe (command_args cd c) \<longleftrightarrow> safe_command c"
  by (cases c) (auto simp: safe_value_def split: option.splits)

section \<open>Reading arguments from tokens\<close>

lemma is_bare_text_show_nat [simp]: "is_bare_text (show_nat n)"
  using show_nat_digits[of _ n]
  by (auto simp: is_bare_text_def list_all_iff is_bare_def is_ascii_alphanumeric_def)

lemma bare_keyword [simp]:
  "is_bare_text ''AUTH''" "is_bare_text ''ADAPTER''" "is_bare_text ''GET''" "is_bare_text ''SET''"
  "is_bare_text ''SET_BATCH''" "is_bare_text ''DELETE''" "is_bare_text ''MOVE''"
  "is_bare_text ''PROVIDE''" "is_bare_text ''STORE''" "is_bare_text ''PING''"
  "is_bare_text ''STATS''" "is_bare_text ''EX''" "is_bare_text ''MAX_RATE''"
  "is_bare_text ''TIMEOUT''" "is_bare_text ''MISS_TTL''" "is_bare_text ''OK''"
  "is_bare_text ''KO''" "is_bare_text ''MISS''" "is_bare_text ''UNKNOWN''" "is_bare_text ''PONG''"
  "is_bare_text ''TTL''" "is_bare_text ''REQUESTS''" "is_bare_text ''HITS''"
  "is_bare_text ''MISSES''" "is_bare_text ''VALUES''" "is_bare_text ''QUERY''"
  "is_bare_text ''PERSIST_SET''" "is_bare_text ''PERSIST_SET_BATCH''"
  "is_bare_text ''PERSIST_DELETE''" "is_bare_text ''PERSIST_MOVE''" "is_bare_text ''OPERATION''"
  "is_bare_text ''QUERY_RESULT''"
  by (simp_all add: is_bare_text_def is_bare_def is_ascii_alphanumeric_def is_ascii_alphabetic_def)

lemma tok_text_Text [simp]: "tok_text (arg_token (Text s)) = s" "tok_text (arg_token (Quoted s)) = s"
  by simp_all

lemmas args_defs = get_token_def word_arg_def namespace_arg_def key_arg_def key_pattern_arg_def
  namespace_pattern_arg_def exact_def keyword_def number_def is_unquoted_def

lemma wf_ns_new: "wf_ns n \<Longrightarrow> NamespaceContext_new (as_str n) = Inr n"
  by (simp add: wf_ns_def)

lemma new_identifier [simp]:
  "key_str k \<noteq> [] \<Longrightarrow> Key_new (key_str k) = Inr k"
  "kp_str p \<noteq> [] \<Longrightarrow> KeyPattern_new (kp_str p) = Inr p"
  "np_str q \<noteq> [] \<Longrightarrow> NamespacePattern_new (np_str q) = Inr q"
  by simp_all

lemma decode_entries_Nil [simp]: "finish \<le> i \<Longrightarrow> decode_entries cd t i finish = Inr []"
  by (simp add: decode_entries.simps)

lemma length_entry_args [simp]: "length (entry_args e) = 2"
  by (simp add: entry_args_def Let_def)

lemma length_entries [simp]: "length (concat (map entry_args es)) = 2 * length es"
  by (induction es) simp_all

context codec_laws
begin

lemma value_literal_arg [simp]: "representable v \<Longrightarrow> value_literal cd (arg_token (Lit v)) = Inr v"
  using value_from[of v] by (cases v) (simp_all add: value_literal_def)

lemma uuid_arg_at:
  assumes "i < length as" and "as ! i = Word (uuid_to_string cd j)"
  shows "uuid_arg cd (map arg_token as) i = Inr j"
  using assms by (simp add: uuid_arg_def word_arg_def get_token_def uuid_from_to)

lemma decode_entries_args:
  assumes "\<And>e. e \<in> set es \<Longrightarrow> wf_entry representable e"
    and "t = map arg_token (pre @ concat (map entry_args es) @ post)"
    and "i = length pre" and "finish = i + 2 * length es"
  shows "decode_entries cd t i finish = Inr es"
  using assms
proof (induction es arbitrary: pre i)
  case (Cons e es)
  have e: "key_str (entry_key e) \<noteq> []" "representable (entry_value e)"
    using Cons.prems(1)[of e] by (simp_all add: wf_entry_def)
  have t: "t = map arg_token ((pre @ entry_args e) @ concat (map entry_args es) @ post)"
    using Cons.prems(2) by simp
  have pre: "length (pre @ entry_args e) = i + 2" using Cons.prems(3) by (simp add: entry_args_def Let_def)
  have rest: "decode_entries cd t (i + 2) finish = Inr es"
    by (rule Cons.IH[OF _ t]) (use Cons.prems pre in auto)
  have k: "key_arg t i = Inr (entry_key e)"
    using e(1) Cons.prems(3)
    by (cases "entry_key e") (simp add: t key_arg_def word_arg_def get_token_def nth_append entry_args_def Let_def)
  have "t ! (i + 1) = arg_token (Lit (entry_value e))"
    using Cons.prems(3) by (simp add: t nth_append entry_args_def Let_def)
  then have "value_literal cd (t ! (i + 1)) = Inr (entry_value e)"
    using value_literal_arg[OF e(2)] by (simp only:)
  then show ?case
    using k rest Cons.prems(4) by (subst decode_entries.simps) simp
qed simp

text \<open>Where a batch ends: at \<open>EX\<close> if there is a time to live, else at the last token.\<close>

lemma batch_end_args:
  assumes "es \<noteq> []" and "as = pre @ concat (map entry_args es) @ named_args ''EX'' ttl"
    and "least \<le> length pre + 2" and "fits u64_max ttl"
  shows "batch_end (map arg_token as) least = length pre + 2 * length es"
    and "batch_ttl (map arg_token as) (length pre + 2 * length es) = Inr ttl"
proof -
  obtain es' e where es: "es = es' @ [e]" using assms(1) by (cases es rule: rev_cases) auto
  show "batch_end (map arg_token as) least = length pre + 2 * length es"
  proof (cases ttl)
    case None
    have "map arg_token as ! (length as - 2) = arg_token (hd (entry_args e))"
      using assms(2) None es
      by (simp add: nth_append named_args_def entry_args_def Let_def)
    moreover have "\<not> (\<not> tok_quoted (arg_token (hd (entry_args e)))
        \<and> tok_text (arg_token (hd (entry_args e))) = ''EX'')"
      by (simp add: entry_args_def Let_def)
    moreover have "length as = length pre + 2 * length es"
      using assms(2) None by (simp add: named_args_def)
    ultimately show ?thesis using es by (auto simp: batch_end_def is_unquoted_def get_token_def)
  next
    case (Some n)
    then show ?thesis
      using assms(2,3) es
      by (simp add: batch_end_def is_unquoted_def get_token_def named_args_def nth_append)
  qed
  show "batch_ttl (map arg_token as) (length pre + 2 * length es) = Inr ttl"
    using assms(2,4)
    by (cases ttl) (simp_all add: batch_ttl_def named_args_def number_def word_arg_def get_token_def nth_append)
qed

section \<open>Commands\<close>

lemma entry_args_ok: "wf_entry representable e \<Longrightarrow> a \<in> set (entry_args e) \<Longrightarrow> arg_ok a"
  by (auto simp: entry_args_def Let_def wf_entry_def)

lemma command_args_ok: "wf_command representable c \<Longrightarrow> a \<in> set (command_args cd c) \<Longrightarrow> arg_ok a"
  by (cases c) (auto simp: uuid_form named_args_def intro: entry_args_ok split: option.splits)

lemma push_entries_args:
  assumes "\<And>e. e \<in> set es \<Longrightarrow> wf_entry representable e"
  shows "push_entries cd out es =
    Inr (out @ concat (map (\<lambda>b. CHR '' '' # arg_text b) (concat (map entry_args es))))"
  using assms
proof (induction es arbitrary: out)
  case (Cons e es)
  then have "representable (entry_value e)" by (simp add: wf_entry_def)
  with Cons show ?case
    by (simp add: value_text_arg batch_key_arg entry_args_def Let_def del: arg_text.simps)
qed simp

lemma ttl_suffix_args: "ttl_suffix ttl = concat (map (\<lambda>b. CHR '' '' # arg_text b) (named_args ''EX'' ttl))"
  by (simp add: ttl_suffix_def named_args_def split: option.splits)

lemma option_suffix_args:
  "option_suffix name n = concat (map (\<lambda>b. CHR '' '' # arg_text b) (named_args name n))"
  by (simp add: option_suffix_def named_args_def split: option.splits)

lemma encode_command_args:
  "wf_command representable c \<Longrightarrow> encode_command cd c = Inr (frame_text (command_args cd c))"
  by (cases c)
    (auto simp: quote_arg value_text_arg push_entries_args ttl_suffix_args option_suffix_args
      simp del: arg_text.simps(2,4) split: option.splits)

lemma decode_batch_args:
  assumes "es \<noteq> []" and "\<And>e. e \<in> set es \<Longrightarrow> wf_entry representable e" and "fits u64_max ttl" and "wf_ns n"
    and as: "as = [Word ''SET_BATCH'', Text (as_str n)] @ concat (map entry_args es) @ named_args ''EX'' ttl"
  shows "decode_set_batch cd (map arg_token as) = Inr (SetBatch n es ttl)"
proof -
  let ?t = "map arg_token as" and ?finish = "2 + 2 * length es"
  have finish: "batch_end ?t 3 = ?finish" and ttl: "batch_ttl ?t ?finish = Inr ttl"
    using batch_end_args[OF assms(1) as _ assms(3), of 3] by simp_all
  have entries: "decode_entries cd ?t 2 ?finish = Inr es"
    by (rule decode_entries_args[OF assms(2), where pre = "[Word ''SET_BATCH'', Text (as_str n)]"
          and post = "named_args ''EX'' ttl"]) (simp_all add: as)
  have ns: "namespace_arg ?t 1 = Inr n"
    using assms(4) by (simp add: as namespace_arg_def word_arg_def get_token_def wf_ns_new)
  have "\<not> length ?t < 4" using assms(1) by (cases es) (simp_all add: as)
  moreover have "\<not> (?finish \<le> 2 \<or> (?finish - 2) mod 2 \<noteq> 0)" using assms(1) by simp
  ultimately show ?thesis
    unfolding decode_set_batch_def Let_def finish entries ns ttl by simp
qed

lemma decode_provide_args:
  assumes "np_str n \<noteq> []" and "kp_str k \<noteq> []"
    and "fits u32_max r" and "fits u64_max tm" and "fits u64_max m"
  shows "decode_provide (map arg_token (command_args cd (Provide n k r tm m))) = Inr (Provide n k r tm m)"
proof -
  have "u32_max \<le> u64_max" by (simp add: u32_max_def u64_max_def)
  with assms show ?thesis
    by (cases r; cases tm; cases m)
      (simp_all add: decode_provide_def named_args_def provide_max_rate_def provide_option_def args_defs)
qed

lemma decode_command_args:
  assumes wf: "wf_command representable c"
    and tokens: "frame_tokens cd frame = Inr (map arg_token (command_args cd c))"
  shows "decode_command cd frame = Inr c"
proof (cases c)
  case (Auth k i)
  with tokens show ?thesis
    by (cases i) (simp_all add: decode_command_def decode_auth_def uuid_arg_def args_defs uuid_from_to)
next
  case (SetBatch n es ttl)
  with tokens wf decode_batch_args[OF _ _ _ _ refl, of es ttl n] show ?thesis
    by (simp add: decode_command_def word_arg_def get_token_def)
next
  case (Set n k v ttl)
  with tokens wf value_literal_arg[of v] show ?thesis
    by (cases ttl)
      (simp_all add: decode_command_def decode_set_def named_args_def option_arg_def args_defs wf_ns_new
        del: arg_token.simps(4))
next
  case (Delete n p)
  with tokens wf show ?thesis
    by (cases p) (simp_all add: decode_command_def decode_delete_def args_defs wf_ns_new)
next
  case (Provide n k r tm m)
  with tokens wf decode_provide_args[of n k r tm m] show ?thesis
    by (simp add: decode_command_def word_arg_def get_token_def del: command_args.simps(7))
      (simp add: named_args_def)
qed (use tokens wf in \<open>simp_all add: decode_command_def args_defs wf_ns_new\<close>)

lemma command_roundtrip:
  assumes "wf_command representable c"
  obtains f where "encode_command cd c = Inr f"
    and "length f \<le> MAX_FRAME_BYTES \<Longrightarrow>
      decode_command cd f = (if safe_command c then Inr c else protocol_error ''invalid quoted escape'')"
proof (rule that)
  let ?as = "command_args cd c"
  show "encode_command cd c = Inr (frame_text ?as)" by (rule encode_command_args[OF assms])
  assume short: "length (frame_text ?as) \<le> MAX_FRAME_BYTES"
  show "decode_command cd (frame_text ?as)
      = (if safe_command c then Inr c else protocol_error ''invalid quoted escape'')"
  proof (rule frame_roundtrip[OF _ command_args_ok[OF assms] short command_args_safe decode_command_args[OF assms]])
    show "?as \<noteq> []" by (cases c) simp_all
  qed (simp_all add: decode_command_def)
qed

end

section \<open>Responses as arguments\<close>

definition value_args :: "namespace_context \<Rightarrow> key \<Rightarrow> json \<Rightarrow> nat option \<Rightarrow> wire_arg list" where
  "value_args n k v ttl =
     [Word ''SET'', Text (as_str n), Text (key_str k), Lit v] @ named_args ''EX'' ttl"

fun response_args :: "command \<Rightarrow> response \<Rightarrow> wire_arg list" where
  "response_args c ROk = [Word ''OK'']"
| "response_args c (RValue v ttl) =
     (case c of Get n k \<Rightarrow> value_args n k v ttl | _ \<Rightarrow> [])"
| "response_args c (RMiss n) = [Word ''MISS'', Word (show_nat n)]"
| "response_args c (AuthPending n) = [Word ''MISS'', Word (show_nat n)]"
| "response_args c RUnknown = [Word ''UNKNOWN'']"
| "response_args c (AuthSuccess i ttl) = [Word ''OK'', Text i, Word ''TTL'', Word (show_nat ttl)]"
| "response_args c (AuthFailure m) = [Word ''KO'', Text m]"
| "response_args c (RError m) = [Word ''KO'', Text m]"
| "response_args c Pong = [Word ''PONG'']"
| "response_args c (RStats s) =
     [Word ''STATS'', Word ''REQUESTS'', Word (show_nat (stat_requests s)), Word ''HITS'',
      Word (show_nat (stat_hits s)), Word ''MISSES'', Word (show_nat (stat_misses s)),
      Word ''VALUES'', Word (show_nat (stat_values s))]"

fun wf_response :: "(json \<Rightarrow> bool) \<Rightarrow> response \<Rightarrow> bool" where
  "wf_response R (RValue v ttl) \<longleftrightarrow> R v \<and> fits u64_max ttl"
| "wf_response R (RMiss n) \<longleftrightarrow> n \<le> u64_max"
| "wf_response R (AuthPending n) \<longleftrightarrow> n \<le> u64_max"
| "wf_response R (AuthSuccess _ n) \<longleftrightarrow> n \<le> u64_max"
| "wf_response R (RStats s) \<longleftrightarrow>
     stat_requests s \<le> u64_max \<and> stat_hits s \<le> u64_max \<and> stat_misses s \<le> u64_max
     \<and> stat_values s \<le> u64_max"
| "wf_response R _ \<longleftrightarrow> True"

fun safe_response :: "command \<Rightarrow> response \<Rightarrow> bool" where
  "safe_response (Get n k) (RValue v _) \<longleftrightarrow> wire_safe (as_str n) \<and> wire_safe (key_str k) \<and> safe_value v"
| "safe_response c (AuthSuccess i _) \<longleftrightarrow> wire_safe i"
| "safe_response c (AuthFailure m) \<longleftrightarrow> wire_safe m"
| "safe_response c (RError m) \<longleftrightarrow> wire_safe m"
| "safe_response c _ \<longleftrightarrow> True"

lemma value_args_safe [simp]:
  "list_all arg_safe (value_args n k v ttl) \<longleftrightarrow> wire_safe (as_str n) \<and> wire_safe (key_str k) \<and> safe_value v"
  by (simp add: value_args_def safe_value_def)

lemma response_args_safe:
  "answer_allowed c r \<Longrightarrow> list_all arg_safe (response_args c r) \<longleftrightarrow> safe_response c r"
  by (cases r; cases c) auto

section \<open>Callbacks as arguments\<close>

fun callback_args :: "codec \<Rightarrow> server_command \<Rightarrow> wire_arg list" where
  "callback_args cd (Query i n k) =
     [Word ''QUERY'', Word (uuid_to_string cd i), Text (as_str n), Text (key_str k)]"
| "callback_args cd (PersistSet i n k v ttl) =
     [Word ''PERSIST_SET'', Word (uuid_to_string cd i), Text (as_str n), Text (key_str k), Lit v]
     @ named_args ''EX'' ttl"
| "callback_args cd (PersistSetBatch i n es ttl) =
     [Word ''PERSIST_SET_BATCH'', Word (uuid_to_string cd i), Text (as_str n)]
     @ concat (map entry_args es) @ named_args ''EX'' ttl"
| "callback_args cd (PersistDelete i n p) =
     [Word ''PERSIST_DELETE'', Word (uuid_to_string cd i), Text (as_str n)]
     @ (case p of None \<Rightarrow> [] | Some kp \<Rightarrow> [Text (kp_str kp)])"
| "callback_args cd (PersistMove i s d) =
     [Word ''PERSIST_MOVE'', Word (uuid_to_string cd i), Text (as_str s), Text (as_str d)]"

text \<open>The mutation or lookup that a callback asks an adapter for, as the command a client would send.\<close>

fun callback_command :: "server_command \<Rightarrow> command" where
  "callback_command (Query _ n k) = Get n k"
| "callback_command (PersistSet _ n k v ttl) = Set n k v ttl"
| "callback_command (PersistSetBatch _ n es ttl) = SetBatch n es ttl"
| "callback_command (PersistDelete _ n p) = Delete n p"
| "callback_command (PersistMove _ s d) = Move s d"

lemma callback_args_safe: "list_all arg_safe (callback_args cd c) \<longleftrightarrow> safe_command (callback_command c)"
  by (cases c) (auto simp: safe_value_def split: option.splits)

text \<open>
  A callback result carries what its wire form keeps: an error hides the value, and a miss and an
  error have no time to live.
\<close>

fun normal_result :: "server_result \<Rightarrow> server_result" where
  "normal_result (Operation i e) = Operation i e"
| "normal_result (QueryResult i v (Some e) ttl) = QueryResult i None (Some e) None"
| "normal_result (QueryResult i (Some v) None ttl) = QueryResult i (Some v) None ttl"
| "normal_result (QueryResult i None None ttl) = QueryResult i None None None"

fun result_args :: "codec \<Rightarrow> server_command \<Rightarrow> server_result \<Rightarrow> wire_arg list" where
  "result_args cd c (Operation i e) =
     [Word ''OPERATION'', Word (uuid_to_string cd i)]
     @ (case e of None \<Rightarrow> [Word ''OK''] | Some m \<Rightarrow> [Word ''KO'', Text m])"
| "result_args cd c (QueryResult i v e ttl) =
     [Word ''QUERY_RESULT'', Word (uuid_to_string cd i)]
     @ (case e of
          Some m \<Rightarrow> [Word ''KO'', Text m]
        | None \<Rightarrow> (case v of None \<Rightarrow> [Word ''MISS'']
                           | Some found \<Rightarrow> (case c of Query _ n k \<Rightarrow> value_args n k found ttl | _ \<Rightarrow> [])))"

fun result_id :: "server_result \<Rightarrow> uuid" where
  "result_id (Operation i _) = i"
| "result_id (QueryResult i _ _ _) = i"

text \<open>The kind of result a callback expects.\<close>

fun result_fits :: "server_command \<Rightarrow> server_result \<Rightarrow> bool" where
  "result_fits (Query _ _ _) r = (case r of QueryResult _ _ _ _ \<Rightarrow> True | _ \<Rightarrow> False)"
| "result_fits _ r = (case r of Operation _ _ \<Rightarrow> True | _ \<Rightarrow> False)"

fun wf_result :: "(json \<Rightarrow> bool) \<Rightarrow> server_result \<Rightarrow> bool" where
  "wf_result R (QueryResult _ (Some v) None ttl) \<longleftrightarrow> R v \<and> fits u64_max ttl"
| "wf_result R _ \<longleftrightarrow> True"

fun safe_result :: "server_command \<Rightarrow> server_result \<Rightarrow> bool" where
  "safe_result c (Operation _ (Some m)) \<longleftrightarrow> wire_safe m"
| "safe_result c (QueryResult _ _ (Some m) _) \<longleftrightarrow> wire_safe m"
| "safe_result (Query _ n k) (QueryResult _ (Some v) None _) \<longleftrightarrow>
     wire_safe (as_str n) \<and> wire_safe (key_str k) \<and> safe_value v"
| "safe_result c _ \<longleftrightarrow> True"

lemma result_args_safe:
  "result_fits c r \<Longrightarrow> list_all arg_safe (result_args cd c r) \<longleftrightarrow> safe_result c r"
  by (cases "(c, r)" rule: safe_result.cases) (auto split: option.splits)

end
