(* ===== verification/Line_Answers.thy ===== *)
theory Line_Answers
  imports Line_Roundtrip
begin

text \<open>
  The other three frame kinds of \<open>line_protocol.rs\<close>: answers in the context of their command,
  callbacks, and callback results in the context of their callback. Their round trips, and what a
  decoder guarantees of any frame it accepts.
\<close>

section \<open>Round trips\<close>

context codec_laws
begin

lemma value_args_ok: "representable v \<Longrightarrow> a \<in> set (value_args n k v ttl) \<Longrightarrow> arg_ok a"
  by (auto simp: value_args_def named_args_def split: option.splits)

lemma response_args_ok:
  "answer_allowed c r \<Longrightarrow> wf_response representable r \<Longrightarrow> a \<in> set (response_args c r) \<Longrightarrow> arg_ok a"
  by (cases r; cases c) (auto intro: value_args_ok)

lemma value_args_text:
  "frame_text (value_args n k v ttl) =
     ''SET '' @ arg_text (Text (as_str n)) @ '' '' @ arg_text (Text (key_str k)) @ '' '' @ arg_text (Lit v)
     @ ttl_suffix ttl"
  by (simp add: value_args_def ttl_suffix_args)

lemma encode_response_args:
  assumes "answer_allowed c r" and "wf_response representable r"
  shows "encode_response cd c r = Inr (frame_text (response_args c r))"
proof (cases r)
  case (RValue v ttl)
  with assms obtain n k where c: "c = Get n k" by (cases c) auto
  have v: "representable v" using assms(2) RValue by simp
  show ?thesis
    unfolding RValue c encode_response.simps[of cd]
    by (simp add: quote_arg value_text_arg[OF v] value_args_text del: arg_text.simps)
qed (use assms in \<open>auto simp: encode_response.simps[of cd] quote_arg simp del: arg_text.simps(2)\<close>)

lemma decode_value_args:
  assumes "representable v" and "fits u64_max ttl"
  shows "decode_value_answer cd (Get n k) (map arg_token (value_args n k v ttl)) = Inr (RValue v ttl)"
  using assms value_literal_arg[OF assms(1)]
  by (cases ttl)
    (simp_all add: decode_value_answer_def value_args_def named_args_def option_arg_def args_defs
      del: arg_token.simps(4))

lemma decode_response_args:
  assumes "answer_allowed c r" and "wf_response representable r"
    and tokens: "frame_tokens cd frame = Inr (map arg_token (response_args c r))"
  shows "decode_response cd c frame = Inr r"
proof (cases r)
  case (RValue v ttl)
  with assms obtain n k where c: "c = Get n k" by (cases c) auto
  let ?t = "map arg_token (value_args n k v ttl)"
  have t: "frame_tokens cd frame = Inr ?t" using tokens RValue c by simp
  have "\<not> tok_quoted (?t ! 0)" "word_arg ?t 0 = Inr ''SET''"
    by (simp_all add: value_args_def word_arg_def get_token_def)
  moreover have "decode_value_answer cd c ?t = Inr r"
    using decode_value_args assms(2) RValue c by simp
  ultimately show ?thesis by (simp add: decode_response_def t)
next
  case (RStats s)
  with assms have "c = StatsCmd" by (cases c) auto
  with RStats assms show ?thesis
    by (simp add: decode_response_def decode_stats_answer_def args_defs)
qed (use assms in \<open>cases c; simp add: decode_response_def decode_miss_answer_def args_defs\<close>)+

lemma response_roundtrip:
  assumes "answer_allowed c r" and "wf_response representable r"
  obtains f where "encode_response cd c r = Inr f"
    and "length f \<le> MAX_FRAME_BYTES \<Longrightarrow>
      decode_response cd c f = (if safe_response c r then Inr r else protocol_error ''invalid quoted escape'')"
proof (rule that)
  let ?as = "response_args c r"
  show "encode_response cd c r = Inr (frame_text ?as)" by (rule encode_response_args[OF assms])
  assume short: "length (frame_text ?as) \<le> MAX_FRAME_BYTES"
  show "decode_response cd c (frame_text ?as)
      = (if safe_response c r then Inr r else protocol_error ''invalid quoted escape'')"
  proof (rule frame_roundtrip[OF _ response_args_ok[OF assms] short response_args_safe[OF assms(1)]
        decode_response_args[OF assms]])
    show "?as \<noteq> []" using assms(1) by (cases r; cases c) (simp_all add: value_args_def)
  qed (simp_all add: decode_response_def)
qed

lemma callback_args_ok:
  "wf_command representable (callback_command c) \<Longrightarrow> a \<in> set (callback_args cd c) \<Longrightarrow> arg_ok a"
  by (cases c) (auto simp: uuid_form named_args_def intro: entry_args_ok split: option.splits)

lemma encode_callback_args:
  "wf_command representable (callback_command c) \<Longrightarrow>
     encode_server_command cd c = Inr (frame_text (callback_args cd c))"
  by (cases c)
    (auto simp: quote_arg value_text_arg push_entries_args ttl_suffix_args
      simp del: arg_text.simps(2,4) split: option.splits)

lemma decode_persist_batch_args:
  assumes "es \<noteq> []" and "\<And>e. e \<in> set es \<Longrightarrow> wf_entry representable e" and "fits u64_max ttl" and "wf_ns n"
    and as: "as = [Word ''PERSIST_SET_BATCH'', Word u, Text (as_str n)]
      @ concat (map entry_args es) @ named_args ''EX'' ttl"
  shows "decode_persist_set_batch cd i (map arg_token as) = Inr (PersistSetBatch i n es ttl)"
proof -
  let ?t = "map arg_token as" and ?finish = "3 + 2 * length es"
  have finish: "batch_end ?t 4 = ?finish" and ttl: "batch_ttl ?t ?finish = Inr ttl"
    using batch_end_args[OF assms(1) as _ assms(3), of 4] by (simp_all add: eval_nat_numeral)
  have entries: "decode_entries cd ?t 3 ?finish = Inr es"
    by (rule decode_entries_args[OF assms(2), where pre = "[Word ''PERSIST_SET_BATCH'', Word u, Text (as_str n)]"
          and post = "named_args ''EX'' ttl"]) (simp_all add: as)
  have ns: "namespace_arg ?t 2 = Inr n"
    using assms(4) by (simp add: as namespace_arg_def word_arg_def get_token_def wf_ns_new)
  have "\<not> length ?t < 5" using assms(1) by (cases es) (simp_all add: as)
  moreover have "\<not> (?finish \<le> 3 \<or> (?finish - 3) mod 2 \<noteq> 0)" using assms(1) by simp
  ultimately show ?thesis
    unfolding decode_persist_set_batch_def Let_def finish entries ns ttl by simp
qed

lemma decode_callback_args:
  assumes wf: "wf_command representable (callback_command c)"
    and tokens: "frame_tokens cd frame = Inr (map arg_token (callback_args cd c))"
  shows "decode_server_command cd frame = Inr c"
proof -
  have i: "uuid_arg cd (map arg_token (callback_args cd c)) 1 = Inr (request_id c)"
    by (rule uuid_arg_at) (cases c; simp)+
  show ?thesis
  proof (cases c)
    case (PersistSet j n k v ttl)
    with tokens wf value_literal_arg[of v] i show ?thesis
      by (cases ttl)
        (simp_all add: decode_server_command_def decode_persist_set_def named_args_def option_arg_def args_defs
          wf_ns_new del: arg_token.simps(4))
  next
    case (PersistSetBatch j n es ttl)
    with tokens wf i decode_persist_batch_args[OF _ _ _ _ refl, of es ttl n j "uuid_to_string cd j"] show ?thesis
      by (simp add: decode_server_command_def word_arg_def get_token_def)
  next
    case (PersistDelete j n p)
    with tokens wf i show ?thesis
      by (cases p) (simp_all add: decode_server_command_def decode_persist_delete_def args_defs wf_ns_new)
  qed (use tokens wf i in \<open>simp_all add: decode_server_command_def args_defs wf_ns_new\<close>)
qed

lemma callback_roundtrip:
  assumes "wf_command representable (callback_command c)"
  obtains f where "encode_server_command cd c = Inr f"
    and "length f \<le> MAX_FRAME_BYTES \<Longrightarrow> decode_server_command cd f
      = (if safe_command (callback_command c) then Inr c else protocol_error ''invalid quoted escape'')"
proof (rule that)
  let ?as = "callback_args cd c"
  show "encode_server_command cd c = Inr (frame_text ?as)" by (rule encode_callback_args[OF assms])
  assume short: "length (frame_text ?as) \<le> MAX_FRAME_BYTES"
  show "decode_server_command cd (frame_text ?as)
      = (if safe_command (callback_command c) then Inr c else protocol_error ''invalid quoted escape'')"
  proof (rule frame_roundtrip[OF _ callback_args_ok[OF assms] short callback_args_safe decode_callback_args[OF assms]])
    show "?as \<noteq> []" by (cases c) simp_all
  qed (simp_all add: decode_server_command_def)
qed

lemma result_args_ok:
  "result_fits c r \<Longrightarrow> wf_result representable r \<Longrightarrow> a \<in> set (result_args cd c r) \<Longrightarrow> arg_ok a"
  by (cases r; cases c) (auto simp: uuid_form intro: value_args_ok split: option.splits)

lemma encode_result_args:
  assumes "result_fits c r" and "result_id r = request_id c" and "wf_result representable r"
  shows "encode_server_result cd c r = Inr (frame_text (result_args cd c r))"
proof (cases c)
  case (Query i n k)
  with assms(1,2) obtain v e ttl where r: "r = QueryResult i v e ttl" by (cases r) auto
  have "frame_text (Word a # Word b # value_args n k x tt) = a @ '' '' @ b @ '' '' @ frame_text (value_args n k x tt)"
    for a b x tt by (simp add: value_args_def)
  with Query r assms(3) show ?thesis
    by (cases e; cases v)
      (simp_all add: encode_query_answer_def quote_arg value_text_arg value_args_text del: arg_text.simps(2,4))
qed (use assms in \<open>cases r; auto simp: encode_operation_result_def quote_arg simp del: arg_text.simps(2) split: option.splits\<close>)+

lemma decode_query_value_args:
  assumes "representable v" and "fits u64_max ttl"
  shows "decode_query_result cd i n k (map arg_token (Word ''QUERY_RESULT'' # Word u # value_args n k v ttl))
    = Inr (QueryResult i (Some v) None ttl)"
  using assms value_literal_arg[OF assms(1)]
  by (cases ttl)
    (simp_all add: decode_query_result_def value_args_def named_args_def option_arg_def args_defs
      del: arg_token.simps(4))

lemma decode_result_args:
  assumes "result_fits c r" and "result_id r = request_id c" and "wf_result representable r"
    and tokens: "frame_tokens cd frame = Inr (map arg_token (result_args cd c r))"
  shows "decode_server_result cd c frame = Inr (normal_result r)"
proof -
  let ?t = "map arg_token (result_args cd c r)"
  have i: "uuid_arg cd ?t 1 = Inr (request_id c)"
    by (rule uuid_arg_at) (use assms(2) in \<open>cases r; simp\<close>)+
  have "\<not> tok_quoted (?t ! 0)" by (cases r) simp_all
  then have body: "decode_server_result cd c frame = (case c of
      Query _ n k \<Rightarrow> decode_query_result cd (request_id c) n k ?t
    | _ \<Rightarrow> decode_operation_result (request_id c) ?t)"
    by (simp add: decode_server_result_def tokens i del: One_nat_def)
  show ?thesis
  proof (cases c)
    case (Query j n k)
    with assms(1,2) obtain v e ttl where r: "r = QueryResult j v e ttl" by (cases r) auto
    show ?thesis
      using body assms(3) Query r decode_query_value_args[of _ ttl j n k "uuid_to_string cd j"]
      by (cases e; cases v) (simp_all add: decode_query_result_def args_defs)
  qed (use body assms(1,2) in
      \<open>cases r; auto simp: decode_operation_result_def args_defs split: option.splits\<close>)+
qed

lemma result_roundtrip:
  assumes "result_fits c r" and "result_id r = request_id c" and "wf_result representable r"
  obtains f where "encode_server_result cd c r = Inr f"
    and "length f \<le> MAX_FRAME_BYTES \<Longrightarrow> decode_server_result cd c f
      = (if safe_result c r then Inr (normal_result r) else protocol_error ''invalid quoted escape'')"
proof (rule that)
  let ?as = "result_args cd c r"
  show "encode_server_result cd c r = Inr (frame_text ?as)" by (rule encode_result_args[OF assms])
  assume short: "length (frame_text ?as) \<le> MAX_FRAME_BYTES"
  show "decode_server_result cd c (frame_text ?as)
      = (if safe_result c r then Inr (normal_result r) else protocol_error ''invalid quoted escape'')"
  proof (rule frame_roundtrip[OF _ result_args_ok[OF assms(1,3)] short result_args_safe[OF assms(1)]
        decode_result_args[OF assms]])
    show "?as \<noteq> []" by (cases r) simp_all
  qed (simp_all add: decode_server_result_def)
qed

end

section \<open>What decoders guarantee\<close>

lemma decode_value_answer_get:
  "decode_value_answer cd c t = Inr r \<Longrightarrow> \<exists>n k v ttl. c = Get n k \<and> r = RValue v ttl"
  by (auto simp: decode_value_answer_def and_then_Inr_iff split: if_splits command.splits)

lemma decode_stats_answer_stats:
  "decode_stats_answer c t = Inr r \<Longrightarrow> \<exists>s. c = StatsCmd \<and> r = RStats s"
  by (auto simp: decode_stats_answer_def and_then_Inr_iff split: if_splits)

lemma if_InrE:
  assumes "(if b then x else y) = Inr r"
  obtains "b" "x = Inr r" | "\<not> b" "y = Inr r"
  using assms by (cases b) auto

lemma and_then_InrE:
  assumes "and_then x g = Inr r"
  obtains a where "x = Inr a" "g a = Inr r"
  using assms by (cases x) auto

lemma answer_allowed_kind:
  "is_auth c \<Longrightarrow> answer_allowed c (AuthSuccess i n)" "is_auth c \<Longrightarrow> answer_allowed c (AuthPending n)"
  "is_auth c \<Longrightarrow> answer_allowed c (AuthFailure m)" "\<not> is_auth c \<Longrightarrow> answer_allowed c (RError m)"
  "is_get c \<Longrightarrow> answer_allowed c (RMiss n)" "is_get c \<Longrightarrow> answer_allowed c RUnknown"
  "is_acknowledged c \<Longrightarrow> answer_allowed c ROk"
  by (cases c; simp)+

lemma decode_query_result_kind:
  "decode_query_result cd i n k t = Inr r \<Longrightarrow>
     keyword t 0 ''QUERY_RESULT'' = Inr () \<and> normal_result r = r
     \<and> (\<exists>v e ttl. r = QueryResult i v e ttl)"
  by (auto simp: decode_query_result_def and_then_Inr_iff split: if_splits)

lemma decode_operation_result_kind:
  "decode_operation_result i t = Inr r \<Longrightarrow>
     keyword t 0 ''OPERATION'' = Inr () \<and> (\<exists>e. r = Operation i e)"
  by (auto simp: decode_operation_result_def and_then_Inr_iff split: if_splits)

lemma keyword_word: "keyword t i w = Inr () \<Longrightarrow> word_arg t i = Inr w"
  by (auto simp: keyword_def and_then_Inr_iff word_arg_def split: if_splits)

lemma decode_server_result_sound:
  assumes "decode_server_result cd c f = Inr r"
  shows "result_id r = request_id c \<and> result_fits c r \<and> normal_result r = r
    \<and> callback_request_id cd f = Inr (request_id c)"
proof -
  obtain t where t: "frame_tokens cd f = Inr t" "\<not> tok_quoted (t ! 0)"
    and i: "uuid_arg cd t 1 = Inr (request_id c)"
    and body: "(case c of Query _ n k \<Rightarrow> decode_query_result cd (request_id c) n k t
      | _ \<Rightarrow> decode_operation_result (request_id c) t) = Inr r"
    using assms by (auto simp: decode_server_result_def and_then_Inr_iff split: if_splits)
  have kind: "result_id r = request_id c \<and> result_fits c r \<and> normal_result r = r
      \<and> (word_arg t 0 = Inr ''OPERATION'' \<or> word_arg t 0 = Inr ''QUERY_RESULT'')"
    using body
    by (cases c)
      (auto dest!: decode_query_result_kind decode_operation_result_kind dest: keyword_word)
  then have "callback_request_id cd f = Inr (request_id c)"
    using t i by (auto simp: callback_request_id_def)
  with kind show ?thesis by blast
qed

end
