(* ===== verification/Server_Callbacks.thy ===== *)
theory Server_Callbacks
  imports Line_Answers Broker
begin

text \<open>
  Callback correlation of \<open>valkyr-server/src/lib.rs\<close>: connections, the results the server waits
  for, and the tasks that register, complete, time out and cancel them.

  The server's tasks run concurrently and interleave at every \<open>await\<close>. Each section that runs
  under one lock is a definition on the record \<open>server_calls\<close>; the methods of \<open>Server\<close> are their
  compositions, and the relation \<open>callback_step\<close> interleaves them: a task is the rest of a method
  that still has to run. A connection handle is shared (\<open>Arc\<close>), so it outlives its entry in the
  connection table; \<open>sv_handles\<close> keeps every handle ever made. The two ends of a one-shot channel
  are its state in \<open>sv_channels\<close>. \<open>sv_issued\<close> and \<open>sv_asked\<close> record which request ids and channels
  were used for which callback; the code does not read them.
\<close>

section \<open>State\<close>

record connection_handle =
  ch_outbound :: "string list"
  ch_outbound_open :: bool
  ch_adapter_instance :: "uuid option"
  ch_ids :: "uuid set"
  ch_closed :: bool
  ch_shutdown :: bool

definition new_handle :: connection_handle where
  "new_handle =
     \<lparr> ch_outbound = [], ch_outbound_open = True, ch_adapter_instance = None, ch_ids = {},
       ch_closed = False, ch_shutdown = False \<rparr>"

record pending_result =
  pr_owner :: uuid
  pr_sender :: nat
  pr_command :: server_command

datatype oneshot = Open | Sent server_result | SenderDropped | ReceiverDropped

text \<open>The rest of a method that a task still has to run.\<close>

datatype task =
    Invoke_Send dispatch nat
  | Invoke_Wait dispatch nat
  | Remove_Entry uuid uuid
  | Remove_Id uuid uuid
  | Complete_Take server_result
  | Complete_Lookup uuid server_result nat
  | Complete_Forget uuid server_result nat
  | Complete_Send server_result nat
  | Close_Mark uuid
  | Close_Unlink uuid "uuid set"
  | Close_Drop uuid "uuid set"

record server_calls =
  sv_handles :: "uuid \<rightharpoonup> connection_handle"
  sv_connections :: "uuid set"
  sv_pending :: "uuid \<rightharpoonup> pending_result"
  sv_channels :: "nat \<Rightarrow> oneshot"
  sv_outbound_capacity :: nat
  sv_tasks :: "nat \<rightharpoonup> task"
  sv_issued :: "uuid \<rightharpoonup> server_command"
  sv_asked :: "nat \<rightharpoonup> server_command"

definition DEFAULT_OUTBOUND_CAPACITY :: nat where
  "DEFAULT_OUTBOUND_CAPACITY = 256"

definition new_server_calls :: server_calls where
  "new_server_calls =
     \<lparr> sv_handles = Map.empty, sv_connections = {}, sv_pending = Map.empty, sv_channels = (\<lambda>_. Open),
       sv_outbound_capacity = DEFAULT_OUTBOUND_CAPACITY, sv_tasks = Map.empty, sv_issued = Map.empty,
       sv_asked = Map.empty \<rparr>"

section \<open>Sections under one lock\<close>

definition update_handle ::
    "uuid \<Rightarrow> (connection_handle \<Rightarrow> connection_handle) \<Rightarrow> server_calls \<Rightarrow> server_calls" where
  "update_handle i f s = s\<lparr> sv_handles := (sv_handles s)(i := map_option f (sv_handles s i)) \<rparr>"

definition close_handle :: "uuid \<Rightarrow> server_calls \<Rightarrow> server_calls" where
  "close_handle i = update_handle i (\<lambda>h. h\<lparr> ch_shutdown := True \<rparr>)"

definition open_connection :: "uuid \<Rightarrow> server_calls \<Rightarrow> server_calls" where
  "open_connection i s =
     s\<lparr> sv_handles := (sv_handles s)(i \<mapsto> new_handle), sv_connections := insert i (sv_connections s) \<rparr>"

text \<open>Dropping a sender wakes its receiver with an error.\<close>

definition drop_sender :: "nat \<Rightarrow> (nat \<Rightarrow> oneshot) \<Rightarrow> nat \<Rightarrow> oneshot" where
  "drop_sender c cs = (if cs c = Open then cs(c := SenderDropped) else cs)"

definition remove_entry :: "uuid \<Rightarrow> server_calls \<Rightarrow> server_calls" where
  "remove_entry rid s =
     (case sv_pending s rid of
        None \<Rightarrow> s
      | Some p \<Rightarrow> s\<lparr> sv_pending := (sv_pending s)(rid := None),
                     sv_channels := drop_sender (pr_sender p) (sv_channels s) \<rparr>)"

definition forget_id :: "uuid \<Rightarrow> uuid \<Rightarrow> server_calls \<Rightarrow> server_calls" where
  "forget_id owner rid = update_handle owner (\<lambda>h. h\<lparr> ch_ids := ch_ids h - {rid} \<rparr>)"

definition register_pending_result ::
    "uuid \<Rightarrow> uuid \<Rightarrow> server_command \<Rightarrow> nat \<Rightarrow> server_calls \<Rightarrow> bool \<times> server_calls" where
  "register_pending_result owner rid command' sender s =
     (case sv_handles s owner of
        None \<Rightarrow> (False, s)
      | Some h \<Rightarrow>
          if ch_closed h then (False, s\<lparr> sv_channels := drop_sender sender (sv_channels s) \<rparr>)
          else (True,
                update_handle owner (\<lambda>h. h\<lparr> ch_ids := insert rid (ch_ids h) \<rparr>)
                  ((remove_entry rid s)\<lparr> sv_pending := (sv_pending s)(rid \<mapsto>
                      \<lparr> pr_owner = owner, pr_sender = sender, pr_command = command' \<rparr>) \<rparr>)))"

definition take_pending :: "uuid \<Rightarrow> server_calls \<Rightarrow> pending_result option \<times> server_calls" where
  "take_pending rid s = (sv_pending s rid, s\<lparr> sv_pending := (sv_pending s)(rid := None) \<rparr>)"

definition send_result :: "nat \<Rightarrow> server_result \<Rightarrow> server_calls \<Rightarrow> server_calls" where
  "send_result c r s =
     (if sv_channels s c = Open then s\<lparr> sv_channels := (sv_channels s)(c := Sent r) \<rparr> else s)"

definition take_ids :: "uuid \<Rightarrow> server_calls \<Rightarrow> uuid set \<times> server_calls" where
  "take_ids i s =
     (case sv_handles s i of
        None \<Rightarrow> ({}, s)
      | Some h \<Rightarrow> (ch_ids h, update_handle i (\<lambda>h. h\<lparr> ch_closed := True, ch_ids := {} \<rparr>) s))"

definition unlink :: "uuid \<Rightarrow> server_calls \<Rightarrow> server_calls" where
  "unlink i s = s\<lparr> sv_connections := sv_connections s - {i} \<rparr>"

text \<open>The loop that removes the entries of a closed connection runs under one lock.\<close>

definition drop_entries :: "uuid set \<Rightarrow> server_calls \<Rightarrow> server_calls" where
  "drop_entries ids s =
     s\<lparr> sv_pending := (\<lambda>rid. if rid \<in> ids then None else sv_pending s rid),
        sv_channels := (\<lambda>c.
          if (\<exists>rid \<in> ids. map_option pr_sender (sv_pending s rid) = Some c) \<and> sv_channels s c = Open
          then SenderDropped else sv_channels s c) \<rparr>"

definition try_send :: "uuid \<Rightarrow> string \<Rightarrow> server_calls \<Rightarrow> bool \<times> server_calls" where
  "try_send i message s =
     (case sv_handles s i of
        None \<Rightarrow> (False, s)
      | Some h \<Rightarrow>
          if ch_outbound_open h \<and> length (ch_outbound h) < sv_outbound_capacity s
          then (True, update_handle i (\<lambda>h. h\<lparr> ch_outbound := ch_outbound h @ [message] \<rparr>) s)
          else (False, s))"

section \<open>Methods\<close>

definition remove_pending_result :: "uuid \<Rightarrow> uuid \<Rightarrow> server_calls \<Rightarrow> server_calls" where
  "remove_pending_result owner rid s = forget_id owner rid (remove_entry rid s)"

definition complete_result :: "server_result \<Rightarrow> server_calls \<Rightarrow> server_calls" where
  "complete_result r s =
     (case take_pending (result_id r) s of
        (None, s') \<Rightarrow> s'
      | (Some p, s') \<Rightarrow>
          send_result (pr_sender p) r
            (if pr_owner p \<in> sv_connections s' then forget_id (pr_owner p) (result_id r) s' else s'))"

definition remove_connection :: "uuid \<Rightarrow> server_calls \<Rightarrow> server_calls" where
  "remove_connection i s =
     (case take_ids i s of (ids, s') \<Rightarrow> drop_entries ids (unlink i s'))"

text \<open>
  \<open>invoke\<close> up to its wait: the handle is looked up, the result registered, the callback encoded
  and queued. The error it returns early with, or the wait on the channel.
\<close>

definition invoke_send :: "codec \<Rightarrow> dispatch \<Rightarrow> server_calls \<Rightarrow> unit result \<times> server_calls" where
  "invoke_send cd d s =
     (case encode_server_command cd (d_command d) of
        Inl e \<Rightarrow> (Inl e, remove_pending_result (d_owner d) (request_id (d_command d)) s)
      | Inr encoded \<Rightarrow>
          (case try_send (d_owner d) encoded s of
             (True, s') \<Rightarrow> (Inr (), s')
           | (False, s') \<Rightarrow>
               (Inl (Connection ''registered connection cannot receive callbacks''),
                close_handle (d_owner d)
                  (remove_pending_result (d_owner d) (request_id (d_command d)) s'))))"

definition invoke :: "codec \<Rightarrow> dispatch \<Rightarrow> nat \<Rightarrow> server_calls \<Rightarrow> unit result \<times> server_calls" where
  "invoke cd d sender s =
     (if d_owner d \<notin> sv_connections s
      then (Inl (Connection ''registered connection has closed''), s)
      else case register_pending_result (d_owner d) (request_id (d_command d)) (d_command d) sender s of
             (False, s') \<Rightarrow> (Inl (Connection ''registered connection has closed''), s')
           | (True, s') \<Rightarrow> invoke_send cd d s')"

text \<open>The end of the wait: the channel's state, or the timeout while it is still open.\<close>

definition invoke_result :: "oneshot \<Rightarrow> server_result result" where
  "invoke_result c =
     (case c of
        Sent r \<Rightarrow> Inr r
      | SenderDropped \<Rightarrow> Inl (Connection ''callback was cancelled'')
      | _ \<Rightarrow> Inl (Connection ''callback timed out''))"

section \<open>Interleaved tasks\<close>

definition start :: "nat \<Rightarrow> task \<Rightarrow> server_calls \<Rightarrow> server_calls" where
  "start t k s = s\<lparr> sv_tasks := (sv_tasks s)(t \<mapsto> k) \<rparr>"

definition finish :: "nat \<Rightarrow> server_calls \<Rightarrow> server_calls" where
  "finish t s = s\<lparr> sv_tasks := (sv_tasks s)(t := None) \<rparr>"

definition issue :: "dispatch \<Rightarrow> nat \<Rightarrow> server_calls \<Rightarrow> server_calls" where
  "issue d c s =
     s\<lparr> sv_issued := (sv_issued s)(request_id (d_command d) \<mapsto> d_command d),
        sv_asked := (sv_asked s)(c \<mapsto> d_command d), sv_channels := (sv_channels s)(c := Open) \<rparr>"

inductive callback_step :: "codec \<Rightarrow> server_calls \<Rightarrow> server_calls \<Rightarrow> bool" for cd where
  connect: "sv_handles s i = None \<Longrightarrow> callback_step cd s (open_connection i s)"
| writer_ends: "callback_step cd s (update_handle i (\<lambda>h. h\<lparr> ch_outbound_open := False \<rparr>) s)"
| written: "callback_step cd s (update_handle i (\<lambda>h. h\<lparr> ch_outbound := tl (ch_outbound h) \<rparr>) s)"
| adapter_known: "callback_step cd s (update_handle i (\<lambda>h. h\<lparr> ch_adapter_instance := a \<rparr>) s)"
| register: "sv_handles s (d_owner d) \<noteq> None \<Longrightarrow> sv_issued s (request_id (d_command d)) = None \<Longrightarrow>
    sv_asked s c = None \<Longrightarrow> sv_tasks s t = None \<Longrightarrow>
    register_pending_result (d_owner d) (request_id (d_command d)) (d_command d) c (issue d c s) = (ok, s') \<Longrightarrow>
    callback_step cd s (if ok then start t (Invoke_Send d c) s' else s')"
| send_unencodable: "sv_tasks s t = Some (Invoke_Send d c) \<Longrightarrow>
    encode_server_command cd (d_command d) = Inl e \<Longrightarrow>
    callback_step cd s (start t (Remove_Entry (d_owner d) (request_id (d_command d))) s)"
| send: "sv_tasks s t = Some (Invoke_Send d c) \<Longrightarrow>
    encode_server_command cd (d_command d) = Inr encoded \<Longrightarrow>
    try_send (d_owner d) encoded s = (True, s') \<Longrightarrow> callback_step cd s (start t (Invoke_Wait d c) s')"
| send_full: "sv_tasks s t = Some (Invoke_Send d c) \<Longrightarrow>
    encode_server_command cd (d_command d) = Inr encoded \<Longrightarrow>
    try_send (d_owner d) encoded s = (False, s') \<Longrightarrow>
    callback_step cd s (start t (Remove_Entry (d_owner d) (request_id (d_command d))) (close_handle (d_owner d) s'))"
| answered: "sv_tasks s t = Some (Invoke_Wait d c) \<Longrightarrow> sv_channels s c = Sent r \<Longrightarrow>
    callback_step cd s (finish t s)"
| cancelled: "sv_tasks s t = Some (Invoke_Wait d c) \<Longrightarrow> sv_channels s c = SenderDropped \<Longrightarrow>
    callback_step cd s (start t (Remove_Entry (d_owner d) (request_id (d_command d))) s)"
| timed_out: "sv_tasks s t = Some (Invoke_Wait d c) \<Longrightarrow> sv_channels s c = Open \<Longrightarrow>
    callback_step cd s (start t (Remove_Entry (d_owner d) (request_id (d_command d)))
      (s\<lparr> sv_channels := (sv_channels s)(c := ReceiverDropped) \<rparr>))"
| remove_first: "sv_tasks s t = Some (Remove_Entry owner rid) \<Longrightarrow>
    callback_step cd s (start t (Remove_Id owner rid) (remove_entry rid s))"
| remove_second: "sv_tasks s t = Some (Remove_Id owner rid) \<Longrightarrow>
    callback_step cd s (finish t (forget_id owner rid s))"
| receive: "via \<in> sv_connections s \<Longrightarrow> callback_request_id cd line = Inr rid \<Longrightarrow>
    sv_pending s rid = Some p \<Longrightarrow> decode_server_result cd (pr_command p) line = Inr r \<Longrightarrow>
    sv_tasks s t = None \<Longrightarrow> callback_step cd s (start t (Complete_Take r) s)"
| complete_take: "sv_tasks s t = Some (Complete_Take r) \<Longrightarrow> take_pending (result_id r) s = (Some p, s') \<Longrightarrow>
    callback_step cd s (start t (Complete_Lookup (pr_owner p) r (pr_sender p)) s')"
| complete_unknown: "sv_tasks s t = Some (Complete_Take r) \<Longrightarrow> take_pending (result_id r) s = (None, s') \<Longrightarrow>
    callback_step cd s (finish t s')"
| complete_lookup: "sv_tasks s t = Some (Complete_Lookup owner r c) \<Longrightarrow>
    callback_step cd s (start t (if owner \<in> sv_connections s then Complete_Forget owner r c
                                 else Complete_Send r c) s)"
| complete_forget: "sv_tasks s t = Some (Complete_Forget owner r c) \<Longrightarrow>
    callback_step cd s (start t (Complete_Send r c) (forget_id owner (result_id r) s))"
| complete_send: "sv_tasks s t = Some (Complete_Send r c) \<Longrightarrow>
    callback_step cd s (finish t (send_result c r s))"
| session_ends: "i \<in> sv_connections s \<Longrightarrow> sv_tasks s t = None \<Longrightarrow>
    callback_step cd s (start t (Close_Mark i) s)"
| close_mark: "sv_tasks s t = Some (Close_Mark i) \<Longrightarrow> take_ids i s = (ids, s') \<Longrightarrow>
    callback_step cd s (start t (Close_Unlink i ids) s')"
| close_unlink: "sv_tasks s t = Some (Close_Unlink i ids) \<Longrightarrow>
    callback_step cd s (start t (Close_Drop i ids) (unlink i s))"
| close_drop: "sv_tasks s t = Some (Close_Drop i ids) \<Longrightarrow>
    callback_step cd s (finish t (drop_entries ids s))"

inductive reachable :: "codec \<Rightarrow> server_calls \<Rightarrow> bool" for cd where
  initial: "reachable cd new_server_calls"
| step: "reachable cd s \<Longrightarrow> callback_step cd s s' \<Longrightarrow> reachable cd s'"

end
