(* ===== verification/Server_Correlation.thy ===== *)
theory Server_Correlation
  imports Server_Callbacks
begin

text \<open>
  Invariants of the interleaved callback tasks: request ids identify callbacks, every pending
  result is known to its open connection or to the task that closes it, a delivered result belongs to
  the callback its receiver asked, and a receiver that still waits has someone who will wake it.
\<close>

lemmas call_defs = update_handle_def close_handle_def open_connection_def drop_sender_def remove_entry_def
  forget_id_def take_pending_def send_result_def take_ids_def unlink_def drop_entries_def
  start_def finish_def issue_def

section \<open>Identity\<close>

definition correlated :: "(uuid \<rightharpoonup> server_command) \<Rightarrow> server_result \<Rightarrow> bool" where
  "correlated m r \<longleftrightarrow> (\<exists>c. m (result_id r) = Some c \<and> request_id c = result_id r \<and> result_fits c r)"

definition asked_by :: "(nat \<rightharpoonup> server_command) \<Rightarrow> nat \<Rightarrow> server_result \<Rightarrow> bool" where
  "asked_by m ch r \<longleftrightarrow> (\<exists>c. m ch = Some c \<and> result_id r = request_id c \<and> result_fits c r)"

definition settled :: "server_calls \<Rightarrow> uuid \<Rightarrow> bool" where
  "settled s rid \<longleftrightarrow> sv_issued s rid \<noteq> None \<and> sv_pending s rid = None"

fun task_id_ok :: "server_calls \<Rightarrow> task \<Rightarrow> bool" where
  "task_id_ok s (Invoke_Send d c) \<longleftrightarrow>
     sv_issued s (request_id (d_command d)) \<noteq> None \<and> sv_asked s c = Some (d_command d)"
| "task_id_ok s (Invoke_Wait d c) \<longleftrightarrow>
     sv_issued s (request_id (d_command d)) \<noteq> None \<and> sv_asked s c = Some (d_command d)"
| "task_id_ok s (Remove_Entry owner rid) \<longleftrightarrow> sv_issued s rid \<noteq> None"
| "task_id_ok s (Remove_Id owner rid) \<longleftrightarrow> settled s rid"
| "task_id_ok s (Complete_Take r) \<longleftrightarrow> correlated (sv_issued s) r"
| "task_id_ok s (Complete_Lookup owner r c) \<longleftrightarrow> settled s (result_id r) \<and> asked_by (sv_asked s) c r"
| "task_id_ok s (Complete_Forget owner r c) \<longleftrightarrow> settled s (result_id r) \<and> asked_by (sv_asked s) c r"
| "task_id_ok s (Complete_Send r c) \<longleftrightarrow> settled s (result_id r) \<and> asked_by (sv_asked s) c r"
| "task_id_ok s _ \<longleftrightarrow> True"

definition pending_ok :: "server_calls \<Rightarrow> uuid \<Rightarrow> pending_result \<Rightarrow> bool" where
  "pending_ok s rid p \<longleftrightarrow>
     sv_issued s rid = Some (pr_command p) \<and> request_id (pr_command p) = rid
     \<and> sv_asked s (pr_sender p) = Some (pr_command p)"

definition identity_inv :: "server_calls \<Rightarrow> bool" where
  "identity_inv s \<longleftrightarrow>
     (\<forall>rid p. sv_pending s rid = Some p \<longrightarrow> pending_ok s rid p)
     \<and> (\<forall>t k. sv_tasks s t = Some k \<longrightarrow> task_id_ok s k)
     \<and> (\<forall>c r. sv_channels s c = Sent r \<longrightarrow> asked_by (sv_asked s) c r)"

text \<open>
  A step leaves the identity of what existed alone if it only adds request ids and channels, keeps
  or drops pending results, and delivers nothing new.
\<close>

definition extends :: "server_calls \<Rightarrow> server_calls \<Rightarrow> bool" where
  "extends s s' \<longleftrightarrow> sv_issued s \<subseteq>\<^sub>m sv_issued s' \<and> sv_asked s \<subseteq>\<^sub>m sv_asked s'
     \<and> (\<forall>rid. sv_issued s rid \<noteq> None \<longrightarrow> sv_pending s' rid = sv_pending s rid \<or> sv_pending s' rid = None)"

lemma map_le_Some: "m \<subseteq>\<^sub>m m' \<Longrightarrow> m k = Some v \<Longrightarrow> m' k = Some v"
  by (metis domI map_le_def)

lemma extends_settled: "extends s s' \<Longrightarrow> settled s rid \<Longrightarrow> settled s' rid"
  by (auto simp: extends_def settled_def dest: map_le_Some)

lemma extends_asked: "extends s s' \<Longrightarrow> asked_by (sv_asked s) c r \<Longrightarrow> asked_by (sv_asked s') c r"
  by (auto simp: extends_def asked_by_def dest: map_le_Some)

lemma extends_correlated: "extends s s' \<Longrightarrow> correlated (sv_issued s) r \<Longrightarrow> correlated (sv_issued s') r"
  by (auto simp: extends_def correlated_def dest: map_le_Some)

lemma extends_task: "extends s s' \<Longrightarrow> task_id_ok s k \<Longrightarrow> task_id_ok s' k"
  by (cases k)
    (auto simp: extends_settled extends_asked extends_correlated extends_def dest: map_le_Some)

lemma extends_pending: "extends s s' \<Longrightarrow> pending_ok s rid p \<Longrightarrow> pending_ok s' rid p"
  by (auto simp: extends_def pending_ok_def dest: map_le_Some)

lemma identity_step:
  assumes "identity_inv s" and "extends s s'"
    and "\<And>t k. sv_tasks s' t = Some k \<Longrightarrow> sv_tasks s t = Some k \<or> task_id_ok s' k"
    and "\<And>rid p. sv_pending s' rid = Some p \<Longrightarrow> sv_pending s rid = Some p \<or> pending_ok s' rid p"
    and "\<And>c r. sv_channels s' c = Sent r \<Longrightarrow> sv_channels s c = Sent r \<or> asked_by (sv_asked s') c r"
  shows "identity_inv s'"
  unfolding identity_inv_def
proof (intro conjI allI impI)
  fix rid p assume "sv_pending s' rid = Some p"
  then show "pending_ok s' rid p"
    using assms(1,4) extends_pending[OF assms(2)] unfolding identity_inv_def by blast
next
  fix t k assume "sv_tasks s' t = Some k"
  then show "task_id_ok s' k"
    using assms(1,3) extends_task[OF assms(2)] unfolding identity_inv_def by blast
next
  fix c r assume "sv_channels s' c = Sent r"
  then show "asked_by (sv_asked s') c r"
    using assms(1,5) extends_asked[OF assms(2)] unfolding identity_inv_def by blast
qed

lemma register_fields:
  assumes "register_pending_result owner rid cmd c s = (ok, s')"
  shows "sv_issued s' = sv_issued s" and "sv_asked s' = sv_asked s" and "sv_tasks s' = sv_tasks s"
    and "sv_connections s' = sv_connections s"
    and "sv_pending s' = (if ok then (sv_pending s)(rid \<mapsto> \<lparr> pr_owner = owner, pr_sender = c, pr_command = cmd \<rparr>)
                          else sv_pending s)"
    and "sv_channels s' x = Sent r \<Longrightarrow> sv_channels s x = Sent r"
  using assms
  by (auto simp: register_pending_result_def call_defs split: option.splits if_splits)

lemma try_send_fields:
  assumes "try_send i m s = (ok, s')"
  shows "sv_issued s' = sv_issued s" and "sv_asked s' = sv_asked s" and "sv_tasks s' = sv_tasks s"
    and "sv_connections s' = sv_connections s" and "sv_pending s' = sv_pending s" and "sv_channels s' = sv_channels s"
  using assms by (auto simp: try_send_def call_defs split: option.splits if_splits)

lemma identity_start:
  assumes "identity_inv s" and "extends s s'" and "sv_tasks s' = sv_tasks s" and "task_id_ok s' k"
    and "\<And>rid p. sv_pending s' rid = Some p \<Longrightarrow> sv_pending s rid = Some p \<or> pending_ok s' rid p"
    and "\<And>c r. sv_channels s' c = Sent r \<Longrightarrow> sv_channels s c = Sent r \<or> asked_by (sv_asked s') c r"
  shows "identity_inv (start t k s')" and "identity_inv (finish t s')" and "identity_inv s'"
proof -
  have same: "task_id_ok (start t k s') = task_id_ok s'" "task_id_ok (finish t s') = task_id_ok s'"
    by (rule ext, case_tac x; simp add: start_def finish_def settled_def)+
  show "identity_inv (start t k s')"
    by (rule identity_step[OF assms(1)])
      (use assms same in \<open>auto simp: start_def extends_def pending_ok_def split: if_splits\<close>)
  show "identity_inv (finish t s')"
    by (rule identity_step[OF assms(1)])
      (use assms in \<open>auto simp: finish_def extends_def pending_ok_def split: if_splits\<close>)
  show "identity_inv s'"
    by (rule identity_step[OF assms(1,2)]) (use assms in auto)
qed

lemma extends_same:
  "sv_issued s' = sv_issued s \<Longrightarrow> sv_asked s' = sv_asked s \<Longrightarrow>
     (\<And>rid. sv_pending s' rid = sv_pending s rid \<or> sv_pending s' rid = None) \<Longrightarrow> extends s s'"
  by (auto simp: extends_def)

text \<open>Steps that issue no request, drop pending results at most and deliver nothing.\<close>

definition quiet :: "server_calls \<Rightarrow> server_calls \<Rightarrow> bool" where
  "quiet s s' \<longleftrightarrow> sv_issued s' = sv_issued s \<and> sv_asked s' = sv_asked s \<and> sv_tasks s' = sv_tasks s
     \<and> (\<forall>rid. sv_pending s' rid = sv_pending s rid \<or> sv_pending s' rid = None)
     \<and> (\<forall>c r. sv_channels s' c = Sent r \<longrightarrow> sv_channels s c = Sent r)"

lemma quiet_sections [simp]:
  "quiet s s" "quiet s (update_handle i f s)" "quiet s (close_handle i s)" "quiet s (open_connection i s)"
  "quiet s (forget_id i rid s)" "quiet s (remove_entry rid s)" "quiet s (unlink i s)" "quiet s (drop_entries ids s)"
  "quiet s (snd (take_ids i s))" "quiet s (snd (try_send i m s))" "quiet s (close_handle i (snd (try_send i m s)))"
  "quiet s (s\<lparr> sv_channels := (sv_channels s)(c := ReceiverDropped) \<rparr>)" "quiet s (snd (take_pending rid s))"
  by (auto simp: quiet_def call_defs try_send_def split: option.splits if_splits)

lemma identity_quiet:
  assumes "identity_inv s" and "quiet s s'"
  shows "task_id_ok s' k \<Longrightarrow> identity_inv (start t k s')" and "identity_inv (finish t s')" and "identity_inv s'"
proof -
  have ext: "extends s s'" using assms(2) by (intro extends_same) (auto simp: quiet_def)
  have pend: "sv_pending s' rid = Some p \<Longrightarrow> sv_pending s rid = Some p \<or> pending_ok s' rid p" for rid p
    using assms(2) unfolding quiet_def by (metis option.distinct(1))
  have chan: "sv_channels s' c = Sent r \<Longrightarrow> sv_channels s c = Sent r \<or> asked_by (sv_asked s') c r" for c r
    using assms(2) unfolding quiet_def by blast
  have tasks: "sv_tasks s' = sv_tasks s" using assms(2) by (simp add: quiet_def)
  note rules = identity_start[OF assms(1) ext tasks _ pend chan]
  show "task_id_ok s' k \<Longrightarrow> identity_inv (start t k s')" by (rule rules(1))
  have mark: "task_id_ok s' (Close_Mark 0)" by simp
  show "identity_inv (finish t s')" by (rule rules(2)[OF mark])
  show "identity_inv s'" by (rule rules(3)[OF mark])
qed

lemma identity_task: "identity_inv s \<Longrightarrow> sv_tasks s t = Some k \<Longrightarrow> task_id_ok s k"
  by (auto simp: identity_inv_def)

lemma identity_preserved:
  assumes "callback_step cd s s'" and inv: "identity_inv s"
  shows "identity_inv s'"
  using assms(1)
proof cases
  case (register d c t ok s1)
  note f = register_fields[OF register(6)]
  have ext: "extends s s1"
    using register(3,4) by (auto simp: extends_def map_le_def f issue_def)
  have "task_id_ok s1 (Invoke_Send d c)" by (simp add: f issue_def)
  moreover have "sv_pending s rid = Some p \<or> pending_ok s1 rid p" if "sv_pending s1 rid = Some p" for rid p
    using that by (auto simp: f issue_def pending_ok_def split: if_splits)
  moreover have "sv_channels s x = Sent r" if "sv_channels s1 x = Sent r" for x r
    using f(6)[OF that] by (auto simp: issue_def split: if_splits)
  moreover have "sv_tasks s1 = sv_tasks s" by (simp add: f issue_def)
  ultimately show ?thesis
    using identity_start(1)[OF inv ext, of "Invoke_Send d c" t] identity_start(3)[OF inv ext, of "Invoke_Send d c"] register(1) by auto
next
  case (complete_take t r p s1)
  have s1: "s1 = s\<lparr> sv_pending := (sv_pending s)(result_id r := None) \<rparr>" "sv_pending s (result_id r) = Some p"
    using complete_take(3) by (auto simp: take_pending_def)
  have "correlated (sv_issued s) r" using inv complete_take(2) by (force simp: identity_inv_def)
  moreover have "pending_ok s (result_id r) p" using inv s1(2) by (simp add: identity_inv_def)
  ultimately have "task_id_ok s1 (Complete_Lookup (pr_owner p) r (pr_sender p))"
    by (auto simp: s1(1) settled_def asked_by_def correlated_def pending_ok_def)
  then show ?thesis
    unfolding complete_take(1)
    by (rule identity_start(1)[OF inv extends_same, rotated 4]) (auto simp: s1 split: if_splits)
next
  case (receive via line rid p r t)
  have "result_id r = request_id (pr_command p)" "result_fits (pr_command p) r"
    using decode_server_result_sound[OF receive(5)] by simp_all
  moreover have "pending_ok s rid p" using inv receive(4) by (simp add: identity_inv_def)
  ultimately have "task_id_ok s (Complete_Take r)" by (auto simp: correlated_def pending_ok_def)
  then show ?thesis
    unfolding receive(1) by (rule identity_start(1)[OF inv extends_same, rotated 4]) auto
next
  case (send_unencodable t d c e)
  with identity_task[OF inv send_unencodable(2)] show ?thesis by (simp add: identity_quiet(1)[OF inv])
next
  case (send t d c m s1)
  have s1: "s1 = snd (try_send (d_owner d) m s)" using send(4) by simp
  have "task_id_ok s1 (Invoke_Wait d c)"
    using identity_task[OF inv send(2)] by (simp add: try_send_fields[OF send(4)])
  then show ?thesis unfolding send(1) s1 by (rule identity_quiet(1)[OF inv quiet_sections(10)])
next
  case (send_full t d c m s1)
  have s1: "s1 = snd (try_send (d_owner d) m s)" using send_full(4) by simp
  have "task_id_ok (close_handle (d_owner d) s1) (Remove_Entry (d_owner d) (request_id (d_command d)))"
    using identity_task[OF inv send_full(2)]
    by (simp add: try_send_fields[OF send_full(4)] close_handle_def update_handle_def)
  then show ?thesis unfolding send_full(1) s1 by (rule identity_quiet(1)[OF inv quiet_sections(11)])
next
  case (cancelled t d c)
  with identity_task[OF inv cancelled(2)] show ?thesis by (simp add: identity_quiet(1)[OF inv])
next
  case (timed_out t d c)
  with identity_task[OF inv timed_out(2)] show ?thesis by (simp add: identity_quiet(1)[OF inv])
next
  case (remove_first t owner rid)
  have "task_id_ok (remove_entry rid s) (Remove_Id owner rid)"
    using identity_task[OF inv remove_first(2)] by (simp add: settled_def remove_entry_def split: option.splits)
  then show ?thesis unfolding remove_first(1) by (rule identity_quiet(1)[OF inv quiet_sections(6)])
next
  case (complete_lookup t owner r c)
  with identity_task[OF inv complete_lookup(2)] show ?thesis by (simp add: identity_quiet(1)[OF inv])
next
  case (complete_forget t owner r c)
  have "task_id_ok (forget_id owner (result_id r) s) (Complete_Send r c)"
    using identity_task[OF inv complete_forget(2)] by (simp add: settled_def forget_id_def update_handle_def)
  then show ?thesis unfolding complete_forget(1) by (rule identity_quiet(1)[OF inv quiet_sections(5)])
next
  case (complete_send t r c)
  have "asked_by (sv_asked s) c r" using identity_task[OF inv complete_send(2)] by simp
  then show ?thesis
    unfolding complete_send(1)
    by (intro identity_start(2)[OF inv extends_same, where k = "Close_Mark 0"])
      (auto simp: send_result_def split: if_splits)
next
  case (complete_unknown t r s1)
  then have s1: "s1 = snd (take_pending (result_id r) s)" by simp
  show ?thesis unfolding complete_unknown(1) s1 by (rule identity_quiet(2)[OF inv quiet_sections(13)])
next
  case (close_mark t i ids s1)
  then have s1: "s1 = snd (take_ids i s)" by simp
  show ?thesis unfolding close_mark(1) s1 by (rule identity_quiet(1)[OF inv quiet_sections(9)]) simp
qed (simp_all add: identity_quiet[OF inv])

section \<open>Every pending result has a keeper\<close>

definition closing :: "server_calls \<Rightarrow> uuid \<Rightarrow> uuid set \<Rightarrow> bool" where
  "closing s owner ids \<longleftrightarrow>
     (\<exists>t. sv_tasks s t = Some (Close_Unlink owner ids) \<or> sv_tasks s t = Some (Close_Drop owner ids))"

definition covered :: "server_calls \<Rightarrow> uuid \<Rightarrow> uuid \<Rightarrow> bool" where
  "covered s owner rid \<longleftrightarrow>
     (\<exists>h. sv_handles s owner = Some h \<and> \<not> ch_closed h \<and> rid \<in> ch_ids h)
     \<or> (\<exists>ids. closing s owner ids \<and> rid \<in> ids)"

definition cover_inv :: "server_calls \<Rightarrow> bool" where
  "cover_inv s \<longleftrightarrow> (\<forall>rid p. sv_pending s rid = Some p \<longrightarrow> covered s (pr_owner p) rid)"

lemma cover_step:
  assumes "cover_inv s"
    and "\<And>rid p. sv_pending s' rid = Some p \<Longrightarrow>
      covered s' (pr_owner p) rid
      \<or> (sv_pending s rid = Some p \<and> (covered s (pr_owner p) rid \<longrightarrow> covered s' (pr_owner p) rid))"
  shows "cover_inv s'"
  using assms unfolding cover_inv_def by blast

fun is_closing :: "task \<Rightarrow> bool" where
  "is_closing (Close_Unlink _ _) = True"
| "is_closing (Close_Drop _ _) = True"
| "is_closing _ = False"

text \<open>A task whose next step does not give up a connection's ids.\<close>

definition replaceable :: "server_calls \<Rightarrow> nat \<Rightarrow> bool" where
  "replaceable s t \<longleftrightarrow> (\<forall>k. sv_tasks s t = Some k \<longrightarrow> \<not> is_closing k)"

lemma replaceable_simps [simp]:
  "sv_tasks s t = None \<Longrightarrow> replaceable s t" "sv_tasks s t = Some k \<Longrightarrow> \<not> is_closing k \<Longrightarrow> replaceable s t"
  by (simp_all add: replaceable_def)

lemma closing_start:
  assumes "replaceable s t" and "closing s i ids"
  shows "closing (start t k s) i ids" and "closing (finish t s) i ids"
proof -
  from assms(2) obtain t' where "sv_tasks s t' = Some (Close_Unlink i ids) \<or> sv_tasks s t' = Some (Close_Drop i ids)"
    by (auto simp: closing_def)
  moreover from this have "t' \<noteq> t" using assms(1) by (auto simp: replaceable_def)
  ultimately show "closing (start t k s) i ids" "closing (finish t s) i ids"
    by (auto simp: closing_def start_def finish_def)
qed

lemma covered_start:
  assumes "replaceable s t" and "covered s i rid"
  shows "covered (start t k s) i rid" and "covered (finish t s) i rid"
  using assms(2) closing_start[OF assms(1), of i] unfolding covered_def
  by (fastforce simp: start_def finish_def)+

lemma covered_same:
  assumes "covered s i rid" and "sv_tasks s' = sv_tasks s"
    and "\<And>h. sv_handles s i = Some h \<Longrightarrow> \<not> ch_closed h \<Longrightarrow> rid \<in> ch_ids h \<Longrightarrow>
      \<exists>h'. sv_handles s' i = Some h' \<and> \<not> ch_closed h' \<and> rid \<in> ch_ids h'"
  shows "covered s' i rid"
  using assms unfolding covered_def closing_def by auto

lemma covered_update:
  "covered s i rid \<Longrightarrow>
     (\<And>h. \<not> ch_closed h \<Longrightarrow> rid \<in> ch_ids h \<Longrightarrow> \<not> ch_closed (f h) \<and> rid \<in> ch_ids (f h)) \<Longrightarrow>
     covered (update_handle j f s) i rid"
  by (erule covered_same) (auto simp: update_handle_def)

lemma covered_forget: "covered s i rid \<Longrightarrow> rid \<noteq> rid' \<Longrightarrow> covered (forget_id j rid' s) i rid"
  unfolding forget_id_def by (rule covered_update) auto

lemma update_handle_fields [simp]:
  "sv_pending (update_handle i f s) = sv_pending s" "sv_tasks (update_handle i f s) = sv_tasks s"
  "sv_channels (update_handle i f s) = sv_channels s" "sv_connections (update_handle i f s) = sv_connections s"
  by (simp_all add: update_handle_def)

lemma task_fields [simp]:
  "sv_pending (start t k s) = sv_pending s" "sv_pending (finish t s) = sv_pending s"
  "sv_channels (start t k s) = sv_channels s" "sv_channels (finish t s) = sv_channels s"
  "sv_tasks (start t k s) = (sv_tasks s)(t \<mapsto> k)" "sv_tasks (finish t s) = (sv_tasks s)(t := None)"
  by (simp_all add: start_def finish_def)

lemma cover_quiet:
  assumes "cover_inv s" and "quiet s s'"
    and "\<And>rid p. sv_pending s' rid = Some p \<Longrightarrow> covered s (pr_owner p) rid \<Longrightarrow> covered s' (pr_owner p) rid"
  shows "cover_inv s'" and "replaceable s t \<Longrightarrow> cover_inv (start t k s')"
    and "replaceable s t \<Longrightarrow> cover_inv (finish t s')"
proof -
  have covered: "covered s' (pr_owner p) rid" if "sv_pending s' rid = Some p" for rid p
    using that assms unfolding cover_inv_def quiet_def by (metis option.distinct(1))
  then show "cover_inv s'" by (simp add: cover_inv_def)
  assume "replaceable s t"
  then have "replaceable s' t" using assms(2) by (simp add: replaceable_def quiet_def)
  with covered show "cover_inv (start t k s')" "cover_inv (finish t s')"
    by (simp_all add: cover_inv_def covered_start)
qed

lemma cover_preserved:
  assumes "callback_step cd s s'" and inv: "cover_inv s" and ids: "identity_inv s"
  shows "cover_inv s'"
  using assms(1)
proof cases
  case (connect i)
  show ?thesis unfolding connect(1)
    by (rule cover_quiet(1)[OF inv quiet_sections(4)])
      (erule covered_same; use connect(2) in \<open>auto simp: open_connection_def\<close>)
next
  case (writer_ends i)
  show ?thesis unfolding writer_ends
    by (rule cover_quiet(1)[OF inv quiet_sections(2)]) (erule covered_update, simp)
next
  case (written i)
  show ?thesis unfolding written
    by (rule cover_quiet(1)[OF inv quiet_sections(2)]) (erule covered_update, simp)
next
  case (adapter_known i a)
  show ?thesis unfolding adapter_known
    by (rule cover_quiet(1)[OF inv quiet_sections(2)]) (erule covered_update, simp)
next
  case (register d c t ok s1)
  let ?rid = "request_id (d_command d)"
  note f = register_fields[OF register(6)]
  have new: "covered s1 (d_owner d) ?rid" if ok
    using register(6) that
    by (auto simp: register_pending_result_def covered_def call_defs split: option.splits if_splits)
  have old: "covered s1 i rid" if "covered s i rid" for i rid
    using that
    by (rule covered_same)
      (use register(6) in \<open>auto simp: register_pending_result_def call_defs f split: option.splits if_splits\<close>)
  have "covered s1 (pr_owner p) rid" if "sv_pending s1 rid = Some p" for rid p
    using that new old inv by (auto simp: f issue_def cover_inv_def split: if_splits)
  moreover have "replaceable s1 t" using register(5) by (simp add: f issue_def)
  ultimately show ?thesis unfolding register(1) by (simp add: cover_inv_def covered_start)
next
  case (send_unencodable t d c e)
  then show ?thesis by (simp add: cover_quiet(2)[OF inv])
next
  case (send t d c m s1)
  have s1: "s1 = snd (try_send (d_owner d) m s)" using send(4) by simp
  show ?thesis unfolding send(1) s1
    by (rule cover_quiet(2)[OF inv quiet_sections(10)])
      (use send(2) in \<open>auto simp: try_send_def intro: covered_update split: option.splits\<close>)
next
  case (send_full t d c m s1)
  have s1: "s1 = s" using send_full(4) by (auto simp: try_send_def split: option.splits if_splits)
  show ?thesis unfolding send_full(1) s1
    by (rule cover_quiet(2)[OF inv quiet_sections(3)])
      (use send_full(2) in \<open>auto simp: close_handle_def intro: covered_update\<close>)
next
  case (answered t d c r)
  then show ?thesis by (simp add: cover_quiet(3)[OF inv])
next
  case (cancelled t d c)
  then show ?thesis by (simp add: cover_quiet(2)[OF inv])
next
  case (timed_out t d c)
  show ?thesis unfolding timed_out(1)
    by (rule cover_quiet(2)[OF inv quiet_sections(12)]) (use timed_out(2) in \<open>auto elim: covered_same\<close>)
next
  case (remove_first t owner rid)
  show ?thesis unfolding remove_first(1)
    by (rule cover_quiet(2)[OF inv quiet_sections(6)])
      (use remove_first(2) in \<open>auto simp: remove_entry_def elim: covered_same split: option.splits\<close>)
next
  case (remove_second t owner rid)
  have none: "sv_pending s rid = None" using identity_task[OF ids remove_second(2)] by (simp add: settled_def)
  show ?thesis unfolding remove_second(1)
  proof (rule cover_quiet(3)[OF inv quiet_sections(5)])
    fix rid' p assume "sv_pending (forget_id owner rid s) rid' = Some p" "covered s (pr_owner p) rid'"
    with none show "covered (forget_id owner rid s) (pr_owner p) rid'"
      by (intro covered_forget) (auto simp: forget_id_def)
  qed (use remove_second(2) in simp)
next
  case (complete_take t r p s1)
  have s1: "s1 = snd (take_pending (result_id r) s)" using complete_take(3) by simp
  show ?thesis unfolding complete_take(1) s1
    by (rule cover_quiet(2)[OF inv quiet_sections(13)])
      (use complete_take(2) in \<open>auto simp: take_pending_def elim: covered_same\<close>)
next
  case (complete_unknown t r s1)
  have s1: "s1 = snd (take_pending (result_id r) s)" using complete_unknown(3) by simp
  show ?thesis unfolding complete_unknown(1) s1
    by (rule cover_quiet(3)[OF inv quiet_sections(13)])
      (use complete_unknown(2) in \<open>auto simp: take_pending_def elim: covered_same\<close>)
next
  case (complete_forget t owner r c)
  have none: "sv_pending s (result_id r) = None"
    using identity_task[OF ids complete_forget(2)] by (simp add: settled_def)
  show ?thesis unfolding complete_forget(1)
  proof (rule cover_quiet(2)[OF inv quiet_sections(5)])
    fix rid' p assume "sv_pending (forget_id owner (result_id r) s) rid' = Some p" "covered s (pr_owner p) rid'"
    with none show "covered (forget_id owner (result_id r) s) (pr_owner p) rid'"
      by (intro covered_forget) (auto simp: forget_id_def)
  qed (use complete_forget(2) in simp)
next
  case (complete_send t r c)
  have "covered (send_result c r s) i rid" if "covered s i rid" for i rid
    using that by (rule covered_same) (auto simp: send_result_def)
  then have "replaceable (send_result c r s) t" "cover_inv (send_result c r s)"
    using complete_send(2) inv by (auto simp: replaceable_def send_result_def cover_inv_def)
  then show ?thesis unfolding complete_send(1) by (simp add: cover_inv_def covered_start)
next
  case (close_mark t i ids s1)
  have "covered (start t (Close_Unlink i ids) s1) j rid" if "covered s j rid" for j rid
  proof (cases "j = i \<and> rid \<in> ids")
    case True
    then show ?thesis by (auto simp: covered_def closing_def)
  next
    case False
    have "covered s1 j rid"
      using that False close_mark(3)
      by (elim covered_same) (auto simp: take_ids_def update_handle_def split: option.splits)
    moreover have "replaceable s1 t"
      using close_mark(2,3) by (auto simp: replaceable_def take_ids_def split: option.splits)
    ultimately show ?thesis by (simp add: covered_start)
  qed
  moreover have "sv_pending s1 = sv_pending s" using close_mark(3) by (auto simp: take_ids_def split: option.splits)
  ultimately show ?thesis unfolding close_mark(1) using inv by (simp add: cover_inv_def)
next
  case (close_unlink t i ids)
  have "closing s' j ids'" if "closing s j ids'" for j ids'
  proof -
    from that obtain t' where
      t': "sv_tasks s t' = Some (Close_Unlink j ids') \<or> sv_tasks s t' = Some (Close_Drop j ids')"
      by (auto simp: closing_def)
    show ?thesis
      unfolding closing_def using close_unlink(1,2) t'
      by (intro exI[of _ t']) (auto simp: unlink_def)
  qed
  then have "covered s' j rid" if "covered s j rid" for j rid
    using that unfolding covered_def close_unlink(1) by (auto simp: unlink_def start_def)
  then show ?thesis using inv unfolding cover_inv_def close_unlink(1) by (auto simp: unlink_def)
next
  case (close_drop t i ids)
  have keep: "covered s' j rid" if "covered s j rid" "rid \<notin> ids" for j rid
  proof -
    have "closing s' j ids'" if c: "closing s j ids'" "rid \<in> ids'" for ids'
    proof -
      from c obtain t' where
        t': "sv_tasks s t' = Some (Close_Unlink j ids') \<or> sv_tasks s t' = Some (Close_Drop j ids')"
        by (auto simp: closing_def)
      then have "t' \<noteq> t" using close_drop(2) c(2) \<open>rid \<notin> ids\<close> by auto
      then show ?thesis
        unfolding closing_def using close_drop(1) t' by (intro exI[of _ t']) (auto simp: drop_entries_def)
    qed
    then show ?thesis
      using that(1) unfolding covered_def close_drop(1) by (fastforce simp: drop_entries_def finish_def)
  qed
  then show ?thesis using inv unfolding cover_inv_def close_drop(1) by (auto simp: drop_entries_def)
qed (use inv in \<open>simp_all add: cover_quiet\<close>)

end
