(* ===== verification/Line_Codec.thy ===== *)
theory Line_Codec
  imports Line_Answers
begin

text \<open>
  The properties of the text codec, and an instance of its libraries' contract that reads JSON strings
  back byte by byte.
\<close>

section \<open>An instance of the libraries\<close>

fun simple_escape :: "char \<Rightarrow> char" where
  "simple_escape e =
     (if e = CHR ''b'' then CHR 0x08 else if e = CHR ''t'' then CHR 0x09 else if e = CHR ''n'' then CHR 0x0A
      else if e = CHR ''f'' then CHR 0x0C else if e = CHR ''r'' then CHR 0x0D else e)"

fun json_unescape :: "string \<Rightarrow> string option" where
  "json_unescape [] = Some []"
| "json_unescape (c # cs) =
     (if c \<noteq> CHR 0x5C then map_option ((#) c) (json_unescape cs)
      else case cs of
        [] \<Rightarrow> None
      | e # es \<Rightarrow>
          if e \<noteq> CHR ''u'' then map_option ((#) (simple_escape e)) (json_unescape es)
          else case es of
            a # b # h # l # rest \<Rightarrow>
              (case (to_digit 16 h, to_digit 16 l) of
                 (Some x, Some y) \<Rightarrow> map_option ((#) (char_of (16 * x + y))) (json_unescape rest)
               | _ \<Rightarrow> None)
          | _ \<Rightarrow> None)"

lemma unescape_escape: "json_unescape (json_escape b @ r) = map_option ((#) b) (json_unescape r)"
proof -
  have "of_char b div 16 < (16 :: nat)" if "of_char b < (32 :: nat)" using that by simp
  moreover have "char_of (16 * (of_char b div 16) + of_char b mod 16 :: nat) = b" by simp
  ultimately show ?thesis
    by (cases "of_char b < (32 :: nat)") (auto simp: json_escape_def to_digit_hex_digit)
qed

lemma unescape_body: "json_unescape (concat (map json_escape s)) = Some s"
  by (induction s) (simp_all add: unescape_escape)

definition sample_values :: "json list" where
  "sample_values =
     [JNull, JBool True, JNumber (PosInt 7), JString ''Ada'',
      JObject [(''name'', JString ''Ada''), (''tags'', JArray [JNull, JString ''] x''])]]"

definition sample_codec :: codec where
  "sample_codec =
     \<lparr> json_string_from = (\<lambda>s. json_unescape (butlast (tl s))),
       json_value_from = map_of (map (\<lambda>v. (json_compact v, v)) sample_values),
       json_string_to = json_quote,
       json_value_to = (\<lambda>v. Inr (json_compact v)),
       uuid_parse_str = digits_value 10 0,
       uuid_to_string = show_nat \<rparr>"

lemma sample_values_distinct: "distinct (map json_compact sample_values)"
  by (simp add: sample_values_def json_quote_def json_escape_def show_nat.simps digit_char_numerals[simplified])

interpretation sample_codec: codec_laws sample_codec "\<lambda>v. v \<in> set sample_values"
proof
  fix s v i
  show "json_string_to sample_codec s = json_quote s" by (simp add: sample_codec_def)
  show "json_string_from sample_codec (json_quote s) = Some s"
    by (simp add: sample_codec_def json_quote_def unescape_body)
  show "uuid_parse_str sample_codec (uuid_to_string sample_codec i) = Some i"
    by (simp add: sample_codec_def digits_value_show_nat)
  show "is_bare_text (uuid_to_string sample_codec i)" by (simp add: sample_codec_def)
next
  fix v assume v: "v \<in> set sample_values"
  show "json_value_to sample_codec v = Inr (json_compact v)" by (simp add: sample_codec_def)
  have "distinct (map fst (map (\<lambda>v. (json_compact v, v)) sample_values))"
    using sample_values_distinct by (simp add: comp_def)
  then show "json_value_from sample_codec (json_compact v) = Some v"
    using v by (auto simp: sample_codec_def intro!: map_of_is_SomeI)
  show "numbers_ok v"
    using v by (auto simp: sample_values_def is_number_char_def is_ascii_alphanumeric_def is_ascii_digit_def
        show_nat.simps digit_char_numerals[simplified])
qed

section \<open>Properties\<close>


definition ada_ns :: namespace_context where
  "ada_ns = \<lparr> ns_value = ''/users'', ctx_start = None \<rparr>"

lemma wf_ada_ns: "wf_ns ada_ns"
  by (simp add: wf_ns_def NamespaceContext_new_def ada_ns_def as_str_def split_once_def starts_with_def)

definition ada_set :: command where
  "ada_set = Set ada_ns (Key ''first name'') (JObject [(''name'', JString ''Ada''),
     (''tags'', JArray [JNull, JString ''] x''])]) (Some 60)"

lemma wf_ada_set: "wf_command (\<lambda>v. v \<in> set sample_values) ada_set"
  by (simp add: ada_set_def wf_ada_ns sample_values_def u64_max_def)


text \<open>
  Answer frames round trip in the context of their command: an answer the command allows is
  encoded, and decoding it for the same command gives it back under the same condition on its
  strings; the two answers that share a keyword (\<open>MISS\<close>, \<open>KO\<close>, \<open>OK\<close>) are told apart by the
  command.
\<close>

theorem response_text_roundtrip:
  assumes "codec_laws cd representable" and "answer_allowed c r" and "wf_response representable r"
  shows "\<exists>f. encode_response cd c r = Inr f \<and>
      (length f \<le> MAX_FRAME_BYTES \<longrightarrow>
        decode_response cd c f =
          (if safe_response c r then Inr r else protocol_error ''invalid quoted escape''))"
  using codec_laws.response_roundtrip[OF assms] by metis

text \<open>
  Callback frames round trip: what the broker sends to a provider or a store is read back as
  the same callback, with its request id, under the conditions of the commands.
\<close>

theorem callback_text_roundtrip:
  assumes "codec_laws cd representable" and "wf_command representable (callback_command c)"
  shows "\<exists>f. encode_server_command cd c = Inr f \<and>
      (length f \<le> MAX_FRAME_BYTES \<longrightarrow>
        decode_server_command cd f =
          (if safe_command (callback_command c) then Inr c else protocol_error ''invalid quoted escape''))"
  using codec_laws.callback_roundtrip[OF assms] by metis

definition ada_query :: server_command where
  "ada_query = Query 42 ada_ns (Key ''name'')"

text \<open>
  A decoded answer always fits its command: whatever frame a server sends and however the JSON
  library reads it, the client's decoder returns only answers that the command allows.
\<close>

theorem decoded_answer_is_allowed:
  assumes "decode_response cd c f = Inr r"
  shows "answer_allowed c r"
  using assms unfolding decode_response_def
  by (elim and_then_InrE if_InrE)
    (auto simp: decode_miss_answer_def answer_allowed_kind
      dest!: decode_value_answer_get decode_stats_answer_stats elim!: if_InrE and_then_InrE)

lemma ada_query_miss_decodes:
  "decode_server_result sample_codec ada_query ''QUERY_RESULT 42 MISS'' = Inr (QueryResult 42 None None None)"
proof -
  have frame: "frame_text (result_args sample_codec ada_query (QueryResult 42 None None None))
      = ''QUERY_RESULT 42 MISS''"
    by (simp add: sample_codec_def show_nat.simps digit_char_numerals[simplified])
  have "decode_server_result sample_codec ada_query ''QUERY_RESULT 42 MISS''
      = Inr (normal_result (QueryResult 42 None None None))"
  proof (rule sample_codec.decode_result_args)
    have "length ''QUERY_RESULT 42 MISS'' \<le> MAX_FRAME_BYTES" by (simp add: MAX_FRAME_BYTES_def)
    then have "frame_tokens sample_codec
        (frame_text (result_args sample_codec ada_query (QueryResult 42 None None None)))
      = Inr (map arg_token (result_args sample_codec ada_query (QueryResult 42 None None None)))"
      using sample_codec.uuid_form
      by (subst sample_codec.frame_tokens_args)
        (use frame in \<open>auto simp del: frame_text.simps\<close>)
    then show "frame_tokens sample_codec ''QUERY_RESULT 42 MISS''
      = Inr (map arg_token (result_args sample_codec ada_query (QueryResult 42 None None None)))"
      by (simp only: frame)
  qed (simp_all add: ada_query_def)
  then show ?thesis by simp
qed

text \<open>
  A decoded callback result belongs to its callback: it carries the callback's request id, it
  is of the kind the callback expects, it is in normal form (an error has no value, only a value
  has a time to live), and the id that routes the frame to the waiting request is the same.
\<close>

theorem decoded_result_belongs_to_callback:
  assumes "decode_server_result cd c f = Inr r"
  shows "result_id r = request_id c \<and> result_fits c r \<and> normal_result r = r
    \<and> callback_request_id cd f = Inr (request_id c)"
  using decode_server_result_sound[OF assms] by simp

end
