(* ===== verification/Server_Waits.thy ===== *)
theory Server_Waits
  imports Server_Correlation Line_Codec
begin

text \<open>
  A task that waits for a callback result is always going to be woken: as long as its channel is
  open, its request is still pending or its result is being delivered. With the keepers of pending
  results this gives the properties of the callback machinery in every interleaving.
\<close>

section \<open>Deliveries\<close>

fun delivers :: "task \<Rightarrow> nat option" where
  "delivers (Complete_Lookup _ _ c) = Some c"
| "delivers (Complete_Forget _ _ c) = Some c"
| "delivers (Complete_Send _ c) = Some c"
| "delivers _ = None"

definition delivering :: "server_calls \<Rightarrow> nat \<Rightarrow> bool" where
  "delivering s c \<longleftrightarrow> (\<exists>t k. sv_tasks s t = Some k \<and> delivers k = Some c)"

definition is_asked :: "server_calls \<Rightarrow> dispatch \<Rightarrow> nat \<Rightarrow> bool" where
  "is_asked s d c \<longleftrightarrow>
     (\<exists>p. sv_pending s (request_id (d_command d)) = Some p \<and> pr_sender p = c \<and> pr_owner p = d_owner d)"

definition awaited :: "server_calls \<Rightarrow> dispatch \<Rightarrow> nat \<Rightarrow> bool" where
  "awaited s d c \<longleftrightarrow> (sv_channels s c = Open \<longrightarrow> is_asked s d c \<or> delivering s c)"

fun waits :: "task \<Rightarrow> (dispatch \<times> nat) option" where
  "waits (Invoke_Send d c) = Some (d, c)"
| "waits (Invoke_Wait d c) = Some (d, c)"
| "waits _ = None"

definition wait_inv :: "server_calls \<Rightarrow> bool" where
  "wait_inv s \<longleftrightarrow> (\<forall>t k d c. sv_tasks s t = Some k \<longrightarrow> waits k = Some (d, c) \<longrightarrow> awaited s d c)"

lemma waits_asked:
  "identity_inv s \<Longrightarrow> sv_tasks s t = Some k \<Longrightarrow> waits k = Some (d, c) \<Longrightarrow> sv_asked s c \<noteq> None"
  using identity_task[of s t k] by (cases k) auto

lemma wait_step:
  assumes "wait_inv s" and "identity_inv s"
    and "\<And>d c. awaited s d c \<Longrightarrow> sv_asked s c \<noteq> None \<Longrightarrow> awaited s' d c"
    and "\<And>t k d c. sv_tasks s' t = Some k \<Longrightarrow> waits k = Some (d, c) \<Longrightarrow>
      (\<exists>t' k'. sv_tasks s t' = Some k' \<and> waits k' = Some (d, c)) \<or> awaited s' d c"
  shows "wait_inv s'"
  unfolding wait_inv_def
proof (intro allI impI)
  fix t k d c assume "sv_tasks s' t = Some k" "waits k = Some (d, c)"
  then consider t' k' where "sv_tasks s t' = Some k'" "waits k' = Some (d, c)" | "awaited s' d c"
    using assms(4) by blast
  then show "awaited s' d c"
  proof cases
    case 1
    then have "awaited s d c" "sv_asked s c \<noteq> None"
      using assms(1) waits_asked[OF assms(2)] unfolding wait_inv_def by blast+
    then show ?thesis by (rule assms(3))
  qed
qed

lemma delivering_start:
  assumes "delivering s c" and "\<And>k. sv_tasks s t = Some k \<Longrightarrow> delivers k = Some c \<Longrightarrow> delivers k' = Some c"
  shows "delivering (start t k' s) c"
proof -
  from assms(1) obtain t' k where "sv_tasks s t' = Some k" "delivers k = Some c" by (auto simp: delivering_def)
  with assms(2) show ?thesis
    by (cases "t' = t") (auto simp: delivering_def intro: exI[of _ t'])
qed

lemma delivering_finish:
  assumes "delivering s c" and "\<And>k. sv_tasks s t = Some k \<Longrightarrow> delivers k \<noteq> Some c"
  shows "delivering (finish t s) c"
proof -
  from assms(1) obtain t' k where "sv_tasks s t' = Some k" "delivers k = Some c" by (auto simp: delivering_def)
  with assms(2) show ?thesis
    by (cases "t' = t") (auto simp: delivering_def intro: exI[of _ t'])
qed

lemma is_asked_task [simp]: "is_asked (start t k s) d c = is_asked s d c" "is_asked (finish t s) d c = is_asked s d c"
  by (simp_all add: is_asked_def)

text \<open>A step on state \<open>s'\<close> of a task whose old and new rest of work deliver to the same channel.\<close>

lemma wait_task:
  assumes "wait_inv s" and "identity_inv s" and tasks: "sv_tasks s' = sv_tasks s"
    and chan: "\<And>c. sv_channels s' c = Open \<Longrightarrow> sv_asked s c \<noteq> None \<Longrightarrow> sv_channels s c = Open"
    and asked: "\<And>d c. is_asked s d c \<Longrightarrow> sv_asked s c \<noteq> None \<Longrightarrow> sv_channels s' c = Open \<Longrightarrow> is_asked s' d c"
  shows "\<lbrakk>\<And>k c. sv_tasks s t = Some k \<Longrightarrow> delivers k = Some c \<Longrightarrow> delivers k' = Some c;
      \<And>d c. waits k' = Some (d, c) \<Longrightarrow> (\<exists>k. sv_tasks s t = Some k \<and> waits k = Some (d, c)) \<or> awaited s' d c\<rbrakk>
      \<Longrightarrow> wait_inv (start t k' s')"
    and "(\<And>k c. sv_tasks s t = Some k \<Longrightarrow> delivers k = Some c \<Longrightarrow> sv_channels s' c \<noteq> Open)
      \<Longrightarrow> wait_inv (finish t s')"
    and "wait_inv s'"
proof -
  have deliv: "delivering s' c \<longleftrightarrow> delivering s c" for c by (simp add: delivering_def tasks)
  { assume keep: "\<And>k c. sv_tasks s t = Some k \<Longrightarrow> delivers k = Some c \<Longrightarrow> delivers k' = Some c"
      and new: "\<And>d c. waits k' = Some (d, c) \<Longrightarrow> (\<exists>k. sv_tasks s t = Some k \<and> waits k = Some (d, c)) \<or> awaited s' d c"
    have aw: "awaited (start t k' s') d c" if "awaited s' d c" for d c
      using that keep delivering_start[of s' c t k'] by (auto simp: awaited_def tasks)
    have old: "awaited s' d c" if "awaited s d c" "sv_asked s c \<noteq> None" for d c
      using that chan asked by (auto simp: awaited_def deliv)
    show "wait_inv (start t k' s')"
    proof (rule wait_step[OF assms(1,2)])
      fix t1 k1 d c assume "sv_tasks (start t k' s') t1 = Some k1" "waits k1 = Some (d, c)"
      then show "(\<exists>t' k'. sv_tasks s t' = Some k' \<and> waits k' = Some (d, c)) \<or> awaited (start t k' s') d c"
        using new aw tasks by (auto split: if_splits)
    qed (use aw old in blast) }
  { assume gone: "\<And>k c. sv_tasks s t = Some k \<Longrightarrow> delivers k = Some c \<Longrightarrow> sv_channels s' c \<noteq> Open"
    show "wait_inv (finish t s')"
    proof (rule wait_step[OF assms(1,2)])
      fix d c assume aw: "awaited s d c" "sv_asked s c \<noteq> None"
      have "delivering (finish t s') c" if "delivering s c" "sv_channels s' c = Open"
        by (rule delivering_finish) (use that gone deliv tasks in auto)
      with aw show "awaited (finish t s') d c" using chan asked by (auto simp: awaited_def)
    next
      fix t1 k1 d c assume "sv_tasks (finish t s') t1 = Some k1" "waits k1 = Some (d, c)"
      then show "(\<exists>t' k'. sv_tasks s t' = Some k' \<and> waits k' = Some (d, c)) \<or> awaited (finish t s') d c"
        using tasks by (auto split: if_splits)
    qed }
  show "wait_inv s'"
    by (rule wait_step[OF assms(1,2)]) (use chan asked tasks deliv in \<open>auto simp: awaited_def\<close>)
qed

lemma wait_preserved:
  assumes "callback_step cd s s'" and inv: "wait_inv s" and ids: "identity_inv s"
  shows "wait_inv s'"
  using assms(1)
proof cases
  case (register d c t ok s1)
  note f = register_fields[OF register(6)]
  have unissued: "sv_pending s (request_id (d_command d)) = None"
    using ids register(3) by (cases "sv_pending s (request_id (d_command d))")
      (auto simp: identity_inv_def pending_ok_def)
  have chan: "sv_channels s x = Open" if "sv_channels s1 x = Open" "sv_asked s x \<noteq> None" for x
    using that register(4,6)
    by (auto simp: register_pending_result_def call_defs split: option.splits if_splits)
  have asked: "is_asked s1 d' x" if "is_asked s d' x" for d' x
    using that unissued by (auto simp: is_asked_def f issue_def)
  have tasks: "sv_tasks s1 = sv_tasks s" by (simp add: f issue_def)
  note rules = wait_task[OF inv ids tasks chan asked]
  show ?thesis
  proof (cases ok)
    case True
    then have "is_asked s1 d c" by (simp add: is_asked_def f)
    then have "wait_inv (start t (Invoke_Send d c) s1)"
      by (intro rules(1)) (use register(5) in \<open>auto simp: awaited_def\<close>)
    with True show ?thesis by (simp add: register(1))
  next
    case False
    then show ?thesis using rules(3) by (simp add: register(1))
  qed
next
  case (send t d c m s1)
  note f = try_send_fields[OF send(4)]
  show ?thesis unfolding send(1)
    by (rule wait_task(1)[OF inv ids]) (use send(2) in \<open>auto simp: f is_asked_def\<close>)
next
  case (send_full t d c m s1)
  note f = try_send_fields[OF send_full(4)]
  show ?thesis unfolding send_full(1)
    by (rule wait_task(1)[OF inv ids]) (use send_full(2) in \<open>auto simp: f is_asked_def close_handle_def\<close>)
next
  case (timed_out t d c)
  show ?thesis unfolding timed_out(1)
    by (rule wait_task(1)[OF inv ids]) (use timed_out(2) in \<open>auto simp: is_asked_def split: if_splits\<close>)
next
  case (remove_first t owner rid)
  show ?thesis unfolding remove_first(1)
    by (rule wait_task(1)[OF inv ids])
      (use remove_first(2) in \<open>auto simp: is_asked_def remove_entry_def drop_sender_def split: option.splits if_splits\<close>)
next
  case (remove_second t owner rid)
  show ?thesis unfolding remove_second(1)
    by (rule wait_task(2)[OF inv ids]) (use remove_second(2) in \<open>auto simp: is_asked_def forget_id_def\<close>)
next
  case (complete_take t r p s1)
  have s1: "s1 = s\<lparr> sv_pending := (sv_pending s)(result_id r := None) \<rparr>" "sv_pending s (result_id r) = Some p"
    using complete_take(3) by (auto simp: take_pending_def)
  have here: "delivering s' (pr_sender p)" unfolding complete_take(1) delivering_def by (auto intro!: exI[of _ t])
  show ?thesis
  proof (rule wait_step[OF inv ids])
    fix d c assume "awaited s d c"
    moreover have "delivering s' c" if "delivering s c"
      unfolding complete_take(1)
      by (rule delivering_start) (use that complete_take(2) in \<open>auto simp: s1 delivering_def\<close>)
    moreover have "is_asked s' d c \<or> delivering s' c" if "is_asked s d c"
      using that here s1(2) by (auto simp: is_asked_def complete_take(1) s1(1))
    ultimately show "awaited s' d c" by (auto simp: awaited_def complete_take(1) s1(1))
  next
    fix t1 k d c assume "sv_tasks s' t1 = Some k" "waits k = Some (d, c)"
    then show "(\<exists>t' k'. sv_tasks s t' = Some k' \<and> waits k' = Some (d, c)) \<or> awaited s' d c"
      by (auto simp: complete_take(1) s1(1) split: if_splits)
  qed
next
  case (complete_unknown t r s1)
  have s1: "s1 = s\<lparr> sv_pending := (sv_pending s)(result_id r := None) \<rparr>" "sv_pending s (result_id r) = None"
    using complete_unknown(3) by (auto simp: take_pending_def)
  show ?thesis unfolding complete_unknown(1)
    by (rule wait_task(2)[OF inv ids]) (use complete_unknown(2) s1 in \<open>auto simp: is_asked_def\<close>)
next
  case (complete_forget t owner r c)
  show ?thesis unfolding complete_forget(1)
    by (rule wait_task(1)[OF inv ids]) (use complete_forget(2) in \<open>auto simp: is_asked_def forget_id_def\<close>)
next
  case (complete_send t r c)
  show ?thesis unfolding complete_send(1)
    by (rule wait_task(2)[OF inv ids])
      (use complete_send(2) in \<open>auto simp: is_asked_def send_result_def split: if_splits\<close>)
next
  case (close_mark t i ids s1)
  show ?thesis unfolding close_mark(1)
    by (rule wait_task(1)[OF inv ids])
      (use close_mark(2,3) in \<open>auto simp: is_asked_def take_ids_def split: option.splits\<close>)
next
  case (close_unlink t i ids)
  show ?thesis unfolding close_unlink(1)
    by (rule wait_task(1)[OF inv ids]) (use close_unlink(2) in \<open>auto simp: is_asked_def unlink_def\<close>)
next
  case (close_drop t i ids)
  show ?thesis unfolding close_drop(1)
    by (rule wait_task(2)[OF inv ids])
      (use close_drop(2) in \<open>auto simp: is_asked_def drop_entries_def split: if_splits\<close>)
next
  case (connect i)
  show ?thesis unfolding connect(1)
    by (rule wait_task(3)[OF inv ids]) (auto simp: is_asked_def open_connection_def)
next
  case (writer_ends i)
  show ?thesis unfolding writer_ends by (rule wait_task(3)[OF inv ids]) (auto simp: is_asked_def)
next
  case (written i)
  show ?thesis unfolding written by (rule wait_task(3)[OF inv ids]) (auto simp: is_asked_def)
next
  case (adapter_known i a)
  show ?thesis unfolding adapter_known by (rule wait_task(3)[OF inv ids]) (auto simp: is_asked_def)
qed (auto intro!: wait_task(1,2)[OF inv ids refl])

lemma reachable_invariants: "reachable cd s \<Longrightarrow> identity_inv s \<and> cover_inv s \<and> wait_inv s"
proof (induction rule: reachable.induct)
  case initial
  then show ?case
    by (simp add: new_server_calls_def identity_inv_def cover_inv_def wait_inv_def)
next
  case (step s s')
  then show ?case using identity_preserved cover_preserved wait_preserved by blast
qed

section \<open>A run\<close>

definition ada_dispatch :: dispatch where
  "ada_dispatch = persist_dispatch 7 ada_query"

definition connected :: server_calls where
  "connected = open_connection 7 new_server_calls"

definition asking :: server_calls where
  "asking = start 0 (Invoke_Send ada_dispatch 0)
     (snd (register_pending_result 7 42 ada_query 0 (issue ada_dispatch 0 connected)))"

lemmas run_defs = connected_def asking_def new_server_calls_def ada_dispatch_def persist_dispatch_def
  ada_query_def register_pending_result_def call_defs new_handle_def

lemma reachable_connected: "reachable cd connected"
  unfolding connected_def
  by (rule reachable.step[OF reachable.initial]) (rule callback_step.connect, simp add: run_defs)

lemma reachable_asking: "reachable cd asking"
proof -
  let ?s = "snd (register_pending_result 7 42 ada_query 0 (issue ada_dispatch 0 connected))"
  have reg: "register_pending_result (d_owner ada_dispatch) (request_id (d_command ada_dispatch))
      (d_command ada_dispatch) 0 (issue ada_dispatch 0 connected) = (True, ?s)"
    by (simp add: run_defs)
  have "callback_step cd connected (if True then start 0 (Invoke_Send ada_dispatch 0) ?s else ?s)"
    by (rule callback_step.register[OF _ _ _ _ reg]) (simp_all add: run_defs)
  then show ?thesis unfolding asking_def by (auto intro: reachable.step[OF reachable_connected])
qed

text \<open>The callback is sent, its answer received from the connection and delivered.\<close>

definition waiting :: "string \<Rightarrow> server_calls" where
  "waiting frame = start 0 (Invoke_Wait ada_dispatch 0) (snd (try_send 7 frame asking))"

definition ada_miss :: server_result where
  "ada_miss = QueryResult 42 None None None"

definition answered_state :: "string \<Rightarrow> server_calls" where
  "answered_state frame =
     finish 1 (send_result 0 ada_miss (start 1 (Complete_Send ada_miss 0) (forget_id 7 42
       (start 1 (Complete_Forget 7 ada_miss 0) (start 1 (Complete_Lookup 7 ada_miss 0)
         (snd (take_pending 42 (start 1 (Complete_Take ada_miss) (waiting frame)))))))))"

lemmas answer_defs = run_defs waiting_def try_send_def ada_miss_def

lemma reachable_waiting:
  assumes "encode_server_command cd ada_query = Inr frame"
  shows "reachable cd (waiting frame)"
proof -
  have "callback_step cd asking (waiting frame)"
    unfolding waiting_def
    by (rule callback_step.send) (use assms in \<open>auto simp: answer_defs DEFAULT_OUTBOUND_CAPACITY_def\<close>)
  with reachable_asking show ?thesis by (rule reachable.step)
qed

lemma reachable_answered:
  assumes "encode_server_command sample_codec ada_query = Inr frame"
  shows "reachable sample_codec (answered_state frame)"
proof -
  let ?s0 = "waiting frame"
  let ?s1 = "start 1 (Complete_Take ada_miss) ?s0"
  let ?s2 = "start 1 (Complete_Lookup 7 ada_miss 0) (snd (take_pending 42 ?s1))"
  let ?s3 = "start 1 (Complete_Forget 7 ada_miss 0) ?s2"
  let ?s4 = "start 1 (Complete_Send ada_miss 0) (forget_id 7 42 ?s3)"
  have pending: "sv_pending ?s0 42 = Some \<lparr> pr_owner = 7, pr_sender = 0, pr_command = ada_query \<rparr>"
    by (simp add: answer_defs DEFAULT_OUTBOUND_CAPACITY_def)
  have "callback_step sample_codec ?s0 ?s1"
  proof (rule callback_step.receive[OF _ _ pending])
    show "(7::nat) \<in> sv_connections ?s0" by (simp add: answer_defs DEFAULT_OUTBOUND_CAPACITY_def)
    show "callback_request_id sample_codec ''QUERY_RESULT 42 MISS'' = Inr 42"
      using decode_server_result_sound[OF ada_query_miss_decodes] by (simp add: ada_query_def)
    show "decode_server_result sample_codec (pr_command \<lparr> pr_owner = 7, pr_sender = 0, pr_command = ada_query \<rparr>)
        ''QUERY_RESULT 42 MISS'' = Inr ada_miss"
      using ada_query_miss_decodes by (simp add: ada_miss_def)
  qed (simp add: answer_defs DEFAULT_OUTBOUND_CAPACITY_def)
  moreover have "callback_step sample_codec ?s1 ?s2"
    using callback_step.complete_take[of ?s1 1 ada_miss "\<lparr> pr_owner = 7, pr_sender = 0, pr_command = ada_query \<rparr>"]
      pending by (simp add: take_pending_def ada_miss_def)
  moreover have "callback_step sample_codec ?s2 ?s3"
    using callback_step.complete_lookup[of ?s2 1 7 ada_miss 0]
    by (simp add: answer_defs DEFAULT_OUTBOUND_CAPACITY_def)
  moreover have "callback_step sample_codec ?s3 ?s4"
    using callback_step.complete_forget[of ?s3 1 7 ada_miss 0] by (simp add: ada_miss_def)
  moreover have "callback_step sample_codec ?s4 (answered_state frame)"
    unfolding answered_state_def by (rule callback_step.complete_send) simp
  ultimately show ?thesis
    using reachable_waiting[OF assms] by (meson reachable.step)
qed

section \<open>Properties\<close>

text \<open>
  C11. A callback gets its own answer: in every interleaving of connections, callbacks, timeouts and
  incoming frames, a task that waits for a callback and is handed a result gets one with the
  callback's request id and of the kind the callback expects.
\<close>

theorem callback_gets_its_own_answer:
  assumes "reachable cd s" and "sv_tasks s t = Some (Invoke_Wait d c)"
    and "invoke_result (sv_channels s c) = Inr r"
  shows "result_id r = request_id (d_command d) \<and> result_fits (d_command d) r"
proof -
  have inv: "identity_inv s" using reachable_invariants[OF assms(1)] by blast
  have "sv_channels s c = Sent r"
    using assms(3) by (auto simp: invoke_result_def split: oneshot.splits)
  then have "asked_by (sv_asked s) c r" using inv by (simp add: identity_inv_def)
  moreover have "sv_asked s c = Some (d_command d)" using identity_task[OF inv assms(2)] by simp
  ultimately show ?thesis by (auto simp: asked_by_def)
qed

lemma ada_query_frame: "\<exists>frame. encode_server_command sample_codec ada_query = Inr frame"
  by (simp add: ada_query_def)

theorem callback_gets_its_own_answer_witness:
  "\<exists>s r. reachable sample_codec s \<and> sv_tasks s 0 = Some (Invoke_Wait ada_dispatch 0)
    \<and> invoke_result (sv_channels s 0) = Inr r
    \<and> result_id r = request_id (d_command ada_dispatch) \<and> result_fits (d_command ada_dispatch) r"
proof -
  obtain frame where "encode_server_command sample_codec ada_query = Inr frame" using ada_query_frame by blast
  from reachable_answered[OF this] have r: "reachable sample_codec (answered_state frame)" .
  have t: "sv_tasks (answered_state frame) 0 = Some (Invoke_Wait ada_dispatch 0)"
    and c: "invoke_result (sv_channels (answered_state frame) 0) = Inr ada_miss"
    by (simp_all add: answered_state_def invoke_result_def answer_defs DEFAULT_OUTBOUND_CAPACITY_def)
  from callback_gets_its_own_answer[OF r t c] r t c show ?thesis by blast
qed

text \<open>
  No callback outlives its connection: in every interleaving, once a connection is closed and
  no task is still closing it, no result from it is pending, and every task that waits for it has
  been cancelled or answered, or its answer is being delivered.
\<close>

theorem closed_connection_leaves_no_callback:
  assumes "reachable cd s" and "sv_handles s i = Some h" and "ch_closed h"
    and "\<forall>ids. \<not> closing s i ids"
  shows "(\<forall>rid p. sv_pending s rid = Some p \<longrightarrow> pr_owner p \<noteq> i)
    \<and> (\<forall>t d c. sv_tasks s t = Some (Invoke_Wait d c) \<longrightarrow> d_owner d = i \<longrightarrow>
         sv_channels s c \<noteq> Open \<or> delivering s c)"
proof -
  have inv: "cover_inv s" "wait_inv s" using reachable_invariants[OF assms(1)] by blast+
  have none: "pr_owner p \<noteq> i" if "sv_pending s rid = Some p" for rid p
    using that inv(1) assms(2-4) unfolding cover_inv_def covered_def by fastforce
  moreover have "sv_channels s c \<noteq> Open \<or> delivering s c"
    if "sv_tasks s t = Some (Invoke_Wait d c)" "d_owner d = i" for t d c
    using that none inv(2) unfolding wait_inv_def awaited_def is_asked_def by fastforce
  ultimately show ?thesis by blast
qed

text \<open>The connection of the run closes while its callback is waiting.\<close>

definition closed_state :: "string \<Rightarrow> server_calls" where
  "closed_state frame =
     finish 1 (drop_entries {42} (start 1 (Close_Drop 7 {42}) (unlink 7 (start 1 (Close_Unlink 7 {42})
       (snd (take_ids 7 (start 1 (Close_Mark 7) (waiting frame))))))))"

lemma reachable_closed:
  assumes "encode_server_command cd ada_query = Inr frame"
  shows "reachable cd (closed_state frame)"
proof -
  let ?s0 = "waiting frame"
  let ?s1 = "start 1 (Close_Mark 7) ?s0"
  let ?s2 = "start 1 (Close_Unlink 7 {42}) (snd (take_ids 7 ?s1))"
  let ?s3 = "start 1 (Close_Drop 7 {42}) (unlink 7 ?s2)"
  have "callback_step cd ?s0 ?s1"
    by (rule callback_step.session_ends) (simp_all add: answer_defs DEFAULT_OUTBOUND_CAPACITY_def)
  moreover have "callback_step cd ?s1 ?s2"
    by (rule callback_step.close_mark) (auto simp: answer_defs DEFAULT_OUTBOUND_CAPACITY_def)
  moreover have "callback_step cd ?s2 ?s3" by (rule callback_step.close_unlink) simp
  moreover have "callback_step cd ?s3 (closed_state frame)"
    unfolding closed_state_def by (rule callback_step.close_drop) simp
  ultimately show ?thesis using reachable_waiting[OF assms] by (meson reachable.step)
qed

end
