(* ===== verification/Server_Refresh.thy ===== *)
theory Server_Refresh
  imports Broker
begin

text \<open>
  Provider refreshes of \<open>valkyr-server/src/lib.rs\<close>: what the server does with the dispatch of a
  broker outcome. One refresh of a route is in flight at a time; requests that miss while it runs
  join it and read its completion.

  A \<open>RefreshState\<close> is shared (\<open>Arc\<close>) and compared by pointer, so it lives in a heap and is named by
  its address. The parts between two \<open>await\<close>s are definitions; \<open>refresh_step\<close> interleaves them,
  while other tasks may change the broker at any time. The wait for an adapter's answer
  (\<open>invoke\<close>, theory \<open>Server_Callbacks\<close>) is where a method is cut in two: the part after it takes the
  result as an argument.
\<close>

datatype refresh_completion = RPending | RFound | RMissed | RRateLimited nat | RFailed

record refresh_state =
  rs_completion :: refresh_completion
  rs_broker_refresh_id :: "uuid option"

type_synonym refresh_route = "namespace_context \<times> key"

text \<open>The rest of a method that a task still has to run on a route with a refresh state.\<close>

datatype refresh_work =
    Duplicate dispatch
  | Check dispatch
  | Limited dispatch nat
  | Run dispatch
  | Persist dispatch pending_mutation
  | Release dispatch refresh_completion
  | Publish refresh_completion

record ('s, 'm) server =
  sr_broker :: "('s, 'm) broker"
  sr_inflight :: "refresh_route \<rightharpoonup> nat"
  sr_states :: "nat \<rightharpoonup> refresh_state"
  sr_work :: "nat \<rightharpoonup> refresh_route \<times> nat \<times> refresh_work"

section \<open>Joining a refresh\<close>

text \<open>The section under the mutex: the state of the route's refresh, and whether it was created.\<close>

definition join_refresh ::
    "nat \<Rightarrow> refresh_route \<Rightarrow> uuid option \<Rightarrow> ('s, 'm) server \<Rightarrow> (nat \<times> bool) \<times> ('s, 'm) server" where
  "join_refresh fresh route refresh_id s =
     (case sr_inflight s route of
        Some a \<Rightarrow> ((a, False), s)
      | None \<Rightarrow>
          ((fresh, True),
           s\<lparr> sr_inflight := (sr_inflight s)(route \<mapsto> fresh),
              sr_states := (sr_states s)(fresh \<mapsto>
                \<lparr> rs_completion = RPending, rs_broker_refresh_id = refresh_id \<rparr>) \<rparr>))"

definition release_dispatch ::
    "('s, 'm) broker_env \<Rightarrow> refresh_route \<Rightarrow> dispatch \<Rightarrow> ('s, 'm) server \<Rightarrow> ('s, 'm) server" where
  "release_dispatch env route d s =
     (case d_provider_refresh_id d of
        None \<Rightarrow> s
      | Some i \<Rightarrow> s\<lparr> sr_broker := release_provider_refresh env (fst route) (snd route) i (sr_broker s) \<rparr>)"

definition is_duplicate :: "nat \<Rightarrow> bool \<Rightarrow> dispatch \<Rightarrow> ('s, 'm) server \<Rightarrow> bool" where
  "is_duplicate a created d s \<longleftrightarrow>
     \<not> created \<and> Option.bind (sr_states s a) rs_broker_refresh_id \<noteq> d_provider_refresh_id d"

definition check_rate :: "instant \<Rightarrow> dispatch \<Rightarrow> ('s, 'm) server \<Rightarrow> nat option \<times> ('s, 'm) server" where
  "check_rate now d s =
     (case provider_retry_after now (d_provider_id d) (Option.bind (d_provider_options d) max_rate) (sr_broker s) of
        (retry, b) \<Rightarrow> (retry, s\<lparr> sr_broker := b \<rparr>))"

section \<open>Completing a refresh\<close>

definition remove_refresh_if_current :: "refresh_route \<Rightarrow> nat \<Rightarrow> ('s, 'm) server \<Rightarrow> ('s, 'm) server" where
  "remove_refresh_if_current route a s =
     (if sr_inflight s route = Some a then s\<lparr> sr_inflight := (sr_inflight s)(route := None) \<rparr> else s)"

definition publish_refresh_completion ::
    "refresh_route \<Rightarrow> nat \<Rightarrow> refresh_completion \<Rightarrow> ('s, 'm) server \<Rightarrow> ('s, 'm) server" where
  "publish_refresh_completion route a completion s =
     remove_refresh_if_current route a
       (s\<lparr> sr_states := (sr_states s)(a := map_option (\<lambda>st. st\<lparr> rs_completion := completion \<rparr>) (sr_states s a)) \<rparr>)"

text \<open>
  \<open>refresh_from_provider\<close> after the provider's answer: the completion, or the store that must
  persist the value first with the mutation that waits for it. Without a completion (\<open>None\<close>) the task ends and
  publishes nothing: it returns because the dispatch is no query, or it panics (in \<open>hex_decode\<close>, theory \<open>Cipher\<close>).
\<close>

definition failed_refresh :: "error \<Rightarrow> refresh_completion option" where
  "failed_refresh e = (case e of Panic _ \<Rightarrow> None | _ \<Rightarrow> Some RFailed)"

definition refresh_result ::
    "('s, 'm) broker_env \<Rightarrow> instant \<Rightarrow> dispatch \<Rightarrow> bool \<Rightarrow> server_result result \<Rightarrow> ('s, 'm) broker
     \<Rightarrow> (refresh_completion option + (dispatch \<times> pending_mutation)) \<times> ('s, 'm) broker" where
  "refresh_result env now d from_adapter answer b =
     (case d_command d of
        Query _ n k \<Rightarrow>
          (case answer of
             Inr (QueryResult _ (Some value) None ttl) \<Rightarrow>
               (case accept_provider_value env now n k value (map_option from_secs ttl) from_adapter
                       (d_encrypted d) b of
                  (Inl e, b') \<Rightarrow> (Inl (failed_refresh e), b')
                | (Inr oc, b') \<Rightarrow>
                    (case (o_dispatch oc, o_pending_mutation oc) of
                       (Some d', Some mutation) \<Rightarrow> (Inr (d', mutation), b')
                     | (None, None) \<Rightarrow> (Inl (Some RFound), b')
                     | _ \<Rightarrow> (Inl (Some RFailed), b')))
           | Inr (QueryResult _ None None _) \<Rightarrow>
               (Inl (Some RMissed),
                (case d_provider_refresh_id d of
                   None \<Rightarrow> b
                 | Some i \<Rightarrow>
                     confirm_provider_miss env now n k
                       (case d_provider_options d of None \<Rightarrow> 0 | Some po \<Rightarrow> miss_ttl_seconds po)
                       (d_mutation_generation d) i b))
           | _ \<Rightarrow> (Inl (Some RFailed), b))
      | _ \<Rightarrow> (Inl None, b))"

text \<open>The continuation after the store's answer.\<close>

definition refresh_persisted ::
    "('s, 'm) broker_env \<Rightarrow> instant \<Rightarrow> pending_mutation \<Rightarrow> server_result result \<Rightarrow> ('s, 'm) broker
     \<Rightarrow> refresh_completion option \<times> ('s, 'm) broker" where
  "refresh_persisted env now mutation answer b =
     (case answer of
        Inr (Operation _ None) \<Rightarrow>
          (case commit env now mutation b of (Inl e, b') \<Rightarrow> (failed_refresh e, b') | (Inr _, b') \<Rightarrow> (Some RFound, b'))
      | _ \<Rightarrow> (Some RFailed, b))"

section \<open>Answering the request\<close>

text \<open>The end of \<open>wait_for_refresh\<close> under its timeout; \<open>None\<close> is the timeout.\<close>

definition terminal_completion :: "refresh_completion option \<Rightarrow> refresh_completion" where
  "terminal_completion w = (case w of None \<Rightarrow> RFailed | Some c \<Rightarrow> c)"

definition waited_response ::
    "('s, 'm) broker_env \<Rightarrow> instant \<Rightarrow> refresh_route \<Rightarrow> bool \<Rightarrow> response \<Rightarrow> refresh_completion
     \<Rightarrow> (('s, 'm) broker, response) op" where
  "waited_response env now route encrypted response' terminal =
     (case terminal of
        RFound \<Rightarrow>
          op_bind (cached_value_response env now (fst route) (snd route) encrypted) (\<lambda>r.
            op_return (case r of Some v \<Rightarrow> v | None \<Rightarrow> response'))
      | RMissed \<Rightarrow>
          op_bind (cached_value_response env now (fst route) (snd route) encrypted) (\<lambda>r.
            op_return (case r of Some v \<Rightarrow> v | None \<Rightarrow> RMiss 0))
      | RRateLimited retry \<Rightarrow> op_return (RMiss retry)
      | _ \<Rightarrow> op_return response')"

text \<open>\<open>finish_outcome\<close> for a mutation, after the store's answer.\<close>

definition finish_persist ::
    "('s, 'm) broker_env \<Rightarrow> instant \<Rightarrow> response \<Rightarrow> pending_mutation option \<Rightarrow> server_result result
     \<Rightarrow> (('s, 'm) broker, response) op" where
  "finish_persist env now response' pending answer =
     op_bind (op_lift answer) (\<lambda>r.
       case (r, pending) of
         (Operation _ (Some e), _) \<Rightarrow> op_fail (Protocol e)
       | (Operation _ None, Some mutation) \<Rightarrow>
           op_bind (commit env now mutation) (\<lambda>_. op_return response')
       | _ \<Rightarrow> op_fail (Protocol ''callback result does not match request''))"

section \<open>Interleaving\<close>

definition work :: "nat \<Rightarrow> refresh_route \<Rightarrow> nat \<Rightarrow> refresh_work \<Rightarrow> ('s, 'm) server \<Rightarrow> ('s, 'm) server" where
  "work t route a w s = s\<lparr> sr_work := (sr_work s)(t \<mapsto> (route, a, w)) \<rparr>"

definition work_done :: "nat \<Rightarrow> ('s, 'm) server \<Rightarrow> ('s, 'm) server" where
  "work_done t s = s\<lparr> sr_work := (sr_work s)(t := None) \<rparr>"

text \<open>
  \<open>broker_moves\<close> stands for the steps of all other tasks on the broker. The task of a request runs
  \<open>Duplicate\<close>, \<open>Check\<close>, \<open>Limited\<close> and the publication after it; \<open>Run\<close> and what follows it are a task
  of their own (\<open>tokio::spawn\<close>). \<open>from_adapter\<close> and \<open>answer\<close> come from the connections.
\<close>

inductive refresh_step :: "('s, 'm) broker_env \<Rightarrow> ('s, 'm) server \<Rightarrow> ('s, 'm) server \<Rightarrow> bool" for env where
  broker_moves: "refresh_step env s (s\<lparr> sr_broker := b \<rparr>)"
| join: "sr_states s fresh = None \<Longrightarrow> sr_work s t = None \<Longrightarrow>
    d_command d = Query i (fst route) (snd route) \<Longrightarrow>
    join_refresh fresh route (d_provider_refresh_id d) s = ((a, created), s') \<Longrightarrow>
    refresh_step env s (if created then work t route a (Check d) s'
      else if is_duplicate a created d s' then work t route a (Duplicate d) s' else s')"
| duplicate: "sr_work s t = Some (route, a, Duplicate d) \<Longrightarrow>
    refresh_step env s (work_done t (release_dispatch env route d s))"
| limited: "sr_work s t = Some (route, a, Check d) \<Longrightarrow> check_rate now d s = (Some retry, s') \<Longrightarrow>
    refresh_step env s (work t route a (Limited d retry) s')"
| admitted: "sr_work s t = Some (route, a, Check d) \<Longrightarrow> check_rate now d s = (None, s') \<Longrightarrow>
    refresh_step env s (work t route a (Run d) s')"
| limited_release: "sr_work s t = Some (route, a, Limited d retry) \<Longrightarrow>
    refresh_step env s (work t route a (Publish (RRateLimited retry)) (release_dispatch env route d s))"
| run_completes: "sr_work s t = Some (route, a, Run d) \<Longrightarrow>
    refresh_result env now d from_adapter answer (sr_broker s) = (Inl (Some completion), b) \<Longrightarrow>
    refresh_step env s (work t route a (Release d completion) (s\<lparr> sr_broker := b \<rparr>))"
| run_persists: "sr_work s t = Some (route, a, Run d) \<Longrightarrow>
    refresh_result env now d from_adapter answer (sr_broker s) = (Inr (d', mutation), b) \<Longrightarrow>
    refresh_step env s (work t route a (Persist d mutation) (s\<lparr> sr_broker := b \<rparr>))"
| persisted: "sr_work s t = Some (route, a, Persist d mutation) \<Longrightarrow>
    refresh_persisted env now mutation answer (sr_broker s) = (Some completion, b) \<Longrightarrow>
    refresh_step env s (work t route a (Release d completion) (s\<lparr> sr_broker := b \<rparr>))"
| release: "sr_work s t = Some (route, a, Release d completion) \<Longrightarrow>
    refresh_step env s (work t route a (Publish completion) (release_dispatch env route d s))"
| publish: "sr_work s t = Some (route, a, Publish completion) \<Longrightarrow>
    refresh_step env s (work_done t (publish_refresh_completion route a completion s))"

text \<open>
  Tasks that end without publishing. The task of a request can be dropped while it waits: the session aborts its worker five seconds
  after the connection closed, and an HTTP handler is dropped with its connection. The only
  point where a request that owns a refresh waits is the lock of the rate limits, which \<open>Check\<close> takes if the dispatch names a
  provider with a limit. The task of the refresh itself is not dropped, but it ends when it panics.
\<close>

inductive lost_step :: "('s, 'm) broker_env \<Rightarrow> ('s, 'm) server \<Rightarrow> ('s, 'm) server \<Rightarrow> bool" for env where
  dropped: "sr_work s t = Some (route, a, Check d) \<Longrightarrow>
    d_provider_id d \<noteq> None \<Longrightarrow> Option.bind (d_provider_options d) max_rate \<noteq> None \<Longrightarrow>
    lost_step env s (work_done t s)"
| run_panics: "sr_work s t = Some (route, a, Run d) \<Longrightarrow>
    refresh_result env now d from_adapter answer (sr_broker s) = (Inl None, b) \<Longrightarrow>
    lost_step env s (work_done t (s\<lparr> sr_broker := b \<rparr>))"
| persist_panics: "sr_work s t = Some (route, a, Persist d mutation) \<Longrightarrow>
    refresh_persisted env now mutation answer (sr_broker s) = (None, b) \<Longrightarrow>
    lost_step env s (work_done t (s\<lparr> sr_broker := b \<rparr>))"

text \<open>The states of the server; \<open>losses\<close> tells whether tasks may be lost.\<close>

inductive refresh_reachable :: "('s, 'm) broker_env \<Rightarrow> bool \<Rightarrow> ('s, 'm) server \<Rightarrow> bool" for env losses where
  initial: "sr_inflight s = Map.empty \<Longrightarrow> sr_states s = Map.empty \<Longrightarrow> sr_work s = Map.empty \<Longrightarrow>
    refresh_reachable env losses s"
| step: "refresh_reachable env losses s \<Longrightarrow> refresh_step env s s' \<Longrightarrow> refresh_reachable env losses s'"
| lost: "refresh_reachable env losses s \<Longrightarrow> losses \<Longrightarrow> lost_step env s s' \<Longrightarrow> refresh_reachable env losses s'"

end
