(* ===== verification/Server_Flights.thy ===== *)
theory Server_Flights
  imports Server_Refresh Broker_Roundtrip
begin

text \<open>
  Single flight of provider refreshes. The task that created the refresh of a route is its owner
  until it publishes; while it runs, no other task asks the provider for the route, and whoever
  waits on the shared state waits for that owner.
\<close>

section \<open>Owners\<close>

fun owns :: "refresh_work \<Rightarrow> bool" where
  "owns (Duplicate _) = False"
| "owns _ = True"

text \<open>The dispatch of a refresh is a query, and the completion a piece of work is going to publish is never \<open>Pending\<close>.\<close>

definition query_of_route :: "dispatch \<Rightarrow> bool" where
  "query_of_route d \<longleftrightarrow> (\<exists>i n k. d_command d = Query i n k)"

fun completes :: "refresh_work \<Rightarrow> bool" where
  "completes (Check d) = query_of_route d"
| "completes (Run d) = query_of_route d"
| "completes (Release _ c) = (c \<noteq> RPending)"
| "completes (Publish c) = (c \<noteq> RPending)"
| "completes _ = True"

definition pending_state :: "('s, 'm) server \<Rightarrow> nat \<Rightarrow> bool" where
  "pending_state s a \<longleftrightarrow> map_option rs_completion (sr_states s a) = Some RPending"

definition owner :: "('s, 'm) server \<Rightarrow> nat \<Rightarrow> refresh_route \<Rightarrow> nat \<Rightarrow> bool" where
  "owner s t route a \<longleftrightarrow> (\<exists>w. sr_work s t = Some (route, a, w) \<and> owns w)"

definition flight_inv :: "('s, 'm) server \<Rightarrow> bool" where
  "flight_inv s \<longleftrightarrow>
     (\<forall>t route a. owner s t route a \<longrightarrow> sr_inflight s route = Some a)
   \<and> (\<forall>t t' route a a'. owner s t route a \<longrightarrow> owner s t' route a' \<longrightarrow> t = t')
   \<and> (\<forall>route a. sr_inflight s route = Some a \<longrightarrow> pending_state s a)
   \<and> (\<forall>a. pending_state s a \<longrightarrow> (\<exists>route. sr_inflight s route = Some a))
   \<and> (\<forall>route route' a. sr_inflight s route = Some a \<longrightarrow> sr_inflight s route' = Some a \<longrightarrow> route = route')
   \<and> (\<forall>t route a w. sr_work s t = Some (route, a, w) \<longrightarrow> completes w)"

definition all_owned :: "('s, 'm) server \<Rightarrow> bool" where
  "all_owned s \<longleftrightarrow> (\<forall>route a. sr_inflight s route = Some a \<longrightarrow> (\<exists>t. owner s t route a))"

lemma flight_invD:
  assumes "flight_inv s"
  shows "owner s t route a \<Longrightarrow> sr_inflight s route = Some a"
    and "owner s t route a \<Longrightarrow> owner s t' route a' \<Longrightarrow> t = t'"
    and "sr_inflight s route = Some a \<Longrightarrow> pending_state s a"
    and "pending_state s a \<Longrightarrow> \<exists>route. sr_inflight s route = Some a"
    and "sr_inflight s route = Some a \<Longrightarrow> sr_inflight s route' = Some a \<Longrightarrow> route = route'"
    and "sr_work s t = Some (route, a, w) \<Longrightarrow> completes w"
  using assms unfolding flight_inv_def by blast+

lemma flight_invI:
  assumes "\<And>t route a. owner s t route a \<Longrightarrow> sr_inflight s route = Some a"
    and "\<And>t t' route a a'. owner s t route a \<Longrightarrow> owner s t' route a' \<Longrightarrow> t = t'"
    and "\<And>route a. sr_inflight s route = Some a \<Longrightarrow> pending_state s a"
    and "\<And>a. pending_state s a \<Longrightarrow> \<exists>route. sr_inflight s route = Some a"
    and "\<And>route route' a. sr_inflight s route = Some a \<Longrightarrow> sr_inflight s route' = Some a \<Longrightarrow> route = route'"
    and "\<And>t route a w. sr_work s t = Some (route, a, w) \<Longrightarrow> completes w"
  shows "flight_inv s"
  using assms unfolding flight_inv_def by blast

section \<open>Completions\<close>

lemma refresh_result_completes:
  "refresh_result env now d fa answer b = (Inl (Some c), b') \<Longrightarrow> c \<noteq> RPending"
  by (auto simp: refresh_result_def failed_refresh_def split: error.splits server_command.splits sum.splits server_result.splits
      option.splits prod.splits)

lemma refresh_persisted_completes:
  "refresh_persisted env now m answer b = (Some c, b') \<Longrightarrow> c \<noteq> RPending"
  by (auto simp: refresh_persisted_def failed_refresh_def split: error.splits sum.splits server_result.splits option.splits prod.splits)

lemma release_dispatch_fields [simp]:
  "sr_inflight (release_dispatch env route d s) = sr_inflight s"
  "sr_states (release_dispatch env route d s) = sr_states s"
  "sr_work (release_dispatch env route d s) = sr_work s"
  by (auto simp: release_dispatch_def split: option.splits)

lemma check_rate_fields:
  "check_rate now d s = (r, s') \<Longrightarrow>
     sr_inflight s' = sr_inflight s \<and> sr_states s' = sr_states s \<and> sr_work s' = sr_work s"
  by (auto simp: check_rate_def split: prod.splits)

section \<open>Steps\<close>

text \<open>A task moves on to other work of the same kind; another task's work is untouched.\<close>

lemma flight_moves:
  assumes "sr_inflight s' = sr_inflight s" and "sr_states s' = sr_states s" and "sr_work s' = sr_work s"
    and "sr_work s t = Some (route, a, w)" and "owns w" and "owns w'"
  shows "flight_inv s \<Longrightarrow> completes w' \<Longrightarrow> flight_inv (work t route a w' s')"
    and "all_owned s \<Longrightarrow> all_owned (work t route a w' s')"
proof -
  have owner: "owner (work t route a w' s') t1 r1 a1 \<longleftrightarrow> owner s t1 r1 a1" for t1 r1 a1
    using assms(3-6) by (auto simp: owner_def work_def)
  have pend: "pending_state (work t route a w' s') x = pending_state s x" for x
    by (simp add: pending_state_def work_def assms(2))
  have fly: "sr_inflight (work t route a w' s') = sr_inflight s" by (simp add: work_def assms(1))
  show "all_owned s \<Longrightarrow> all_owned (work t route a w' s')" by (simp add: all_owned_def owner fly)
  show "flight_inv (work t route a w' s')" if "flight_inv s" "completes w'"
    unfolding flight_inv_def owner pend fly
    using flight_invD[OF that(1)] that(2) assms(3) by (auto simp: work_def)
qed

lemma flight_quits:
  assumes "sr_inflight s' = sr_inflight s" and "sr_states s' = sr_states s" and "sr_work s' = sr_work s"
  shows "flight_inv s \<Longrightarrow> flight_inv (work_done t s')"
proof -
  have owner: "owner (work_done t s') t1 r1 a1 \<longleftrightarrow> t1 \<noteq> t \<and> owner s t1 r1 a1" for t1 r1 a1
    using assms(3) by (auto simp: owner_def work_done_def)
  have pend: "pending_state (work_done t s') x = pending_state s x" for x
    by (simp add: pending_state_def work_done_def assms(2))
  have fly: "sr_inflight (work_done t s') = sr_inflight s" by (simp add: work_done_def assms(1))
  show "flight_inv (work_done t s')" if "flight_inv s"
    unfolding flight_inv_def owner pend fly
    using flight_invD[OF that] assms(3) by (auto simp: work_done_def split: if_splits)
qed

lemma owned_quits:
  assumes "all_owned s" and "sr_inflight s' = sr_inflight s" and "sr_work s' = sr_work s"
    and "sr_work s t = Some (route, a, Duplicate d)"
  shows "all_owned (work_done t s')"
proof -
  have "owner (work_done t s') t1 r1 a1 \<longleftrightarrow> owner s t1 r1 a1" for t1 r1 a1
    using assms(3,4) by (auto simp: owner_def work_done_def)
  then show ?thesis using assms(1,2) by (simp add: all_owned_def work_done_def)
qed

lemma flight_joins:
  assumes "flight_inv s" and "sr_states s fresh = None" and "sr_work s t = None"
    and "join_refresh fresh route i s = ((a, created), s')" and query: "query_of_route d"
    and s1: "s1 = (if created then work t route a (Check d) s'
      else if is_duplicate a created d s' then work t route a (Duplicate d) s' else s')"
  shows "flight_inv s1" and "all_owned s \<Longrightarrow> all_owned s1"
proof -
  have "flight_inv s1 \<and> (all_owned s \<longrightarrow> all_owned s1)"
  proof (cases "sr_inflight s route")
    case None
    then have eqs: "a = fresh" "created"
      "s' = s\<lparr> sr_inflight := (sr_inflight s)(route \<mapsto> fresh),
              sr_states := (sr_states s)(fresh \<mapsto> \<lparr> rs_completion = RPending, rs_broker_refresh_id = i \<rparr>) \<rparr>"
      using assms(4) by (auto simp: join_refresh_def)
    have owner: "owner s1 t1 r1 a1 \<longleftrightarrow> owner s t1 r1 a1 \<or> (t1, r1, a1) = (t, route, fresh)" for t1 r1 a1
      using assms(3) by (auto simp: owner_def work_def s1 eqs)
    have pend: "pending_state s1 x \<longleftrightarrow> pending_state s x \<or> x = fresh" for x
      by (auto simp: pending_state_def work_def s1 eqs)
    have fly: "sr_inflight s1 = (sr_inflight s)(route \<mapsto> fresh)" by (simp add: work_def s1 eqs)
    have new: "\<not> pending_state s fresh" using assms(2) by (simp add: pending_state_def)
    note inv = flight_invD[OF assms(1)]
    have works: "sr_work s1 = (sr_work s)(t \<mapsto> (route, fresh, Check d))" by (simp add: work_def s1 eqs)
    have unowned: "\<not> owner s t1 route a1" for t1 a1 using flight_invD(1)[OF assms(1)] None by fastforce
    have unfly: "sr_inflight s r1 \<noteq> Some fresh" for r1 using flight_invD(3)[OF assms(1)] new by blast
    have "all_owned s \<longrightarrow> all_owned s1" unfolding all_owned_def owner fly by (auto split: if_splits)
    moreover have "flight_inv s1"
    proof (rule flight_invI, unfold owner pend fly works, goal_cases)
      case (1 t1 r1 a1)
      then show ?case using inv(1)[of t1 r1 a1] unowned by auto
    next
      case (2 t1 t2 r1 a1 a2)
      then show ?case using inv(2)[of t1 r1 a1 t2 a2] unowned by auto
    next
      case (4 a1)
      then consider "a1 = fresh" | r1 where "sr_inflight s r1 = Some a1" using inv(4)[of a1] by blast
      then show ?case
      proof cases
        case 2
        then show ?thesis using None by (intro exI[of _ r1]) auto
      qed (intro exI[of _ route], simp)
    qed (use inv(3,5,6) unfly query in \<open>auto split: if_splits\<close>)
    ultimately show ?thesis by blast
  next
    case (Some x)
    then have eqs: "a = x" "\<not> created" "s' = s" using assms(4) by (auto simp: join_refresh_def)
    have owner: "owner s1 = owner s"
      using assms(3) by (intro ext) (auto simp: owner_def work_def s1 eqs)
    have pend: "pending_state s1 = pending_state s" and fly: "sr_inflight s1 = sr_inflight s"
      by (auto simp: fun_eq_iff pending_state_def work_def s1 eqs)
    have "all_owned s \<longrightarrow> all_owned s1" unfolding all_owned_def owner fly by blast
    moreover have "flight_inv s1"
      unfolding flight_inv_def owner pend fly
      using flight_invD[OF assms(1)] by (auto simp: s1 eqs work_def split: if_splits)
    ultimately show ?thesis by blast
  qed
  then show "flight_inv s1" and "all_owned s \<Longrightarrow> all_owned s1" by blast+
qed

lemma flight_publishes:
  assumes "flight_inv s" and "sr_work s t = Some (route, a, Publish c)"
  shows "flight_inv (work_done t (publish_refresh_completion route a c s))"
    and "all_owned s \<Longrightarrow> all_owned (work_done t (publish_refresh_completion route a c s))"
proof -
  let ?s = "work_done t (publish_refresh_completion route a c s)"
  note inv = flight_invD[OF assms(1)]
  have own: "owner s t route a" using assms(2) by (simp add: owner_def)
  note cur = inv(1)[OF own]
  have c: "c \<noteq> RPending" using inv(6)[OF assms(2)] by simp
  have owner: "owner ?s t1 r1 a1 \<longleftrightarrow> owner s t1 r1 a1 \<and> t1 \<noteq> t" for t1 r1 a1
    by (auto simp: owner_def work_done_def publish_refresh_completion_def remove_refresh_if_current_def)
  have pend: "pending_state ?s x \<longleftrightarrow> pending_state s x \<and> x \<noteq> a" for x
    using c by (cases "sr_states s a")
      (auto simp: pending_state_def work_done_def publish_refresh_completion_def remove_refresh_if_current_def)
  have fly: "sr_inflight ?s = (sr_inflight s)(route := None)"
    using cur by (simp add: work_done_def publish_refresh_completion_def remove_refresh_if_current_def)
  have works: "sr_work ?s = (sr_work s)(t := None)"
    by (simp add: work_done_def publish_refresh_completion_def remove_refresh_if_current_def)
  have alone: "r1 = route" if "owner s t r1 a1" for r1 a1 using that assms(2) by (simp add: owner_def)
  show "all_owned ?s" if "all_owned s"
    unfolding all_owned_def owner fly
  proof (intro allI impI)
    fix r1 a1 assume "((sr_inflight s)(route := None)) r1 = Some a1"
    then have r1: "r1 \<noteq> route" and "sr_inflight s r1 = Some a1" by (auto split: if_splits)
    with that obtain t1 where "owner s t1 r1 a1" unfolding all_owned_def by blast
    with alone r1 show "\<exists>t1. owner s t1 r1 a1 \<and> t1 \<noteq> t" by blast
  qed
  show "flight_inv ?s"
  proof (rule flight_invI, unfold owner pend fly works, goal_cases)
    case (1 t1 r1 a1)
    then show ?case using inv(1)[of t1 r1 a1] inv(2)[of t1 r1 a1 t a] own by auto
  next
    case (3 r1 a1)
    then have "r1 \<noteq> route" "sr_inflight s r1 = Some a1" by (auto split: if_splits)
    then show ?case using inv(3) inv(5)[of r1 a1 route] cur by blast
  next
    case (4 a1)
    then obtain r1 where "sr_inflight s r1 = Some a1" using inv(4) by blast
    then show ?case using 4 cur by (intro exI[of _ r1]) auto
  qed (use inv(2,5,6) in \<open>auto split: if_splits\<close>)
qed

lemma refresh_step_flight:
  assumes "refresh_step env s s'" and "flight_inv s"
  shows "flight_inv s'" and "all_owned s \<Longrightarrow> all_owned s'"
proof -
  have "flight_inv s' \<and> (all_owned s \<longrightarrow> all_owned s')"
    using assms(1)
  proof cases
    case (broker_moves b)
    then show ?thesis using assms(2)
      by (simp add: flight_inv_def all_owned_def owner_def pending_state_def)
  next
    case (join fresh t d i route a created s1)
    have "query_of_route d" using join(4) by (auto simp: query_of_route_def)
    then show ?thesis using flight_joins[OF assms(2) join(2,3,5) _ join(1)] by blast
  next
    case (duplicate t route a d)
    show ?thesis unfolding duplicate(1)
      using flight_quits[OF release_dispatch_fields assms(2)]
        owned_quits[OF _ release_dispatch_fields(1,3) duplicate(2)] by blast
  next
    case (limited t route a d now retry s1)
    show ?thesis unfolding limited(1)
      using check_rate_fields[OF limited(3)] flight_moves[of s1 s t route a "Check d" "Limited d retry"]
        limited(2) assms(2) by simp
  next
    case (admitted t route a d now s1)
    show ?thesis unfolding admitted(1)
      using check_rate_fields[OF admitted(3)] flight_moves[of s1 s t route a "Check d" "Run d"]
        admitted(2) flight_invD(6)[OF assms(2) admitted(2)] assms(2) by simp
  next
    case (limited_release t route a d retry)
    show ?thesis unfolding limited_release(1)
      using flight_moves[OF release_dispatch_fields limited_release(2)] assms(2) by simp
  next
    case (run_completes t route a d now fa answer c b)
    show ?thesis unfolding run_completes(1)
      using flight_moves[of "s\<lparr> sr_broker := b \<rparr>" s, OF _ _ _ run_completes(2)]
        refresh_result_completes[OF run_completes(3)] assms(2) by simp
  next
    case (run_persists t route a d now fa answer d' m b)
    show ?thesis unfolding run_persists(1)
      using flight_moves[of "s\<lparr> sr_broker := b \<rparr>" s, OF _ _ _ run_persists(2)] assms(2) by simp
  next
    case (persisted t route a d m now answer c b)
    show ?thesis unfolding persisted(1)
      using flight_moves[of "s\<lparr> sr_broker := b \<rparr>" s, OF _ _ _ persisted(2)]
        refresh_persisted_completes[OF persisted(3)] assms(2) by simp
  next
    case (release t route a d c)
    show ?thesis unfolding release(1)
      using flight_moves[OF release_dispatch_fields release(2)] flight_invD(6)[OF assms(2) release(2)]
        assms(2) by simp
  next
    case (publish t route a c)
    show ?thesis unfolding publish(1) using flight_publishes[OF assms(2) publish(2)] by blast
  qed
  then show "flight_inv s'" and "all_owned s \<Longrightarrow> all_owned s'" by blast+
qed

lemma lost_step_flight: "lost_step env s s' \<Longrightarrow> flight_inv s \<Longrightarrow> flight_inv s'"
  by (induction rule: lost_step.induct) (auto intro: flight_quits)

lemma reachable_flight: "refresh_reachable env losses s \<Longrightarrow> flight_inv s"
proof (induction rule: refresh_reachable.induct)
  case (initial s)
  then show ?case by (simp add: flight_inv_def owner_def pending_state_def)
next
  case (step s s')
  then show ?case using refresh_step_flight(1) by blast
next
  case (lost s s')
  then show ?case using lost_step_flight by blast
qed

lemma reachable_owned: "refresh_reachable env losses s \<Longrightarrow> \<not> losses \<Longrightarrow> all_owned s"
proof (induction rule: refresh_reachable.induct)
  case (initial s)
  then show ?case by (simp add: all_owned_def)
next
  case (step s s')
  then show ?case using refresh_step_flight(2) reachable_flight by blast
qed simp

section \<open>Completing\<close>

definition completed :: "('s, 'm) server \<Rightarrow> nat \<Rightarrow> bool" where
  "completed s a \<longleftrightarrow> (\<exists>c. map_option rs_completion (sr_states s a) = Some c \<and> c \<noteq> RPending)"

definition can_complete :: "('s, 'm) broker_env \<Rightarrow> ('s, 'm) server \<Rightarrow> nat \<Rightarrow> bool" where
  "can_complete env s a \<longleftrightarrow> (\<exists>s'. (refresh_step env)\<^sup>*\<^sup>* s s' \<and> completed s' a)"

lemma can_complete_step: "refresh_step env s s' \<Longrightarrow> can_complete env s' a \<Longrightarrow> can_complete env s a"
  unfolding can_complete_def by (meson converse_rtranclp_into_rtranclp)

lemma work_fields [simp]:
  "sr_work (work t route a w s) t = Some (route, a, w)" "sr_states (work t route a w s) = sr_states s"
  by (simp_all add: work_def)

lemma publish_completes:
  assumes "sr_work s t = Some (route, a, Publish c)" and "c \<noteq> RPending" and "sr_states s a \<noteq> None"
  shows "can_complete env s a"
proof (rule can_complete_step[OF refresh_step.publish[OF assms(1)]])
  have "completed (work_done t (publish_refresh_completion route a c s)) a"
    using assms(2,3) by (auto simp: completed_def work_done_def publish_refresh_completion_def remove_refresh_if_current_def)
  then show "can_complete env (work_done t (publish_refresh_completion route a c s)) a"
    unfolding can_complete_def by blast
qed

lemma release_completes:
  assumes "sr_work s t = Some (route, a, Release d c)" and "c \<noteq> RPending" and "sr_states s a \<noteq> None"
  shows "can_complete env s a"
  by (rule can_complete_step[OF refresh_step.release[OF assms(1)]], rule publish_completes[OF work_fields(1)]) (use assms in simp_all)

lemma limited_completes:
  assumes "sr_work s t = Some (route, a, Limited d retry)" and "sr_states s a \<noteq> None"
  shows "can_complete env s a"
  by (rule can_complete_step[OF refresh_step.limited_release[OF assms(1)]], rule publish_completes[OF work_fields(1)])
    (use assms in simp_all)

text \<open>A callback always has a result: \<open>invoke\<close> gives up after its timeout.\<close>

lemma persist_completes:
  assumes "sr_work s t = Some (route, a, Persist d m)" and "sr_states s a \<noteq> None"
  shows "can_complete env s a"
proof -
  have r: "refresh_persisted env 0 m (Inl (Connection ''callback timed out'')) (sr_broker s) = (Some RFailed, sr_broker s)"
    by (simp add: refresh_persisted_def)
  show ?thesis
    by (rule can_complete_step[OF refresh_step.persisted[OF assms(1) r]], rule release_completes[OF work_fields(1)])
      (use assms(2) in simp_all)
qed

lemma run_completes:
  assumes "sr_work s t = Some (route, a, Run d)" and "query_of_route d" and "sr_states s a \<noteq> None"
  shows "can_complete env s a"
proof -
  have r: "refresh_result env 0 d False (Inl (Connection ''callback timed out'')) (sr_broker s) = (Inl (Some RFailed), sr_broker s)"
    using assms(2) by (auto simp: refresh_result_def query_of_route_def)
  show ?thesis
    by (rule can_complete_step[OF refresh_step.run_completes[OF assms(1) r]], rule release_completes[OF work_fields(1)])
      (use assms(3) in simp_all)
qed

lemma check_completes:
  assumes "sr_work s t = Some (route, a, Check d)" and "query_of_route d" and "sr_states s a \<noteq> None"
  shows "can_complete env s a"
proof (cases "check_rate 0 d s")
  case (Pair r s')
  note f = check_rate_fields[OF Pair]
  show ?thesis
  proof (cases r)
    case None
    show ?thesis
      by (rule can_complete_step[OF refresh_step.admitted[OF assms(1) Pair[unfolded None]]], rule run_completes[OF work_fields(1)])
        (use assms(2,3) f in simp_all)
  next
    case (Some retry)
    show ?thesis
      by (rule can_complete_step[OF refresh_step.limited[OF assms(1) Pair[unfolded Some]]], rule limited_completes[OF work_fields(1)])
        (use assms(3) f in simp_all)
  qed
qed

lemma owner_completes:
  assumes "flight_inv s" and "owner s t route a"
  shows "can_complete env s a"
proof -
  note inv = flight_invD[OF assms(1)]
  obtain w where w: "sr_work s t = Some (route, a, w)" "owns w" using assms(2) by (auto simp: owner_def)
  have st: "sr_states s a \<noteq> None" using inv(3)[OF inv(1)[OF assms(2)]] by (auto simp: pending_state_def)
  show ?thesis using w inv(6)[OF w(1)] st
    by (cases w) (auto intro: check_completes limited_completes run_completes persist_completes
        release_completes publish_completes)
qed

section \<open>Abandoned refreshes\<close>

definition abandoned :: "('s, 'm) server \<Rightarrow> refresh_route \<Rightarrow> nat \<Rightarrow> bool" where
  "abandoned s route a \<longleftrightarrow> flight_inv s \<and> sr_inflight s route = Some a \<and> (\<forall>t x. \<not> owner s t route x)"

lemma refresh_step_inflight:
  assumes "refresh_step env s s'" and "flight_inv s" and "sr_inflight s route = Some a"
    and "\<And>t x. \<not> owner s t route x"
  shows "sr_inflight s' route = Some a" and "\<not> owner s' t route x"
proof -
  have un: "sr_work s t = Some ((p, q), x, w) \<Longrightarrow> \<not> owns w \<or> (p, q) \<noteq> route" for t p q x w
    using assms(4)[of t x] by (auto simp: owner_def)
  have unr: "sr_work s t = Some (route, x, w) \<Longrightarrow> \<not> owns w" for t x w
    using assms(4)[of t x] by (auto simp: owner_def)
  have "sr_inflight s' route = Some a \<and> (\<forall>t x. \<not> owner s' t route x)"
    using assms(1)
  proof cases
    case (publish t1 r1 a1 c)
    then have "owner s t1 r1 a1" by (simp add: owner_def)
    then have "r1 \<noteq> route" using assms(4) by blast
    then show ?thesis
      using assms(3) unfolding publish(1)
      by (auto dest: un unr simp: owner_def work_done_def publish_refresh_completion_def remove_refresh_if_current_def)
  next
    case (limited t1 r1 a1 d now retry s1)
    then show ?thesis using assms(3) check_rate_fields[OF limited(3)]
      by (auto simp: owner_def work_def dest: un unr)
  next
    case (admitted t1 r1 a1 d now s1)
    then show ?thesis using assms(3) check_rate_fields[OF admitted(3)]
      by (auto simp: owner_def work_def dest: un unr)
  next
    case (join fresh t1 d i r1 a1 created s1)
    have "\<forall>t x w. sr_work s t = Some (route, x, w) \<longrightarrow> \<not> owns w" using unr by blast
    then show ?thesis using assms(3) join
      by (auto simp: owner_def work_def join_refresh_def dest: un unr split: option.splits if_splits)
  qed (use assms(3) in \<open>auto simp: owner_def work_def work_done_def dest: un unr\<close>)
  then show "sr_inflight s' route = Some a" and "\<not> owner s' t route x" by blast+
qed

lemma lost_step_inflight:
  assumes "lost_step env s s'" and "sr_inflight s route = Some a" and "\<And>t x. \<not> owner s t route x"
  shows "sr_inflight s' route = Some a" and "\<not> owner s' t route x"
  using assms by (induction rule: lost_step.induct) (auto simp: owner_def work_done_def)

lemma abandoned_steps:
  assumes "(sup (refresh_step env) (lost_step env))\<^sup>*\<^sup>* s s'" and "abandoned s route a"
  shows "abandoned s' route a"
  using assms
proof (induction rule: rtranclp_induct)
  case (step s1 s2)
  then have ab: "abandoned s1 route a" by blast
  from step(2) consider "refresh_step env s1 s2" | "lost_step env s1 s2" by auto
  then show ?case
  proof cases
    case 1
    then show ?thesis
      using refresh_step_inflight[OF 1, of route a] refresh_step_flight(1)[OF 1] ab
      unfolding abandoned_def by blast
  next
    case 2
    then show ?thesis
      using lost_step_inflight[OF 2, of route a] lost_step_flight[OF 2] ab
      unfolding abandoned_def by blast
  qed
qed

section \<open>Properties\<close>

text \<open>
  C10. Single flight: in every interleaving of requests, aborted ones included, at most one task at
  a time asks a provider for a route or is about to; its state is the one every joining request
  waits on, and it is pending until that task publishes.
\<close>

theorem refresh_single_flight:
  assumes "refresh_reachable env losses s" and "owner s t route a" and "owner s t' route a'"
  shows "t' = t \<and> a' = a \<and> sr_inflight s route = Some a \<and> pending_state s a"
proof -
  note inv = flight_invD[OF reachable_flight[OF assms(1)]]
  have "sr_inflight s route = Some a" "sr_inflight s route = Some a'" using inv(1) assms(2,3) by blast+
  then show ?thesis using inv(2)[OF assms(2,3)] inv(3) by simp
qed

text \<open>
  C29. No waiter is forgotten: as long as no request is dropped while it owns a refresh and no refresh task panics, every
  pending refresh has an owner, and the tasks can always run on until its waiters are woken.
\<close>

theorem pending_refresh_completes:
  assumes "refresh_reachable env False s" and "pending_state s a"
  shows "(\<exists>t route. owner s t route a) \<and> (\<exists>s'. (refresh_step env)\<^sup>*\<^sup>* s s' \<and> completed s' a)"
proof -
  note inv = reachable_flight[OF assms(1)]
  obtain route where "sr_inflight s route = Some a" using flight_invD(4)[OF inv assms(2)] by blast
  then obtain t where "owner s t route a" using reachable_owned[OF assms(1)] unfolding all_owned_def by blast
  with owner_completes[OF inv this] show ?thesis unfolding can_complete_def by blast
qed

text \<open>
  C34. A task that ends without publishing the refresh it owns leaves the route blocked: a request dropped at the lock of the rate
  limits, before it spawned the refresh it created, or a refresh task that panics. Whatever the other
  tasks do, being lost included, the refresh stays in flight and pending, no provider is asked for the route again, and every
  reader waits in vain.
\<close>

theorem dropped_owner_blocks_route:
  assumes "refresh_reachable env losses s" and "owner s t route a"
    and "(sup (refresh_step env) (lost_step env))\<^sup>*\<^sup>* (work_done t (s\<lparr> sr_broker := b \<rparr>)) s'"
  shows "sr_inflight s' route = Some a \<and> pending_state s' a \<and> (\<forall>t' a'. \<not> owner s' t' route a')"
proof -
  note inv = reachable_flight[OF assms(1)]
  let ?s = "work_done t (s\<lparr> sr_broker := b \<rparr>)"
  have "\<not> owner ?s t' route a'" for t' a'
    using flight_invD(2)[OF inv assms(2), of t' a'] by (auto simp: owner_def work_done_def split: if_splits)
  then have "abandoned ?s route a"
    using flight_quits[of "s\<lparr> sr_broker := b \<rparr>" s t, OF _ _ _ inv] flight_invD(1)[OF inv assms(2)]
    by (simp add: abandoned_def work_done_def)
  from abandoned_steps[OF assms(3) this] show ?thesis
    using flight_invD(3) unfolding abandoned_def by blast
qed

section \<open>Witnesses\<close>

text \<open>A request that misses \<open>k\<close> in the draft namespace, with a provider of connection 7 that has a rate limit.\<close>

definition ada_route :: refresh_route where
  "ada_route = (draft_ns, Key ''k'')"

definition ada_refresh :: dispatch where
  "ada_refresh = (persist_dispatch 7 (Query 42 draft_ns (Key ''k'')))
     \<lparr> d_provider_id := Some 5, d_provider_options := Some \<lparr> max_rate = Some 10, timeout_ms = 250, miss_ttl_seconds = 0 \<rparr> \<rparr>"

definition idle_server :: "(memory_state, miss_state) server" where
  "idle_server = \<lparr> sr_broker = open_broker, sr_inflight = Map.empty, sr_states = Map.empty, sr_work = Map.empty \<rparr>"

definition joined_server :: "(memory_state, miss_state) server" where
  "joined_server = work 0 ada_route 3 (Check ada_refresh) (snd (join_refresh 3 ada_route None idle_server))"

lemmas joined_defs = joined_server_def idle_server_def join_refresh_def ada_refresh_def ada_route_def
  persist_dispatch_def

lemma joined_reachable: "refresh_reachable sample_env losses joined_server"
proof -
  let ?s = "snd (join_refresh 3 ada_route None idle_server)"
  have j: "join_refresh 3 ada_route (d_provider_refresh_id ada_refresh) idle_server = ((3, True), ?s)"
    by (simp add: joined_defs)
  have "refresh_step sample_env idle_server (if True then work 0 ada_route 3 (Check ada_refresh) ?s
      else if is_duplicate 3 True ada_refresh ?s then work 0 ada_route 3 (Duplicate ada_refresh) ?s else ?s)"
    by (rule refresh_step.join[OF _ _ _ j]) (simp_all add: joined_defs)
  moreover have "refresh_reachable sample_env losses idle_server"
    by (rule refresh_reachable.initial) (simp_all add: idle_server_def)
  ultimately show ?thesis unfolding joined_server_def by (auto intro: refresh_reachable.step)
qed

lemma joined_owner: "owner joined_server 0 ada_route 3"
  by (simp add: owner_def joined_server_def)

theorem refresh_single_flight_witness:
  "refresh_reachable sample_env True joined_server \<and> owner joined_server 0 ada_route 3
   \<and> sr_inflight joined_server ada_route = Some 3 \<and> pending_state joined_server 3"
  using refresh_single_flight[OF joined_reachable joined_owner joined_owner] joined_reachable joined_owner
  by blast

theorem pending_refresh_completes_witness:
  "pending_state joined_server 3 \<and> (\<exists>s'. (refresh_step sample_env)\<^sup>*\<^sup>* joined_server s' \<and> completed s' 3)"
proof -
  have "pending_state joined_server 3" by (simp add: pending_state_def joined_defs work_def)
  then show ?thesis using pending_refresh_completes[OF joined_reachable] by blast
qed

theorem dropped_owner_blocks_route_witness:
  "let s = work_done 0 joined_server in
   lost_step sample_env joined_server s \<and> refresh_reachable sample_env True s
   \<and> sr_inflight s ada_route = Some 3 \<and> pending_state s 3"
proof -
  have w: "sr_work joined_server 0 = Some (ada_route, 3, Check ada_refresh)" by (simp add: joined_server_def)
  have lost: "lost_step sample_env joined_server (work_done 0 joined_server)"
    by (rule lost_step.dropped[OF w]) (simp_all add: ada_refresh_def)
  have "(sup (refresh_step sample_env) (lost_step sample_env))\<^sup>*\<^sup>*
      (work_done 0 (joined_server\<lparr> sr_broker := sr_broker joined_server \<rparr>)) (work_done 0 joined_server)" by simp
  from dropped_owner_blocks_route[OF joined_reachable joined_owner this] lost
    refresh_reachable.lost[OF joined_reachable TrueI lost]
  show ?thesis by (simp add: Let_def)
qed

text \<open>
  A refresh task does panic: the record of the namespace's encryption key holds a text with a character of three bytes (a euro
  sign), and the provider answers the read of an encrypted key with a value.
\<close>

definition euro_broker :: memory_broker where
  "euro_broker = open_broker\<lparr> b_store :=
     c_insert (timed_ops EntryExpiry) (c_empty (timed_ops EntryExpiry)) 0 (secrets_ns, Key ''/users'')
       \<lparr> ce_value = JString [CHR 0xE2, CHR 0x82, CHR 0xAC, CHR ''0''], expires_at = None \<rparr> \<rparr>"

lemma refresh_task_panics:
  "fst (refresh_result sample_env 5 (ada_refresh\<lparr> d_encrypted := True \<rparr>) True
      (Inr (QueryResult 42 (Some (JBool True)) None None)) euro_broker) = Inl None"
  by code_simp

end
