(* ===== verification/Server_Session.thy ===== *)
theory Server_Session
  imports Server_Refresh Server_Callbacks
begin

text \<open>
  Requests and sessions of \<open>valkyr-server/src/lib.rs\<close>: what happens to a command between the
  transport and the broker (\<open>execute_broker_command\<close>, \<open>finish_outcome\<close>, \<open>execute_text\<close>,
  \<open>authenticate\<close>), the worker and the reader of \<open>serve_session\<close>, and the metrics.

  A request gives up control while it waits for an adapter or for a refresh. What the other tasks
  do to the broker in that time is the record \<open>waits\<close>, an argument of every definition: \<open>call\<close> is
  \<open>invoke\<close> (theory \<open>Server_Callbacks\<close>), \<open>refreshed\<close> the stay in the refresh of a route up to the
  completion the request reads (theory \<open>Server_Refresh\<close>: without a timeout the current one, else the
  one that ended the wait, \<open>None\<close> for the timeout), \<open>from_adapter\<close> whether the owner's connection is
  marked as an adapter when the answer is there.
\<close>

record ('s, 'm) waits =
  call :: "dispatch \<Rightarrow> (('s, 'm) broker, server_result) op"
  refreshed :: "dispatch \<Rightarrow> ('s, 'm) broker \<Rightarrow> refresh_completion option \<times> ('s, 'm) broker"
  from_adapter :: "dispatch \<Rightarrow> bool"

section \<open>Requests\<close>

definition timeout_of :: "dispatch \<Rightarrow> nat" where
  "timeout_of d = (case d_provider_options d of None \<Rightarrow> 0 | Some po \<Rightarrow> timeout_ms po)"

definition finish_query ::
    "('s, 'm) broker_env \<Rightarrow> instant \<Rightarrow> ('s, 'm) waits \<Rightarrow> dispatch \<Rightarrow> refresh_route \<Rightarrow> response
     \<Rightarrow> (('s, 'm) broker, response) op" where
  "finish_query env now w d route response' b =
     (case refreshed w d b of (completion, b1) \<Rightarrow>
        if timeout_of d = 0
        then (Inr (case completion of Some (RRateLimited retry) \<Rightarrow> RMiss retry | _ \<Rightarrow> response'), b1)
        else waited_response env now route (d_encrypted d) response' (terminal_completion completion) b1)"

definition finish_outcome ::
    "('s, 'm) broker_env \<Rightarrow> instant \<Rightarrow> ('s, 'm) waits \<Rightarrow> broker_outcome \<Rightarrow> (('s, 'm) broker, response) op" where
  "finish_outcome env now w oc =
     (case o_dispatch oc of
        None \<Rightarrow> op_return (o_response oc)
      | Some d \<Rightarrow>
          (case d_command d of
             Query _ n k \<Rightarrow>
               if d_authentication d then op_return (o_response oc)
               else finish_query env now w d (n, k) (o_response oc)
           | _ \<Rightarrow> (\<lambda>b. case call w d b of
                        (answer, b1) \<Rightarrow> finish_persist env now (o_response oc) (o_pending_mutation oc) answer b1)))"

definition encrypted_key :: "string \<Rightarrow> bool" where
  "encrypted_key k =
     (case Option.bind (strip_prefix ''~'' k) (strip_suffix ''~'') of None \<Rightarrow> False | Some v \<Rightarrow> v \<noteq> [])"

text \<open>The namespace whose encryption key a command needs.\<close>

fun security_namespace :: "command \<Rightarrow> namespace_context option" where
  "security_namespace (Get n k) = (if encrypted_key (key_str k) then Some n else None)"
| "security_namespace (Set n k _ _) = (if encrypted_key (key_str k) then Some n else None)"
| "security_namespace (SetBatch n entries _) =
     (if list_ex (\<lambda>e. encrypted_key (key_str (entry_key e))) entries then Some n else None)"
| "security_namespace _ = None"

definition accept_security_key ::
    "('s, 'm) broker_env \<Rightarrow> instant \<Rightarrow> ('s, 'm) waits \<Rightarrow> dispatch \<Rightarrow> server_result
     \<Rightarrow> (('s, 'm) broker, unit) op" where
  "accept_security_key env now w d answer =
     (case (d_command d, answer) of
        (Query _ n k, QueryResult _ (Some value) None ttl) \<Rightarrow>
          op_bind (accept_provider_value env now n k value (map_option from_secs ttl) (from_adapter w d) False)
            (\<lambda>oc. op_bind (finish_outcome env now w oc) (\<lambda>_. op_return ()))
      | (Query _ _ _, _) \<Rightarrow> op_fail (Encryption ''security key provider did not return a key'')
      | _ \<Rightarrow> op_fail (Panic ''security key lookup always dispatches a query''))"

definition ensure_command_security_key ::
    "('s, 'm) broker_env \<Rightarrow> instant \<Rightarrow> ('s, 'm) waits \<Rightarrow> command \<Rightarrow> (('s, 'm) broker, unit) op" where
  "ensure_command_security_key env now w command' =
     (case security_namespace command' of
        None \<Rightarrow> op_return ()
      | Some n \<Rightarrow>
          op_bind (security_key_provider_dispatch env now n) (\<lambda>d.
            case d of
              None \<Rightarrow> op_return ()
            | Some d \<Rightarrow> op_bind (call w d) (accept_security_key env now w d)))"

definition execute_broker_command ::
    "('s, 'm) broker_env \<Rightarrow> instant \<Rightarrow> ('s, 'm) waits \<Rightarrow> command \<Rightarrow> request_context
     \<Rightarrow> (('s, 'm) broker, broker_outcome) op" where
  "execute_broker_command env now w command' context' =
     op_bind (\<lambda>b. (authorize_encrypted_command b now command' context', b)) (\<lambda>_.
     op_bind (ensure_command_security_key env now w command') (\<lambda>_.
       execute env now command' context'))"

definition rest_context :: "uuid \<Rightarrow> auth_info option \<Rightarrow> request_context" where
  "rest_context owner auth =
     \<lparr> rc_owner = owner, adapter_instance = None, rc_auth = auth, rc_variables = Map.empty \<rparr>"

definition server_execute ::
    "('s, 'm) broker_env \<Rightarrow> instant \<Rightarrow> ('s, 'm) waits \<Rightarrow> uuid \<Rightarrow> command \<Rightarrow> auth_info option
     \<Rightarrow> (('s, 'm) broker, response) op" where
  "server_execute env now w owner command' auth =
     op_bind (execute_broker_command env now w command' (rest_context owner auth)) (finish_outcome env now w)"

definition execute_text ::
    "codec \<Rightarrow> ('s, 'm) broker_env \<Rightarrow> instant \<Rightarrow> ('s, 'm) waits \<Rightarrow> uuid \<Rightarrow> command \<Rightarrow> auth_info option
     \<Rightarrow> (('s, 'm) broker, response) op" where
  "execute_text cd env now w owner command' auth =
     op_bind (op_lift (encode_command cd command')) (\<lambda>encoded.
     op_bind (op_lift (decode_command cd encoded)) (\<lambda>decoded.
     op_bind (server_execute env now w owner decoded auth) (\<lambda>response'.
     op_bind (op_lift (encode_response cd command' response')) (\<lambda>encoded_response.
       op_lift (decode_response cd command' encoded_response)))))"

datatype authentication_result = AuthenticatedAs auth_info | PendingAuth nat | RejectedAuth

definition authentication_result_of :: "auth_info option \<Rightarrow> response \<Rightarrow> authentication_result result" where
  "authentication_result_of authenticated response' =
     (case response' of
        AuthSuccess _ _ \<Rightarrow>
          (case authenticated of
             Some a \<Rightarrow> Inr (AuthenticatedAs a)
           | None \<Rightarrow> Inl (Panic ''auth success includes a principal''))
      | AuthPending retry \<Rightarrow> Inr (PendingAuth retry)
      | _ \<Rightarrow> Inr RejectedAuth)"

definition server_authenticate ::
    "codec \<Rightarrow> ('s, 'm) broker_env \<Rightarrow> instant \<Rightarrow> ('s, 'm) waits \<Rightarrow> uuid \<Rightarrow> string
     \<Rightarrow> (('s, 'm) broker, authentication_result) op" where
  "server_authenticate cd env now w owner api_key =
     op_bind (op_lift (encode_command cd (Auth api_key None))) (\<lambda>encoded.
     op_bind (op_lift (decode_command cd encoded)) (\<lambda>command'.
     op_bind (execute_broker_command env now w command' (anonymous owner)) (\<lambda>oc.
     op_bind (finish_outcome env now w oc) (\<lambda>response'.
     op_bind (op_lift (encode_response cd command' response')) (\<lambda>encoded_response.
     op_bind (op_lift (decode_response cd command' encoded_response)) (\<lambda>response''.
       op_lift (authentication_result_of (o_authenticated oc) response'')))))))"

section \<open>Principals from providers\<close>

text \<open>
  \<open>refresh_auth_from_provider\<close> after the provider's answer; a delay starts the refresh loop.
\<close>

definition auth_load_result ::
    "('s, 'm) broker_env \<Rightarrow> instant \<Rightarrow> string \<Rightarrow> server_result result \<Rightarrow> ('s, 'm) broker
     \<Rightarrow> duration option \<times> ('s, 'm) broker" where
  "auth_load_result env now api_key answer b =
     (case answer of
        Inr (QueryResult _ value None _) \<Rightarrow> complete_auth_provider_load env now api_key value b
      | _ \<Rightarrow> (None, fail_auth_provider_load now api_key b))"

text \<open>One turn of \<open>auth_refresh_loop\<close> after its sleep: the next delay, or \<open>None\<close> when the loop ends.\<close>

definition auth_refresh_turn ::
    "('s, 'm) broker_env \<Rightarrow> instant \<Rightarrow> instant \<Rightarrow> ('s, 'm) waits \<Rightarrow> string \<Rightarrow> ('s, 'm) broker
     \<Rightarrow> duration option \<times> ('s, 'm) broker" where
  "auth_refresh_turn env now later w api_key b =
     (case schedule_auth_refresh now api_key b of
        (False, b1) \<Rightarrow> (None, b1)
      | (True, b1) \<Rightarrow>
          (case auth_provider_dispatch now api_key b1 of
             (None, b2) \<Rightarrow> (None, b2)
           | (Some d, b2) \<Rightarrow>
               (case call w d b2 of (answer, b3) \<Rightarrow> auth_load_result env later api_key answer b3)))"

section \<open>Sessions\<close>

text \<open>The worker's context, and the adapter mark of the connection's handle.\<close>

record session =
  se_context :: request_context
  se_adapter :: "uuid option"

definition new_session :: "uuid \<Rightarrow> session" where
  "new_session i = \<lparr> se_context = anonymous i, se_adapter = None \<rparr>"

definition response_error :: "error \<Rightarrow> response" where
  "response_error e = RError (error_display e)"

fun requested_adapter :: "command \<Rightarrow> request_context \<Rightarrow> request_context" where
  "requested_adapter (Auth _ a) c = c\<lparr> adapter_instance := a \<rparr>"
| "requested_adapter _ c = c"

definition adopt_principal :: "broker_outcome \<Rightarrow> session \<Rightarrow> session" where
  "adopt_principal oc s =
     (case o_authenticated oc of
        None \<Rightarrow> s
      | Some a \<Rightarrow> s\<lparr> se_context := (se_context s)\<lparr> rc_auth := Some a \<rparr>,
                     se_adapter := adapter_instance (se_context s) \<rparr>)"

definition unwrap_response :: "response result \<Rightarrow> response" where
  "unwrap_response r = (case r of Inl e \<Rightarrow> response_error e | Inr response' \<Rightarrow> response')"

text \<open>One turn of the worker: the response it sends, and the session after it.\<close>

definition worker_turn ::
    "('s, 'm) broker_env \<Rightarrow> instant \<Rightarrow> ('s, 'm) waits \<Rightarrow> command \<Rightarrow> session \<Rightarrow> ('s, 'm) broker
     \<Rightarrow> response \<times> session \<times> ('s, 'm) broker" where
  "worker_turn env now w command' s b =
     (let s1 = s\<lparr> se_context := requested_adapter command' (se_context s) \<rparr> in
      case execute_broker_command env now w command' (se_context s1) b of
        (Inl e, b1) \<Rightarrow> (response_error e, s1, b1)
      | (Inr oc, b1) \<Rightarrow>
          (case finish_outcome env now w oc b1 of
             (r, b2) \<Rightarrow> (unwrap_response r, adopt_principal oc s1, b2)))"

definition response_frame :: "codec \<Rightarrow> command \<Rightarrow> response \<Rightarrow> string" where
  "response_frame cd command' response' =
     (case encode_response cd command' response' of
        Inl _ \<Rightarrow> ''KO response encoding failed''
      | Inr frame \<Rightarrow> frame)"

definition is_client_keyword :: "string \<Rightarrow> bool" where
  "is_client_keyword k \<longleftrightarrow>
     k \<in> set [''AUTH'', ''GET'', ''SET'', ''SET_BATCH'', ''DELETE'', ''MOVE'', ''PROVIDE'', ''STORE'',
             ''PING'', ''STATS'']"

text \<open>The first item of \<open>split_ascii_whitespace\<close>.\<close>

definition first_word :: "string \<Rightarrow> string option" where
  "first_word line =
     (case takeWhile (\<lambda>c. \<not> is_ascii_whitespace c) (dropWhile is_ascii_whitespace line) of
        [] \<Rightarrow> None
      | k \<Rightarrow> Some k)"

definition is_callback_frame :: "bool \<Rightarrow> string \<Rightarrow> bool" where
  "is_callback_frame adapter_connection line =
     (case first_word line of
        None \<Rightarrow> False
      | Some k \<Rightarrow> k = ''OPERATION'' \<or> k = ''QUERY_RESULT'' \<or> adapter_connection \<and> \<not> is_client_keyword k)"

text \<open>What the reader does with a line; \<open>expected\<close> looks a pending callback up.\<close>

datatype frame_action = CloseSession | Deliver server_result | Enqueue command | Reply string

definition read_line :: "codec \<Rightarrow> (uuid \<Rightarrow> server_command option) \<Rightarrow> bool \<Rightarrow> string \<Rightarrow> frame_action" where
  "read_line cd expected adapter_connection line =
     (if is_callback_frame adapter_connection line
      then case callback_request_id cd line of
             Inl _ \<Rightarrow> CloseSession
           | Inr i \<Rightarrow>
               (case expected i of
                  None \<Rightarrow> CloseSession
                | Some command' \<Rightarrow>
                    (case decode_server_result cd command' line of
                       Inl _ \<Rightarrow> CloseSession
                     | Inr r \<Rightarrow> Deliver r))
      else case decode_command cd line of
             Inr command' \<Rightarrow> Enqueue command'
           | Inl e \<Rightarrow>
               Reply (case encode_response cd Ping (response_error e) of
                        Inl _ \<Rightarrow> ''KO invalid protocol message''
                      | Inr frame \<Rightarrow> frame))"

text \<open>The end of a session: its callbacks are dropped, then its registrations.\<close>

definition end_session ::
    "uuid \<Rightarrow> server_calls \<Rightarrow> ('s, 'm) broker \<Rightarrow> server_calls \<times> ('s, 'm) broker" where
  "end_session i calls b = (remove_connection i calls, b\<lparr> b_registry := remove_owner (b_registry b) i \<rparr>)"

section \<open>Names and metrics\<close>

fun command_name :: "command \<Rightarrow> string" where
  "command_name (Auth _ _) = ''auth''"
| "command_name (Get _ _) = ''get''"
| "command_name (Set _ _ _ _) = ''set''"
| "command_name (SetBatch _ _ _) = ''set_batch''"
| "command_name (Delete _ _) = ''delete''"
| "command_name (Move _ _) = ''move''"
| "command_name (Provide _ _ _ _ _) = ''provide''"
| "command_name (Store _ _) = ''store''"
| "command_name Ping = ''ping''"
| "command_name StatsCmd = ''stats''"

definition metric :: "string \<Rightarrow> string \<Rightarrow> string \<Rightarrow> nat \<Rightarrow> string" where
  "metric name help kind n =
     ''# HELP '' @ name @ '' '' @ help @ [CHR 0x0A] @ ''# TYPE '' @ name @ '' '' @ kind @ [CHR 0x0A]
     @ name @ '' '' @ show_nat n @ [CHR 0x0A]"

definition metrics_text ::
    "('s, 'm) broker_env \<Rightarrow> instant \<Rightarrow> nat \<Rightarrow> (('s, 'm) broker, string) op" where
  "metrics_text env now active_connections =
     op_bind (broker_stats env now) (\<lambda>stats. op_return
       (metric ''valkyr_requests_total'' ''Total commands handled by Valkyr'' ''counter'' (stat_requests stats)
        @ metric ''valkyr_cache_hits_total'' ''Cache hits'' ''counter'' (stat_hits stats)
        @ metric ''valkyr_cache_misses_total'' ''Cache misses'' ''counter'' (stat_misses stats)
        @ metric ''valkyr_values'' ''Current cached values'' ''gauge'' (stat_values stats)
        @ metric ''valkyr_active_connections'' ''Open native and WebSocket connections'' ''gauge''
            active_connections))"

end
