(* ===== verification/Http_Api.thy ===== *)
theory Http_Api
  imports Server_Session
begin

text \<open>
  The HTTP interface of \<open>valkyr-server/src/http_api.rs\<close>: a request becomes a command, a response
  becomes a status with a body.

  What the HTTP library hands over is the record \<open>http_request\<close>: the method, the raw path and query,
  the values of each header in order, each as the text \<open>to_str\<close> gives or \<open>None\<close>, and the body as
  \<open>to_bytes\<close> gives it under its limit (\<open>None\<close> when it is too large). \<open>serde_json::from_slice\<close> is an
  argument. Strings are byte sequences.
\<close>

record http_request =
  rq_method :: string
  rq_path :: string
  rq_query :: "string option"
  rq_headers :: "string \<Rightarrow> string option list"
  rq_body :: "string option"

datatype http_body = NoBody | JsonBody json | ResponseBody response | PlainBody string

record http_response =
  hr_status :: nat
  hr_headers :: "(string \<times> string) list"
  hr_body :: http_body

section \<open>Responses\<close>

definition error_code :: "nat \<Rightarrow> string" where
  "error_code status =
     (if status = 401 then ''unauthorized'' else if status = 403 then ''forbidden''
      else if status = 404 then ''not_found'' else if status = 405 then ''method_not_allowed''
      else if status = 413 then ''payload_too_large'' else if status = 500 then ''internal_error''
      else ''invalid_request'')"

definition http_error :: "nat \<Rightarrow> string \<Rightarrow> http_response" where
  "http_error status message =
     \<lparr> hr_status = status,
       hr_headers = (if status = 401 then [(''www-authenticate'', ''Bearer'')] else [])
         @ (if status = 405 then [(''allow'', ''GET, PUT, DELETE'')] else []),
       hr_body = JsonBody (JObject [(''error'',
         JObject [(''code'', JString (error_code status)), (''message'', JString message)])]) \<rparr>"

definition div_ceil :: "nat \<Rightarrow> nat \<Rightarrow> nat" where
  "div_ceil a b = (a + b - 1) div b"

definition http_auth_pending :: "nat \<Rightarrow> http_response" where
  "http_auth_pending retry_after_ms =
     (let r = http_error 503 ''authentication is warming'' in
      r\<lparr> hr_headers := hr_headers r @ [(''retry-after'', show_nat (max (div_ceil retry_after_ms 1000) 1))] \<rparr>)"

definition core_error :: "error \<Rightarrow> http_response" where
  "core_error e =
     http_error
       (case e of AuthenticationFailed \<Rightarrow> 401 | PermissionDenied _ \<Rightarrow> 403 | NotFound _ \<Rightarrow> 404 | _ \<Rightarrow> 400)
       (error_display e)"

fun rest_response :: "response \<Rightarrow> http_response" where
  "rest_response ROk = \<lparr> hr_status = 204, hr_headers = [], hr_body = NoBody \<rparr>"
| "rest_response (RValue value _) = \<lparr> hr_status = 200, hr_headers = [], hr_body = JsonBody value \<rparr>"
| "rest_response (RMiss _) = http_error 404 ''value not found''"
| "rest_response RUnknown = http_error 404 ''value not found''"
| "rest_response (AuthFailure message) = http_error 401 message"
| "rest_response (AuthPending retry) = http_auth_pending retry"
| "rest_response (RError message) = http_error 400 message"
| "rest_response r = \<lparr> hr_status = 200, hr_headers = [], hr_body = ResponseBody r \<rparr>"

section \<open>Percent encoding\<close>

definition hex_value :: "char \<Rightarrow> nat option" where
  "hex_value c =
     (if byte_in 0x30 0x39 c then Some (of_char c - 0x30)
      else if byte_in 0x61 0x66 c then Some (of_char c - 0x61 + 10)
      else if byte_in 0x41 0x46 c then Some (of_char c - 0x41 + 10)
      else None)"

fun percent_bytes :: "string \<Rightarrow> string option" where
  "percent_bytes [] = Some []"
| "percent_bytes (c # cs) =
     (if c \<noteq> CHR ''%'' then map_option ((#) c) (percent_bytes cs)
      else case cs of
             high # low # rest \<Rightarrow>
               (case (hex_value high, hex_value low) of
                  (Some h, Some l) \<Rightarrow> map_option ((#) (char_of (16 * h + l))) (percent_bytes rest)
                | _ \<Rightarrow> None)
           | _ \<Rightarrow> None)"

definition percent_decode :: "string \<Rightarrow> string + string" where
  "percent_decode input =
     (case percent_bytes input of
        Some decoded \<Rightarrow> if utf8_valid decoded then Inr decoded else Inl ''invalid percent encoding''
      | None \<Rightarrow> Inl ''invalid percent encoding'')"

section \<open>Requests\<close>

function ascii_words :: "string \<Rightarrow> string list" where
  "ascii_words s =
     (case dropWhile is_ascii_whitespace s of
        [] \<Rightarrow> []
      | t \<Rightarrow> takeWhile (\<lambda>c. \<not> is_ascii_whitespace c) t # ascii_words (dropWhile (\<lambda>c. \<not> is_ascii_whitespace c) t))"
  by auto
termination
proof (relation "measure length")
  fix s c t assume "dropWhile is_ascii_whitespace s = c # t"
  moreover from this have "\<not> is_ascii_whitespace c" by (metis dropWhile_eq_Cons_conv)
  moreover have "length (dropWhile is_ascii_whitespace s) \<le> length s" by (rule length_dropWhile_le)
  moreover have "length (dropWhile (\<lambda>c. \<not> is_ascii_whitespace c) t) \<le> length t" by (rule length_dropWhile_le)
  ultimately show "(dropWhile (\<lambda>c. \<not> is_ascii_whitespace c) (c # t), s) \<in> measure length" by simp
qed simp

declare ascii_words.simps [simp del]

definition to_ascii_lowercase :: "char \<Rightarrow> char" where
  "to_ascii_lowercase c = (if byte_in 0x41 0x5A c then char_of (of_char c + 32 :: nat) else c)"

definition eq_ignore_ascii_case :: "string \<Rightarrow> string \<Rightarrow> bool" where
  "eq_ignore_ascii_case s t \<longleftrightarrow> map to_ascii_lowercase s = map to_ascii_lowercase t"

definition bearer :: "http_request \<Rightarrow> string option" where
  "bearer rq =
     (case rq_headers rq ''authorization'' of
        [Some value] \<Rightarrow>
          (case ascii_words value of
             [scheme, token] \<Rightarrow> if eq_ignore_ascii_case scheme ''bearer'' \<and> token \<noteq> [] then Some token else None
           | _ \<Rightarrow> None)
      | _ \<Rightarrow> None)"

definition key_query :: "string option \<Rightarrow> string + string option" where
  "key_query raw_query =
     (case raw_query of
        None \<Rightarrow> Inr None
      | Some raw \<Rightarrow>
          if raw = [] then Inl ''key query must not be empty''
          else if CHR ''&'' \<in> set raw \<or> CHR ''='' \<in> set raw
          then Inl ''key query delimiters must be percent-encoded''
          else case percent_decode raw of
                 Inl e \<Rightarrow> Inl e
               | Inr k \<Rightarrow> if k = [] then Inl ''key query must not be empty'' else Inr (Some k))"

definition destination_namespace :: "http_request \<Rightarrow> string + namespace_context" where
  "destination_namespace rq =
     (case rq_headers rq ''destination'' of
        [Some raw] \<Rightarrow>
          if \<not> starts_with ''/'' raw \<or> CHR ''?'' \<in> set raw \<or> CHR ''#'' \<in> set raw
          then Inl ''Destination must be an absolute namespace path''
          else (case percent_decode raw of
                  Inl e \<Rightarrow> Inl e
                | Inr path \<Rightarrow>
                    (case NamespaceContext_new path of
                       Inl _ \<Rightarrow> Inl ''invalid Destination header''
                     | Inr n \<Rightarrow> Inr n))
      | [None] \<Rightarrow> Inl ''Destination must be a valid header''
      | _ \<Rightarrow> Inl ''Destination must appear exactly once'')"

definition path_namespace :: "string \<Rightarrow> string + namespace_context" where
  "path_namespace raw =
     (case percent_decode raw of
        Inl e \<Rightarrow> Inl e
      | Inr path \<Rightarrow>
          if \<not> starts_with ''/'' path then Inl ''namespace must be an absolute path''
          else case NamespaceContext_new path of Inl _ \<Rightarrow> Inl ''invalid namespace'' | Inr n \<Rightarrow> Inr n)"

definition query_key :: "string option \<Rightarrow> key option" where
  "query_key query =
     (case query of None \<Rightarrow> None | Some k \<Rightarrow> (case Key_new k of Inl _ \<Rightarrow> None | Inr key' \<Rightarrow> Some key'))"

definition is_json_content :: "http_request \<Rightarrow> bool" where
  "is_json_content rq =
     (case rq_headers rq ''content-type'' of
        Some value # _ \<Rightarrow>
          eq_ignore_ascii_case (trim (takeWhile (\<lambda>c. c \<noteq> CHR '';'') value)) ''application/json''
      | _ \<Rightarrow> False)"

definition ttl_header :: "http_request \<Rightarrow> http_response + nat option" where
  "ttl_header rq =
     (case rq_headers rq ''valkyr-ttl'' of
        [] \<Rightarrow> Inr None
      | value # _ \<Rightarrow>
          (case Option.bind value parse_u64 of
             Some t \<Rightarrow>
               if 0 < t then Inr (Some t) else Inl (http_error 400 ''Valkyr-Ttl must be a positive integer'')
           | None \<Rightarrow> Inl (http_error 400 ''Valkyr-Ttl must be a positive integer'')))"

definition move_request :: "http_request \<Rightarrow> namespace_context \<Rightarrow> string option \<Rightarrow> http_response + command" where
  "move_request rq namespace query =
     (if query \<noteq> None
      then Inl (http_error 400 ''PUT with Destination does not accept a key query parameter'')
      else case rq_body rq of
             None \<Rightarrow> Inl (http_error 413 ''request body is too large'')
           | Some body \<Rightarrow>
               if body \<noteq> [] then Inl (http_error 400 ''PUT with Destination does not accept a body'')
               else (case destination_namespace rq of
                       Inl message \<Rightarrow> Inl (http_error 400 message)
                     | Inr destination \<Rightarrow>
                         if destination \<noteq> namespace then Inr (Move namespace destination)
                         else Inl (http_error 400 ''source and destination namespaces must differ'')))"

definition put_request ::
    "(string \<Rightarrow> json option) \<Rightarrow> http_request \<Rightarrow> namespace_context \<Rightarrow> string option \<Rightarrow> http_response + command" where
  "put_request from_slice rq namespace query =
     (case query_key query of
        None \<Rightarrow> Inl (http_error 400 ''PUT requires a key query parameter'')
      | Some k \<Rightarrow>
          if \<not> is_json_content rq then Inl (http_error 400 ''Content-Type must be application/json'')
          else case rq_body rq of
                 None \<Rightarrow> Inl (http_error 413 ''request body is too large'')
               | Some body \<Rightarrow>
                   (case from_slice body of
                      None \<Rightarrow> Inl (http_error 400 ''PUT body must be JSON'')
                    | Some value \<Rightarrow>
                        (case ttl_header rq of
                           Inl e \<Rightarrow> Inl e
                         | Inr ttl \<Rightarrow> Inr (Set namespace k value ttl))))"

definition method_command ::
    "(string \<Rightarrow> json option) \<Rightarrow> http_request \<Rightarrow> namespace_context \<Rightarrow> string option \<Rightarrow> http_response + command" where
  "method_command from_slice rq namespace query =
     (if rq_method rq = ''GET''
      then (case query_key query of
              None \<Rightarrow> Inl (http_error 400 ''GET requires a key query parameter'')
            | Some k \<Rightarrow> Inr (Get namespace k))
      else if rq_method rq = ''PUT'' \<and> rq_headers rq ''destination'' \<noteq> [] then move_request rq namespace query
      else if rq_method rq = ''PUT'' then put_request from_slice rq namespace query
      else if rq_method rq = ''DELETE''
      then Inr (Delete namespace
             (case query of
                None \<Rightarrow> None
              | Some k \<Rightarrow> (case KeyPattern_new k of Inl _ \<Rightarrow> None | Inr p \<Rightarrow> Some p)))
      else Inl (http_error 405 ''unsupported method''))"

definition request_command :: "(string \<Rightarrow> json option) \<Rightarrow> http_request \<Rightarrow> http_response + command" where
  "request_command from_slice rq =
     (case path_namespace (rq_path rq) of
        Inl message \<Rightarrow> Inl (http_error 400 message)
      | Inr namespace \<Rightarrow>
          (case key_query (rq_query rq) of
             Inl message \<Rightarrow> Inl (http_error 400 message)
           | Inr query \<Rightarrow> method_command from_slice rq namespace query))"

definition rest ::
    "(string \<Rightarrow> json option) \<Rightarrow> codec \<Rightarrow> ('s, 'm) broker_env \<Rightarrow> instant \<Rightarrow> instant \<Rightarrow> ('s, 'm) waits \<Rightarrow> uuid \<Rightarrow> uuid
     \<Rightarrow> http_request \<Rightarrow> ('s, 'm) broker \<Rightarrow> http_response \<times> ('s, 'm) broker" where
  "rest from_slice cd env now later w owner owner' rq b =
     (case bearer rq of
        None \<Rightarrow> (http_error 401 ''missing bearer token'', b)
      | Some api_key \<Rightarrow>
          (case server_authenticate cd env now w owner api_key b of
             (Inr (AuthenticatedAs auth), b1) \<Rightarrow>
               (case request_command from_slice rq of
                  Inl response' \<Rightarrow> (response', b1)
                | Inr command' \<Rightarrow>
                    (case execute_text cd env later w owner' command' (Some auth) b1 of
                       (Inl e, b2) \<Rightarrow> (core_error e, b2)
                     | (Inr response', b2) \<Rightarrow> (rest_response response', b2)))
           | (Inr (PendingAuth retry), b1) \<Rightarrow> (http_auth_pending retry, b1)
           | (_, b1) \<Rightarrow> (http_error 401 ''invalid bearer token'', b1)))"

definition metrics :: "('s, 'm) broker_env \<Rightarrow> instant \<Rightarrow> nat \<Rightarrow> ('s, 'm) broker \<Rightarrow> http_response \<times> ('s, 'm) broker" where
  "metrics env now active b =
     (case metrics_text env now active b of
        (Inr body, b1) \<Rightarrow>
          (\<lparr> hr_status = 200, hr_headers = [(''content-type'', ''text/plain; version=0.0.4; charset=utf-8'')],
             hr_body = PlainBody body \<rparr>, b1)
      | (Inl e, b1) \<Rightarrow> (http_error 500 (error_display e), b1))"

end
