(* ===== verification/Server_Requests.thy ===== *)
theory Server_Requests
  imports Server_Session Broker_Roundtrip Line_Codec
begin

text \<open>
  Properties of requests: every answer of the server fits its command, a session acts for a
  principal only after the broker authenticated it, the text boundary of the HTTP transport is
  transparent, and a request that waits for a refresh gets the provider's value.
\<close>

section \<open>What a handler returns\<close>

definition returns :: "('b, 'a) op \<Rightarrow> ('a \<Rightarrow> bool) \<Rightarrow> bool" where
  "returns m P \<longleftrightarrow> (\<forall>b r b'. m b = (Inr r, b') \<longrightarrow> P r)"

named_theorems returns_intros

lemma returns_bind [returns_intros]: "(\<And>x. returns (f x) P) \<Longrightarrow> returns (op_bind m f) P"
  unfolding returns_def by (auto simp: op_bind_Inr_iff)

lemma returns_return [returns_intros]: "P x \<Longrightarrow> returns (op_return x) P"
  by (simp add: returns_def op_return_def)

lemma returns_fail [returns_intros]: "returns (op_fail e) P"
  by (simp add: returns_def op_fail_def)

lemma returns_if [returns_intros]: "(c \<Longrightarrow> returns m P) \<Longrightarrow> (\<not> c \<Longrightarrow> returns m' P) \<Longrightarrow> returns (if c then m else m') P"
  by simp

lemma returns_prod [returns_intros]: "(\<And>x y. returns (f x y) P) \<Longrightarrow> returns (case p of (x, y) \<Rightarrow> f x y) P"
  by (cases p) simp

lemma returns_option [returns_intros]:
  "returns m P \<Longrightarrow> (\<And>x. returns (f x) P) \<Longrightarrow> returns (case r of None \<Rightarrow> m | Some x \<Rightarrow> f x) P"
  by (cases r) simp_all

lemma returnsD: "returns m P \<Longrightarrow> m b = (Inr r, b') \<Longrightarrow> P r"
  unfolding returns_def by blast

definition is_query :: "dispatch \<Rightarrow> bool" where
  "is_query d \<longleftrightarrow> (\<exists>i n k. d_command d = Query i n k)"

text \<open>The outcome of a mutation or registration, of a read, of an authentication.\<close>

definition ok_outcome :: "broker_outcome \<Rightarrow> bool" where
  "ok_outcome oc \<longleftrightarrow>
     o_response oc = ROk \<and> o_authenticated oc = None \<and> (\<forall>d. o_dispatch oc = Some d \<longrightarrow> \<not> is_query d)"

definition read_outcome :: "broker_outcome \<Rightarrow> bool" where
  "read_outcome oc \<longleftrightarrow>
     ((\<exists>v t. o_response oc = RValue v t) \<or> (\<exists>r. o_response oc = RMiss r) \<or> o_response oc = RUnknown)
     \<and> o_authenticated oc = None"

definition auth_outcome :: "broker_outcome \<Rightarrow> bool" where
  "auth_outcome oc \<longleftrightarrow>
     ((\<exists>i t. o_response oc = AuthSuccess i t) \<or> (\<exists>r. o_response oc = AuthPending r) \<or> (\<exists>m. o_response oc = AuthFailure m))
     \<and> (o_authenticated oc \<noteq> None \<longleftrightarrow> (\<exists>i t. o_response oc = AuthSuccess i t))
     \<and> (\<forall>d. o_dispatch oc = Some d \<longrightarrow> is_query d \<and> d_authentication d)"

fun outcome_fits :: "command \<Rightarrow> broker_outcome \<Rightarrow> bool" where
  "outcome_fits (Auth _ _) oc \<longleftrightarrow> auth_outcome oc"
| "outcome_fits (Get _ _) oc \<longleftrightarrow> read_outcome oc"
| "outcome_fits Ping oc \<longleftrightarrow> oc = outcome Pong"
| "outcome_fits StatsCmd oc \<longleftrightarrow> (\<exists>st. oc = outcome (RStats st))"
| "outcome_fits _ oc \<longleftrightarrow> ok_outcome oc"

lemma ok_outcome_ok [simp]: "ok_outcome (outcome ROk)"
  by (simp add: ok_outcome_def outcome_def)

lemma read_outcome_simps [simp]:
  "read_outcome (outcome (RValue v t))" "read_outcome (outcome (RMiss r))" "read_outcome (outcome RUnknown)"
  "read_outcome (outcome (stored_response v sv))"
  by (simp_all add: read_outcome_def outcome_def stored_response_def)

lemma auth_outcome_simps [simp]:
  "auth_outcome (outcome (AuthFailure m))" "auth_outcome (outcome (AuthPending r))"
  by (simp_all add: auth_outcome_def outcome_def)

lemma returns_commit_now [returns_intros]: "returns (commit_now env now m) ok_outcome"
  unfolding commit_now_def by (intro returns_intros) simp

lemma target_not_query: "mutation_target m i = Inr (n, p, c) \<Longrightarrow> (\<And>j n k. c \<noteq> Query j n k)"
  by (cases m) (auto split: sum.splits)

lemma persist_outcome_ok: "(\<And>j n k. c \<noteq> Query j n k) \<Longrightarrow> ok_outcome (persist_outcome owner c m)"
  by (simp add: ok_outcome_def persist_outcome_def persist_dispatch_def is_query_def)

lemma returns_prepare [returns_intros]: "returns (prepare_mutation env now m fa) ok_outcome"
proof -
  have single: "returns (prepare_single env now m) ok_outcome"
    unfolding returns_def
    by (auto simp: prepare_single_def draw_def op_bind_def op_lift_def
        intro!: persist_outcome_ok dest: target_not_query returnsD[OF returns_commit_now]
        split: sum.splits option.splits)
  have batch: "returns (prepare_batch env now n es ttl) ok_outcome" for n es ttl
    unfolding returns_def
    by (auto simp: prepare_batch_def draw_def op_bind_def op_lift_def
        intro: persist_outcome_ok dest: returnsD[OF returns_commit_now]
        split: sum.splits batch_store_match.splits)
  show ?thesis unfolding prepare_mutation_def
    using single batch by (auto intro: returns_intros split: pending_mutation.splits)
qed

lemma returns_acquire: "returns (acquire_lease now k c) read_outcome"
  unfolding acquire_lease_def by (intro returns_intros) (auto simp: returns_def Let_def)

lemma returns_release: "returns (release_lease k v c) ok_outcome"
  unfolding release_lease_def
  by (intro returns_intros) (auto simp: returns_def split: option.splits if_splits)

lemma returns_get_miss: "returns (get_miss env now n k enc) read_outcome"
  by (auto simp: returns_def get_miss_def Let_def draw_def read_outcome_def outcome_def
      split: prod.splits bool.splits option.splits)

lemma returns_get_hit: "returns (get_hit env now n k enc sv) read_outcome"
proof -
  have "returns (op_bind m (\<lambda>v. op_return (outcome (stored_response v sv)))) read_outcome" for m :: "(('a, 'b) broker, json) op"
    by (intro returns_intros) simp
  then show ?thesis unfolding returns_def get_hit_def by blast
qed

lemma returns_get: "returns (broker_get env now n k c) read_outcome"
  unfolding broker_get_def Let_def
  by (intro returns_intros returns_acquire returns_get_miss returns_get_hit)

lemma returns_set_value: "returns (set_value env now n k v ttl c) ok_outcome"
  unfolding set_value_def by (intro returns_intros)

lemma returns_set: "returns (broker_set env now n k v ttl c) ok_outcome"
  unfolding broker_set_def by (intro returns_intros returns_release returns_set_value) simp

lemma returns_set_batch: "returns (set_batch env now n es ttl c) ok_outcome"
  unfolding set_batch_def by (intro returns_intros)

lemma returns_delete: "returns (broker_delete env now n p c) ok_outcome"
  unfolding broker_delete_def by (intro returns_intros)

lemma returns_move: "returns (move_namespace env now src dst c) ok_outcome"
  unfolding move_namespace_def by (intro returns_intros)

lemma returns_provide: "returns (provide_command now np kp rate t m c) ok_outcome"
  unfolding provide_command_def
  by (intro returns_intros) (auto simp: returns_def draw_def split: prod.splits)

lemma returns_store: "returns (store_command now np kp c) ok_outcome"
  unfolding store_command_def
  by (intro returns_intros) (auto simp: returns_def draw_def split: prod.splits)

text \<open>Authentication.\<close>

lemma dispatch_is_authentication:
  "auth_provider_dispatch now key b = (Some d, b') \<Longrightarrow> is_query d \<and> d_authentication d"
  by (auto simp: auth_provider_dispatch_def Let_def query_dispatch_def is_query_def
      split: option.splits prod.splits bool.splits sum.splits)

lemma auth_outcomes:
  "auth_provider_dispatch now key b = (d, b') \<Longrightarrow> auth_outcome (auth_pending d)"
  "auth_provider_dispatch now key b = (d, b') \<Longrightarrow> auth_outcome (auth_success m info d)"
  "auth_outcome (auth_success m info None)"
  by (auto simp: auth_outcome_def auth_pending_def auth_success_def dest: dispatch_is_authentication)

lemma returns_from_store: "returns (authenticate_from_store env now key) auth_outcome"
  unfolding authenticate_from_store_def
  by (intro returns_intros)
    (auto simp: returns_def Let_def auth_outcomes split: prod.splits sum.splits option.splits auth_lookup.splits)

lemma returns_authenticate: "returns (authenticate env now key) auth_outcome"
  using returnsD[OF returns_from_store]
  by (auto simp: returns_def authenticate_def auth_outcomes
      split: option.splits prod.splits auth_lookup.splits bool.splits)

lemma returns_run_command: "returns (run_command env now c rc) (outcome_fits c)"
proof (cases c)
  case StatsCmd
  have "returns (op_bind (broker_stats env now) (\<lambda>s. op_return (outcome (RStats s)))) (\<lambda>oc. \<exists>st. oc = outcome (RStats st))"
    by (intro returns_intros) blast
  then show ?thesis by (simp add: StatsCmd returns_def)
qed (auto simp: returns_authenticate[unfolded returns_def] returns_get[unfolded returns_def] returns_def op_return_def
    dest: returnsD[OF returns_authenticate] returnsD[OF returns_get] returnsD[OF returns_set]
      returnsD[OF returns_set_batch] returnsD[OF returns_delete] returnsD[OF returns_move]
      returnsD[OF returns_provide] returnsD[OF returns_store])

lemma returns_execute: "returns (execute env now c rc) (outcome_fits c)"
  using returnsD[OF returns_run_command] by (auto simp: returns_def execute_def)

lemma returns_broker_command: "returns (execute_broker_command env now w c rc) (outcome_fits c)"
  unfolding execute_broker_command_def by (intro returns_intros returns_execute)

section \<open>Answers\<close>

lemma finish_outcome_fits:
  assumes "outcome_fits c oc" and "finish_outcome env now w oc b = (Inr r, b')"
  shows "answer_allowed c r"
proof (cases "\<exists>n k. c = Get n k")
  case True
  then obtain n k where c: "c = Get n k" by blast
  have "r = o_response oc \<or> (\<exists>v t. r = RValue v t) \<or> (\<exists>t. r = RMiss t)"
    using assms(2)
    by (auto simp: finish_outcome_def finish_query_def waited_response_def finish_persist_def op_bind_def op_lift_def
        op_return_def op_fail_def cached_value_response_def stored_response_def
        split: option.splits server_command.splits if_splits prod.splits refresh_completion.splits
          sum.splits server_result.splits)
  then show ?thesis using assms(1) by (auto simp: c read_outcome_def)
next
  case False
  then have allowed: "answer_allowed c (o_response oc)"
    using assms(1) by (cases c) (auto simp: auth_outcome_def ok_outcome_def outcome_def)
  have "r = o_response oc"
    using assms False
    by (cases c)
      (auto simp: finish_outcome_def finish_persist_def op_bind_def op_lift_def op_return_def op_fail_def
        auth_outcome_def ok_outcome_def outcome_def is_query_def
        split: option.splits server_command.splits if_splits prod.splits sum.splits server_result.splits)
  then show ?thesis using allowed by simp
qed

lemma worker_response_cases:
  "answer_allowed c (fst (worker_turn env now w c s b)) \<or> (\<exists>e. fst (worker_turn env now w c s b) = response_error e)"
proof -
  let ?c = "requested_adapter c (se_context s)"
  obtain r b1 where x: "execute_broker_command env now w c ?c b = (r, b1)" by fastforce
  show ?thesis
  proof (cases r)
    case (Inl e)
    with x show ?thesis by (auto simp: worker_turn_def)
  next
    case (Inr oc)
    obtain r2 b2 where f: "finish_outcome env now w oc b1 = (r2, b2)" by fastforce
    have "fst (worker_turn env now w c s b) = unwrap_response r2" using x f Inr by (simp add: worker_turn_def)
    moreover have "outcome_fits c oc" using returnsD[OF returns_broker_command] x Inr by blast
    ultimately show ?thesis using finish_outcome_fits f by (cases r2) (auto simp: unwrap_response_def)
  qed
qed

text \<open>
  Every answer fits its command: whatever the broker, the adapters and the other tasks do, the
  response a session sends is one its command allows, so that the client can read it; the one
  exception is an error of AUTH, which the codec refuses and the session replaces by a fixed text.
\<close>

theorem session_answer_fits_command:
  "let r = fst (worker_turn env now w c s b) in
     answer_allowed c r
   \<or> (\<exists>k i e. c = Auth k i \<and> r = response_error e \<and> response_frame cd c r = ''KO response encoding failed'')"
proof -
  have err: "answer_allowed c (response_error e)
      \<or> (\<exists>k i e'. c = Auth k i \<and> response_error e = response_error e'
          \<and> response_frame cd c (response_error e) = ''KO response encoding failed'')" for e
    by (cases c) (auto simp: response_error_def response_frame_def encode_response.simps protocol_error_def)
  show ?thesis
    using worker_response_cases[of c env now w s b] err unfolding Let_def by metis
qed

section \<open>Sessions\<close>

lemma worker_turn_auth:
  assumes "worker_turn env now w c s b = (r, s', b')"
  shows "rc_auth (se_context s') = rc_auth (se_context s)
    \<or> (\<exists>key i a oc b1. c = Auth key i \<and> rc_auth (se_context s') = Some a \<and> o_authenticated oc = Some a
        \<and> authenticate env now key (b\<lparr> b_requests := b_requests b + 1 \<rparr>) = (Inr oc, b1)
        \<and> (\<exists>client t. r = AuthSuccess client t))"
proof -
  let ?c = "requested_adapter c (se_context s)"
  have same: "rc_auth ?c = rc_auth (se_context s)" by (cases c) simp_all
  obtain x b1 where x: "execute_broker_command env now w c ?c b = (x, b1)" by fastforce
  show ?thesis
  proof (cases x)
    case (Inl e)
    with x assms same show ?thesis by (auto simp: worker_turn_def)
  next
    case (Inr oc)
    obtain y b2 where f: "finish_outcome env now w oc b1 = (y, b2)" by fastforce
    have s': "s' = adopt_principal oc (s\<lparr> se_context := ?c \<rparr>)" and r: "r = unwrap_response y"
      using assms x f Inr by (simp_all add: worker_turn_def)
    have fits: "outcome_fits c oc" using returnsD[OF returns_broker_command] x Inr by blast
    show ?thesis
    proof (cases "o_authenticated oc")
      case None
      then show ?thesis using s' same by (simp add: adopt_principal_def)
    next
      case (Some a)
      then obtain key i where c: "c = Auth key i"
        using fits by (cases c) (auto simp: read_outcome_def ok_outcome_def outcome_def)
      have "authenticate env now key (b\<lparr> b_requests := b_requests b + 1 \<rparr>) = (Inr oc, b1)"
        using x Inr c by (simp add: execute_broker_command_def ensure_command_security_key_def op_bind_def
            op_return_def execute_def)
      moreover have "\<exists>client t. r = AuthSuccess client t"
        using fits Some f by (auto simp: c r auth_outcome_def finish_outcome_def op_return_def unwrap_response_def
            is_query_def split: option.splits server_command.splits)
      ultimately show ?thesis using c s' Some by (auto simp: adopt_principal_def)
    qed
  qed
qed

text \<open>The worker over a sequence of commands, each with its instant and what the other tasks do.\<close>

fun worker_run ::
    "('s, 'm) broker_env \<Rightarrow> (instant \<times> ('s, 'm) waits \<times> command) list \<Rightarrow> session \<Rightarrow> ('s, 'm) broker
     \<Rightarrow> session \<times> ('s, 'm) broker" where
  "worker_run env [] s b = (s, b)"
| "worker_run env ((now, w, c) # turns) s b =
     (case worker_turn env now w c s b of (_, s', b') \<Rightarrow> worker_run env turns s' b')"

lemma worker_run_append:
  "worker_run env (xs @ ys) s b = (case worker_run env xs s b of (s', b') \<Rightarrow> worker_run env ys s' b')"
  by (induction xs arbitrary: s b) (auto split: prod.splits)

text \<open>The turn in which the broker authenticated a principal.\<close>

definition authenticated_in ::
    "('s, 'm) broker_env \<Rightarrow> (instant \<times> ('s, 'm) waits \<times> command) list \<Rightarrow> uuid \<Rightarrow> ('s, 'm) broker \<Rightarrow> auth_info \<Rightarrow> bool" where
  "authenticated_in env turns i b a \<longleftrightarrow>
     (\<exists>before now w key inst after oc b1. turns = before @ (now, w, Auth key inst) # after
        \<and> authenticate env now key
            (let b0 = snd (worker_run env before (new_session i) b) in b0\<lparr> b_requests := b_requests b0 + 1 \<rparr>)
          = (Inr oc, b1)
        \<and> o_authenticated oc = Some a)"

lemma authenticated_in_append: "authenticated_in env xs i b a \<Longrightarrow> authenticated_in env (xs @ ys) i b a"
  unfolding authenticated_in_def by (metis append.assoc append_Cons)

text \<open>
  C26. A session acts for a principal only after the broker authenticated it: whatever commands a
  connection sends and whatever the other tasks do in between, the principal in its context is
  the outcome of an AUTH of this very session.
\<close>

theorem session_principal_was_authenticated:
  assumes "rc_auth (se_context (fst (worker_run env turns (new_session i) b))) = Some a"
  shows "authenticated_in env turns i b a"
  using assms
proof (induction turns rule: rev_induct)
  case Nil
  then show ?case by (simp add: new_session_def anonymous_def)
next
  case (snoc turn turns)
  obtain now w c where turn: "turn = (now, w, c)" by (cases turn)
  let ?s = "fst (worker_run env turns (new_session i) b)" and ?b = "snd (worker_run env turns (new_session i) b)"
  obtain r s' b' where t: "worker_turn env now w c ?s ?b = (r, s', b')" by (metis prod.collapse)
  have now_auth: "rc_auth (se_context s') = Some a"
    using snoc.prems t by (simp add: worker_run_append turn split: prod.splits)
  from worker_turn_auth[OF t] show ?case
  proof (elim disjE exE conjE)
    assume "rc_auth (se_context s') = rc_auth (se_context ?s)"
    then show ?thesis using snoc.IH now_auth by (auto intro: authenticated_in_append)
  next
    fix key inst a' oc b1
    assume "c = Auth key inst" "rc_auth (se_context s') = Some a'" "o_authenticated oc = Some a'"
      "authenticate env now key (?b\<lparr> b_requests := b_requests ?b + 1 \<rparr>) = (Inr oc, b1)"
    then show ?thesis using now_auth turn unfolding authenticated_in_def Let_def by fastforce
  qed
qed

lemma encrypted_key_marked: "encrypted_key k \<longleftrightarrow> marked_key k \<noteq> None"
  by (auto simp: encrypted_key_def marked_key_def split: option.splits)

lemma unauthenticated_encrypted:
  assumes "b_auth b = Some m" and "rc_auth c = None"
  shows "authorize_encrypted_command b now cmd c = Inr () \<Longrightarrow> security_namespace cmd = None"
proof -
  have denied: "authorize_or_bootstrap b now c n op \<noteq> Inr ()" for n op
    using assms by (simp add: authorize_or_bootstrap_def require_bootstrap_def authorize_def)
  have "\<not> list_ex (\<lambda>e. marked_key (key_str (entry_key e)) \<noteq> None) es"
    if "collect_results (\<lambda>e. if marked_key (key_str (entry_key e)) \<noteq> None
        then authorize_or_bootstrap b now c n OpWriteEncrypted else Inr ()) es = Inr us" for n es us
    using that denied by (induction es arbitrary: us) (auto split: sum.splits if_splits)
  then show "authorize_encrypted_command b now cmd c = Inr () \<Longrightarrow> security_namespace cmd = None"
    using denied by (cases cmd) (auto simp: encrypted_key_marked list_ex_iff split: if_splits sum.splits)
qed

fun is_open_command :: "command \<Rightarrow> bool" where
  "is_open_command (Auth _ _) = True"
| "is_open_command Ping = True"
| "is_open_command StatsCmd = True"
| "is_open_command _ = False"

lemma unauthenticated_guard:
  assumes "b_auth b = Some m" and "rc_auth c = None" and "\<not> is_open_command cmd"
  shows "\<not> command_guard b now cmd c"
proof -
  have "\<not> authorized b now c n op" for n op using assms(1,2) by (simp add: authorized_def authorize_def)
  moreover have "\<not> bootstrap_ok c" and "\<not> adapter_ok c" using assms(2) by (simp_all add: bootstrap_ok_def adapter_ok_def)
  ultimately show ?thesis using assms(3)
    by (cases cmd) (auto simp: registration_ok_def list_all_iff neq_Nil_conv split: sum.splits)
qed

text \<open>
  C27. An unauthenticated session reaches nothing: with authentication configured, every command of
  a session without a principal other than AUTH, PING and STATS is answered with an error, asks no
  adapter for anything, and changes neither the session nor any value a later read sees, nor
  registrations, leases, sessions or caches.
\<close>

theorem unauthenticated_session_reaches_nothing:
  assumes "store_spec (sops env) invar view" and "invar (b_store b)" and "b_auth b = Some m"
    and "rc_auth (se_context s) = None" and "\<not> is_open_command c"
  shows "\<exists>e q st d. worker_turn env now w c s b =
      (response_error e, s, b\<lparr> b_requests := q, b_store := st, b_draws := d \<rparr>)
    \<and> (\<forall>u \<ge> now. view st u = view (b_store b) u)"
proof -
  note loc = broker_store.intro[OF assms(1)]
  have ctx: "requested_adapter c (se_context s) = se_context s" using assms(5) by (cases c) simp_all
  let ?b = "b\<lparr> b_requests := b_requests b + 1 \<rparr>"
  show ?thesis
  proof (cases "authorize_encrypted_command b now c (se_context s)")
    case (Inl e)
    then have "worker_turn env now w c s b = (response_error e, s, b)"
      by (simp add: worker_turn_def execute_broker_command_def op_bind_def ctx Let_def)
    then show ?thesis
      by (intro exI[of _ e] exI[of _ "b_requests b"] exI[of _ "b_store b"] exI[of _ "b_draws b"]) simp
  next
    case (Inr x)
    then have "security_namespace c = None" using unauthenticated_encrypted[OF assms(3,4)] by simp
    then have run: "execute_broker_command env now w c (se_context s) b = run_command env now c (se_context s) ?b"
      using Inr by (simp add: execute_broker_command_def ensure_command_security_key_def op_bind_def op_return_def
          execute_def)
    have "\<not> command_guard ?b now c (se_context s)" using unauthenticated_guard[OF assms(3-5)] by simp
    then obtain e b' where "run_command env now c (se_context s) ?b = (Inl e, b')"
      and "broker_store.quiet invar view now ?b b'"
      using broker_store.run_command_denied[OF loc, of ?b now c "se_context s"] assms(2) by auto
    then show ?thesis
      unfolding broker_store.quiet_def[OF loc] by (auto simp: worker_turn_def run ctx Let_def)
  qed
qed

section \<open>The text boundary\<close>

lemma server_execute_fits:
  assumes "server_execute env now w owner c auth b = (Inr r, b')"
  shows "answer_allowed c r"
proof -
  obtain oc b1 where "execute_broker_command env now w c (rest_context owner auth) b = (Inr oc, b1)"
    and f: "finish_outcome env now w oc b1 = (Inr r, b')"
    using assms unfolding server_execute_def op_bind_Inr_iff by blast
  then have "outcome_fits c oc" using returnsD[OF returns_broker_command] by blast
  then show ?thesis using finish_outcome_fits f by blast
qed

lemma execute_text_direct:
  assumes "codec_laws cd R" and "wf_command R c" and "safe_command c"
    and "\<And>f. encode_command cd c = Inr f \<Longrightarrow> length f \<le> MAX_FRAME_BYTES"
    and "\<And>r b' f. server_execute env now w owner c auth b = (Inr r, b') \<Longrightarrow>
      wf_response R r \<and> safe_response c r \<and> (encode_response cd c r = Inr f \<longrightarrow> length f \<le> MAX_FRAME_BYTES)"
  shows "execute_text cd env now w owner c auth b = server_execute env now w owner c auth b"
proof -
  obtain f where f: "encode_command cd c = Inr f" and "length f \<le> MAX_FRAME_BYTES \<Longrightarrow> decode_command cd f = Inr c"
    using codec_laws.command_roundtrip[OF assms(1,2)] assms(3) by metis
  then have dec: "decode_command cd f = Inr c" using assms(4) by blast
  obtain x b' where x: "server_execute env now w owner c auth b = (x, b')" by fastforce
  show ?thesis
  proof (cases x)
    case (Inl e)
    then show ?thesis using f dec x by (simp add: execute_text_def op_bind_def op_lift_def)
  next
    case (Inr r)
    note r = assms(5)[OF x[unfolded Inr]]
    obtain g where g: "encode_response cd c r = Inr g"
      and "length g \<le> MAX_FRAME_BYTES \<Longrightarrow> decode_response cd c g = Inr r"
      using codec_laws.response_roundtrip[OF assms(1) server_execute_fits[OF x[unfolded Inr]]] r by metis
    then have "decode_response cd c g = Inr r" using r by blast
    then show ?thesis using f dec x g Inr by (simp add: execute_text_def op_bind_def op_lift_def)
  qed
qed

text \<open>
  The text boundary is transparent: a command that can exist and whose texts the codec accepts
  gives, through \<open>execute_text\<close>, exactly the result, the error and the effect it has when it is
  executed directly, provided the frames fit the size limit and the answer's texts are accepted.
\<close>

theorem execute_text_is_execute:
  assumes "codec_laws cd R" and "wf_command R c" and "safe_command c"
    and "\<And>f. encode_command cd c = Inr f \<Longrightarrow> length f \<le> MAX_FRAME_BYTES"
    and "\<And>r b' f. server_execute env now w owner c auth b = (Inr r, b') \<Longrightarrow>
      wf_response R r \<and> safe_response c r \<and> (encode_response cd c r = Inr f \<longrightarrow> length f \<le> MAX_FRAME_BYTES)"
  shows "execute_text cd env now w owner c auth b = server_execute env now w owner c auth b"
  using assms by (rule execute_text_direct)

section \<open>Waiting reads\<close>

context broker_store
begin

lemma cached_value_eval:
  assumes "invar (b_store b)" and "view (b_store b) now (n, k) = Some sv"
  shows "fst (cached_value_response env now n k False b) = Inr (Some (stored_response (sv_value sv) sv))"
proof -
  obtain b1 where "store_get env now n k b = (Inr (Some sv), b1)"
    using store_get_eq[OF assms(1), of now n k] assms(2) by metis
  then show ?thesis by (simp add: cached_value_response_def op_bind_Inr) (simp add: op_return_def)
qed

lemma accepted_value:
  assumes "invar (b_store b)" and "as_str n \<noteq> AUTH_NAMESPACE" and "key_str k \<noteq> []"
    and "fa \<or> store_for (b_registry b) n (KeyPattern (key_str k)) = None"
  shows "\<exists>b1. accept_provider_value env now n k v ttl fa False b = (Inr (outcome ROk), b1) \<and> invar (b_store b1)
    \<and> (\<forall>u \<ge> now. view (b_store b1) u = (view (b_store b) u)((n, k) := written_view now v ttl u))"
proof -
  let ?c = "(anonymous 0)\<lparr> adapter_instance := (if fa then Some 0 else None) \<rparr>"
  have "commits_directly b ?c n k" using assms(4) by (auto simp: commits_directly_def anonymous_def)
  from prepare_set_direct[OF this assms(3), of env now v ttl] obtain d where
    "prepare_mutation env now (PSet n k v ttl) fa b = commit_now env now (PSet n k v ttl) (b\<lparr> b_draws := d \<rparr>)"
    by (cases fa) auto
  then show ?thesis
    using commit_set[of "b\<lparr> b_draws := d \<rparr>" n now k v ttl] assms(1,2) by (auto simp: accept_provider_value_def)
qed

end

text \<open>
  A waiting read gets the provider's value: when a provider answers a refresh with a value that
  no store has to persist first, the refresh completes with a value, and a request whose wait ends
  with that completion answers with the value and the time it has left, as long as it has any and
  nothing else was written to the route in between.
\<close>

theorem waiting_read_gets_provider_value:
  assumes "store_spec (sops env) invar view" and "invar (b_store b)"
    and "d_command d = Query i n k" and "\<not> d_encrypted d" and "timeout_of d \<noteq> 0"
    and "as_str n \<noteq> AUTH_NAMESPACE" and "key_str k \<noteq> []"
    and "fa \<or> store_for (b_registry b) n (KeyPattern (key_str k)) = None"
    and "now \<le> u" and "written_view now v (map_option from_secs ttl) u = Some sv"
    and "refresh_result env now d fa (Inr (QueryResult i (Some v) None ttl)) b = (result', b1)"
    and "refreshed w d b0 = (Some RFound, b1)"
  shows "result' = Inl (Some RFound) \<and> fst (finish_query env u w d (n, k) response' b0) = Inr (stored_response v sv)"
proof -
  note loc = broker_store.intro[OF assms(1)]
  obtain b2 where acc: "accept_provider_value env now n k v (map_option from_secs ttl) fa False b = (Inr (outcome ROk), b2)"
    and inv: "invar (b_store b2)"
    and view: "\<And>t. now \<le> t \<Longrightarrow> view (b_store b2) t = (view (b_store b) t)((n, k) := written_view now v (map_option from_secs ttl) t)"
    using broker_store.accepted_value[OF loc assms(2,6,7,8)] by blast
  have res: "result' = Inl (Some RFound)" "b1 = b2"
    using assms(3,4,11) acc by (simp_all add: refresh_result_def outcome_def)
  have "sv_value sv = v" using assms(10) by (auto simp: written_view_def split: if_splits option.splits)
  then have "fst (cached_value_response env u n k False b2) = Inr (Some (stored_response v sv))"
    using broker_store.cached_value_eval[OF loc inv, of u n k sv] view[OF assms(9)] assms(10) by simp
  then obtain b3 where "cached_value_response env u n k False b2 = (Inr (Some (stored_response v sv)), b3)"
    by (metis prod.collapse)
  then have "fst (finish_query env u w d (n, k) response' b0) = Inr (stored_response v sv)"
    using assms(4,5,12) res(2)
    by (simp add: finish_query_def terminal_completion_def waited_response_def op_bind_Inr) (simp add: op_return_def)
  then show ?thesis using res by blast
qed

section \<open>Witnesses\<close>

definition lonely :: "(memory_state, miss_state) waits" where
  "lonely = \<lparr> call = (\<lambda>d b. (Inl (Connection ''registered connection has closed''), b)),
              refreshed = (\<lambda>d b. (None, b)), from_adapter = (\<lambda>d. False) \<rparr>"

lemma sample_auth_field: "b_auth sample_broker = Some (AuthManager_with_bootstrap_admin (Some ''root'') 10)"
  by (simp add: sample_broker_def Broker_new_def)

theorem session_principal_was_authenticated_witness:
  "\<exists>a. rc_auth (se_context (fst (worker_run sample_env [(5, lonely, Auth ''root'' None)] (new_session 1) sample_broker)))
       = Some a
     \<and> authenticated_in sample_env [(5, lonely, Auth ''root'' None)] 1 sample_broker a"
proof -
  have "rc_auth (se_context (fst (worker_run sample_env [(5, lonely, Auth ''root'' None)] (new_session 1) sample_broker)))
      \<noteq> None"
    by (simp add: worker_turn_def execute_broker_command_def ensure_command_security_key_def op_bind_def op_return_def
        execute_def authenticate_def sample_auth_field am_authenticate_def AuthManager_with_bootstrap_admin_def
        auth_provider_dispatch_def take_scheduled_load_def finish_outcome_def auth_success_def adopt_principal_def
        new_session_def anonymous_def Let_def split: prod.splits)
  then show ?thesis using session_principal_was_authenticated by blast
qed

theorem unauthenticated_session_reaches_nothing_witness:
  "\<exists>e q st d. worker_turn sample_env 5 lonely (Get draft_ns (Key ''~pin~'')) (new_session 1) sample_broker =
      (response_error e, new_session 1, sample_broker\<lparr> b_requests := q, b_store := st, b_draws := d \<rparr>)
    \<and> (\<forall>u \<ge> 5. memory_view timed_peek st u = memory_view timed_peek (b_store sample_broker) u)"
  by (rule unauthenticated_session_reaches_nothing[OF sample_store_spec sample_invar sample_auth_field])
    (simp_all add: new_session_def anonymous_def)

definition ada_read :: dispatch where
  "ada_read = (persist_dispatch 7 (Query 42 draft_ns (Key ''k'')))
     \<lparr> d_provider_options := Some \<lparr> max_rate = None, timeout_ms = 250, miss_ttl_seconds = 0 \<rparr> \<rparr>"

end
