(* ===== verification/Http_Requests.thy ===== *)
theory Http_Requests
  imports Http_Api Server_Requests
begin

text \<open>
  Properties of the HTTP interface: percent decoding inverts every encoding, a request can only
  become a well-formed data command, and nothing happens to the data without an authenticated
  principal.
\<close>

section \<open>Percent encoding\<close>

definition percent_encode :: "(char \<Rightarrow> bool) \<Rightarrow> string \<Rightarrow> string" where
  "percent_encode keep s =
     concat (map (\<lambda>c. if keep c then [c]
       else [CHR ''%'', hex_digit (of_char c div 16), hex_digit (of_char c mod 16)]) s)"

lemma hex_value_digit: "d < 16 \<Longrightarrow> hex_value (hex_digit d) = Some d"
  by (auto simp: hex_value_def hex_digit_def byte_in_def)

lemma percent_bytes_encode:
  assumes "\<And>c. keep c \<Longrightarrow> c \<noteq> CHR ''%''"
  shows "percent_bytes (percent_encode keep s) = Some s"
proof (induction s)
  case (Cons c s)
  have "of_char c div 16 < (16 :: nat)" by (rule less_mult_imp_div_less) (simp add: of_char_def of_nat_less_iff)
  then have "hex_value (hex_digit (of_char c div 16)) = Some (of_char c div 16)"
    "hex_value (hex_digit (of_char c mod 16)) = Some (of_char c mod 16)"
    by (simp_all add: hex_value_digit)
  with Cons show ?case using assms by (simp add: percent_encode_def)
qed (simp add: percent_encode_def)

text \<open>
  Percent decoding inverts percent encoding: however a client chooses which bytes of a text to
  encode, as long as it encodes the percent sign, decoding gives the text back when it is
  well-formed UTF-8 and refuses it otherwise.
\<close>

theorem percent_decode_encode:
  assumes "\<And>c. keep c \<Longrightarrow> c \<noteq> CHR ''%''"
  shows "percent_decode (percent_encode keep s) = (if utf8_valid s then Inr s else Inl ''invalid percent encoding'')"
  by (simp add: percent_decode_def percent_bytes_encode[of keep, OF assms])

section \<open>Commands\<close>

fun data_command :: "command \<Rightarrow> bool" where
  "data_command (Get _ _) = True"
| "data_command (Set _ _ _ _) = True"
| "data_command (Delete _ _) = True"
| "data_command (Move _ _) = True"
| "data_command _ = False"

lemma path_namespace_wf: "path_namespace raw = Inr n \<Longrightarrow> wf_ns n"
  by (auto simp: path_namespace_def NamespaceContext_new_InrD split: sum.splits if_splits)

lemma destination_wf: "destination_namespace rq = Inr n \<Longrightarrow> wf_ns n"
  by (auto simp: destination_namespace_def NamespaceContext_new_InrD
      split: list.splits option.splits sum.splits if_splits)

lemma query_key_nonempty: "query_key q = Some k \<Longrightarrow> key_str k \<noteq> []"
  by (auto simp: query_key_def Key_new_def split: option.splits sum.splits if_splits)

lemma parse_u64_fits: "parse_u64 s = Some n \<Longrightarrow> n \<le> u64_max"
  by (auto simp: parse_u64_def from_str_radix_def Let_def split: if_splits option.splits list.splits)

lemma ttl_header_fits: "ttl_header rq = Inr t \<Longrightarrow> fits u64_max t \<and> t \<noteq> Some 0"
  by (auto simp: ttl_header_def fits_def dest: parse_u64_fits split: list.splits option.splits if_splits bind_splits)

lemma request_command_wf:
  assumes "request_command from_slice rq = Inr c" and "\<And>body v. from_slice body = Some v \<Longrightarrow> R v"
  shows "data_command c \<and> wf_command R c \<and> (\<forall>n k v. c \<noteq> Set n k v (Some 0))"
proof -
  obtain n q where n: "path_namespace (rq_path rq) = Inr n"
    and c: "method_command from_slice rq n q = Inr c"
    using assms(1) by (auto simp: request_command_def split: sum.splits)
  note wf = path_namespace_wf[OF n]
  have move: "data_command c \<and> wf_command R c \<and> (\<forall>n k v. c \<noteq> Set n k v (Some 0))"
    if "move_request rq n q = Inr c"
    using that wf by (auto simp: move_request_def dest: destination_wf split: if_splits option.splits sum.splits)
  have put: "data_command c \<and> wf_command R c \<and> (\<forall>n k v. c \<noteq> Set n k v (Some 0))"
    if "put_request from_slice rq n q = Inr c"
    using that wf assms(2) by (auto simp: put_request_def dest: query_key_nonempty ttl_header_fits
        split: if_splits option.splits sum.splits)
  show ?thesis
    using c move put wf
    by (auto simp: method_command_def KeyPattern_new_def dest: query_key_nonempty
        split: if_splits option.splits sum.splits)
qed

text \<open>
  A request is a well-formed data command or is refused: whatever the request, the command it
  becomes reads, writes, deletes or moves values, its namespaces and key are ones the
  constructors accept and its time to live is positive and fits 64 bits; no request can
  authenticate, register an adapter or write a batch.
\<close>

theorem http_command_is_wellformed:
  assumes "request_command from_slice rq = Inr c" and "\<And>body v. from_slice body = Some v \<Longrightarrow> R v"
  shows "data_command c \<and> wf_command R c \<and> (\<forall>n k v. c \<noteq> Set n k v (Some 0))"
  using assms by (rule request_command_wf)

section \<open>Authentication\<close>

lemma decode_auth_frame:
  assumes "codec_laws cd R" and "encode_command cd (Auth key None) = Inr f" and "decode_command cd f = Inr c"
  shows "c = Auth key None"
proof -
  obtain g where g: "encode_command cd (Auth key None) = Inr g"
    and rt: "length g \<le> MAX_FRAME_BYTES \<Longrightarrow> decode_command cd g =
      (if safe_command (Auth key None) then Inr (Auth key None) else protocol_error ''invalid quoted escape'')"
    using codec_laws.command_roundtrip[OF assms(1), of "Auth key None"] by auto
  have "length f \<le> MAX_FRAME_BYTES"
    using assms(3) by (rule_tac ccontr) (simp add: decode_command_def frame_tokens_def Scanner_new_def)
  then show ?thesis using rt g assms(2,3) by (auto simp: protocol_error_def split: if_splits)
qed

context broker_store
begin

lemma authenticate_keeps_data:
  assumes "invar (b_store b)"
  shows "invar (b_store (snd (authenticate env now key b)))
    \<and> (\<forall>u \<ge> now. view (b_store (snd (authenticate env now key b))) u = view (b_store b) u)"
proof -
  have "spared n now b (authenticate env now key b)" for n
    by (rule sparesD[OF spares_authenticate assms])
  then show ?thesis unfolding spared_def by (auto simp: fun_eq_iff)
qed

lemma finish_auth_outcome:
  "auth_outcome oc \<Longrightarrow> finish_outcome env now w oc b = (Inr (o_response oc), b)"
  by (auto simp: finish_outcome_def op_return_def auth_outcome_def is_query_def
      split: option.splits server_command.splits)

lemma server_authenticate_keeps_data:
  assumes "codec_laws cd R" and "invar (b_store b)" and "server_authenticate cd env now w owner key b = (r, b')"
  shows "invar (b_store b') \<and> (\<forall>u \<ge> now. view (b_store b') u = view (b_store b) u)"
proof -
  let ?b = "b\<lparr> b_requests := b_requests b + 1 \<rparr>"
  have keeps: "invar (b_store b1) \<and> (\<forall>u \<ge> now. view (b_store b1) u = view (b_store b) u)"
    if "execute_broker_command env now w (Auth key None) (anonymous owner) b = (x, b1)" for x b1
    using that authenticate_keeps_data[of ?b now key] assms(2)
    by (auto simp: execute_broker_command_def ensure_command_security_key_def op_bind_def op_return_def execute_def)
  have fin: "finish_outcome env now w oc b1 = (Inr (o_response oc), b1)"
    if "execute_broker_command env now w (Auth key None) (anonymous owner) b = (Inr oc, b1)" for oc b1
    using returnsD[OF returns_broker_command that] by (simp add: finish_auth_outcome)
  have "b' = b \<or> (\<exists>x. execute_broker_command env now w (Auth key None) (anonymous owner) b = (x, b'))"
    using assms(3) fin decode_auth_frame[OF assms(1), of key]
    by (auto simp: server_authenticate_def op_bind_def op_lift_def split: sum.splits prod.splits)
  then show ?thesis using keeps assms(2) by auto
qed

end

text \<open>
  C30. No effect without a principal: a request that carries no single bearer token, or one that the
  broker does not authenticate, is answered with 401 or 503 and changes no value that a later read
  sees.
\<close>

theorem unauthenticated_http_request_has_no_effect:
  assumes "codec_laws cd R" and "store_spec (sops env) invar view" and "invar (b_store b)"
    and "\<And>key a. bearer rq = Some key \<Longrightarrow>
      fst (server_authenticate cd env now w owner key b) \<noteq> Inr (AuthenticatedAs a)"
  shows "hr_status (fst (rest from_slice cd env now later w owner owner' rq b)) \<in> {401, 503}
    \<and> (\<forall>u \<ge> now. view (b_store (snd (rest from_slice cd env now later w owner owner' rq b))) u = view (b_store b) u)"
proof (cases "bearer rq")
  case None
  then show ?thesis by (simp add: rest_def http_error_def)
next
  case (Some key)
  obtain r b' where r: "server_authenticate cd env now w owner key b = (r, b')" by fastforce
  note keeps = broker_store.server_authenticate_keeps_data[OF broker_store.intro[OF assms(2)] assms(1,3) r]
  show ?thesis
  proof (cases r)
    case (Inl e)
    then show ?thesis using Some r keeps by (simp add: rest_def http_error_def)
  next
    case (Inr x)
    then show ?thesis
      using Some r keeps assms(4)[OF Some]
      by (cases x) (auto simp: rest_def http_error_def http_auth_pending_def Let_def)
  qed
qed

section \<open>Writing and reading\<close>

context broker_store
begin

lemma server_set:
  assumes "invar (b_store b)" and "\<not> reserved n" and "\<not> is_marked k" and "key_str k \<noteq> []"
    and "authorized b now (rest_context owner auth) n OpWrite"
    and "store_for (b_registry b) n (KeyPattern (key_str k)) = None"
  shows "\<exists>b1. server_execute env now w owner (Set n k v ttl) auth b = (Inr ROk, b1) \<and> invar (b_store b1)
    \<and> b_auth b1 = b_auth b
    \<and> (\<forall>u \<ge> now. view (b_store b1) u = (view (b_store b) u)((n, k) := written_view now v (map_option from_secs ttl) u))"
proof -
  let ?b = "b\<lparr> b_requests := b_requests b + 1 \<rparr>" and ?c = "rest_context owner auth"
  have "\<exists>b1. broker_set env now n k v (map_option from_secs ttl) ?c ?b = (Inr (outcome ROk), b1) \<and> invar (b_store b1)
    \<and> b_auth b1 = b_auth ?b
    \<and> (\<forall>u \<ge> now. view (b_store b1) u = (view (b_store ?b) u)((n, plain_key k) := written_view now v (map_option from_secs ttl) u))"
    using assms quiet_refl[of ?b now]
    by (intro set_commits) (auto simp: plain_key_id write_operation_def commits_directly_def op_return_def)
  moreover have "\<not> encrypted_key (key_str k)" and "marked_key (key_str k) = None"
    using assms(3) by (simp_all add: encrypted_key_marked is_marked_def)
  ultimately show ?thesis
    using plain_key_id[OF assms(3)]
    by (auto simp: server_execute_def execute_broker_command_def ensure_command_security_key_def op_bind_def
        op_return_def execute_def finish_outcome_def outcome_def)
qed

lemma server_get:
  assumes "invar (b_store b)" and "\<not> reserved n" and "\<not> is_marked k" and "key_str k \<noteq> []" and "no_variables (key_str k)"
    and "authorized b now (rest_context owner auth) n OpRead" and "view (b_store b) now (n, k) = Some sv"
  shows "\<exists>b1. server_execute env now w owner (Get n k) auth b = (Inr (stored_response (sv_value sv) sv), b1)"
proof -
  let ?b = "b\<lparr> b_requests := b_requests b + 1 \<rparr>" and ?c = "rest_context owner auth"
  have "fst (broker_get env now n k ?c ?b) = Inr (outcome (stored_response (sv_value sv) sv))"
    using assms by (intro get_stored) (auto simp: plain_key_id read_operation_def op_return_def)
  then obtain b1 where "broker_get env now n k ?c ?b = (Inr (outcome (stored_response (sv_value sv) sv)), b1)"
    by (metis prod.collapse)
  moreover have "\<not> encrypted_key (key_str k)" and "marked_key (key_str k) = None"
    using assms(3) by (simp_all add: encrypted_key_marked is_marked_def)
  ultimately show ?thesis
    by (auto simp: server_execute_def execute_broker_command_def ensure_command_security_key_def op_bind_def
        op_return_def execute_def finish_outcome_def outcome_def)
qed

end

lemma execute_text_Inr:
  assumes "codec_laws cd R" and "wf_command R c" and "safe_command c"
    and "\<And>f. encode_command cd c = Inr f \<Longrightarrow> length f \<le> MAX_FRAME_BYTES"
    and "server_execute env now w owner c auth b = (Inr r, b')"
    and "wf_response R r" and "safe_response c r"
    and "\<And>f. encode_response cd c r = Inr f \<Longrightarrow> length f \<le> MAX_FRAME_BYTES"
  shows "execute_text cd env now w owner c auth b = (Inr r, b')"
  using execute_text_direct[OF assms(1-4), of env now w owner auth b] assms(5-8) by auto

lemma rest_executes:
  assumes "bearer rq = Some key"
    and "server_authenticate cd env now w owner key b = (Inr (AuthenticatedAs a), b1)"
    and "request_command from_slice rq = Inr c" and "execute_text cd env later w owner' c (Some a) b1 = (Inr r, b2)"
  shows "rest from_slice cd env now later w owner owner' rq b = (rest_response r, b2)"
  using assms by (simp add: rest_def)


section \<open>Witnesses\<close>

definition ada_headers :: "string \<Rightarrow> string option list" where
  "ada_headers h =
     (if h = ''authorization'' then [Some ''Bearer root'']
      else if h = ''content-type'' then [Some ''application/json; charset=utf-8''] else [])"

definition ada_put :: http_request where
  "ada_put = \<lparr> rq_method = ''PUT'', rq_path = ''/users'', rq_query = Some ''na%6De'', rq_headers = ada_headers,
               rq_body = Some ''true'' \<rparr>"

definition ada_get :: http_request where
  "ada_get = \<lparr> rq_method = ''GET'', rq_path = ''/users'', rq_query = Some ''name'', rq_headers = ada_headers,
               rq_body = Some [] \<rparr>"

definition ada_json :: "string \<Rightarrow> json option" where
  "ada_json body = (if body = ''true'' then Some (JBool True) else None)"

lemma ada_commands:
  "request_command ada_json ada_put = Inr (Set ada_ns (Key ''name'') (JBool True) None)"
  "request_command ada_json ada_get = Inr (Get ada_ns (Key ''name''))"
  by code_simp+

lemma ada_bearer: "bearer ada_put = Some ''root''" "bearer ada_get = Some ''root''"
  by code_simp+

lemma ada_json_value: "ada_json body = Some v \<Longrightarrow> v = JBool True"
  by (simp add: ada_json_def split: if_splits)

theorem unauthenticated_http_request_has_no_effect_witness:
  "let rq = ada_put\<lparr> rq_headers := (\<lambda>_. []) \<rparr>; x = rest ada_json sample_codec sample_env 5 6 lonely 1 2 rq sample_broker in
   hr_status (fst x) \<in> {401, 503}
   \<and> (\<forall>u \<ge> 5. memory_view timed_peek (b_store (snd x)) u = memory_view timed_peek (b_store sample_broker) u)"
  unfolding Let_def
  by (rule unauthenticated_http_request_has_no_effect[OF sample_codec.codec_laws_axioms sample_store_spec sample_invar])
    (simp add: bearer_def)

definition root_info :: "instant \<Rightarrow> auth_info" where
  "root_info now = \<lparr> ai_api_key = ''root'', ai_client_id = ''bootstrap-admin'', ai_roles = [RoleAdmin],
     ai_source = BootstrapAdmin, authenticated_at = now \<rparr>"

lemmas text_defs = quote_def is_bare_def is_ascii_alphanumeric_def is_ascii_alphabetic_def is_ascii_digit_def
  wire_safe_def wire_byte_def

lemma auth_frames:
  "decode_command sample_codec ''AUTH root'' = Inr (Auth ''root'' None)"
  "decode_response sample_codec (Auth ''root'' None) ''OK bootstrap-admin TTL 0''
     = Inr (AuthSuccess ''bootstrap-admin'' 0)"
proof -
  let ?a = "Auth ''root'' None" and ?r = "AuthSuccess ''bootstrap-admin'' 0"
  obtain f where "encode_command sample_codec ?a = Inr f" "length f \<le> MAX_FRAME_BYTES \<Longrightarrow> decode_command sample_codec f = Inr ?a"
    using sample_codec.command_roundtrip[of ?a] by (auto simp: text_defs)
  then show "decode_command sample_codec ''AUTH root'' = Inr ?a" by (auto simp: text_defs MAX_FRAME_BYTES_def)
  obtain g where "encode_response sample_codec ?a ?r = Inr g"
    "length g \<le> MAX_FRAME_BYTES \<Longrightarrow> decode_response sample_codec ?a g = Inr ?r"
    using sample_codec.response_roundtrip[of ?a ?r] by (auto simp: text_defs)
  then show "decode_response sample_codec ?a ''OK bootstrap-admin TTL 0'' = Inr ?r"
    by (auto simp: encode_response.simps text_defs MAX_FRAME_BYTES_def show_nat.simps digit_char_numerals[simplified])
qed

lemma root_authenticates:
  assumes "b_auth b = b_auth sample_broker"
  shows "server_authenticate sample_codec sample_env t lonely i ''root'' b =
    (Inr (AuthenticatedAs (root_info t)), b\<lparr> b_requests := b_requests b + 1 \<rparr>)"
proof -
  have "execute_broker_command sample_env t lonely (Auth ''root'' None) (anonymous i) b =
      (Inr (auth_success (the (b_auth b)) (root_info t) None), b\<lparr> b_requests := b_requests b + 1 \<rparr>)"
    using assms
    by (simp add: execute_broker_command_def ensure_command_security_key_def op_bind_def op_return_def execute_def
        authenticate_def sample_auth_field am_authenticate_def AuthManager_with_bootstrap_admin_def root_info_def
        auth_provider_dispatch_def take_scheduled_load_def)
  moreover have "encode_response sample_codec (Auth ''root'' None)
      (o_response (auth_success (the (b_auth b)) (root_info t) None)) = Inr ''OK bootstrap-admin TTL 0''"
    using assms by (simp add: encode_response.simps text_defs auth_success_def root_info_def sample_auth_field
        AuthManager_with_bootstrap_admin_def session_timeout_def as_secs_def nanos_per_sec_def show_nat.simps
        digit_char_numerals[simplified])
  ultimately show ?thesis
    by (simp add: server_authenticate_def op_bind_def op_lift_def auth_frames text_defs finish_outcome_def
        op_return_def authentication_result_of_def) 
      (simp add: auth_success_def auth_frames op_bind_def op_lift_def op_return_def)
qed

lemma root_authorized:
  assumes "b_auth b = b_auth sample_broker"
  shows "authorized b t (rest_context i (Some (root_info t'))) n op"
  using assms by (simp add: authorized_def authorize_def sample_auth_field rest_context_def am_authorize_def
      is_bootstrap_admin_def root_info_def)


end
