(* ===== verification/OpenBao_Mapping.thy ===== *)
theory OpenBao_Mapping
  imports Protocol
begin

text \<open>
  The paths of \<open>valkyr-openbao-adapter/src/mapping.rs\<close>: where the adapter keeps the value of a key, and
  the documents it writes there. SHA-256 is the argument \<open>digest\<close>.
\<close>

text \<open>
  The errors of other libraries are carried by their texts, a status by its number. \<open>AdapterPanic\<close> is no
  variant of the enum: it stands for a panic, which ends the task.
\<close>

datatype adapter_error =
    Configuration string
  | ConfigurationFile string
  | HttpFailure string
  | OpenBaoStatus nat
  | JsonFailure string
  | RouteError error
  | ValkyrFailure string
  | Unsupported string
  | NamespaceExistsError
  | AdapterPanic string

fun adapter_error_display :: "(nat \<Rightarrow> string) \<Rightarrow> adapter_error \<Rightarrow> string" where
  "adapter_error_display _ (Configuration m) = ''invalid adapter configuration: '' @ m"
| "adapter_error_display _ (ConfigurationFile m) = ''configuration file failed: '' @ m"
| "adapter_error_display _ (HttpFailure m) = ''OpenBao request failed: '' @ m"
| "adapter_error_display status_text (OpenBaoStatus status) = ''OpenBao returned status '' @ status_text status"
| "adapter_error_display _ (JsonFailure m) = ''OpenBao response was invalid: '' @ m"
| "adapter_error_display _ (RouteError e) = ''route is invalid: '' @ error_display e"
| "adapter_error_display _ (ValkyrFailure m) = ''Valkyr callback failed: '' @ m"
| "adapter_error_display _ (Unsupported m) = ''operation is not supported: '' @ m"
| "adapter_error_display _ NamespaceExistsError = ''context destination already exists''"
| "adapter_error_display _ (AdapterPanic m) = m"

type_synonym 'a adapter_result = "adapter_error + 'a"

section \<open>Percent encoding\<close>

definition hex_upper :: "nat \<Rightarrow> char" where
  "hex_upper d = char_of (if d < 10 then 48 + d else 55 + d)"

definition is_plain_byte :: "char \<Rightarrow> bool" where
  "is_plain_byte c \<longleftrightarrow>
     byte_in 0x41 0x5A c \<or> byte_in 0x61 0x7A c \<or> byte_in 0x30 0x39 c \<or> c \<in> set ''-._~''"

definition encode_byte :: "char \<Rightarrow> string" where
  "encode_byte c =
     (if is_plain_byte c then [c]
      else [CHR ''%'', hex_upper (of_char c div 16), hex_upper (of_char c mod 16)])"

definition bao_encode :: "string \<Rightarrow> string" where
  "bao_encode value =
     (if value = ''.'' then ''%2E'' else if value = ''..'' then ''%2E%2E''
      else concat (map encode_byte value))"

definition bao_hex_value :: "char \<Rightarrow> nat option" where
  "bao_hex_value c =
     (if byte_in 0x30 0x39 c then Some (of_char c - 0x30)
      else if byte_in 0x61 0x66 c then Some (of_char c - 0x61 + 10)
      else if byte_in 0x41 0x46 c then Some (of_char c - 0x41 + 10)
      else None)"

fun decode_bytes :: "string \<Rightarrow> string option" where
  "decode_bytes [] = Some []"
| "decode_bytes (c # cs) =
     (if c \<noteq> CHR ''%'' then map_option ((#) c) (decode_bytes cs)
      else case cs of
             high # low # rest \<Rightarrow>
               (case (bao_hex_value high, bao_hex_value low) of
                  (Some h, Some l) \<Rightarrow> map_option ((#) (char_of (16 * h + l))) (decode_bytes rest)
                | _ \<Rightarrow> None)
           | _ \<Rightarrow> None)"

text \<open>The text of the UTF-8 error is the standard library's, an argument.\<close>

definition bao_decode :: "(string \<Rightarrow> string) \<Rightarrow> string \<Rightarrow> string adapter_result" where
  "bao_decode utf8_error value =
     (case decode_bytes value of
        None \<Rightarrow> Inl (Configuration ''OpenBao provider key had an invalid percent escape'')
      | Some decoded \<Rightarrow>
          if utf8_valid decoded then Inr decoded
          else Inl (Configuration (''OpenBao provider key was not UTF-8: '' @ utf8_error decoded)))"

section \<open>Locations\<close>

record bao_mapping =
  bm_prefix :: string

datatype secret_location = RootLocation string string | ContextLocation string string string

definition trim_slashes :: "string \<Rightarrow> string" where
  "trim_slashes s = rev (dropWhile (\<lambda>c. c = CHR ''/'') (rev (dropWhile (\<lambda>c. c = CHR ''/'') s)))"

definition OpenBaoMapping_new :: "string \<Rightarrow> bao_mapping adapter_result" where
  "OpenBaoMapping_new prefix =
     (let p = trim_slashes prefix in
      if p = [] then Inl (Configuration ''openbao.prefix is required'') else Inr \<lparr> bm_prefix = p \<rparr>)"

definition index_path :: "bao_mapping \<Rightarrow> string \<Rightarrow> string" where
  "index_path m base = bm_prefix m @ ''/indexes/'' @ bao_encode base"

definition root_collection_path :: "bao_mapping \<Rightarrow> namespace_context \<Rightarrow> string" where
  "root_collection_path m n = bm_prefix m @ ''/values/'' @ bao_encode (as_str n) @ ''/root''"

definition hex_text :: "string \<Rightarrow> string" where
  "hex_text bytes = concat (map (\<lambda>c. [hex_digit (of_char c div 16), hex_digit (of_char c mod 16)]) bytes)"

definition auth_key_parts :: "(string \<Rightarrow> string) \<Rightarrow> key \<Rightarrow> string list" where
  "auth_key_parts digest k =
     (let hex = hex_text (digest (key_str k)) in
      [slice 0 16 hex, slice 16 32 hex, slice 32 48 hex, slice 48 64 hex])"

definition auth_collection_path :: "bao_mapping \<Rightarrow> string" where
  "auth_collection_path m = bm_prefix m @ ''/values/'' @ bao_encode ''/__auth'' @ ''/root''"

definition auth_path :: "(string \<Rightarrow> string) \<Rightarrow> bao_mapping \<Rightarrow> key \<Rightarrow> string" where
  "auth_path digest m k =
     auth_collection_path m @ concat (map (\<lambda>part. CHR ''/'' # part) (auth_key_parts digest k))"

definition is_auth_namespace :: "namespace_context \<Rightarrow> bool" where
  "is_auth_namespace n \<longleftrightarrow> as_str n = ''/__auth'' \<and> ctx n = None"

definition context_collection_path :: "bao_mapping \<Rightarrow> string \<Rightarrow> string \<Rightarrow> string" where
  "context_collection_path m base collection =
     bm_prefix m @ ''/values/'' @ bao_encode base @ ''/contexts/'' @ collection"

definition locate ::
    "(string \<Rightarrow> string) \<Rightarrow> bao_mapping \<Rightarrow> namespace_context \<Rightarrow> key \<Rightarrow> string option \<Rightarrow> secret_location adapter_result" where
  "locate digest m n k collection =
     (case ctx n of
        None \<Rightarrow>
          Inr (RootLocation (as_str n)
            (if is_auth_namespace n then auth_path digest m k
             else root_collection_path m n @ ''/'' @ bao_encode (key_str k)))
      | Some context' \<Rightarrow>
          (case collection of
             None \<Rightarrow> Inl (Configuration ''context collection is required'')
           | Some c \<Rightarrow>
               Inr (ContextLocation (ns n) context'
                 (context_collection_path m (ns n) c @ ''/'' @ bao_encode (key_str k)))))"

fun location_path :: "secret_location \<Rightarrow> string" where
  "location_path (RootLocation _ path) = path"
| "location_path (ContextLocation _ _ path) = path"

section \<open>Documents of principals\<close>

record auth_document =
  ad_key :: string
  ad_value :: json
  ad_ttl :: "duration option"

definition ttl_json :: "duration option \<Rightarrow> json" where
  "ttl_json ttl = (case ttl of None \<Rightarrow> JNull | Some d \<Rightarrow> JNumber (PosInt (as_secs d)))"

definition encode_auth_document :: "key \<Rightarrow> json \<Rightarrow> duration option \<Rightarrow> json" where
  "encode_auth_document k value ttl =
     JObject [(''key'', JString (key_str k)), (''ttl_seconds'', ttl_json ttl), (''value'', value)]"

definition decode_auth_document :: "json \<Rightarrow> auth_document adapter_result" where
  "decode_auth_document document =
     (case Option.bind (json_get ''key'' document) json_as_str of
        None \<Rightarrow> Inl (Configuration ''OpenBao auth document had no valid key'')
      | Some k \<Rightarrow>
          if k = [] then Inl (Configuration ''OpenBao auth document had no valid key'')
          else (case json_get ''value'' document of
                  None \<Rightarrow> Inl (Configuration ''OpenBao auth document had no value'')
                | Some value \<Rightarrow>
                    (case json_get ''ttl_seconds'' document of
                       None \<Rightarrow> Inr \<lparr> ad_key = k, ad_value = value, ad_ttl = None \<rparr>
                     | Some JNull \<Rightarrow> Inr \<lparr> ad_key = k, ad_value = value, ad_ttl = None \<rparr>
                     | Some t \<Rightarrow>
                         (case json_as_u64 t of
                            None \<Rightarrow> Inl (Configuration ''OpenBao auth document had an invalid ttl_seconds'')
                          | Some seconds \<Rightarrow>
                              Inr \<lparr> ad_key = k, ad_value = value, ad_ttl = Some (from_secs seconds) \<rparr>))))"

section \<open>Encoding is injective and stays inside its directory\<close>

lemma hex_upper_value: "d < 16 \<Longrightarrow> bao_hex_value (hex_upper d) = Some d"
  by (auto simp: bao_hex_value_def hex_upper_def byte_in_def)

text \<open>For evaluation: the plain bytes listed, and the digits of an escape by pattern.\<close>

lemma byte_in_chars: "hi < 256 \<Longrightarrow> byte_in lo hi c \<longleftrightarrow> c \<in> set (map char_of [lo..<Suc hi])"
proof -
  assume hi: "hi < 256"
  have set: "set (map char_of [lo..<Suc hi]) = char_of ` {lo..hi}" by (simp only: set_map set_upt atLeastLessThanSuc_atLeastAtMost)
  have "char_of (of_char c :: nat) \<in> char_of ` {lo..hi}" if "byte_in lo hi c" using that by (intro imageI) (simp add: byte_in_def)
  moreover have "byte_in lo hi c" if "c \<in> char_of ` {lo..hi}" using that hi by (auto simp: byte_in_def)
  ultimately show ?thesis unfolding set by auto
qed

lemma is_plain_byte_code [code]:
  "is_plain_byte c \<longleftrightarrow> c \<in> set ''ABCDEFGHIJKLMNOPQRSTUVWXYZabcdefghijklmnopqrstuvwxyz0123456789-._~''"
proof -
  have "map char_of [0x41..<Suc 0x5A] = ''ABCDEFGHIJKLMNOPQRSTUVWXYZ''" "map char_of [0x61..<Suc 0x7A] = ''abcdefghijklmnopqrstuvwxyz''"
    "map char_of [0x30..<Suc 0x39] = ''0123456789''"
    by code_simp+
  then show ?thesis unfolding is_plain_byte_def by (simp add: byte_in_chars del: list.map)
qed

lemma hex_upper_plain: "d < 16 \<Longrightarrow> is_plain_byte (hex_upper d)"
  by (auto simp: is_plain_byte_def hex_upper_def byte_in_def)

lemma plain_not_special: "is_plain_byte c \<Longrightarrow> c \<noteq> CHR ''%'' \<and> c \<noteq> CHR ''/''"
  by (auto simp: is_plain_byte_def byte_in_def)

lemma high_nibble: "of_char c div 16 < (16 :: nat)"
  by (rule less_mult_imp_div_less) simp

lemma decode_encode_bytes: "decode_bytes (concat (map encode_byte s) @ t) = map_option ((@) s) (decode_bytes t)"
proof (induction s)
  case (Cons c s)
  have "bao_hex_value (hex_upper (of_char c div 16)) = Some (of_char c div 16)"
    "bao_hex_value (hex_upper (of_char c mod 16)) = Some (of_char c mod 16)"
    using high_nibble[of c] by (simp_all add: hex_upper_value)
  with Cons plain_not_special show ?case
    by (auto simp: encode_byte_def option.map_comp comp_def intro: option.map_cong)
qed (simp add: option.map_ident)

lemma decode_bao_encode: "decode_bytes (bao_encode s) = Some s"
proof -
  have "decode_bytes ''%2E'' = Some ''.''" "decode_bytes ''%2E%2E'' = Some ''..''" by code_simp+
  then show ?thesis using decode_encode_bytes[of s "[]"] by (simp add: bao_encode_def)
qed

lemma bao_encode_inj: "bao_encode s = bao_encode t \<Longrightarrow> s = t"
  by (metis decode_bao_encode option.inject)

lemma encode_byte_no_slash: "CHR ''/'' \<notin> set (encode_byte c)"
proof -
  have "hex_upper (of_char c div 16) \<noteq> CHR ''/''" "hex_upper (of_char c mod 16) \<noteq> CHR ''/''"
    using plain_not_special hex_upper_plain[OF high_nibble] hex_upper_plain[of "of_char c mod 16"] by auto
  then show ?thesis using plain_not_special[of c] by (auto simp: encode_byte_def)
qed

lemma bao_encode_no_slash: "CHR ''/'' \<notin> set (bao_encode s)"
  using encode_byte_no_slash by (auto simp: bao_encode_def)

lemma bao_encode_segment:
  assumes "s \<noteq> []" shows "bao_encode s \<notin> {[], ''.'', ''..''}"
proof
  assume e: "bao_encode s \<in> {[], ''.'', ''..''}"
  moreover have "decode_bytes [] = Some []" "decode_bytes ''.'' = Some ''.''" "decode_bytes ''..'' = Some ''..''"
    by simp_all
  ultimately have "s \<in> {''.'', ''..''}" using decode_bao_encode[of s] assms by auto
  with e show False by (auto simp: bao_encode_def)
qed

text \<open>Paths are compared segment by segment.\<close>

lemma segment_split:
  assumes "CHR ''/'' \<notin> set x" and "CHR ''/'' \<notin> set y" and "x @ CHR ''/'' # xs = y @ CHR ''/'' # ys"
  shows "x = y \<and> xs = ys"
proof -
  have "takeWhile (\<lambda>c. c \<noteq> CHR ''/'') (x @ CHR ''/'' # xs) = x" "takeWhile (\<lambda>c. c \<noteq> CHR ''/'') (y @ CHR ''/'' # ys) = y"
    using assms(1,2) by (auto intro: takeWhile_append1 simp: takeWhile_append2)
  with assms(3) show ?thesis by (metis append_same_eq same_append_eq list.inject)
qed


lemma encode_segment_split:
  "bao_encode x @ CHR ''/'' # xs = bao_encode y @ CHR ''/'' # ys \<Longrightarrow> x = y \<and> xs = ys"
  using segment_split[OF bao_encode_no_slash bao_encode_no_slash] bao_encode_inj by blast

lemma locate_path:
  assumes "locate digest m n k c = Inr l" and "\<not> is_auth_namespace n"
  shows "location_path l = bm_prefix m @ ''/values/'' @
    (case ctx n of
       None \<Rightarrow> bao_encode (as_str n) @ CHR ''/'' # ''root'' @ CHR ''/'' # bao_encode (key_str k)
     | Some _ \<Rightarrow> bao_encode (ns n) @ CHR ''/'' # ''contexts'' @ CHR ''/'' # the c @ CHR ''/'' # bao_encode (key_str k))"
    and "ctx n \<noteq> None \<Longrightarrow> c \<noteq> None"
  using assms by (auto simp: locate_def root_collection_path_def context_collection_path_def split: option.splits)

section \<open>Properties\<close>

text \<open>
  C35. Locations do not collide: two values that are not principals and are kept at the same path have the
  same key, and both the same namespace, or the same base namespace and the same collection of
  a context; a value of a namespace never shares a path with one of a context, whatever the names are.
\<close>

theorem locations_are_injective:
  assumes "locate digest m n k c = Inr l" and "locate digest m n' k' c' = Inr l'"
    and "\<not> is_auth_namespace n" and "\<not> is_auth_namespace n'"
    and "\<forall>x. c = Some x \<longrightarrow> CHR ''/'' \<notin> set x" and "\<forall>x. c' = Some x \<longrightarrow> CHR ''/'' \<notin> set x"
    and "location_path l = location_path l'"
  shows "k = k' \<and> (case (ctx n, ctx n') of
       (None, None) \<Rightarrow> as_str n = as_str n'
     | (Some _, Some _) \<Rightarrow> ns n = ns n' \<and> c = c'
     | _ \<Rightarrow> False)"
proof -
  note p = locate_path[OF assms(1,3)] locate_path[OF assms(2,4)]
  let ?rest = "\<lambda>n k c. case ctx n of
       None \<Rightarrow> bao_encode (as_str n) @ CHR ''/'' # ''root'' @ CHR ''/'' # bao_encode (key_str k)
     | Some _ \<Rightarrow> bao_encode (ns n) @ CHR ''/'' # ''contexts'' @ CHR ''/'' # the c @ CHR ''/'' # bao_encode (key_str k)"
  have rest: "?rest n k c = ?rest n' k' c'" using assms(7) unfolding p(1) p(3) by (simp only: same_append_eq)
  have keys: "bao_encode (key_str k) = bao_encode (key_str k') \<Longrightarrow> k = k'"
    using bao_encode_inj[of "key_str k" "key_str k'"] by (cases k; cases k') simp
  show ?thesis
  proof (cases "ctx n"; cases "ctx n'")
    fix x y assume c: "ctx n = Some x" "ctx n' = Some y"
    with p obtain d d' where d: "c = Some d" "c' = Some d'" by auto
    with assms(5,6) have "CHR ''/'' \<notin> set d" "CHR ''/'' \<notin> set d'" by auto
    from segment_split[OF this] encode_segment_split[OF rest[unfolded c option.case]] show ?thesis
      using c d keys by simp
  next
    assume c: "ctx n = None" "ctx n' = None"
    from encode_segment_split[OF rest[unfolded c option.case]] show ?thesis using c keys by simp
  next
    fix x assume c: "ctx n = Some x" "ctx n' = None"
    from encode_segment_split[OF rest[unfolded c option.case]] show ?thesis by simp
  next
    fix x assume c: "ctx n = None" "ctx n' = Some x"
    from encode_segment_split[OF rest[unfolded c option.case]] show ?thesis by simp
  qed
qed

definition orders_ns :: "string option \<Rightarrow> namespace_context" where
  "orders_ns c = projr (NamespaceContext_new (case c of None \<Rightarrow> ''/orders'' | Some x \<Rightarrow> ''/orders::'' @ x))"

theorem locations_are_injective_witness:
  "let l = projr (locate id \<lparr> bm_prefix = ''cache'' \<rparr> (orders_ns (Some ''draft'')) (Key ''a/b'') (Some ''id'')) in
   location_path l = ''cache/values/%2Forders/contexts/id/a%2Fb''
   \<and> \<not> (\<exists>l'. locate id \<lparr> bm_prefix = ''cache'' \<rparr> (orders_ns None) (Key ''b'') None = Inr l' \<and> location_path l' = location_path l)"
proof -
  let ?m = "\<lparr> bm_prefix = ''cache'' \<rparr>" and ?n = "orders_ns (Some ''draft'')"
  let ?l = "projr (locate id ?m ?n (Key ''a/b'') (Some ''id''))"
  have l: "locate id ?m ?n (Key ''a/b'') (Some ''id'') = Inr ?l"
    and path: "location_path ?l = ''cache/values/%2Forders/contexts/id/a%2Fb''"
    and ns: "\<not> is_auth_namespace ?n" "\<not> is_auth_namespace (orders_ns None)"
    by code_simp+
  have "\<not> (\<exists>l'. locate id ?m (orders_ns None) (Key ''b'') None = Inr l' \<and> location_path l' = location_path ?l)"
  proof
    assume "\<exists>l'. locate id ?m (orders_ns None) (Key ''b'') None = Inr l' \<and> location_path l' = location_path ?l"
    then obtain l' where "locate id ?m (orders_ns None) (Key ''b'') None = Inr l'" "location_path l' = location_path ?l"
      by blast
    from locations_are_injective[OF l this(1) ns _ _ this(2)[symmetric]] show False by simp
  qed
  then show ?thesis using path by (simp add: Let_def)
qed

end
