(* ===== verification/OpenBao_Client.thy ===== *)
theory OpenBao_Client
  imports OpenBao_Mapping
begin

text \<open>
  The KV v2 client of \<open>valkyr-openbao-adapter/src/client.rs\<close>. What the adapter takes from outside is the
  record \<open>bao_lib\<close>, an argument: the URL and HTTP libraries and, for theory \<open>OpenBao_Bridge\<close>, SHA-256,
  random identifiers, the system clock and the task that repeats a mutation at another endpoint.
  A request gives up control until its response is there: \<open>http_send\<close> takes
  the whole state, because the server, its other clients and the other tasks of the adapter, which
  share the token, act in that time. The texts of library errors are the libraries'.
\<close>

record bao_request =
  rq_method :: string
  rq_url :: string
  rq_token :: "string option"
  rq_body :: "json option"

text \<open>A value of the adapter (\<open>traits.rs\<close>) and a mutation it forwards (\<open>bridge.rs\<close>).\<close>

record bao_value =
  bv_namespace :: namespace_context
  bv_key :: key
  bv_value :: json
  bv_ttl :: "duration option"

datatype forwarded_mutation =
    ForwardSet bao_value
  | ForwardDelete namespace_context "key_pattern option"
  | ForwardMove namespace_context namespace_context

text \<open>\<open>bs_json\<close> is what \<open>Response::json\<close> gives.\<close>

record bao_response =
  bs_status :: nat
  bs_json :: "string + json"

record 'w bao_state =
  bao_world :: 'w
  bao_token :: "string option"

record 'w bao_lib =
  url_parse :: "string \<Rightarrow> string + string"
  url_join :: "string \<Rightarrow> string \<Rightarrow> string + string"
  certificate_from_pem :: "string \<Rightarrow> string + unit"
  build_http :: "duration \<Rightarrow> string option \<Rightarrow> string + unit"
  http_send :: "bao_request \<Rightarrow> (string, 'w bao_state, bao_response) effect"
  status_text :: "nat \<Rightarrow> string"
  sha256 :: "string \<Rightarrow> string"
  draw_uuid :: "'w bao_state \<Rightarrow> uuid \<times> 'w bao_state"
  uuid_text :: "uuid \<Rightarrow> string"
  uuid_simple :: "uuid \<Rightarrow> string"
  unix_seconds :: "'w bao_state \<Rightarrow> string + nat"
  utf8_error :: "string \<Rightarrow> string"
  forward_task :: "nat \<Rightarrow> forwarded_mutation \<Rightarrow> 'w bao_state \<Rightarrow> 'w bao_state"

record app_role =
  role_id :: string
  secret_id :: string

record bao_client =
  bc_address :: string
  bc_mount :: string
  bc_auth :: app_role

record versioned =
  vd_value :: json
  vd_version :: nat

type_synonym ('w, 'a) bao = "(adapter_error, 'w bao_state, 'a) effect"

section \<open>Requests\<close>

definition is_success :: "nat \<Rightarrow> bool" where
  "is_success status \<longleftrightarrow> 200 \<le> status \<and> status < 300"

text \<open>\<open>Value::pointer\<close>, for reference tokens that are not array indices.\<close>

definition json_pointer :: "string list \<Rightarrow> json \<Rightarrow> json option" where
  "json_pointer tokens value = fold (\<lambda>t v. Option.bind v (json_get t)) tokens (Some value)"

definition OpenBaoClient_new ::
    "'w bao_lib \<Rightarrow> string \<Rightarrow> string \<Rightarrow> duration \<Rightarrow> app_role \<Rightarrow> string option \<Rightarrow> bao_client adapter_result" where
  "OpenBaoClient_new lib address mount timeout' role ca_certificate =
     (case url_parse lib address of
        Inl e \<Rightarrow> Inl (Configuration (''invalid openbao.address: '' @ e))
      | Inr url \<Rightarrow>
          (case (case ca_certificate of None \<Rightarrow> Inr () | Some c \<Rightarrow> certificate_from_pem lib c) of
             Inl e \<Rightarrow> Inl (Configuration (''invalid OpenBao CA certificate: '' @ e))
           | Inr _ \<Rightarrow>
               (case build_http lib timeout' ca_certificate of
                  Inl e \<Rightarrow> Inl (HttpFailure e)
                | Inr _ \<Rightarrow> Inr \<lparr> bc_address = url, bc_mount = trim_slashes mount, bc_auth = role \<rparr>)))"

definition escape_percent :: "string \<Rightarrow> string" where
  "escape_percent s = concat (map (\<lambda>c. if c = CHR ''%'' then ''%25'' else [c]) s)"

definition endpoint :: "'w bao_lib \<Rightarrow> bao_client \<Rightarrow> string \<Rightarrow> string adapter_result" where
  "endpoint lib c suffix = or_error Configuration (url_join lib (bc_address c) (''v1/'' @ escape_percent suffix))"

definition send_request :: "'w bao_lib \<Rightarrow> bao_request \<Rightarrow> ('w, bao_response) bao" where
  "send_request lib rq s = (case http_send lib rq s of (r, s') \<Rightarrow> (or_error HttpFailure r, s'))"

definition bao_login :: "'w bao_lib \<Rightarrow> bao_client \<Rightarrow> ('w, unit) bao" where
  "bao_login lib c =
     op_bind (op_lift (endpoint lib c ''auth/approle/login'')) (\<lambda>url.
     op_bind (send_request lib \<lparr> rq_method = ''POST'', rq_url = url, rq_token = None,
       rq_body = Some (JObject [(''role_id'', JString (role_id (bc_auth c))), (''secret_id'', JString (secret_id (bc_auth c)))]) \<rparr>)
       (\<lambda>response.
        if \<not> is_success (bs_status response) then op_fail (OpenBaoStatus (bs_status response))
        else op_bind (op_lift (or_error HttpFailure (bs_json response))) (\<lambda>value.
             op_bind (op_lift (ok_or_else (Configuration ''OpenBao login response had no client token'')
               (Option.bind (json_pointer [''auth'', ''client_token''] value) json_as_str))) (\<lambda>token s.
               (Inr (), s\<lparr> bao_token := Some token \<rparr>)))))"

definition request ::
    "'w bao_lib \<Rightarrow> bao_client \<Rightarrow> string \<Rightarrow> string \<Rightarrow> json option \<Rightarrow> bool \<Rightarrow> ('w, bao_response) bao" where
  "request lib c method path body authenticated =
     op_bind (\<lambda>s. if authenticated \<and> bao_token s = None then bao_login lib c s else (Inr (), s)) (\<lambda>_.
     op_bind (op_lift (endpoint lib c path)) (\<lambda>url s.
       send_request lib \<lparr> rq_method = method, rq_url = url,
         rq_token = (if authenticated then bao_token s else None), rq_body = body \<rparr> s))"

definition bao_renew :: "'w bao_lib \<Rightarrow> bao_client \<Rightarrow> ('w, unit) bao" where
  "bao_renew lib c =
     op_bind (request lib c ''POST'' ''auth/token/renew-self'' (Some (JObject [])) True) (\<lambda>response s.
       if is_success (bs_status response) then (Inr (), s) else bao_login lib c (s\<lparr> bao_token := None \<rparr>))"

section \<open>The KV operations\<close>

definition data_path :: "bao_client \<Rightarrow> string \<Rightarrow> string" where
  "data_path c path = bc_mount c @ ''/data/'' @ path"

definition read_response :: "bao_response \<Rightarrow> versioned option adapter_result" where
  "read_response response =
     (if bs_status response = 404 then Inr None
      else if \<not> is_success (bs_status response) then Inl (OpenBaoStatus (bs_status response))
      else (case or_error HttpFailure (bs_json response) of
              Inl e \<Rightarrow> Inl e
            | Inr value \<Rightarrow>
                (case json_pointer [''data'', ''data''] value of
                   None \<Rightarrow> Inl (Configuration ''OpenBao KV response had no data'')
                 | Some data \<Rightarrow>
                     Inr (Some \<lparr> vd_value = data,
                       vd_version = (case Option.bind (json_pointer [''data'', ''metadata'', ''version''] value) json_as_u64 of
                                       None \<Rightarrow> 0 | Some v \<Rightarrow> v) \<rparr>))))"

definition bao_read :: "'w bao_lib \<Rightarrow> bao_client \<Rightarrow> string \<Rightarrow> ('w, versioned option) bao" where
  "bao_read lib c path =
     op_bind (request lib c ''GET'' (data_path c path) None True) (\<lambda>response. op_lift (read_response response))"

fun json_as_array :: "json \<Rightarrow> json list option" where
  "json_as_array (JArray xs) = Some xs"
| "json_as_array _ = None"

definition list_response :: "bao_response \<Rightarrow> string list adapter_result" where
  "list_response response =
     (if bs_status response = 404 then Inr []
      else if \<not> is_success (bs_status response) then Inl (OpenBaoStatus (bs_status response))
      else (case or_error HttpFailure (bs_json response) of
              Inl e \<Rightarrow> Inl e
            | Inr value \<Rightarrow>
                (case Option.bind (json_pointer [''data'', ''keys''] value) json_as_array of
                   None \<Rightarrow> Inl (Configuration ''OpenBao list response had no keys'')
                 | Some items \<Rightarrow>
                     ok_or_else (Configuration ''OpenBao list response had a non-string key'') (those (map json_as_str items)))))"

definition bao_list :: "'w bao_lib \<Rightarrow> bao_client \<Rightarrow> string \<Rightarrow> ('w, string list) bao" where
  "bao_list lib c path =
     op_bind (request lib c ''LIST'' (bc_mount c @ ''/metadata/'' @ path) None True) (\<lambda>response. op_lift (list_response response))"

definition write_payload :: "json \<Rightarrow> nat option \<Rightarrow> json" where
  "write_payload data cas =
     JObject ((''data'', data) #
       (case cas of None \<Rightarrow> [] | Some v \<Rightarrow> [(''options'', JObject [(''cas'', JNumber (PosInt v))])]))"

definition bao_write :: "'w bao_lib \<Rightarrow> bao_client \<Rightarrow> string \<Rightarrow> json \<Rightarrow> nat option \<Rightarrow> ('w, bool) bao" where
  "bao_write lib c path data cas =
     op_bind (request lib c ''POST'' (data_path c path) (Some (write_payload data cas)) True) (\<lambda>response.
       if bs_status response = 400 \<and> cas \<noteq> None then op_return False
       else if \<not> is_success (bs_status response) then op_fail (OpenBaoStatus (bs_status response))
       else op_return True)"

definition bao_delete :: "'w bao_lib \<Rightarrow> bao_client \<Rightarrow> string \<Rightarrow> ('w, unit) bao" where
  "bao_delete lib c path =
     op_bind (request lib c ''DELETE'' (data_path c path) None True) (\<lambda>response.
       if is_success (bs_status response) \<or> bs_status response = 404 then op_return ()
       else op_fail (OpenBaoStatus (bs_status response)))"

end
