(* ===== verification/OpenBao_Bridge.thy ===== *)
theory OpenBao_Bridge
  imports OpenBao_Client Pattern "HOL-Library.Char_ord" "HOL-Library.List_Lexorder" "HOL-Library.Multiset"
begin

text \<open>
  The queries and stores of \<open>valkyr-openbao-adapter/src/bridge.rs\<close>: where a value of a context is kept (the
  context index, changed by compare-and-set), the query provider, the store writer, the values of a
  namespace for a scheduled sync, and the handler of the server's callbacks. JSON objects are
  ordered by key, as \<open>serde_json\<close> keeps them. The loops over \<open>0..8\<close> count down their remaining tries.
\<close>

definition ends_with :: "string \<Rightarrow> string \<Rightarrow> bool" where
  "ends_with p s \<longleftrightarrow> strip_suffix p s \<noteq> None"

section \<open>JSON objects\<close>

fun object_insert :: "string \<Rightarrow> json \<Rightarrow> (string \<times> json) list \<Rightarrow> (string \<times> json) list" where
  "object_insert k v [] = [(k, v)]"
| "object_insert k v ((k', v') # members) =
     (if k = k' then (k, v) # members
      else if k < k' then (k, v) # (k', v') # members
      else (k', v') # object_insert k v members)"

definition object_remove :: "string \<Rightarrow> (string \<times> json) list \<Rightarrow> (string \<times> json) list" where
  "object_remove k members = filter (\<lambda>(k', _). k' \<noteq> k) members"

fun json_as_object :: "json \<Rightarrow> (string \<times> json) list option" where
  "json_as_object (JObject members) = Some members"
| "json_as_object _ = None"

text \<open>Replacing a member of an object through \<open>get_mut\<close> or \<open>IndexMut\<close>.\<close>

fun json_put :: "string \<Rightarrow> json \<Rightarrow> json \<Rightarrow> json" where
  "json_put k v (JObject members) = JObject (object_insert k v members)"
| "json_put k v value = value"

section \<open>Where a value is kept\<close>

definition index_contexts :: "json \<Rightarrow> (string \<times> json) list option" where
  "index_contexts data = Option.bind (json_get ''contexts'' data) json_as_object"

definition index_collection :: "string \<Rightarrow> json \<Rightarrow> string option" where
  "index_collection context' data =
     Option.bind (Option.bind (json_get ''contexts'' data) (json_get context')) json_as_str"

definition located_path :: "'w bao_lib \<Rightarrow> bao_mapping \<Rightarrow> namespace_context \<Rightarrow> key \<Rightarrow> string option \<Rightarrow> string adapter_result" where
  "located_path lib m n k collection = map_sum id location_path (locate (sha256 lib) m n k collection)"

definition resolve_path_optional ::
    "'w bao_lib \<Rightarrow> bao_client \<Rightarrow> bao_mapping \<Rightarrow> namespace_context \<Rightarrow> key \<Rightarrow> ('w, string option) bao" where
  "resolve_path_optional lib c m n k =
     (case ctx n of
        None \<Rightarrow> op_lift (map_sum id Some (located_path lib m n k None))
      | Some context' \<Rightarrow>
          op_bind (bao_read lib c (index_path m (ns n))) (\<lambda>index.
            case index of
              None \<Rightarrow> op_return None
            | Some i \<Rightarrow>
                (case index_collection context' (vd_value i) of
                   None \<Rightarrow> op_return None
                 | Some collection \<Rightarrow> op_lift (map_sum id Some (located_path lib m n k (Some collection))))))"

definition resolve_path ::
    "'w bao_lib \<Rightarrow> bao_client \<Rightarrow> bao_mapping \<Rightarrow> namespace_context \<Rightarrow> key \<Rightarrow> ('w, string) bao" where
  "resolve_path lib c m n k =
     op_bind (resolve_path_optional lib c m n k)
       (\<lambda>path. op_lift (ok_or_else (Configuration ''missing context collection'') path))"

text \<open>The entry of a context, created with a new identifier when there is none.\<close>

definition collection_entry ::
    "'w bao_lib \<Rightarrow> string \<Rightarrow> (string \<times> json) list \<Rightarrow> ('w, json \<times> (string \<times> json) list) bao" where
  "collection_entry lib context' contexts s =
     (case map_of contexts context' of
        Some value \<Rightarrow> (Inr (value, contexts), s)
      | None \<Rightarrow>
          (case draw_uuid lib s of (u, s1) \<Rightarrow>
             (Inr (JString (uuid_text lib u), object_insert context' (JString (uuid_text lib u)) contexts), s1)))"

definition index_or_empty :: "versioned option \<Rightarrow> json \<times> nat" where
  "index_or_empty current =
     (case current of
        Some index \<Rightarrow> (vd_value index, vd_version index)
      | None \<Rightarrow> (JObject [(''contexts'', JObject [])], 0))"

primrec ensure_tries ::
    "nat \<Rightarrow> 'w bao_lib \<Rightarrow> bao_client \<Rightarrow> bao_mapping \<Rightarrow> namespace_context \<Rightarrow> string \<Rightarrow> key \<Rightarrow> ('w, string) bao" where
  "ensure_tries 0 lib c m n context' k = op_fail (Configuration ''OpenBao context index update conflicted repeatedly'')"
| "ensure_tries (Suc tries) lib c m n context' k =
     op_bind (bao_read lib c (index_path m (ns n))) (\<lambda>current.
       case index_or_empty current of (data, version) \<Rightarrow>
       op_bind (op_lift (ok_or_else (Configuration ''OpenBao index was malformed'') (index_contexts data))) (\<lambda>contexts.
       op_bind (collection_entry lib context' contexts) (\<lambda>(value, contexts').
       op_bind (op_lift (ok_or_else (Configuration ''OpenBao index contained a non-string collection id'') (json_as_str value)))
         (\<lambda>collection.
       op_bind (bao_write lib c (index_path m (ns n)) (json_put ''contexts'' (JObject contexts') data) (Some version)) (\<lambda>written.
         if written then op_lift (located_path lib m n k (Some collection))
         else ensure_tries tries lib c m n context' k)))))"

definition ensure_path ::
    "'w bao_lib \<Rightarrow> bao_client \<Rightarrow> bao_mapping \<Rightarrow> namespace_context \<Rightarrow> key \<Rightarrow> ('w, string) bao" where
  "ensure_path lib c m n k =
     (case ctx n of
        None \<Rightarrow> op_lift (located_path lib m n k None)
      | Some context' \<Rightarrow>
          op_bind (resolve_path_optional lib c m n k) (\<lambda>path.
            case path of
              Some p \<Rightarrow> op_return p
            | None \<Rightarrow> ensure_tries 8 lib c m n context' k))"

primrec move_tries ::
    "nat \<Rightarrow> 'w bao_lib \<Rightarrow> bao_client \<Rightarrow> string \<Rightarrow> string \<Rightarrow> string \<Rightarrow> ('w, unit) bao" where
  "move_tries 0 lib c path src dst = op_fail (Configuration ''OpenBao index update conflicted repeatedly'')"
| "move_tries (Suc tries) lib c path src dst =
     op_bind (bao_read lib c path) (\<lambda>index.
       case index of
         None \<Rightarrow> op_return ()
       | Some i \<Rightarrow>
           op_bind (op_lift (ok_or_else (Configuration ''OpenBao index was malformed'') (index_contexts (vd_value i)))) (\<lambda>contexts.
             case map_of contexts src of
               None \<Rightarrow> op_return ()
             | Some collection \<Rightarrow>
                 if map_of (object_remove src contexts) dst \<noteq> None then op_fail NamespaceExistsError
                 else
                   op_bind (bao_write lib c path
                     (json_put ''contexts'' (JObject (object_insert dst collection (object_remove src contexts))) (vd_value i))
                     (Some (vd_version i))) (\<lambda>written.
                     if written then op_return () else move_tries tries lib c path src dst)))"

definition move_context ::
    "'w bao_lib \<Rightarrow> bao_client \<Rightarrow> bao_mapping \<Rightarrow> namespace_context \<Rightarrow> namespace_context \<Rightarrow> ('w, unit) bao" where
  "move_context lib c m src dst =
     (case (ctx src, ctx dst) of
        (Some s, Some d) \<Rightarrow> move_tries 8 lib c (index_path m (ns src)) s d
      | _ \<Rightarrow> op_fail (AdapterPanic ''validated''))"

section \<open>The query provider\<close>

record on_missing =
  generate_key :: bool
  record_created :: bool

record query_config =
  qc_namespace_pattern :: string
  qc_key_pattern :: string
  qc_on_missing :: on_missing
  qc_provider_wait_timeout :: "duration option"
  qc_miss_cache_ttl :: "duration option"

definition bao_provider_matches :: "query_config \<Rightarrow> namespace_context \<Rightarrow> key \<Rightarrow> bool" where
  "bao_provider_matches qc n k \<longleftrightarrow>
     pattern_matches (Pattern_new (qc_namespace_pattern qc)) (as_str n) \<noteq> None
     \<and> pattern_matches (Pattern_new (qc_key_pattern qc)) (key_str k) \<noteq> None"

definition generated_record :: "'w bao_lib \<Rightarrow> query_config \<Rightarrow> ('w, json) bao" where
  "generated_record lib qc s =
     (case draw_uuid lib s of (u, s1) \<Rightarrow>
      case draw_uuid lib s1 of (v, s2) \<Rightarrow>
        let record' = JObject [(''key'', JString (uuid_simple lib u @ uuid_simple lib v))] in
        if record_created (qc_on_missing qc)
        then (case unix_seconds lib s2 of
                Inl e \<Rightarrow> (Inl (Configuration e), s2)
              | Inr seconds \<Rightarrow> (Inr (json_put ''created'' (JNumber (PosInt seconds)) record'), s2))
        else (Inr record', s2))"

definition create_missing ::
    "'w bao_lib \<Rightarrow> bao_client \<Rightarrow> query_config \<Rightarrow> string \<Rightarrow> namespace_context \<Rightarrow> key \<Rightarrow> ('w, versioned) bao" where
  "create_missing lib c qc path n k =
     op_bind (generated_record lib qc) (\<lambda>record'.
     op_bind (bao_write lib c path
       (if is_auth_namespace n then encode_auth_document k record' None else JObject [(''value'', record')]) (Some 0)) (\<lambda>created.
     op_bind (bao_read lib c path) (\<lambda>data.
       op_lift (ok_or_else
         (if created then AdapterPanic ''created OpenBao document''
          else Configuration ''OpenBao security-key creation raced with deletion'') data))))"

definition value_document :: "json \<Rightarrow> (json \<times> duration option) adapter_result" where
  "value_document data =
     (case json_get ''value'' data of
        None \<Rightarrow> Inl (Configuration ''OpenBao value document had no value'')
      | Some value \<Rightarrow> Inr (value, map_option from_secs (Option.bind (json_get ''ttl_seconds'' data) json_as_u64)))"

definition document_value :: "namespace_context \<Rightarrow> key \<Rightarrow> json \<Rightarrow> (json \<times> duration option) adapter_result" where
  "document_value n k data =
     (if is_auth_namespace n
      then (case decode_auth_document data of
              Inl e \<Rightarrow> Inl e
            | Inr d \<Rightarrow>
                if ad_key d \<noteq> key_str k then Inl (Configuration ''OpenBao auth document key did not match requested key'')
                else Inr (ad_value d, ad_ttl d))
      else value_document data)"

definition provider_query ::
    "'w bao_lib \<Rightarrow> bao_client \<Rightarrow> bao_mapping \<Rightarrow> query_config \<Rightarrow> namespace_context \<Rightarrow> key \<Rightarrow> ('w, bao_value option) bao" where
  "provider_query lib c m qc n k =
     op_bind (resolve_path lib c m n k) (\<lambda>path.
     op_bind (bao_read lib c path) (\<lambda>data.
     op_bind (case data of
                Some d \<Rightarrow> op_return (Some d)
              | None \<Rightarrow>
                  if generate_key (qc_on_missing qc)
                  then op_bind (create_missing lib c qc path n k) (\<lambda>d. op_return (Some d))
                  else op_return None) (\<lambda>data.
       case data of
         None \<Rightarrow> op_return None
       | Some d \<Rightarrow>
           op_bind (op_lift (document_value n k (vd_value d))) (\<lambda>(value, ttl).
             op_return (Some \<lparr> bv_namespace = n, bv_key = k, bv_value = value, bv_ttl = ttl \<rparr>)))))"

section \<open>The store writer\<close>

record store_config =
  sc_namespace_pattern :: string
  sc_key_pattern :: string
  sc_allow_context_move :: bool

definition writer_matches :: "store_config \<Rightarrow> namespace_context \<Rightarrow> key_pattern option \<Rightarrow> bool" where
  "writer_matches sc n k \<longleftrightarrow>
     pattern_matches (Pattern_new (sc_namespace_pattern sc)) (as_str n) \<noteq> None
     \<and> (case k of None \<Rightarrow> True | Some p \<Rightarrow> pattern_matches (Pattern_new (sc_key_pattern sc)) (kp_str p) \<noteq> None)"

definition set_document :: "bao_value \<Rightarrow> json" where
  "set_document v =
     (if is_auth_namespace (bv_namespace v) then encode_auth_document (bv_key v) (bv_value v) (bv_ttl v)
      else JObject [(''ttl_seconds'', ttl_json (bv_ttl v)), (''value'', bv_value v)])"

definition writer_set :: "'w bao_lib \<Rightarrow> bao_client \<Rightarrow> bao_mapping \<Rightarrow> bao_value \<Rightarrow> ('w, unit) bao" where
  "writer_set lib c m v =
     op_bind (ensure_path lib c m (bv_namespace v) (bv_key v)) (\<lambda>path.
     op_bind (bao_write lib c path (set_document v) None) (\<lambda>_. op_return ()))"

definition writer_delete ::
    "'w bao_lib \<Rightarrow> bao_client \<Rightarrow> bao_mapping \<Rightarrow> namespace_context \<Rightarrow> key_pattern option \<Rightarrow> ('w, unit) bao" where
  "writer_delete lib c m n pattern' =
     op_bind (op_lift (ok_or_else (Unsupported ''namespace delete'') pattern')) (\<lambda>p.
       if ends_with ''*'' (kp_str p) then op_fail (Unsupported ''wildcard delete'')
       else
         op_bind (op_lift (or_error RouteError (Key_new (kp_str p)))) (\<lambda>k.
         op_bind (resolve_path_optional lib c m n k) (\<lambda>path.
           case path of None \<Rightarrow> op_return () | Some p \<Rightarrow> bao_delete lib c p)))"

definition writer_move ::
    "'w bao_lib \<Rightarrow> bao_client \<Rightarrow> bao_mapping \<Rightarrow> store_config \<Rightarrow> namespace_context \<Rightarrow> namespace_context \<Rightarrow> ('w, unit) bao" where
  "writer_move lib c m sc src dst =
     (if \<not> sc_allow_context_move sc then op_fail (Unsupported ''context move'')
      else op_bind (op_lift (or_error RouteError (validate_context_move src dst))) (\<lambda>_. move_context lib c m src dst))"

section \<open>The values of a namespace\<close>

primrec fetch_keys ::
    "'w bao_lib \<Rightarrow> bao_client \<Rightarrow> namespace_context \<Rightarrow> string \<Rightarrow> string list \<Rightarrow> ('w, bao_value list) bao" where
  "fetch_keys lib c n collection [] = op_return []"
| "fetch_keys lib c n collection (encoded # rest) =
     (if ends_with ''/'' encoded then op_fail (Configuration ''OpenBao provider path must contain only keys'')
      else
        op_bind (op_lift (bao_decode (utf8_error lib) encoded)) (\<lambda>decoded.
        op_bind (op_lift (or_error RouteError (Key_new decoded))) (\<lambda>k.
        op_bind (bao_read lib c (collection @ ''/'' @ encoded)) (\<lambda>record'.
          case record' of
            None \<Rightarrow> fetch_keys lib c n collection rest
          | Some r \<Rightarrow>
              op_bind (op_lift (value_document (vd_value r))) (\<lambda>(value, ttl).
              op_bind (fetch_keys lib c n collection rest) (\<lambda>values.
                op_return (\<lparr> bv_namespace = n, bv_key = k, bv_value = value, bv_ttl = ttl \<rparr> # values)))))))"

type_synonym pending_listing = "string \<times> nat \<times> string list"

text \<open>One pass over the children of a collection; the stack of collections has its top first.\<close>

primrec scan_children ::
    "string \<Rightarrow> nat \<Rightarrow> string list \<Rightarrow> string list \<Rightarrow> pending_listing list \<times> (string \<times> string list) list
     \<Rightarrow> (pending_listing list \<times> (string \<times> string list) list) adapter_result" where
  "scan_children current depth parts [] acc = Inr acc"
| "scan_children current depth parts (child # rest) acc =
     (let is_collection = ends_with ''/'' child;
          segment = (case strip_suffix ''/'' child of Some s \<Rightarrow> s | None \<Rightarrow> child) in
      if length segment \<noteq> 16 \<or> \<not> list_all (\<lambda>b. is_ascii_digit b \<or> byte_in 0x61 0x66 b) segment
      then Inl (Configuration ''OpenBao auth provider path had an invalid digest segment'')
      else if depth < 3
      then (if \<not> is_collection
            then Inl (Configuration ''OpenBao auth provider path ended before four digest segments'')
            else scan_children current depth parts rest
              ((current @ ''/'' @ segment, depth + 1, parts @ [segment]) # fst acc, snd acc))
      else if depth = 3
      then (if is_collection
            then Inl (Configuration ''OpenBao auth provider path had more than four digest segments'')
            else scan_children current depth parts rest
              (fst acc, snd acc @ [(current @ ''/'' @ segment, parts @ [segment])]))
      else scan_children current depth parts rest acc)"

lemma scan_children_pending:
  "scan_children current depth parts children (pending, paths) = Inr (pending', paths')
   \<Longrightarrow> \<exists>new. pending' = new @ pending \<and> (\<forall>(q, d, ps) \<in> set new. depth < 3 \<and> d = depth + 1)"
proof (induction children arbitrary: pending paths)
  case (Cons child rest)
  then show ?case
    by (fastforce simp: Let_def split: if_splits option.splits dest!: Cons.IH)
qed simp

text \<open>
  A popped collection is replaced by finitely many collections that are one level deeper, and none is
  pushed below the fourth level: the multiset of the levels that remain decreases.
\<close>

function list_auth_paths ::
    "'w bao_lib \<Rightarrow> bao_client \<Rightarrow> pending_listing list \<Rightarrow> (string \<times> string list) list
     \<Rightarrow> ('w, (string \<times> string list) list) bao" where
  "list_auth_paths lib c [] paths s = (Inr paths, s)"
| "list_auth_paths lib c ((current, depth, parts) # pending) paths s =
     (case bao_list lib c current s of
        (Inl e, s1) \<Rightarrow> (Inl e, s1)
      | (Inr children, s1) \<Rightarrow>
          (case scan_children current depth parts (rev (sort children)) (pending, paths) of
             Inl e \<Rightarrow> (Inl e, s1)
           | Inr (pending', paths') \<Rightarrow> list_auth_paths lib c pending' paths' s1))"
  by pat_completeness auto
termination
proof (relation "inv_image (mult less_than) (\<lambda>(lib, c, pending, paths, s). mset (map (\<lambda>(q, d, ps). 4 - d) pending))", goal_cases)
  case 1
  show ?case by (rule wf_inv_image) (rule wf_mult[OF wf_less_than])
next
  case (2 lib c current depth parts pending paths s r s1 children x pending' paths')
  then obtain new where "pending' = new @ pending" "\<forall>(q, d, ps) \<in> set new. depth < 3 \<and> d = depth + 1"
    using scan_children_pending by blast
  moreover from this have "(mset (map f pending) + mset (map f new), mset (map f pending) + {#4 - depth#}) \<in> mult less_than"
    if "f = (\<lambda>(q, d, ps). 4 - d)" for f :: "pending_listing \<Rightarrow> nat"
    using that by (intro one_step_implies_mult) auto
  ultimately show ?case by (simp add: ac_simps)
qed

primrec fetch_auth_documents ::
    "'w bao_lib \<Rightarrow> bao_client \<Rightarrow> namespace_context \<Rightarrow> (string \<times> string list) list \<Rightarrow> ('w, bao_value list) bao" where
  "fetch_auth_documents lib c n [] = op_return []"
| "fetch_auth_documents lib c n (entry # rest) =
     op_bind (bao_read lib c (fst entry)) (\<lambda>record'.
       case record' of
         None \<Rightarrow> fetch_auth_documents lib c n rest
       | Some r \<Rightarrow>
           op_bind (op_lift (decode_auth_document (vd_value r))) (\<lambda>document.
           op_bind (op_lift (or_error RouteError (Key_new (ad_key document)))) (\<lambda>k.
             if auth_key_parts (sha256 lib) k \<noteq> snd entry
             then op_fail (Configuration ''OpenBao auth path digest did not match document key'')
             else
               op_bind (fetch_auth_documents lib c n rest) (\<lambda>values.
                 op_return (\<lparr> bv_namespace = n, bv_key = k, bv_value = ad_value document, bv_ttl = ad_ttl document \<rparr> # values)))))"

definition fetch_auth_provider_values ::
    "'w bao_lib \<Rightarrow> bao_client \<Rightarrow> namespace_context \<Rightarrow> string \<Rightarrow> ('w, bao_value list) bao" where
  "fetch_auth_provider_values lib c n collection =
     op_bind (list_auth_paths lib c [(collection, 0, [])] []) (\<lambda>paths.
     op_bind (fetch_auth_documents lib c n paths) (\<lambda>values.
       op_return (sort_key (\<lambda>v. key_str (bv_key v)) values)))"

definition fetch_collection ::
    "'w bao_lib \<Rightarrow> bao_client \<Rightarrow> namespace_context \<Rightarrow> string \<Rightarrow> ('w, bao_value list) bao" where
  "fetch_collection lib c n collection =
     (if is_auth_namespace n then fetch_auth_provider_values lib c n collection
      else op_bind (bao_list lib c collection) (\<lambda>keys. fetch_keys lib c n collection (sort keys)))"

definition fetch_provider_values ::
    "'w bao_lib \<Rightarrow> bao_client \<Rightarrow> bao_mapping \<Rightarrow> namespace_context \<Rightarrow> ('w, bao_value list) bao" where
  "fetch_provider_values lib c m n =
     (case ctx n of
        None \<Rightarrow> fetch_collection lib c n (root_collection_path m n)
      | Some context' \<Rightarrow>
          op_bind (bao_read lib c (index_path m (ns n))) (\<lambda>index.
            case Option.bind index (\<lambda>i. index_collection context' (vd_value i)) of
              None \<Rightarrow> op_return []
            | Some collection \<Rightarrow> fetch_collection lib c n (context_collection_path m (ns n) collection)))"

section \<open>Callbacks\<close>

text \<open>The trait objects of \<open>traits.rs\<close> as tables of functions.\<close>

record 'w query_provider =
  qp_matches :: "namespace_context \<Rightarrow> key \<Rightarrow> bool"
  qp_query :: "namespace_context \<Rightarrow> key \<Rightarrow> ('w, bao_value option) bao"

record 'w storage_writer =
  sw_matches :: "namespace_context \<Rightarrow> key_pattern option \<Rightarrow> bool"
  sw_set :: "bao_value \<Rightarrow> ('w, unit) bao"
  sw_delete :: "namespace_context \<Rightarrow> key_pattern option \<Rightarrow> ('w, unit) bao"
  sw_move :: "namespace_context \<Rightarrow> namespace_context \<Rightarrow> ('w, unit) bao"

definition OpenBaoQueryProvider :: "'w bao_lib \<Rightarrow> bao_client \<Rightarrow> bao_mapping \<Rightarrow> query_config \<Rightarrow> 'w query_provider" where
  "OpenBaoQueryProvider lib c m qc = \<lparr> qp_matches = bao_provider_matches qc, qp_query = provider_query lib c m qc \<rparr>"

definition OpenBaoStoreWriter :: "'w bao_lib \<Rightarrow> bao_client \<Rightarrow> bao_mapping \<Rightarrow> store_config \<Rightarrow> 'w storage_writer" where
  "OpenBaoStoreWriter lib c m sc =
     \<lparr> sw_matches = writer_matches sc, sw_set = writer_set lib c m, sw_delete = writer_delete lib c m,
       sw_move = writer_move lib c m sc \<rparr>"

record 'w callback_bridge =
  cb_queries :: "'w query_provider list"
  cb_stores :: "'w storage_writer list"

definition forward :: "'w bao_lib \<Rightarrow> nat \<Rightarrow> nat \<Rightarrow> forwarded_mutation \<Rightarrow> 'w bao_state \<Rightarrow> 'w bao_state" where
  "forward lib endpoints source_endpoint mutation =
     fold (\<lambda>i. if i = source_endpoint then id else forward_task lib i mutation) [0..<endpoints]"

definition and_forward ::
    "'w bao_lib \<Rightarrow> nat \<Rightarrow> nat \<Rightarrow> forwarded_mutation \<Rightarrow> ('w, unit) bao \<Rightarrow> ('w, unit) bao" where
  "and_forward lib endpoints source_endpoint mutation m = op_bind m (\<lambda>_ s. (Inr (), forward lib endpoints source_endpoint mutation s))"

definition ForwardingStorageWriter :: "'w bao_lib \<Rightarrow> nat \<Rightarrow> nat \<Rightarrow> 'w storage_writer \<Rightarrow> 'w storage_writer" where
  "ForwardingStorageWriter lib endpoints source_endpoint store =
     \<lparr> sw_matches = sw_matches store,
       sw_set = (\<lambda>v. and_forward lib endpoints source_endpoint (ForwardSet v) (sw_set store v)),
       sw_delete = (\<lambda>n p. and_forward lib endpoints source_endpoint (ForwardDelete n p) (sw_delete store n p)),
       sw_move = (\<lambda>src dst. and_forward lib endpoints source_endpoint (ForwardMove src dst) (sw_move store src dst)) \<rparr>"

definition with_forwarding :: "'w bao_lib \<Rightarrow> nat \<Rightarrow> nat \<Rightarrow> 'w callback_bridge \<Rightarrow> 'w callback_bridge" where
  "with_forwarding lib endpoints source_endpoint b =
     b\<lparr> cb_stores := map (ForwardingStorageWriter lib endpoints source_endpoint) (cb_stores b) \<rparr>"

definition bridge_store :: "'w callback_bridge \<Rightarrow> namespace_context \<Rightarrow> key_pattern option \<Rightarrow> 'w storage_writer option" where
  "bridge_store b n k = find (\<lambda>store. sw_matches store n k) (rev (cb_stores b))"

text \<open>An error becomes part of the answer; a panic ends the task, and there is no answer.\<close>

definition settle :: "(adapter_error + 'a \<Rightarrow> server_result) \<Rightarrow> ('w, 'a) bao \<Rightarrow> ('w, server_result) bao" where
  "settle answer m s =
     (case m s of
        (Inl (AdapterPanic t), s') \<Rightarrow> (Inl (AdapterPanic t), s')
      | (r, s') \<Rightarrow> (Inr (answer r), s'))"

definition operation_answer :: "'w bao_lib \<Rightarrow> uuid \<Rightarrow> adapter_error + unit \<Rightarrow> server_result" where
  "operation_answer lib i r =
     Operation i (case r of Inl e \<Rightarrow> Some (adapter_error_display (status_text lib) e) | Inr _ \<Rightarrow> None)"

definition query_answer :: "'w bao_lib \<Rightarrow> uuid \<Rightarrow> adapter_error + bao_value option \<Rightarrow> server_result" where
  "query_answer lib i r =
     (case r of
        Inr (Some v) \<Rightarrow> QueryResult i (Some (bv_value v)) None (map_option as_secs (bv_ttl v))
      | Inr None \<Rightarrow> QueryResult i None None None
      | Inl e \<Rightarrow> QueryResult i None (Some (adapter_error_display (status_text lib) e)) None)"

definition with_store :: "'w storage_writer option \<Rightarrow> ('w storage_writer \<Rightarrow> ('w, unit) bao) \<Rightarrow> ('w, unit) bao" where
  "with_store store f = (case store of Some w \<Rightarrow> f w | None \<Rightarrow> op_fail (Unsupported ''no matching store''))"

fun bridge_handle :: "'w bao_lib \<Rightarrow> 'w callback_bridge \<Rightarrow> server_command \<Rightarrow> ('w, server_result) bao" where
  "bridge_handle lib b (Query i n k) =
     settle (query_answer lib i)
       (case find (\<lambda>q. qp_matches q n k) (cb_queries b) of
          Some q \<Rightarrow> qp_query q n k
        | None \<Rightarrow> op_return None)"
| "bridge_handle lib b (PersistSet i n k value ttl) =
     settle (operation_answer lib i)
       (with_store (bridge_store b n (case KeyPattern_new (key_str k) of Inr p \<Rightarrow> Some p | Inl _ \<Rightarrow> None)) (\<lambda>w.
          sw_set w \<lparr> bv_namespace = n, bv_key = k, bv_value = value, bv_ttl = map_option from_secs ttl \<rparr>))"
| "bridge_handle lib b (PersistDelete i n p) =
     settle (operation_answer lib i) (with_store (bridge_store b n p) (\<lambda>w. sw_delete w n p))"
| "bridge_handle lib b (PersistMove i src dst) =
     settle (operation_answer lib i) (with_store (bridge_store b src None) (\<lambda>w. sw_move w src dst))"
| "bridge_handle lib b (PersistSetBatch i n entries ttl) =
     settle (operation_answer lib i) (op_fail (Unsupported ''batch persistence''))"

end
