(* ===== verification/OpenBao_Kv.thy ===== *)
theory OpenBao_Kv
  imports OpenBao_Bridge
begin

text \<open>
  What the adapter relies on of the KV v2 engine, as the locale \<open>kv_server\<close>, and what the operations of
  the client then do to the secrets. A secret is the list of its versions, each with its data unless it was
  deleted. As the engine documents, a write adds a version, a deletion marks the latest one and keeps its
  number, and a write with \<open>cas\<close> is refused unless it names the latest version (0 for a secret that was
  never written). \<open>others\<close> is the relation
  of what the other clients of the server may do while a request is under way: any reflexive and transitive relation, so also
  writes, deletions and the erasure of a secret with its metadata, after which its versions start again.
\<close>

type_synonym secret = "json option list"
type_synonym secrets = "string \<Rightarrow> secret"

definition current :: "secret \<Rightarrow> json option" where
  "current versions = (if versions = [] then None else last versions)"

lemma current_simps [simp]: "current [] = None" "current (versions @ [d]) = d"
  by (simp_all add: current_def)

definition cas_of :: "json \<Rightarrow> nat option" where
  "cas_of body = Option.bind (json_pointer [''options'', ''cas''] body) json_as_u64"

text \<open>The secrets after a request was carried out; nothing when it is refused.\<close>

definition kv_write :: "string \<Rightarrow> json \<Rightarrow> nat option \<Rightarrow> secrets \<Rightarrow> secrets option" where
  "kv_write url data cas m =
     (if cas \<in> {None, Some (length (m url))} then Some (m(url := m url @ [Some data])) else None)"

definition kv_delete :: "string \<Rightarrow> secrets \<Rightarrow> secrets" where
  "kv_delete url m = (if m url = [] then m else m(url := butlast (m url) @ [None]))"

definition kv_apply :: "bao_request \<Rightarrow> secrets \<Rightarrow> secrets option" where
  "kv_apply rq m =
     (if rq_method rq = ''POST''
      then (case Option.bind (rq_body rq) (json_get ''data'') of
              None \<Rightarrow> Some m
            | Some data \<Rightarrow> kv_write (rq_url rq) data (Option.bind (rq_body rq) cas_of) m)
      else if rq_method rq = ''DELETE'' then Some (kv_delete (rq_url rq) m)
      else Some m)"

definition kv_document :: "secret \<Rightarrow> bao_response \<Rightarrow> bool" where
  "kv_document secret response \<longleftrightarrow>
     (case (bs_json response, current secret) of
        (Inr body, Some data) \<Rightarrow>
          json_pointer [''data'', ''data''] body = Some data
          \<and> json_pointer [''data'', ''metadata'', ''version''] body = Some (JNumber (PosInt (length secret)))
      | _ \<Rightarrow> False)"

definition kv_replied :: "bao_request \<Rightarrow> secrets \<Rightarrow> secrets \<Rightarrow> bao_response \<Rightarrow> bool" where
  "kv_replied rq m m' response \<longleftrightarrow>
     (is_success (bs_status response) \<longrightarrow> kv_apply rq m = Some m')
     \<and> (bs_status response \<in> {400, 404} \<longrightarrow> m' = m)
     \<and> (rq_method rq = ''GET'' \<longrightarrow>
          (bs_status response = 404 \<longrightarrow> current (m (rq_url rq)) = None)
          \<and> (is_success (bs_status response) \<longrightarrow> kv_document (m (rq_url rq)) response))"

text \<open>Whose token a request carries does not matter once it is carried out.\<close>

definition plain_request :: "string \<Rightarrow> string \<Rightarrow> json option \<Rightarrow> bao_request" where
  "plain_request method url body = \<lparr> rq_method = method, rq_url = url, rq_token = None, rq_body = body \<rparr>"

lemma ignores_token:
  "kv_apply \<lparr> rq_method = method, rq_url = url, rq_token = t, rq_body = body \<rparr> = kv_apply (plain_request method url body)"
  "kv_replied \<lparr> rq_method = method, rq_url = url, rq_token = t, rq_body = body \<rparr> = kv_replied (plain_request method url body)"
proof -
  show applied: "kv_apply \<lparr> rq_method = method, rq_url = url, rq_token = t, rq_body = body \<rparr> = kv_apply (plain_request method url body)"
    by (simp add: kv_apply_def plain_request_def fun_eq_iff cong: option.case_cong)
  show "kv_replied \<lparr> rq_method = method, rq_url = url, rq_token = t, rq_body = body \<rparr> = kv_replied (plain_request method url body)"
    by (simp only: kv_replied_def fun_eq_iff applied) (simp add: plain_request_def)
qed

lemma kv_apply_write: "kv_apply (plain_request ''POST'' url (Some (write_payload data cas))) = kv_write url data cas"
  by (cases cas) (auto simp: fun_eq_iff kv_apply_def plain_request_def write_payload_def cas_of_def json_pointer_def)

lemma read_replied:
  assumes "kv_replied (plain_request ''GET'' url None) m m' response" and "read_response response = Inr v"
  shows "case v of None \<Rightarrow> current (m url) = None | Some d \<Rightarrow> length (m url) = vd_version d \<and> current (m url) = Some (vd_value d)"
proof -
  have doc: "kv_document (m url) response" if "is_success (bs_status response)" "bs_status response \<noteq> 404"
    using assms(1) that by (simp add: kv_replied_def plain_request_def)
  show ?thesis
  proof (cases "bs_status response = 404")
    case True
    then show ?thesis using assms by (auto simp: kv_replied_def plain_request_def read_response_def)
  next
    case False
    with assms(2) have "is_success (bs_status response)" by (auto simp: read_response_def split: if_splits)
    from doc[OF this False] assms(2) this False show ?thesis
      by (cases "current (m url)") (auto simp: read_response_def kv_document_def or_error_def split: sum.splits)
  qed
qed

text \<open>Others act, then the request as \<open>P\<close> says, then others again.\<close>

definition around :: "(secrets \<times> secrets) set \<Rightarrow> secrets \<Rightarrow> (secrets \<Rightarrow> secrets \<Rightarrow> bool) \<Rightarrow> secrets \<Rightarrow> bool" where
  "around others m P m' \<longleftrightarrow> (\<exists>m1 m2. (m, m1) \<in> others \<and> P m1 m2 \<and> (m2, m') \<in> others)"

lemma around_mono: "around others m P m' \<Longrightarrow> (\<And>m1 m2. P m1 m2 \<Longrightarrow> Q m1 m2) \<Longrightarrow> around others m Q m'"
  unfolding around_def by blast

locale kv_server =
  fixes lib :: "'w bao_lib" and docs :: "'w \<Rightarrow> secrets" and others :: "(secrets \<times> secrets) set"
  assumes served: "http_send lib rq s = (r, s') \<Longrightarrow>
      \<exists>m m'. (docs (bao_world s), m) \<in> others \<and> (m', docs (bao_world s')) \<in> others
        \<and> (m' = m \<or> kv_apply rq m = Some m') \<and> (\<forall>response. r = Inr response \<longrightarrow> kv_replied rq m m' response)"
    and drawn: "draw_uuid lib s = (u, s') \<Longrightarrow> (docs (bao_world s), docs (bao_world s')) \<in> others"
    and others_refl: "(m, m) \<in> others"
    and others_trans: "(m, m') \<in> others \<Longrightarrow> (m', m'') \<in> others \<Longrightarrow> (m, m'') \<in> others"
begin

lemma around_before: "(m0, m) \<in> others \<Longrightarrow> around others m P m' \<Longrightarrow> around others m0 P m'"
  unfolding around_def by (meson others_trans)

lemma around_after: "around others m P m' \<Longrightarrow> (m', m'') \<in> others \<Longrightarrow> around others m P m''"
  unfolding around_def by (meson others_trans)

lemma around_idle:
  assumes "around others m P m'" and "\<And>m1 m2. P m1 m2 \<Longrightarrow> m2 = m1"
  shows "(m, m') \<in> others"
  using assms others_trans unfolding around_def by metis

lemma send_law:
  assumes "send_request lib rq s = (r, s')"
  shows "around others (docs (bao_world s)) (\<lambda>m m'. (m' = m \<or> kv_apply rq m = Some m')
    \<and> (\<forall>response. r = Inr response \<longrightarrow> kv_replied rq m m' response)) (docs (bao_world s'))"
proof -
  obtain r' where "http_send lib rq s = (r', s')" and r: "r = or_error HttpFailure r'"
    using assms by (auto simp: send_request_def split: prod.splits)
  from served[OF this(1)] show ?thesis
    unfolding around_def  by (auto simp: r or_error_def split: sum.splits)
qed

lemma login_law:
  assumes "bao_login lib c s = (r, s')"
  shows "(docs (bao_world s), docs (bao_world s')) \<in> others"
proof (cases "endpoint lib c ''auth/approle/login''")
  case (Inr url)
  let ?rq = "\<lparr> rq_method = ''POST'', rq_url = url, rq_token = None,
       rq_body = Some (JObject [(''role_id'', JString (role_id (bc_auth c))), (''secret_id'', JString (secret_id (bc_auth c)))]) \<rparr>"
  obtain r1 s1 where send: "send_request lib ?rq s = (r1, s1)" by fastforce
  have "kv_apply ?rq m = Some m" for m by (simp add: kv_apply_def)
  then have "(docs (bao_world s), docs (bao_world s1)) \<in> others"
    using around_idle[OF send_law[OF send]] by auto
  moreover have "docs (bao_world s') = docs (bao_world s1)"
    using assms Inr send
    by (cases r1) (auto simp: bao_login_def op_bind_def op_lift_def op_fail_def 
        split: prod.splits sum.splits if_splits)
  ultimately show ?thesis by simp
qed (use assms in \<open>auto simp: bao_login_def op_bind_def op_lift_def others_refl\<close>)

lemma request_law:
  assumes "request lib c method path body True s = (r, s')"
  shows "around others (docs (bao_world s)) (\<lambda>m m'.
      (m' = m \<or> (\<exists>url. endpoint lib c path = Inr url \<and> kv_apply (plain_request method url body) m = Some m'))
      \<and> (\<forall>response. r = Inr response \<longrightarrow>
           (\<exists>url. endpoint lib c path = Inr url \<and> kv_replied (plain_request method url body) m m' response)))
    (docs (bao_world s'))"
proof -
  obtain r1 s1 where first: "(if bao_token s = None then bao_login lib c s else (Inr (), s)) = (r1, s1)" by fastforce
  then have before: "(docs (bao_world s), docs (bao_world s1)) \<in> others"
    using login_law[of c s] others_refl by (auto split: if_splits)
  consider e where "r1 = Inl e" | e where "r1 = Inr ()" "endpoint lib c path = Inl e"
    | url where "r1 = Inr ()" "endpoint lib c path = Inr url"
    by (cases r1; cases "endpoint lib c path") auto
  then show ?thesis
  proof cases
    case 3
    have "send_request lib \<lparr> rq_method = method, rq_url = url, rq_token = bao_token s1, rq_body = body \<rparr> s1 = (r, s')"
      using assms first 3 by (simp add: request_def op_bind_def op_lift_def)
    from around_before[OF before send_law[OF this]] show ?thesis
      using 3 by (auto simp: ignores_token elim!: around_mono)
  qed (use assms first before others_refl in \<open>auto simp: request_def op_bind_def op_lift_def around_def\<close>)
qed

lemma read_law:
  assumes "bao_read lib c path s = (r, s')"
  shows "around others (docs (bao_world s)) (\<lambda>m m'. m' = m \<and>
      (\<forall>v. r = Inr v \<longrightarrow> (\<exists>url. endpoint lib c (data_path c path) = Inr url
         \<and> (case v of None \<Rightarrow> current (m url) = None | Some d \<Rightarrow> length (m url) = vd_version d \<and> current (m url) = Some (vd_value d)))))
    (docs (bao_world s'))"
proof -
  obtain r1 where rq: "request lib c ''GET'' (data_path c path) None True s = (r1, s')"
    and r: "r = (case r1 of Inl e \<Rightarrow> Inl e | Inr response \<Rightarrow> read_response response)"
    using assms by (auto simp: bao_read_def op_bind_def op_lift_def split: prod.splits sum.splits)
  have idle: "kv_apply (plain_request ''GET'' url None) m = Some m" for url m
    by (simp add: kv_apply_def plain_request_def)
  show ?thesis
  proof (rule around_mono[OF request_law[OF rq]], intro conjI allI impI, goal_cases)
    case (1 m m')
    then show ?case using idle by auto
  next
    case (2 m m' v)
    then obtain response where "r1 = Inr response" "read_response response = Inr v" using r by (cases r1) auto
    with 2 read_replied show ?case by blast
  qed
qed

lemma write_law:
  assumes "bao_write lib c path data cas s = (r, s')"
  shows "around others (docs (bao_world s)) (\<lambda>m m'.
      (m' = m \<or> (\<exists>url. endpoint lib c (data_path c path) = Inr url \<and> kv_write url data cas m = Some m'))
      \<and> (r = Inr True \<longrightarrow> (\<exists>url. endpoint lib c (data_path c path) = Inr url \<and> kv_write url data cas m = Some m'))
      \<and> (r = Inr False \<longrightarrow> m' = m))
    (docs (bao_world s'))"
proof -
  obtain r1 where rq: "request lib c ''POST'' (data_path c path) (Some (write_payload data cas)) True s = (r1, s')"
    and r: "r = (case r1 of Inl e \<Rightarrow> Inl e | Inr response \<Rightarrow>
        if bs_status response = 400 \<and> cas \<noteq> None then Inr False
        else if \<not> is_success (bs_status response) then Inl (OpenBaoStatus (bs_status response)) else Inr True)"
    using assms by (auto simp: bao_write_def op_bind_def op_return_def op_fail_def split: prod.splits sum.splits if_splits)
  show ?thesis
    by (rule around_mono[OF request_law[OF rq]])
      (auto simp: r kv_replied_def kv_apply_write split: sum.splits if_splits)
qed

end

end
