(* ===== verification/OpenBao_Index.thy ===== *)
theory OpenBao_Index
  imports OpenBao_Kv
begin

text \<open>
  The context index under interference. Several adapters change the index of a namespace at the same
  time, each by reading it and writing it back with compare-and-set. Whatever the others do, an
  adapter writes the index at most once, and what it writes is the change it means to make to the index it read, or to the empty index
  when it read none, with the version it read still being the latest one. As long as nobody erases the metadata of the
  index, so that its version numbers start again, that is the index which the write replaces: no entry of another adapter is lost.
\<close>

section \<open>Objects and indexes\<close>

lemma map_of_object_insert [simp]: "map_of (object_insert k v members) = (map_of members)(k \<mapsto> v)"
  by (induction members) (auto simp: fun_eq_iff)

lemma map_of_object_remove [simp]: "map_of (object_remove k members) = (map_of members)(k := None)"
  by (induction members) (auto simp: object_remove_def fun_eq_iff)

text \<open>The entry of a context in an index document.\<close>

definition index_entry :: "json \<Rightarrow> string \<rightharpoonup> json" where
  "index_entry data x = Option.bind (index_contexts data) (\<lambda>contexts. map_of contexts x)"

text \<open>The same document but for its contexts.\<close>

definition same_rest :: "json \<Rightarrow> json \<Rightarrow> bool" where
  "same_rest data data' \<longleftrightarrow> (\<forall>k. k \<noteq> ''contexts'' \<longrightarrow> json_get k data' = json_get k data)"

lemma index_contexts_put:
  assumes "index_contexts data = Some contexts"
  shows "index_contexts (json_put ''contexts'' (JObject contexts') data) = Some contexts'"
    and "same_rest data (json_put ''contexts'' (JObject contexts') data)"
  using assms by (cases data; simp add: index_contexts_def same_rest_def)+

lemma index_entry_put:
  assumes "index_contexts data = Some contexts"
  shows "index_entry (json_put ''contexts'' (JObject contexts') data) = map_of contexts'"
  using index_contexts_put(1)[OF assms] by (simp add: index_entry_def fun_eq_iff)

definition index_moved :: "string \<Rightarrow> string \<Rightarrow> json \<Rightarrow> json \<Rightarrow> bool" where
  "index_moved src dst data data' \<longleftrightarrow>
     index_entry data src \<noteq> None \<and> (dst \<noteq> src \<longrightarrow> index_entry data dst = None)
     \<and> index_entry data' = (index_entry data)(src := None, dst := index_entry data src) \<and> same_rest data data'"

definition index_added :: "string \<Rightarrow> string \<Rightarrow> json \<Rightarrow> json \<Rightarrow> bool" where
  "index_added context' collection data data' \<longleftrightarrow>
     index_entry data context' \<in> {None, Some (JString collection)}
     \<and> index_entry data' = (index_entry data)(context' \<mapsto> JString collection) \<and> same_rest data data'"

section \<open>One compare-and-set\<close>

definition empty_index :: json where
  "empty_index = JObject [(''contexts'', JObject [])]"

lemma index_or_empty_current:
  assumes "case index of None \<Rightarrow> current secret = None
    | Some d \<Rightarrow> length secret = vd_version d \<and> current secret = Some (vd_value d)"
  shows "index_or_empty index = (case current secret of None \<Rightarrow> (empty_index, 0) | Some data \<Rightarrow> (data, length secret))"
  using assms by (cases index) (auto simp: index_or_empty_def empty_index_def)

text \<open>Nobody else makes two different documents of one version of the secret at \<open>url\<close>.\<close>

definition keeps_versions :: "(secrets \<times> secrets) set \<Rightarrow> string \<Rightarrow> bool" where
  "keeps_versions others url \<longleftrightarrow>
     (\<forall>m m' d d'. (m, m') \<in> others \<longrightarrow> length (m url) = length (m' url) \<longrightarrow> current (m url) = Some d \<longrightarrow> current (m' url) = Some d' \<longrightarrow> d = d')"

text \<open>
  Read, change, compare and set. At the moment \<open>m1\<close> the document at \<open>url\<close> is \<open>data\<close>, or there is none and \<open>data\<close> is the
  empty index; others act; at the moment \<open>m2\<close> the latest version has the number of that document (0 when there was none) and the changed
  document is added to it. If the others keep versions, what is replaced is \<open>data\<close>, unless there is no document then: the secret
  is new, or the document was marked as deleted after it had been read and comes back with the write.
\<close>

definition changed_once ::
    "(secrets \<times> secrets) set \<Rightarrow> string \<Rightarrow> (json \<Rightarrow> json \<Rightarrow> bool) \<Rightarrow> secrets \<Rightarrow> secrets \<Rightarrow> bool" where
  "changed_once others url change m m' \<longleftrightarrow>
     (\<exists>m1 m2 data data'. (m, m1) \<in> others \<and> (m1, m2) \<in> others
        \<and> (data, length (m2 url)) = (case current (m1 url) of None \<Rightarrow> (empty_index, 0) | Some d \<Rightarrow> (d, length (m1 url)))
        \<and> (keeps_versions others url \<longrightarrow> current (m2 url) \<in> {None, Some data})
        \<and> change data data' \<and> (m2(url := m2 url @ [Some data']), m') \<in> others)"

text \<open>
  What a loop of tries did between two moments: nothing or one change; when it reports success, one change
  unless the index had nothing to change (\<open>absent\<close>) at some moment.
\<close>

definition index_done ::
    "(secrets \<times> secrets) set \<Rightarrow> string \<Rightarrow> (json \<Rightarrow> json \<Rightarrow> bool) \<Rightarrow> (json option \<Rightarrow> bool) \<Rightarrow> bool \<Rightarrow> secrets \<Rightarrow> secrets \<Rightarrow> bool" where
  "index_done others url change absent succeeded m m' \<longleftrightarrow>
     changed_once others url change m m'
     \<or> (if succeeded then around others m (\<lambda>m1 m2. m2 = m1 \<and> absent (current (m1 url))) m' else (m, m') \<in> others)"

text \<open>The entry of a context is there afterwards, and a path that is returned is in its collection.\<close>

definition ensured :: "'w bao_lib \<Rightarrow> bao_mapping \<Rightarrow> namespace_context \<Rightarrow> string \<Rightarrow> key \<Rightarrow> adapter_error + string \<Rightarrow> json \<Rightarrow> json \<Rightarrow> bool" where
  "ensured lib m n x k r data data' \<longleftrightarrow>
     (\<exists>collection. index_added x collection data data' \<and> (\<forall>p. r = Inr p \<longrightarrow> located_path lib m n k (Some collection) = Inr p))"

context kv_server
begin

lemma changed_once_before:
  "(m0, m) \<in> others \<Longrightarrow> changed_once others url change m m' \<Longrightarrow> changed_once others url change m0 m'"
  unfolding changed_once_def by (meson others_trans)

lemma index_done_before:
  "(m0, m) \<in> others \<Longrightarrow> index_done others url change absent ok m m' \<Longrightarrow> index_done others url change absent ok m0 m'"
  unfolding index_done_def
  by (auto intro: around_before others_trans changed_once_before split: if_splits)

lemma read_idle: "bao_read lib c path s = (r, s') \<Longrightarrow> (docs (bao_world s), docs (bao_world s')) \<in> others"
  by (rule around_idle[OF read_law]) auto

lemma compare_and_set:
  assumes rd: "bao_read lib c path s = (Inr index, s1)" and mid: "(docs (bao_world s1), docs (bao_world s2)) \<in> others"
    and wr: "bao_write lib c path data' (Some (snd (index_or_empty index))) s2 = (r, s')"
    and change: "change (fst (index_or_empty index)) data'"
    and url: "endpoint lib c (data_path c path) = Inr url"
  shows "r \<noteq> Inr True \<Longrightarrow> index_done others url change absent False (docs (bao_world s)) (docs (bao_world s'))"
    and "r = Inr False \<Longrightarrow> (docs (bao_world s), docs (bao_world s')) \<in> others"
    and "r = Inr True \<Longrightarrow> index_done others url change absent True (docs (bao_world s)) (docs (bao_world s'))"
proof -
  let ?data = "fst (index_or_empty index)" and ?v = "snd (index_or_empty index)"
  obtain m1 where m1: "(docs (bao_world s), m1) \<in> others" "(m1, docs (bao_world s1)) \<in> others"
    and seen: "case index of None \<Rightarrow> current (m1 url) = None
      | Some d \<Rightarrow> length (m1 url) = vd_version d \<and> current (m1 url) = Some (vd_value d)"
    using read_law[OF rd] url unfolding around_def by auto
  obtain m2 m3 where m2: "(docs (bao_world s2), m2) \<in> others" and m3: "(m3, docs (bao_world s')) \<in> others"
    and either: "m3 = m2 \<or> kv_write url data' (Some ?v) m2 = Some m3"
    and yes: "r = Inr True \<Longrightarrow> kv_write url data' (Some ?v) m2 = Some m3" and no: "r = Inr False \<Longrightarrow> m3 = m2"
    using write_law[OF wr] url unfolding around_def by auto
  have at: "(docs (bao_world s), m2) \<in> others" "(m1, m2) \<in> others"
    using m1 mid m2 others_trans by metis+
  have data: "index_or_empty index = (case current (m1 url) of None \<Rightarrow> (empty_index, 0) | Some d \<Rightarrow> (d, length (m1 url)))"
    by (rule index_or_empty_current[OF seen])
  have once: "changed_once others url change (docs (bao_world s)) (docs (bao_world s'))"
    if w: "kv_write url data' (Some ?v) m2 = Some m3"
  proof -
    have v: "length (m2 url) = ?v" and at3: "m3 = m2(url := m2 url @ [Some data'])"
      using w by (auto simp: kv_write_def split: if_splits)
    have "current (m2 url) \<in> {None, Some ?data}" if keep: "keeps_versions others url"
    proof (cases "current (m1 url)")
      case None
      then show ?thesis using v data by simp
    next
      case (Some d)
      then have "?data = d" "length (m1 url) = length (m2 url)" using v data by simp_all
      then show ?thesis
        using keep at(2) Some unfolding keeps_versions_def by (cases "current (m2 url)") auto
    qed
    moreover have "(?data, length (m2 url)) = (case current (m1 url) of None \<Rightarrow> (empty_index, 0) | Some d \<Rightarrow> (d, length (m1 url)))"
      using v data by (metis prod.collapse)
    ultimately show ?thesis unfolding changed_once_def using m1(1) at(2) change m3[unfolded at3] by blast
  qed
  show "index_done others url change absent True (docs (bao_world s)) (docs (bao_world s'))" if "r = Inr True"
    using once[OF yes[OF that]] unfolding index_done_def by blast
  show "(docs (bao_world s), docs (bao_world s')) \<in> others" if "r = Inr False"
    using no[OF that] others_trans[OF at(1)] m3 by simp
  show "index_done others url change absent False (docs (bao_world s)) (docs (bao_world s'))"
    using either once m3 others_trans[OF at(1)] unfolding index_done_def by (cases "m3 = m2") auto
qed

text \<open>One try to move a context, given what the index was when it was read.\<close>

lemma move_try:
  assumes url: "endpoint lib c (data_path c path) = Inr url" and rd: "bao_read lib c path s = (Inr (Some i), s1)"
    and contexts: "index_contexts (vd_value i) = Some contexts" "map_of contexts src = Some collection"
    and free: "map_of (object_remove src contexts) dst = None"
    and wr: "bao_write lib c path
      (json_put ''contexts'' (JObject (object_insert dst collection (object_remove src contexts))) (vd_value i))
      (Some (vd_version i)) s1 = (r, s')"
  shows "r \<noteq> Inr True \<Longrightarrow> index_done others url (index_moved src dst) absent False (docs (bao_world s)) (docs (bao_world s'))"
    and "r = Inr False \<Longrightarrow> (docs (bao_world s), docs (bao_world s')) \<in> others"
    and "r = Inr True \<Longrightarrow> index_done others url (index_moved src dst) absent True (docs (bao_world s)) (docs (bao_world s'))"
proof -
  have moved: "index_moved src dst (fst (index_or_empty (Some i)))
      (json_put ''contexts'' (JObject (object_insert dst collection (object_remove src contexts))) (vd_value i))"
    using free contexts index_contexts_put(2)[OF contexts(1)] index_entry_put[OF contexts(1)]
    by (auto simp: index_moved_def index_or_empty_def index_entry_def fun_eq_iff)
  have "snd (index_or_empty (Some i)) = vd_version i" by (simp add: index_or_empty_def)
  note cas = compare_and_set[where change = "index_moved src dst", OF rd others_refl _ moved url, unfolded this, OF wr]
  show "r \<noteq> Inr True \<Longrightarrow> index_done others url (index_moved src dst) absent False (docs (bao_world s)) (docs (bao_world s'))"
    "r = Inr False \<Longrightarrow> (docs (bao_world s), docs (bao_world s')) \<in> others"
    "r = Inr True \<Longrightarrow> index_done others url (index_moved src dst) absent True (docs (bao_world s)) (docs (bao_world s'))"
    using cas by blast+
qed

lemma move_tries_law:
  assumes url: "endpoint lib c (data_path c path) = Inr url" and "move_tries tries lib c path src dst s = (r, s')"
  shows "index_done others url (index_moved src dst) (\<lambda>d. Option.bind d (\<lambda>data. index_entry data src) = None) (r = Inr ())
    (docs (bao_world s)) (docs (bao_world s'))"
  using assms(2)
proof (induction tries arbitrary: s)
  case 0
  then show ?case by (auto simp: op_fail_def others_refl index_done_def)
next
  case (Suc tries)
  obtain index s1 where rd: "bao_read lib c path s = (index, s1)" by fastforce
  have s1: "(docs (bao_world s), docs (bao_world s1)) \<in> others" using read_idle[OF rd] .
  have absent: "around others (docs (bao_world s))
      (\<lambda>m m'. m' = m \<and> Option.bind (current (m url)) (\<lambda>data. index_entry data src) = None) (docs (bao_world s1))"
    if "index = Inr None \<or> (\<exists>i contexts. index = Inr (Some i) \<and> index_contexts (vd_value i) = Some contexts \<and> map_of contexts src = None)"
    using that url by (intro around_mono[OF read_law[OF rd]]) (auto simp: index_entry_def)
  consider e where "index = Inl e" | "index = Inr None"
    | i where "index = Inr (Some i)" "index_contexts (vd_value i) = None"
    | i contexts where "index = Inr (Some i)" "index_contexts (vd_value i) = Some contexts" "map_of contexts src = None"
    | i contexts collection where "index = Inr (Some i)" "index_contexts (vd_value i) = Some contexts"
        "map_of contexts src = Some collection"
    by (cases index; cases "projr index") force+
  then show ?case
  proof cases
    case (5 i contexts collection)
    note step = Suc.prems[simplified, unfolded op_bind_def op_lift_def ok_or_else_def, simplified rd 5, simplified]
    let ?data' = "json_put ''contexts'' (JObject (object_insert dst collection (object_remove src contexts))) (vd_value i)"
    obtain written s2 where wr: "bao_write lib c path ?data' (Some (vd_version i)) s1 = (written, s2)" by fastforce
    show ?thesis
    proof (cases "map_of (object_remove src contexts) dst = None")
      case True
      note tried = move_try[OF url rd[unfolded 5(1)] 5(2,3) True wr]
      show ?thesis
      proof (cases "written = Inr False")
        case False
        then show ?thesis using tried step 5 True wr by (cases written) (auto simp: op_return_def)
      next
        case again: True
        then have "move_tries tries lib c path src dst s2 = (r, s')" using step 5 True wr by simp
        from index_done_before[OF tried(2)[OF again] Suc.IH[OF this]] show ?thesis .
      qed
    qed (use step 5 s1 in \<open>auto simp: op_fail_def index_done_def\<close>)
  qed (use Suc.prems rd s1 absent in \<open>auto simp: op_bind_def op_lift_def ok_or_else_def op_return_def index_done_def\<close>)
qed

lemma collection_entry_added:
  assumes "collection_entry lib x contexts s = (Inr (entry, contexts'), s')" and "json_as_str entry = Some collection"
    and "index_contexts data = Some contexts"
  shows "index_added x collection data (json_put ''contexts'' (JObject contexts') data)"
    and "(docs (bao_world s), docs (bao_world s')) \<in> others"
proof -
  have "entry = JString collection" using assms(2) by (cases entry) auto
  then show "index_added x collection data (json_put ''contexts'' (JObject contexts') data)"
    using assms index_contexts_put(2)[OF assms(3)] index_entry_put[OF assms(3)]
    by (auto simp: collection_entry_def index_added_def index_entry_def fun_eq_iff split: option.splits prod.splits)
  show "(docs (bao_world s), docs (bao_world s')) \<in> others"
    using assms(1) others_refl drawn by (auto simp: collection_entry_def split: option.splits prod.splits)
qed

lemma collection_entry_total: "\<exists>entry contexts' s'. collection_entry lib x contexts s = (Inr (entry, contexts'), s')"
  by (auto simp: collection_entry_def split: option.splits prod.splits)

lemma ensure_tries_Suc:
  assumes "bao_read lib c (index_path m (ns n)) s = (Inr i, s1)"
    and "index_contexts (fst (index_or_empty i)) = Some contexts"
    and "collection_entry lib x contexts s1 = (Inr (entry, contexts'), s2)"
  shows "ensure_tries (Suc tries) lib c m n x k s =
    (case json_as_str entry of
       None \<Rightarrow> (Inl (Configuration ''OpenBao index contained a non-string collection id''), s2)
     | Some collection \<Rightarrow>
         op_bind (bao_write lib c (index_path m (ns n)) (json_put ''contexts'' (JObject contexts') (fst (index_or_empty i)))
           (Some (snd (index_or_empty i)))) (\<lambda>written.
           if written then op_lift (located_path lib m n k (Some collection)) else ensure_tries tries lib c m n x k) s2)"
  using assms by (cases "index_or_empty i"; cases "json_as_str entry") (simp_all add: op_bind_Inr op_bind_Inl ok_or_else_def op_lift_def)

lemma ensure_try:
  assumes url: "endpoint lib c (data_path c (index_path m (ns n))) = Inr url"
    and rd: "bao_read lib c (index_path m (ns n)) s = (Inr i, s1)"
    and contexts: "index_contexts (fst (index_or_empty i)) = Some contexts"
    and entry: "collection_entry lib x contexts s1 = (Inr (entry, contexts'), s2)" "json_as_str entry = Some collection"
    and wr: "bao_write lib c (index_path m (ns n)) (json_put ''contexts'' (JObject contexts') (fst (index_or_empty i)))
      (Some (snd (index_or_empty i))) s2 = (written, s')"
  shows "written = Inl e \<Longrightarrow>
      index_done others url (ensured lib m n x k (Inl e)) absent False (docs (bao_world s)) (docs (bao_world s'))"
    and "written = Inr False \<Longrightarrow> (docs (bao_world s), docs (bao_world s')) \<in> others"
    and "written = Inr True \<Longrightarrow>
      index_done others url (ensured lib m n x k (located_path lib m n k (Some collection))) absent True
        (docs (bao_world s)) (docs (bao_world s'))"
proof -
  note added = collection_entry_added[OF entry contexts]
  have change: "ensured lib m n x k r (fst (index_or_empty i)) (json_put ''contexts'' (JObject contexts') (fst (index_or_empty i)))"
    if "\<forall>p. r = Inr p \<longrightarrow> located_path lib m n k (Some collection) = Inr p" for r
    using added(1) that by (auto simp: ensured_def)
  have change_Inl: "ensured lib m n x k (Inl e) (fst (index_or_empty i)) (json_put ''contexts'' (JObject contexts') (fst (index_or_empty i)))"
    by (rule change) simp
  have change_Inr: "ensured lib m n x k (located_path lib m n k (Some collection)) (fst (index_or_empty i))
      (json_put ''contexts'' (JObject contexts') (fst (index_or_empty i)))"
    by (rule change) simp
  show "written = Inl e \<Longrightarrow>
      index_done others url (ensured lib m n x k (Inl e)) absent False (docs (bao_world s)) (docs (bao_world s'))"
    "written = Inr False \<Longrightarrow> (docs (bao_world s), docs (bao_world s')) \<in> others"
    "written = Inr True \<Longrightarrow>
      index_done others url (ensured lib m n x k (located_path lib m n k (Some collection))) absent True
        (docs (bao_world s)) (docs (bao_world s'))"
    using compare_and_set(1,2)[where change = "ensured lib m n x k (Inl e)", OF rd added(2) wr change_Inl url]
      compare_and_set(3)[where change = "ensured lib m n x k (located_path lib m n k (Some collection))",
        OF rd added(2) wr change_Inr url]
    by auto
qed

lemma ensure_tries_law:
  assumes url: "endpoint lib c (data_path c (index_path m (ns n))) = Inr url"
    and "ensure_tries tries lib c m n x k s = (r, s')"
  shows "index_done others url (ensured lib m n x k r) (\<lambda>_. False) (\<exists>p. r = Inr p) (docs (bao_world s)) (docs (bao_world s'))"
  using assms(2)
proof (induction tries arbitrary: s)
  case 0
  then show ?case by (auto simp: op_fail_def others_refl index_done_def)
next
  case (Suc tries)
  let ?path = "index_path m (ns n)"
  obtain index s1 where rd: "bao_read lib c ?path s = (index, s1)" by fastforce
  have s1: "(docs (bao_world s), docs (bao_world s1)) \<in> others" using read_idle[OF rd] .
  consider e where "index = Inl e" | i where "index = Inr i" "index_contexts (fst (index_or_empty i)) = None"
    | i contexts where "index = Inr i" "index_contexts (fst (index_or_empty i)) = Some contexts"
    by (cases index) auto
  then show ?case
  proof cases
    case (3 i contexts)
    obtain entry contexts' s2 where drawn_entry: "collection_entry lib x contexts s1 = (Inr (entry, contexts'), s2)"
      using collection_entry_total by blast
    note step = Suc.prems[unfolded ensure_tries_Suc[OF rd[unfolded 3(1)] 3(2) drawn_entry]]
    show ?thesis
    proof (cases "json_as_str entry")
      case None
      moreover have "(docs (bao_world s1), docs (bao_world s2)) \<in> others"
        using drawn_entry others_refl drawn by (auto simp: collection_entry_def split: option.splits prod.splits)
      ultimately show ?thesis using step others_trans[OF s1] by (auto simp: index_done_def)
    next
      case (Some collection)
      let ?data' = "json_put ''contexts'' (JObject contexts') (fst (index_or_empty i))"
      obtain written s3 where wr: "bao_write lib c ?path ?data' (Some (snd (index_or_empty i))) s2 = (written, s3)" by fastforce
      note tried = ensure_try[OF url rd[unfolded 3(1)] 3(2) drawn_entry Some wr]
      have path: "\<exists>p. located_path lib m n k (Some collection) = Inr p"
        by (simp add: located_path_def locate_def split: option.split)
      consider e where "written = Inl e" | "written = Inr True" | "written = Inr False" by (cases written) auto
      then show ?thesis
      proof cases
        case 3
        then have "ensure_tries tries lib c m n x k s3 = (r, s')" using step Some wr by (simp add: op_bind_def)
        with tried(2) 3 show ?thesis using index_done_before Suc.IH by blast
      qed (use step Some wr tried(1) tried(3)[of k] path in \<open>auto simp: op_bind_def op_lift_def\<close>)
    qed
  qed (use Suc.prems rd s1 in \<open>auto simp: op_bind_def op_lift_def ok_or_else_def index_done_def split: prod.splits\<close>)
qed

end

end
