(* ===== verification/OpenBao_Quiet.thy ===== *)
theory OpenBao_Quiet
  imports OpenBao_Index
begin

text \<open>
  The adapter alone with an available server (locale \<open>quiet_kv\<close>): what a set, a query, a deletion and a move
  do, one after the other. The locale also states what the adapter relies on of the URL library: a
  relative reference made of unreserved bytes, escapes and slashes, without dot segments, is resolved,
  and two of them are resolved differently.
\<close>

section \<open>Paths as URLs\<close>

fun segments :: "string \<Rightarrow> string list" where
  "segments [] = [[]]"
| "segments (ch # s) =
     (if ch = CHR ''/'' then [] # segments s
      else (case segments s of [] \<Rightarrow> [[ch]] | g # gs \<Rightarrow> (ch # g) # gs))"

lemma segments_not_Nil [simp]: "segments s \<noteq> []"
  by (induction s) (auto split: list.splits)

lemma segments_append_slash [simp]: "segments (x @ CHR ''/'' # y) = segments x @ segments y"
  by (induction x) (auto split: list.splits)

lemma segments_single: "CHR ''/'' \<notin> set x \<Longrightarrow> segments x = [x]"
  by (induction x) auto

text \<open>Dot segments count in their escaped forms too.\<close>

definition url_safe :: "string \<Rightarrow> bool" where
  "url_safe s \<longleftrightarrow>
     (\<forall>g \<in> set (segments s). decode_bytes g \<notin> {Some ''.'', Some ''..''} \<and> (\<forall>ch \<in> set g. is_plain_byte ch \<or> ch = CHR ''%''))"

definition plain_path :: "string \<Rightarrow> bool" where
  "plain_path s \<longleftrightarrow> (\<forall>g \<in> set (segments s). g \<notin> {''.'', ''..''} \<and> (\<forall>ch \<in> set g. is_plain_byte ch \<or> ch = CHR ''%''))"

lemma plain_path_join [simp]: "plain_path (x @ CHR ''/'' # y) \<longleftrightarrow> plain_path x \<and> plain_path y"
  by (auto simp: plain_path_def)

lemma decode_escape_percent: "decode_bytes (escape_percent s @ t) = map_option ((@) s) (decode_bytes t)"
proof (induction s)
  case (Cons ch s)
  have "bao_hex_value CHR ''2'' = Some 2" "bao_hex_value CHR ''5'' = Some 5"
    "char_of (37 :: nat) = CHR ''%''" by code_simp+
  with Cons show ?case by (auto simp: escape_percent_def option.map_comp comp_def)
qed (simp add: escape_percent_def option.map_ident)

lemma decode_escaped: "decode_bytes (escape_percent s) = Some s"
  using decode_escape_percent[of s "[]"] by simp

lemma escape_percent_inj: "escape_percent s = escape_percent t \<Longrightarrow> s = t"
  by (metis decode_escaped option.inject)

lemma segments_escape: "segments (escape_percent s) = map escape_percent (segments s)"
proof (induction s)
  case (Cons ch s)
  obtain g gs where "segments s = g # gs" by (cases "segments s") auto
  with Cons show ?case by (auto simp: escape_percent_def)
qed (simp add: escape_percent_def)

lemma plain_path_url_safe:
  assumes "plain_path s" shows "url_safe (''v1/'' @ escape_percent s)"
proof -
  have plain: "is_plain_byte CHR ''2''" "is_plain_byte CHR ''5''" "is_plain_byte CHR ''v''" "is_plain_byte CHR ''1''" by code_simp+
  have "segments (''v1/'' @ escape_percent s) = ''v1'' # map escape_percent (segments s)"
    by (simp add: segments_escape)
  moreover have "decode_bytes ''v1'' = Some ''v1''" by simp
  moreover have "is_plain_byte ch \<or> ch = CHR ''%''"
    if "g \<in> set (segments s)" "ch \<in> set (escape_percent g)" for g ch
    using assms that plain by (auto simp: plain_path_def escape_percent_def split: if_splits)
  ultimately show ?thesis
    using assms plain by (auto simp: url_safe_def plain_path_def decode_escaped)
qed

lemma bao_encode_plain [simp]: "plain_path (bao_encode s)"
proof -
  have "is_plain_byte ch \<or> ch = CHR ''%''" if "ch \<in> set (encode_byte b)" for b ch
    using that hex_upper_plain[OF high_nibble, of b] hex_upper_plain[of "of_char b mod 16"]
    by (auto simp: encode_byte_def split: if_splits)
  moreover have "is_plain_byte CHR ''2''" "is_plain_byte CHR ''E''" by code_simp+
  ultimately have "is_plain_byte ch \<or> ch = CHR ''%''" if "ch \<in> set (bao_encode s)" for ch
    using that by (auto simp: bao_encode_def split: if_splits)
  moreover have "bao_encode s \<notin> {''.'', ''..''}" 
    using bao_encode_segment[of s] by (cases s) (auto simp: bao_encode_def)
  ultimately show ?thesis
    by (simp add: plain_path_def segments_single bao_encode_no_slash)
qed

section \<open>The interface\<close>

text \<open>The URL of a secret, for a path that is resolved.\<close>

definition data_url :: "'w bao_lib \<Rightarrow> bao_client \<Rightarrow> string \<Rightarrow> string" where
  "data_url lib c path = projr (endpoint lib c (data_path c path))"

definition found :: "secret \<Rightarrow> versioned option" where
  "found versions = map_option (\<lambda>d. \<lparr> vd_value = d, vd_version = length versions \<rparr>) (current versions)"

locale quiet_kv = kv_server lib docs Id for lib :: "'w bao_lib" and docs :: "'w \<Rightarrow> secrets" +
  fixes c :: bao_client
  assumes answered: "rq_token rq \<noteq> None \<Longrightarrow>
      \<exists>response s'. http_send lib rq s = (Inr response, s') \<and> bao_token s' = bao_token s
        \<and> (if rq_method rq = ''GET'' \<and> current (docs (bao_world s) (rq_url rq)) = None then bs_status response = 404
            else if kv_apply rq (docs (bao_world s)) = None then bs_status response = 400
            else is_success (bs_status response))"
    and drawn_token: "draw_uuid lib s = (u, s') \<Longrightarrow> bao_token s' = bao_token s"
    and resolved: "url_safe x \<Longrightarrow> \<exists>url. url_join lib (bc_address c) x = Inr url"
    and resolved_inj: "url_safe x \<Longrightarrow> url_safe y \<Longrightarrow> url_join lib (bc_address c) x = url_join lib (bc_address c) y \<Longrightarrow> x = y"
    and plain_mount: "plain_path (bc_mount c)"
    and plain_uuid: "plain_path (uuid_text lib u)"
begin

lemma plain_data_path: "plain_path (data_path c path) \<longleftrightarrow> plain_path path"
proof -
  have "is_plain_byte CHR ''d''" "is_plain_byte CHR ''a''" "is_plain_byte CHR ''t''" by code_simp+
  then have "plain_path ''data''" by (simp add: plain_path_def)
  moreover have "data_path c path = bc_mount c @ CHR ''/'' # ''data'' @ CHR ''/'' # path" by (simp add: data_path_def)
  ultimately show ?thesis using plain_mount by (simp only: plain_path_join simp_thms)
qed

lemma endpoint_data: "plain_path path \<Longrightarrow> endpoint lib c (data_path c path) = Inr (data_url lib c path)"
  using resolved[OF plain_path_url_safe] plain_data_path[of path]
  by (fastforce simp: data_url_def endpoint_def or_error_def)

lemma data_url_inj:
  assumes "plain_path p" and "plain_path q" and "data_url lib c p = data_url lib c q" shows "p = q"
proof -
  obtain u v where "url_join lib (bc_address c) (''v1/'' @ escape_percent (data_path c p)) = Inr u"
      "url_join lib (bc_address c) (''v1/'' @ escape_percent (data_path c q)) = Inr v"
    using resolved[OF plain_path_url_safe] plain_data_path assms(1,2) by meson
  moreover have "endpoint lib c (data_path c p) = endpoint lib c (data_path c q)"
    using assms endpoint_data by simp
  ultimately have "url_join lib (bc_address c) (''v1/'' @ escape_percent (data_path c p))
      = url_join lib (bc_address c) (''v1/'' @ escape_percent (data_path c q))"
    by (simp add: endpoint_def or_error_def)
  then have "escape_percent (data_path c p) = escape_percent (data_path c q)"
    using resolved_inj plain_path_url_safe plain_data_path assms(1,2) by (metis same_append_eq)
  then show ?thesis using escape_percent_inj by (fastforce simp: data_path_def)
qed

lemma quiet_request:
  assumes "bao_token s \<noteq> None" and "plain_path path"
  shows "\<exists>response s'. request lib c method (data_path c path) body True s = (Inr response, s')
    \<and> bao_token s' = bao_token s \<and> kv_replied (plain_request method (data_url lib c path) body) (docs (bao_world s)) (docs (bao_world s')) response
    \<and> (if method = ''GET'' \<and> current (docs (bao_world s) (data_url lib c path)) = None then bs_status response = 404
        else if kv_apply (plain_request method (data_url lib c path) body) (docs (bao_world s)) = None then bs_status response = 400
        else is_success (bs_status response))"
proof -
  let ?rq = "\<lparr> rq_method = method, rq_url = data_url lib c path, rq_token = bao_token s, rq_body = body \<rparr>"
  obtain response s' where sent: "http_send lib ?rq s = (Inr response, s')" "bao_token s' = bao_token s"
    and status: "if method = ''GET'' \<and> current (docs (bao_world s) (data_url lib c path)) = None then bs_status response = 404
        else if kv_apply ?rq (docs (bao_world s)) = None then bs_status response = 400
        else is_success (bs_status response)"
    using answered[of ?rq s] assms(1) by auto
  have "request lib c method (data_path c path) body True s = (Inr response, s')"
    using assms(1) sent endpoint_data[OF assms(2)]
    by (auto simp: request_def op_bind_def op_lift_def send_request_def or_error_def)
  moreover have "kv_replied (plain_request method (data_url lib c path) body) (docs (bao_world s)) (docs (bao_world s')) response"
    using served[OF sent(1)] by (simp add: ignores_token)
  ultimately show ?thesis using sent(2) status by (auto simp: ignores_token)
qed

lemma quiet_read:
  assumes "bao_token s \<noteq> None" and "plain_path path"
  shows "\<exists>s'. bao_read lib c path s = (Inr (found (docs (bao_world s) (data_url lib c path))), s')
    \<and> docs (bao_world s') = docs (bao_world s) \<and> bao_token s' = bao_token s"
proof -
  obtain response s' where rq: "request lib c ''GET'' (data_path c path) None True s = (Inr response, s')"
    and token: "bao_token s' = bao_token s"
    and reply: "kv_replied (plain_request ''GET'' (data_url lib c path) None) (docs (bao_world s)) (docs (bao_world s')) response"
    and status: "if current (docs (bao_world s) (data_url lib c path)) = None then bs_status response = 404 else is_success (bs_status response)"
    using quiet_request[OF assms, of "''GET''" None] by (auto simp: kv_apply_def plain_request_def)
  have "docs (bao_world s') = docs (bao_world s)"
  proof (cases "is_success (bs_status response)")
    case True
    then have "kv_apply (plain_request ''GET'' (data_url lib c path) None) (docs (bao_world s)) = Some (docs (bao_world s'))"
      using reply by (simp add: kv_replied_def)
    then show ?thesis by (simp add: kv_apply_def plain_request_def)
  next
    case False
    with status have "bs_status response = 404" by (simp split: if_splits)
    with reply show ?thesis by (simp add: kv_replied_def)
  qed
  moreover have "read_response response = Inr (found (docs (bao_world s) (data_url lib c path)))"
  proof (cases "current (docs (bao_world s) (data_url lib c path))")
    case None
    then show ?thesis using status by (simp add: read_response_def found_def)
  next
    case (Some d)
    then have "kv_document (docs (bao_world s) (data_url lib c path)) response"
      using reply status by (simp add: kv_replied_def plain_request_def)
    with Some status show ?thesis
      by (auto simp: read_response_def found_def kv_document_def or_error_def is_success_def split: sum.splits)
  qed
  ultimately show ?thesis
    using rq token by (simp add: bao_read_def op_bind_def op_lift_def)
qed

lemma quiet_write:
  assumes "bao_token s \<noteq> None" and "plain_path path" and "cas \<in> {None, Some (length (docs (bao_world s) (data_url lib c path)))}"
  shows "\<exists>s'. bao_write lib c path data cas s = (Inr True, s') \<and> bao_token s' = bao_token s
    \<and> docs (bao_world s') = (docs (bao_world s))(data_url lib c path := docs (bao_world s) (data_url lib c path) @ [Some data])"
proof -
  have apply_write: "kv_apply (plain_request ''POST'' url (Some (write_payload data cas))) m = kv_write url data cas m" for url m
    by (rule fun_cong[OF kv_apply_write])
  from quiet_request[OF assms(1,2), of "''POST''" "Some (write_payload data cas)"] obtain response s'
    where "request lib c ''POST'' (data_path c path) (Some (write_payload data cas)) True s = (Inr response, s')"
      "bao_token s' = bao_token s" "is_success (bs_status response)"
      "kv_replied (plain_request ''POST'' (data_url lib c path) (Some (write_payload data cas))) (docs (bao_world s)) (docs (bao_world s')) response"
    using assms(3) by (auto simp: apply_write kv_write_def)
  then show ?thesis
    using assms(3)
    by (auto simp: bao_write_def op_bind_def op_return_def kv_replied_def apply_write kv_write_def is_success_def split: if_splits)
qed

lemma quiet_write_refused:
  assumes "bao_token s \<noteq> None" and "plain_path path" and "v \<noteq> length (docs (bao_world s) (data_url lib c path))"
  shows "\<exists>s'. bao_write lib c path data (Some v) s = (Inr False, s') \<and> bao_token s' = bao_token s
    \<and> docs (bao_world s') = docs (bao_world s)"
proof -
  from quiet_request[OF assms(1,2), of "''POST''" "Some (write_payload data (Some v))"] obtain response s'
    where "request lib c ''POST'' (data_path c path) (Some (write_payload data (Some v))) True s = (Inr response, s')"
      "bao_token s' = bao_token s" "bs_status response = 400"
      "kv_replied (plain_request ''POST'' (data_url lib c path) (Some (write_payload data (Some v)))) (docs (bao_world s)) (docs (bao_world s')) response"
    using assms(3) by (auto simp: kv_apply_write kv_write_def)
  then show ?thesis
    by (auto simp: bao_write_def op_bind_def op_return_def kv_replied_def)
qed

lemma quiet_delete:
  assumes "bao_token s \<noteq> None" and "plain_path path"
  shows "\<exists>s'. bao_delete lib c path s = (Inr (), s') \<and> bao_token s' = bao_token s
    \<and> docs (bao_world s') = kv_delete (data_url lib c path) (docs (bao_world s))"
proof -
  have "kv_apply (plain_request ''DELETE'' url None) m = Some (kv_delete url m)" for url m
    by (simp add: kv_apply_def plain_request_def)
  with quiet_request[OF assms, of "''DELETE''" None] show ?thesis
    by (auto simp: bao_delete_def op_bind_def op_return_def kv_replied_def)
qed

end

end
