(* ===== verification/OpenBao_Adapter.thy ===== *)
theory OpenBao_Adapter
  imports OpenBao_Quiet
begin

text \<open>
  The adapter alone with its server: where the value of a key is kept, and what a set, a query, a move and a
  deletion do to it, in the interface \<open>quiet_kv\<close>.
\<close>

section \<open>Where a value is kept\<close>

lemma plain_names [simp]:
  "plain_path ''indexes''" "plain_path ''values''" "plain_path ''contexts''" "plain_path ''root''"
  by code_simp+

lemma plain_index_path: "plain_path (bm_prefix m) \<Longrightarrow> plain_path (index_path m base)"
proof -
  have "index_path m base = bm_prefix m @ CHR ''/'' # ''indexes'' @ CHR ''/'' # bao_encode base"
    by (simp add: index_path_def)
  then show "plain_path (bm_prefix m) \<Longrightarrow> plain_path (index_path m base)"
    by (simp only: plain_path_join plain_names bao_encode_plain simp_thms)
qed

lemma plain_hex_text: "plain_path (slice i j (hex_text bytes))"
proof -
  have digit: "is_plain_byte (hex_digit d)" "hex_digit d \<noteq> CHR ''/''" "hex_digit d \<noteq> CHR ''.''" if "d < 16" for d
  proof -
    have "48 \<le> (of_char (hex_digit d) :: nat)" "is_plain_byte (hex_digit d)"
      using that by (auto simp: is_plain_byte_def byte_in_def hex_digit_def)
    then show "is_plain_byte (hex_digit d)" "hex_digit d \<noteq> CHR ''/''" "hex_digit d \<noteq> CHR ''.''" by auto
  qed
  have "is_plain_byte ch \<and> ch \<noteq> CHR ''/'' \<and> ch \<noteq> CHR ''.''" if "ch \<in> set (hex_text bytes)" for ch
    using that digit[OF high_nibble] digit[of "of_char _ mod 16"] by (auto simp: hex_text_def)
  then have "is_plain_byte ch \<and> ch \<noteq> CHR ''/'' \<and> ch \<noteq> CHR ''.''" if "ch \<in> set (slice i j (hex_text bytes))" for ch
    using that by (auto simp: slice_def dest!: in_set_takeD in_set_dropD)
  moreover have "CHR ''.'' \<in> set ''.''" "CHR ''.'' \<in> set ''..''" by simp_all
  ultimately show ?thesis unfolding plain_path_def by (metis segments_single list.set_intros(1) empty_iff insert_iff set_simps)
qed

lemma plain_auth_path: "plain_path (bm_prefix m) \<Longrightarrow> plain_path (auth_path digest m k)"
proof -
  have "auth_path digest m k = bm_prefix m @ CHR ''/'' # ''values'' @ CHR ''/'' # bao_encode ''/__auth'' @ CHR ''/'' # ''root'' @
      CHR ''/'' # slice 0 16 (hex_text (digest (key_str k))) @ CHR ''/'' # slice 16 32 (hex_text (digest (key_str k))) @
      CHR ''/'' # slice 32 48 (hex_text (digest (key_str k))) @ CHR ''/'' # slice 48 64 (hex_text (digest (key_str k)))"
    by (simp add: auth_path_def auth_collection_path_def auth_key_parts_def Let_def)
  then show "plain_path (bm_prefix m) \<Longrightarrow> plain_path (auth_path digest m k)"
    by (simp only: plain_path_join plain_names bao_encode_plain plain_hex_text simp_thms)
qed

lemma plain_located_path:
  assumes "located_path lib m n k collection = Inr path" and "plain_path (bm_prefix m)"
    and "ctx n \<noteq> None \<Longrightarrow> plain_path (the collection)"
  shows "plain_path path"
proof (cases "ctx n")
  case None
  show ?thesis
  proof (cases "is_auth_namespace n")
    case True
    then show ?thesis using assms None plain_auth_path by (auto simp: located_path_def locate_def)
  next
    case False
    then have "path = bm_prefix m @ CHR ''/'' # ''values'' @ CHR ''/'' # bao_encode (as_str n) @ CHR ''/'' # ''root'' @ CHR ''/'' # bao_encode (key_str k)"
      using assms None by (simp add: located_path_def locate_def root_collection_path_def)
    then show ?thesis using assms(2) by (simp only: plain_path_join plain_names bao_encode_plain simp_thms)
  qed
next
  case (Some x)
  then obtain d where "collection = Some d"
    "path = bm_prefix m @ CHR ''/'' # ''values'' @ CHR ''/'' # bao_encode (ns n) @ CHR ''/'' # ''contexts'' @ CHR ''/'' # d @ CHR ''/'' # bao_encode (key_str k)"
    using assms by (auto simp: located_path_def locate_def context_collection_path_def split: option.splits)
  then show ?thesis using assms(2,3) Some by (simp only: plain_path_join plain_names bao_encode_plain simp_thms option.sel) simp
qed

lemma located_path_not_index: "located_path lib m n k collection = Inr path \<Longrightarrow> path \<noteq> index_path m base"
  by (auto simp: located_path_def locate_def index_path_def root_collection_path_def context_collection_path_def auth_path_def
      auth_collection_path_def split: option.splits if_splits)

text \<open>The path at which the secrets keep the value of a key of a namespace.\<close>

definition kept_at :: "'w bao_lib \<Rightarrow> bao_client \<Rightarrow> bao_mapping \<Rightarrow> namespace_context \<Rightarrow> key \<Rightarrow> secrets \<Rightarrow> string \<Rightarrow> bool" where
  "kept_at lib c m n k secrets path \<longleftrightarrow>
     (case ctx n of
        None \<Rightarrow> located_path lib m n k None = Inr path
      | Some x \<Rightarrow>
          (\<exists>data collection. current (secrets (data_url lib c (index_path m (ns n)))) = Some data
             \<and> index_collection x data = Some collection \<and> plain_path collection
             \<and> located_path lib m n k (Some collection) = Inr path))"

lemma kept_at_plain: "kept_at lib c m n k secrets path \<Longrightarrow> plain_path (bm_prefix m) \<Longrightarrow> plain_path path"
  using plain_located_path[of lib m n k] by (fastforce simp: kept_at_def split: option.splits)

lemma kept_at_not_index: "kept_at lib c m n k secrets path \<Longrightarrow> path \<noteq> index_path m base"
  using located_path_not_index[of lib m n k] by (fastforce simp: kept_at_def split: option.splits)

lemma index_collection_entry: "index_collection x data = Some collection \<longleftrightarrow> index_entry data x = Some (JString collection)"
proof -
  have "json_as_str v = Some s \<longleftrightarrow> v = JString s" for v s by (cases v) auto
  then show ?thesis
    by (cases "json_get ''contexts'' data"; cases "the (json_get ''contexts'' data)")
      (auto simp: index_collection_def index_entry_def index_contexts_def Option.bind_eq_Some_conv)
qed

lemma index_collection_None: "index_entry data x = None \<Longrightarrow> index_collection x data = None"
  using index_collection_entry[of x data] by (cases "index_collection x data") auto

text \<open>
  An index a set can work with: never written, or with an object of contexts in which the entry of the
  context, if there is one, is a path segment.
\<close>

definition index_ready :: "string \<Rightarrow> secret \<Rightarrow> bool" where
  "index_ready x versions \<longleftrightarrow>
     (case current versions of
        None \<Rightarrow> versions = []
      | Some data \<Rightarrow>
          index_contexts data \<noteq> None
          \<and> (case index_entry data x of
                None \<Rightarrow> True
              | Some entry \<Rightarrow> (case json_as_str entry of None \<Rightarrow> False | Some collection \<Rightarrow> plain_path collection)))"

text \<open>The entry of a context in the index a secret holds.\<close>

definition indexed :: "secret \<Rightarrow> string \<rightharpoonup> json" where
  "indexed versions z = Option.bind (current versions) (\<lambda>data. index_entry data z)"

lemma indexed_found: "index_entry (fst (index_or_empty (found versions))) = indexed versions"
  by (cases "current versions") (auto simp: fun_eq_iff indexed_def found_def index_or_empty_def index_entry_def index_contexts_def)

lemma indexed_written [simp]: "indexed (versions @ [Some data]) = index_entry data"
  by (simp add: fun_eq_iff indexed_def)

lemma index_ready_version: "index_ready x versions \<Longrightarrow> snd (index_or_empty (found versions)) = length versions"
  by (auto simp: index_ready_def found_def index_or_empty_def split: option.splits)

lemma index_ready_new:
  assumes "index_ready x versions" and "Option.bind (current versions) (index_collection x) = None"
  shows "\<exists>contexts. index_contexts (fst (index_or_empty (found versions))) = Some contexts \<and> map_of contexts x = None"
proof (cases "current versions")
  case None
  then show ?thesis by (simp add: found_def index_or_empty_def index_contexts_def)
next
  case (Some data)
  have "index_entry data x = None"
  proof (cases "index_entry data x")
    case entry: (Some e)
    then obtain d where "json_as_str e = Some d" using assms(1) Some by (auto simp: index_ready_def split: option.splits)
    then have "e = JString d" by (cases e) auto
    then show ?thesis using assms(2) Some entry index_collection_entry[of x data d] by simp
  qed
  with assms(1) Some show ?thesis
    by (auto simp: index_ready_def found_def index_or_empty_def index_entry_def)
qed

lemma set_document_roundtrip:
  assumes "key_str (bv_key v) \<noteq> []"
  shows "document_value (bv_namespace v) (bv_key v) (set_document v)
    = Inr (bv_value v, map_option (\<lambda>d. from_secs (as_secs d)) (bv_ttl v))"
  using assms
  by (cases "bv_ttl v")
    (simp_all add: document_value_def set_document_def encode_auth_document_def decode_auth_document_def ttl_json_def value_document_def)

context quiet_kv
begin

lemma quiet_resolve:
  assumes "bao_token s \<noteq> None" and "plain_path (bm_prefix m)" and "kept_at lib c m n k (docs (bao_world s)) path"
  shows "\<exists>s'. resolve_path_optional lib c m n k s = (Inr (Some path), s')
    \<and> docs (bao_world s') = docs (bao_world s) \<and> bao_token s' = bao_token s"
proof (cases "ctx n")
  case None
  then show ?thesis using assms(3) by (simp add: resolve_path_optional_def kept_at_def op_lift_def)
next
  case (Some x)
  then show ?thesis
    using assms(3) quiet_read[OF assms(1) plain_index_path[OF assms(2)], of "ns n"]
    by (auto simp: resolve_path_optional_def kept_at_def op_bind_def op_lift_def found_def)
qed

lemma quiet_unresolved:
  assumes "bao_token s \<noteq> None" and "plain_path (bm_prefix m)" and "ctx n = Some x"
    and none: "Option.bind (current (docs (bao_world s) (data_url lib c (index_path m (ns n))))) (index_collection x) = None"
  shows "\<exists>s'. resolve_path_optional lib c m n k s = (Inr None, s')
    \<and> docs (bao_world s') = docs (bao_world s) \<and> bao_token s' = bao_token s"
  using none quiet_read[OF assms(1) plain_index_path[OF assms(2)], of "ns n"] assms(3)
  by (cases "current (docs (bao_world s) (data_url lib c (index_path m (ns n))))")
    (auto simp: resolve_path_optional_def op_bind_def op_return_def found_def)

text \<open>The first try of \<open>ensure_path\<close> already succeeds.\<close>

lemma quiet_ensure_new:
  assumes "bao_token s \<noteq> None" and "plain_path (bm_prefix m)" and "ctx n = Some x"
    and ready: "index_ready x (docs (bao_world s) (data_url lib c (index_path m (ns n))))"
    and none: "Option.bind (current (docs (bao_world s) (data_url lib c (index_path m (ns n))))) (index_collection x) = None"
  shows "\<exists>path s'. ensure_tries 8 lib c m n x k s = (Inr path, s') \<and> bao_token s' = bao_token s
    \<and> kept_at lib c m n k (docs (bao_world s')) path
    \<and> (\<forall>p. plain_path p \<longrightarrow> p \<noteq> index_path m (ns n) \<longrightarrow> docs (bao_world s') (data_url lib c p) = docs (bao_world s) (data_url lib c p))
    \<and> (\<forall>z. ctx n \<noteq> Some z \<longrightarrow> indexed (docs (bao_world s') (data_url lib c (index_path m (ns n)))) z
          = indexed (docs (bao_world s) (data_url lib c (index_path m (ns n)))) z)"
proof -
  let ?path = "index_path m (ns n)" and ?url = "data_url lib c (index_path m (ns n))"
  let ?i = "found (docs (bao_world s) ?url)"
  note plain = plain_index_path[OF assms(2), of "ns n"]
  obtain s1 where rd: "bao_read lib c ?path s = (Inr ?i, s1)" and s1: "docs (bao_world s1) = docs (bao_world s)" "bao_token s1 = bao_token s"
    using quiet_read[OF assms(1) plain] by blast
  obtain contexts where contexts: "index_contexts (fst (index_or_empty ?i)) = Some contexts" "map_of contexts x = None"
    using index_ready_new[OF ready none] by blast
  obtain u s2 where draw: "draw_uuid lib s1 = (u, s2)" by fastforce
  have entry: "collection_entry lib x contexts s1 =
      (Inr (JString (uuid_text lib u), object_insert x (JString (uuid_text lib u)) contexts), s2)"
    using contexts(2) draw by (simp add: collection_entry_def)
  have s2: "docs (bao_world s2) = docs (bao_world s)" "bao_token s2 = bao_token s"
    using drawn[OF draw] drawn_token[OF draw] s1 by auto
  let ?data = "json_put ''contexts'' (JObject (object_insert x (JString (uuid_text lib u)) contexts)) (fst (index_or_empty ?i))"
  obtain s3 where wr: "bao_write lib c ?path ?data (Some (snd (index_or_empty ?i))) s2 = (Inr True, s3)"
    and s3: "bao_token s3 = bao_token s" "docs (bao_world s3) = (docs (bao_world s))(?url := docs (bao_world s) ?url @ [Some ?data])"
    using quiet_write[of s2 ?path "Some (snd (index_or_empty ?i))" ?data] index_ready_version[OF ready] plain assms(1) s2 by auto
  obtain path where path: "located_path lib m n k (Some (uuid_text lib u)) = Inr path"
    using assms(3) by (simp add: located_path_def locate_def)
  have "ensure_tries 8 lib c m n x k s = (Inr path, s3)"
    using ensure_tries_Suc[OF rd contexts(1) entry, of 7 k] wr path by (simp add: op_bind_def op_lift_def)
  moreover have entries: "index_entry ?data = (map_of contexts)(x \<mapsto> JString (uuid_text lib u))"
    using index_entry_put[OF contexts(1)] by simp
  then have "index_collection x ?data = Some (uuid_text lib u)" by (simp add: index_collection_entry)
  moreover have "indexed (docs (bao_world s) ?url) = map_of contexts"
    using contexts(1) by (simp add: indexed_found[symmetric] index_entry_def fun_eq_iff)
  ultimately show ?thesis
    using s3 path entries plain_uuid assms(3) data_url_inj[OF _ plain] by (auto simp: kept_at_def)
qed

lemma quiet_ensure:
  assumes "bao_token s \<noteq> None" and "plain_path (bm_prefix m)"
    and ready: "\<And>x. ctx n = Some x \<Longrightarrow> index_ready x (docs (bao_world s) (data_url lib c (index_path m (ns n))))"
  shows "\<exists>path s'. ensure_path lib c m n k s = (Inr path, s') \<and> bao_token s' = bao_token s
    \<and> kept_at lib c m n k (docs (bao_world s')) path
    \<and> (\<forall>p. plain_path p \<longrightarrow> p \<noteq> index_path m (ns n) \<longrightarrow> docs (bao_world s') (data_url lib c p) = docs (bao_world s) (data_url lib c p))
    \<and> (\<forall>z. ctx n \<noteq> Some z \<longrightarrow> indexed (docs (bao_world s') (data_url lib c (index_path m (ns n)))) z
          = indexed (docs (bao_world s) (data_url lib c (index_path m (ns n)))) z)"
proof (cases "ctx n")
  case None
  then show ?thesis by (auto simp: ensure_path_def located_path_def locate_def kept_at_def op_lift_def)
next
  case (Some x)
  let ?versions = "docs (bao_world s) (data_url lib c (index_path m (ns n)))"
  show ?thesis
  proof (cases "Option.bind (current ?versions) (index_collection x)")
    case (Some collection)
    then obtain data where data: "current ?versions = Some data" "index_collection x data = Some collection"
      by (auto simp: Option.bind_eq_Some_conv)
    then have "plain_path collection"
      using ready[OF \<open>ctx n = Some x\<close>] by (auto simp: index_ready_def index_collection_entry)
    then obtain path where "kept_at lib c m n k (docs (bao_world s)) path"
      using data \<open>ctx n = Some x\<close> by (auto simp: kept_at_def located_path_def locate_def)
    with quiet_resolve[OF assms(1,2) this] \<open>ctx n = Some x\<close> show ?thesis
      by (auto simp: ensure_path_def op_bind_def op_return_def)
  next
    case None
    obtain s1 where "resolve_path_optional lib c m n k s = (Inr None, s1)" and s1: "docs (bao_world s1) = docs (bao_world s)" "bao_token s1 = bao_token s"
      using quiet_unresolved[OF assms(1,2) \<open>ctx n = Some x\<close> None] by blast
    with quiet_ensure_new[of s1 m n x k] ready None \<open>ctx n = Some x\<close> assms(1,2) show ?thesis
      by (simp add: ensure_path_def op_bind_def)
  qed
qed

lemma kept_at_write:
  assumes "kept_at lib c m n k (docs (bao_world s)) path" and "plain_path (bm_prefix m)" and "plain_path q"
    and "q \<noteq> index_path m (ns n)"
    and "docs (bao_world s') = (docs (bao_world s))(data_url lib c q := versions)"
  shows "kept_at lib c m n k (docs (bao_world s')) path"
  using assms data_url_inj[OF assms(3) plain_index_path[OF assms(2)], of "ns n"]
  by (auto simp: kept_at_def split: option.splits)

lemma quiet_set:
  assumes "bao_token s \<noteq> None" and "plain_path (bm_prefix m)"
    and "\<And>x. ctx (bv_namespace v) = Some x \<Longrightarrow> index_ready x (docs (bao_world s) (data_url lib c (index_path m (ns (bv_namespace v)))))"
  shows "\<exists>path s'. writer_set lib c m v s = (Inr (), s') \<and> bao_token s' = bao_token s
    \<and> kept_at lib c m (bv_namespace v) (bv_key v) (docs (bao_world s')) path
    \<and> docs (bao_world s') (data_url lib c path) = docs (bao_world s) (data_url lib c path) @ [Some (set_document v)]
    \<and> (\<forall>z. ctx (bv_namespace v) \<noteq> Some z \<longrightarrow> indexed (docs (bao_world s') (data_url lib c (index_path m (ns (bv_namespace v))))) z
          = indexed (docs (bao_world s) (data_url lib c (index_path m (ns (bv_namespace v))))) z)"
proof -
  obtain path s1 where ensure: "ensure_path lib c m (bv_namespace v) (bv_key v) s = (Inr path, s1)" "bao_token s1 = bao_token s"
    and kept: "kept_at lib c m (bv_namespace v) (bv_key v) (docs (bao_world s1)) path"
    and same: "\<forall>p. plain_path p \<longrightarrow> p \<noteq> index_path m (ns (bv_namespace v)) \<longrightarrow>
      docs (bao_world s1) (data_url lib c p) = docs (bao_world s) (data_url lib c p)"
    and entries: "\<forall>z. ctx (bv_namespace v) \<noteq> Some z \<longrightarrow> indexed (docs (bao_world s1) (data_url lib c (index_path m (ns (bv_namespace v))))) z
          = indexed (docs (bao_world s) (data_url lib c (index_path m (ns (bv_namespace v))))) z"
    using quiet_ensure[OF assms, of "bv_key v"] by blast
  note path = kept_at_plain[OF kept assms(2)] kept_at_not_index[OF kept, of "ns (bv_namespace v)"]
  obtain s2 where "bao_write lib c path (set_document v) None s1 = (Inr True, s2)" "bao_token s2 = bao_token s1"
    and s2: "docs (bao_world s2) = (docs (bao_world s1))(data_url lib c path := docs (bao_world s1) (data_url lib c path) @ [Some (set_document v)])"
    using quiet_write[of s1 path None "set_document v"] ensure(2) assms(1) path(1) by auto
  moreover have "data_url lib c path \<noteq> data_url lib c (index_path m (ns (bv_namespace v)))"
    using data_url_inj[OF path(1) plain_index_path[OF assms(2)]] path(2) by blast
  ultimately show ?thesis
    using ensure same entries path kept_at_write[OF kept assms(2) path s2]
    by (auto simp: writer_set_def op_bind_def op_return_def)
qed

lemma quiet_query:
  assumes "bao_token s \<noteq> None" and "plain_path (bm_prefix m)" and kept: "kept_at lib c m n k (docs (bao_world s)) path"
    and "current (docs (bao_world s) (data_url lib c path)) = Some d" and "document_value n k d = Inr (v, ttl)"
  shows "\<exists>s'. provider_query lib c m qc n k s = (Inr (Some \<lparr> bv_namespace = n, bv_key = k, bv_value = v, bv_ttl = ttl \<rparr>), s')
    \<and> docs (bao_world s') = docs (bao_world s) \<and> bao_token s' = bao_token s"
proof -
  obtain s1 where "resolve_path_optional lib c m n k s = (Inr (Some path), s1)"
    and s1: "docs (bao_world s1) = docs (bao_world s)" "bao_token s1 = bao_token s"
    using quiet_resolve[OF assms(1-3)] by blast
  moreover obtain s2 where "bao_read lib c path s1 = (Inr (found (docs (bao_world s) (data_url lib c path))), s2)"
    "docs (bao_world s2) = docs (bao_world s)" "bao_token s2 = bao_token s"
    using quiet_read[of s1 path] kept_at_plain[OF kept assms(2)] s1 assms(1) by auto
  ultimately show ?thesis
    using assms(4,5)
    by (simp add: provider_query_def resolve_path_def op_bind_def op_lift_def op_return_def ok_or_else_def found_def)
qed

lemma quiet_query_unresolved:
  assumes "bao_token s \<noteq> None" and "plain_path (bm_prefix m)" and "ctx n = Some x"
    and "Option.bind (current (docs (bao_world s) (data_url lib c (index_path m (ns n))))) (index_collection x) = None"
  shows "\<exists>s'. provider_query lib c m qc n k s = (Inl (Configuration ''missing context collection''), s')"
  using quiet_unresolved[OF assms, of k]
  by (auto simp: provider_query_def resolve_path_def op_bind_def op_lift_def ok_or_else_def)

lemma quiet_move:
  assumes "bao_token s \<noteq> None" and "plain_path (bm_prefix m)" and allowed: "sc_allow_context_move sc"
    and valid: "validate_context_move src dst = Inr ()" and ctxs: "ctx src = Some x" "ctx dst = Some y" "x \<noteq> y"
    and kept: "kept_at lib c m src k (docs (bao_world s)) path"
    and free: "indexed (docs (bao_world s) (data_url lib c (index_path m (ns src)))) y = None"
  shows "\<exists>s'. writer_move lib c m sc src dst s = (Inr (), s') \<and> bao_token s' = bao_token s
    \<and> kept_at lib c m dst k (docs (bao_world s')) path
    \<and> docs (bao_world s') (data_url lib c path) = docs (bao_world s) (data_url lib c path)
    \<and> Option.bind (current (docs (bao_world s') (data_url lib c (index_path m (ns src))))) (index_collection x) = None"
proof -
  let ?path = "index_path m (ns src)" and ?url = "data_url lib c (index_path m (ns src))"
  note plain = plain_index_path[OF assms(2), of "ns src"]
  obtain data collection where data: "current (docs (bao_world s) ?url) = Some data" "index_collection x data = Some collection"
    and loc: "plain_path collection" "located_path lib m src k (Some collection) = Inr path"
    using kept ctxs by (auto simp: kept_at_def)
  obtain contexts where contexts: "index_contexts data = Some contexts" "map_of contexts x = Some (JString collection)"
    using data(2) by (auto simp: index_collection_entry index_entry_def Option.bind_eq_Some_conv)
  have dst: "map_of contexts y = None" using free data contexts(1) by (simp add: indexed_def index_entry_def)
  have ns: "ns dst = ns src" using valid ctxs by (auto simp: validate_context_move_def split: if_splits)
  let ?data = "json_put ''contexts'' (JObject (object_insert y (JString collection) (object_remove x contexts))) data"
  obtain s1 where rd: "bao_read lib c ?path s = (Inr (found (docs (bao_world s) ?url)), s1)"
    and s1: "docs (bao_world s1) = docs (bao_world s)" "bao_token s1 = bao_token s"
    using quiet_read[OF assms(1) plain] by blast
  obtain s2 where wr: "bao_write lib c ?path ?data (Some (length (docs (bao_world s) ?url))) s1 = (Inr True, s2)"
    and s2: "bao_token s2 = bao_token s" "docs (bao_world s2) = (docs (bao_world s))(?url := docs (bao_world s) ?url @ [Some ?data])"
    using quiet_write[of s1 ?path "Some (length (docs (bao_world s) ?url))" ?data] plain assms(1) s1 by auto
  have "move_tries (Suc 7) lib c ?path x y s = (Inr (), s2)"
    unfolding move_tries.simps(2)
    using rd wr data(1) contexts dst ctxs(3) by (simp add: op_bind_def op_lift_def op_return_def ok_or_else_def found_def)
  then have "writer_move lib c m sc src dst s = (Inr (), s2)"
    using allowed valid ctxs by (simp add: writer_move_def or_error_def op_bind_def op_lift_def move_context_def del: move_tries.simps)
  moreover have "index_entry ?data = (map_of contexts)(x := None, y \<mapsto> JString collection)"
    using index_entry_put[OF contexts(1)] by simp
  then have "index_collection y ?data = Some collection" "index_collection x ?data = None"
    using ctxs(3) by (auto simp: index_collection_entry index_collection_None)
  moreover have "located_path lib m dst k (Some collection) = Inr path"
    using loc(2) ctxs ns by (simp add: located_path_def locate_def)
  moreover have "data_url lib c path \<noteq> ?url"
    using data_url_inj[OF kept_at_plain[OF kept assms(2)] plain] kept_at_not_index[OF kept] by blast
  ultimately show ?thesis
    using s2 loc(1) ctxs(2) ns by (auto simp: kept_at_def)
qed

lemma quiet_writer_delete:
  assumes "bao_token s \<noteq> None" and "plain_path (bm_prefix m)" and kept: "kept_at lib c m n k (docs (bao_world s)) path"
    and "key_str k \<noteq> []" and "\<not> ends_with ''*'' (key_str k)"
  shows "\<exists>s'. writer_delete lib c m n (Some (KeyPattern (key_str k))) s = (Inr (), s') \<and> bao_token s' = bao_token s
    \<and> docs (bao_world s') = kv_delete (data_url lib c path) (docs (bao_world s)) \<and> kept_at lib c m n k (docs (bao_world s')) path"
proof -
  note plain = kept_at_plain[OF kept assms(2)]
  obtain s1 where "resolve_path_optional lib c m n k s = (Inr (Some path), s1)"
    and s1: "docs (bao_world s1) = docs (bao_world s)" "bao_token s1 = bao_token s"
    using quiet_resolve[OF assms(1-3)] by blast
  moreover obtain s2 where "bao_delete lib c path s1 = (Inr (), s2)" "bao_token s2 = bao_token s"
    and s2: "docs (bao_world s2) = kv_delete (data_url lib c path) (docs (bao_world s))"
    using quiet_delete[OF _ plain, of s1] s1 assms(1) by auto
  moreover have "kept_at lib c m n k (docs (bao_world s2)) path"
    using kept kept_at_write[OF kept assms(2) plain kept_at_not_index[OF kept], of s2] s2
    by (cases "docs (bao_world s) (data_url lib c path) = []") (simp_all add: kv_delete_def)
  ultimately show ?thesis
    using assms(4,5) by (cases k) (simp add: writer_delete_def Key_new_def op_bind_def op_lift_def ok_or_else_def or_error_def)
qed

text \<open>A secret that was deleted has a version, so a write that asks for none is refused.\<close>

lemma quiet_not_generated:
  assumes "bao_token s \<noteq> None" and "plain_path (bm_prefix m)" and kept: "kept_at lib c m n k (docs (bao_world s)) path"
    and deleted: "docs (bao_world s) (data_url lib c path) \<noteq> []" "current (docs (bao_world s) (data_url lib c path)) = None"
    and qc: "generate_key (qc_on_missing qc)" "\<not> record_created (qc_on_missing qc)"
  shows "\<exists>s'. provider_query lib c m qc n k s = (Inl (Configuration ''OpenBao security-key creation raced with deletion''), s')
    \<and> docs (bao_world s') = docs (bao_world s)"
proof -
  note plain = kept_at_plain[OF kept assms(2)]
  have missing: "found (docs (bao_world s) (data_url lib c path)) = None" using deleted by (simp add: found_def)
  obtain s1 where resolve: "resolve_path_optional lib c m n k s = (Inr (Some path), s1)"
    and s1: "docs (bao_world s1) = docs (bao_world s)" "bao_token s1 = bao_token s"
    using quiet_resolve[OF assms(1-3)] by blast
  obtain s2 where rd: "bao_read lib c path s1 = (Inr None, s2)"
    and s2: "docs (bao_world s2) = docs (bao_world s)" "bao_token s2 = bao_token s"
    using quiet_read[OF _ plain, of s1] s1 assms(1) missing by auto
  obtain u s3 where u: "draw_uuid lib s2 = (u, s3)" by fastforce
  obtain w s4 where w: "draw_uuid lib s3 = (w, s4)" by fastforce
  have s4: "docs (bao_world s4) = docs (bao_world s)" "bao_token s4 = bao_token s"
    using drawn[OF u] drawn[OF w] drawn_token[OF u] drawn_token[OF w] s2 by auto
  let ?made = "JObject [(''key'', JString (uuid_simple lib u @ uuid_simple lib w))]"
  let ?document = "if is_auth_namespace n then encode_auth_document k ?made None else JObject [(''value'', ?made)]"
  obtain s5 where wr: "bao_write lib c path ?document (Some 0) s4 = (Inr False, s5)"
    and s5: "docs (bao_world s5) = docs (bao_world s)" "bao_token s5 = bao_token s"
    using quiet_write_refused[OF _ plain, of s4 0 ?document] s4 assms(1) deleted(1) by auto
  obtain s6 where "bao_read lib c path s5 = (Inr None, s6)" "docs (bao_world s6) = docs (bao_world s)"
    using quiet_read[OF _ plain, of s5] s5 assms(1) missing by auto
  with resolve rd u w wr qc show ?thesis
    by (simp add: provider_query_def resolve_path_def create_missing_def generated_record_def Let_def op_bind_def op_lift_def ok_or_else_def)
qed

end

end
