(* ===== verification/OpenBao_Reference.thy ===== *)
theory OpenBao_Reference
  imports OpenBao_Adapter "HOL-Library.Sublist"
begin

text \<open>
  A key/value server in memory that behaves as the engine is documented to, in two versions: alone with the
  adapter, and with another client that writes one of its secrets before every request. They meet the
  interfaces \<open>quiet_kv\<close> and \<open>kv_server\<close>, so the properties of theory \<open>OpenBao_Properties\<close> are not vacuous, and
  run the adapter on concrete inputs.
\<close>

record reference_world =
  rw_secrets :: secrets
  rw_foreign :: "(string \<times> json) list"
  rw_draws :: nat
  rw_children :: "string \<Rightarrow> string list"

definition foreign_write :: "reference_world \<Rightarrow> reference_world" where
  "foreign_write w =
     (case rw_foreign w of
        [] \<Rightarrow> w
      | (url, data) # rest \<Rightarrow>
          w\<lparr> rw_secrets := (rw_secrets w)(url := rw_secrets w url @ [Some data]), rw_foreign := rest \<rparr>)"

definition reference_reply :: "secret \<Rightarrow> bao_response" where
  "reference_reply versions =
     (case current versions of
        None \<Rightarrow> \<lparr> bs_status = 404, bs_json = Inr (JObject []) \<rparr>
      | Some data \<Rightarrow>
          \<lparr> bs_status = 200,
            bs_json = Inr (JObject [(''data'', JObject [(''data'', data),
              (''metadata'', JObject [(''version'', JNumber (PosInt (length versions)))])])]) \<rparr>)"

definition reference_send ::
    "(reference_world \<Rightarrow> reference_world) \<Rightarrow> bao_request \<Rightarrow> (string, reference_world bao_state, bao_response) effect" where
  "reference_send before rq s =
     (let w = before (bao_world s) in
      if rq_method rq = ''GET'' then (Inr (reference_reply (rw_secrets w (rq_url rq))), s\<lparr> bao_world := w \<rparr>)
      else if rq_method rq = ''LIST''
      then (Inr \<lparr> bs_status = 200,
              bs_json = Inr (JObject [(''data'', JObject [(''keys'', JArray (map JString (rw_children w (rq_url rq))))])]) \<rparr>,
            s\<lparr> bao_world := w \<rparr>)
      else (case kv_apply rq (rw_secrets w) of
              None \<Rightarrow> (Inr \<lparr> bs_status = 400, bs_json = Inr (JObject []) \<rparr>, s\<lparr> bao_world := w \<rparr>)
            | Some m \<Rightarrow>
                (Inr \<lparr> bs_status = 200, bs_json = Inr (JObject [(''auth'', JObject [(''client_token'', JString ''token'')])]) \<rparr>,
                 s\<lparr> bao_world := w\<lparr> rw_secrets := m \<rparr> \<rparr>)))"

definition reference_lib :: "(reference_world \<Rightarrow> reference_world) \<Rightarrow> reference_world bao_lib" where
  "reference_lib before =
     \<lparr> url_parse = Inr, url_join = (\<lambda>address x. Inr (address @ x)), certificate_from_pem = (\<lambda>_. Inr ()),
       build_http = (\<lambda>_ _. Inr ()), http_send = reference_send before, status_text = show_nat, sha256 = (\<lambda>s. s),
       draw_uuid = (\<lambda>s. (rw_draws (bao_world s), s\<lparr> bao_world := (bao_world s)\<lparr> rw_draws := Suc (rw_draws (bao_world s)) \<rparr> \<rparr>)),
       uuid_text = (\<lambda>u. CHR ''u'' # show_nat u), uuid_simple = (\<lambda>u. CHR ''u'' # show_nat u),
       unix_seconds = (\<lambda>_. Inr 0), utf8_error = (\<lambda>_. []), forward_task = (\<lambda>_ _ s. s) \<rparr>"

definition reference_client :: bao_client where
  "reference_client = \<lparr> bc_address = ''https://bao/'', bc_mount = ''secret'', bc_auth = \<lparr> role_id = ''r'', secret_id = ''s'' \<rparr> \<rparr>"

lemma reference_served:
  assumes "reference_send before rq s = (r, s')" and "m = rw_secrets (before (bao_world s))"
  shows "(rw_secrets (bao_world s') = m \<or> kv_apply rq m = Some (rw_secrets (bao_world s')))
    \<and> (\<forall>response. r = Inr response \<longrightarrow> kv_replied rq m (rw_secrets (bao_world s')) response)"
proof (cases "rq_method rq = ''GET''")
  case True
  then have "kv_apply rq m = Some m" by (simp add: kv_apply_def)
  moreover have "s' = s\<lparr> bao_world := before (bao_world s) \<rparr>" "r = Inr (reference_reply (m (rq_url rq)))"
    using True assms by (simp_all add: reference_send_def Let_def)
  ultimately show ?thesis
    using assms(2) True
    by (cases "current (m (rq_url rq))")
      (simp_all add: kv_replied_def reference_reply_def kv_document_def json_pointer_def is_success_def)
next
  case False
  have "kv_apply rq m = Some m" if "rq_method rq = ''LIST''" using that by (simp add: kv_apply_def)
  then show ?thesis
    using False assms by (auto simp: reference_send_def Let_def kv_replied_def is_success_def split: option.splits if_splits)
qed

text \<open>Another client only adds versions.\<close>

definition only_writes :: "(secrets \<times> secrets) set" where
  "only_writes = {(m, m'). \<forall>url. prefix (m url) (m' url)}"

lemma foreign_write_prefix: "prefix (rw_secrets w url) (rw_secrets (foreign_write w) url)"
  by (auto simp: foreign_write_def split: list.splits)

interpretation shared: kv_server "reference_lib foreign_write" rw_secrets only_writes
proof (unfold_locales, goal_cases)
  case (1 rq s r s')
  let ?m = "rw_secrets (foreign_write (bao_world s))"
  have "(rw_secrets (bao_world s), ?m) \<in> only_writes" using foreign_write_prefix by (simp add: only_writes_def)
  moreover have "(rw_secrets (bao_world s'), rw_secrets (bao_world s')) \<in> only_writes" by (simp add: only_writes_def)
  moreover have "reference_send foreign_write rq s = (r, s')" using 1 by (simp add: reference_lib_def)
  ultimately show ?case
    using reference_served[OF \<open>reference_send foreign_write rq s = (r, s')\<close> refl]
    by (intro exI[of _ ?m] exI[of _ "rw_secrets (bao_world s')"]) blast
next
  case (4 m m' m'')
  then show ?case by (auto simp: only_writes_def intro: prefix_order.trans)
qed (auto simp: reference_lib_def only_writes_def)

lemma only_writes_keeps_versions: "keeps_versions only_writes url"
  unfolding keeps_versions_def
proof (intro allI impI)
  fix m m' d d'
  assume step: "(m, m') \<in> only_writes" and same: "length (m url) = length (m' url)"
    and now: "current (m url) = Some d" and later: "current (m' url) = Some d'"
  have "prefix (m url) (m' url)" using step by (simp add: only_writes_def)
  then have "m url = m' url" using same by (auto simp: prefix_def)
  then show "d = d'" using now later by simp
qed

interpretation alone: quiet_kv "reference_lib id" rw_secrets reference_client
proof (unfold_locales, goal_cases)
  case (1 rq s r s')
  then show ?case using reference_served[of id rq s r s'] by (auto simp: reference_lib_def)
next
  case (5 rq s)
  moreover have "rq_method rq \<in> {''GET'', ''LIST''} \<Longrightarrow> kv_apply rq m = Some m" for m by (auto simp: kv_apply_def)
  ultimately show ?case
    by (auto simp: reference_lib_def reference_send_def reference_reply_def Let_def is_success_def split: option.splits)
next
  case 9
  show ?case by code_simp
next
  case (10 u)
  have "is_plain_byte CHR ''u''" by code_simp
  moreover have "is_plain_byte ch" if "ch \<in> set (show_nat u)" for ch
    using show_nat_digits[OF that] by (simp add: is_plain_byte_def is_ascii_digit_def byte_in_def)
  ultimately have plain: "is_plain_byte ch" if "ch \<in> set (CHR ''u'' # show_nat u)" for ch
    using that by auto
  have "CHR ''/'' \<notin> set (CHR ''u'' # show_nat u)" using plain plain_not_special by blast
  then have "segments (CHR ''u'' # show_nat u) = [CHR ''u'' # show_nat u]" by (rule segments_single)
  with plain show ?case by (simp add: reference_lib_def plain_path_def)
qed (auto simp: reference_lib_def)

end
