(* ===== verification/OpenBao_Properties.thy ===== *)
theory OpenBao_Properties
  imports OpenBao_Reference
begin

text \<open>
  The properties of the OpenBao adapter: what a query returns after a set, a move or a deletion, the context index
  under interference, the principals listed for a sync, and the answers to the server's callbacks.
\<close>

section \<open>Values\<close>

text \<open>
  C22. A value that was set is what a query then returns, with its lifetime in whole seconds: for a plain namespace, a
  principal or a context, whose collection the set creates when the index does not have it.
\<close>

theorem bao_set_then_query:
  assumes "quiet_kv lib docs c" and "bao_token s \<noteq> None" and "plain_path (bm_prefix m)" and "key_str (bv_key v) \<noteq> []"
    and "\<And>x. ctx (bv_namespace v) = Some x \<Longrightarrow> index_ready x (docs (bao_world s) (data_url lib c (index_path m (ns (bv_namespace v)))))"
  shows "\<exists>s1 s2. writer_set lib c m v s = (Inr (), s1)
    \<and> provider_query lib c m qc (bv_namespace v) (bv_key v) s1
        = (Inr (Some (v\<lparr> bv_ttl := map_option (\<lambda>d. from_secs (as_secs d)) (bv_ttl v) \<rparr>)), s2)"
proof -
  obtain path s1 where set: "writer_set lib c m v s = (Inr (), s1)" "bao_token s1 = bao_token s"
    and kept: "kept_at lib c m (bv_namespace v) (bv_key v) (docs (bao_world s1)) path"
    and doc: "docs (bao_world s1) (data_url lib c path) = docs (bao_world s) (data_url lib c path) @ [Some (set_document v)]"
    using quiet_kv.quiet_set[OF assms(1-3,5)] by blast
  from quiet_kv.quiet_query[OF assms(1) _ assms(3) kept _ set_document_roundtrip[OF assms(4)], of qc] doc set assms(2)
  show ?thesis by auto
qed

text \<open>
  C23. A move takes the values along: after a value of one context was set and the context moved to a free
  name, a query of the new name returns the value, and a query of the old name fails.
\<close>

theorem bao_move_takes_values:
  assumes "quiet_kv lib docs c" and "bao_token s \<noteq> None" and "plain_path (bm_prefix m)" and "key_str (bv_key v) \<noteq> []"
    and "sc_allow_context_move sc" and "validate_context_move (bv_namespace v) dst = Inr ()"
    and "ctx (bv_namespace v) = Some x" and "ctx dst = Some y" and "x \<noteq> y"
    and "index_ready x (docs (bao_world s) (data_url lib c (index_path m (ns (bv_namespace v)))))"
    and "indexed (docs (bao_world s) (data_url lib c (index_path m (ns (bv_namespace v))))) y = None"
  shows "\<exists>s1 s2 s3 s4. writer_set lib c m v s = (Inr (), s1) \<and> writer_move lib c m sc (bv_namespace v) dst s1 = (Inr (), s2)
    \<and> provider_query lib c m qc dst (bv_key v) s2
        = (Inr (Some (v\<lparr> bv_namespace := dst, bv_ttl := map_option (\<lambda>d. from_secs (as_secs d)) (bv_ttl v) \<rparr>)), s3)
    \<and> provider_query lib c m qc (bv_namespace v) (bv_key v) s2 = (Inl (Configuration ''missing context collection''), s4)"
proof -
  have ready: "index_ready z (docs (bao_world s) (data_url lib c (index_path m (ns (bv_namespace v)))))"
    if "ctx (bv_namespace v) = Some z" for z
    using assms(7,10) that by simp
  obtain path s1 where set: "writer_set lib c m v s = (Inr (), s1)" "bao_token s1 = bao_token s"
    and kept: "kept_at lib c m (bv_namespace v) (bv_key v) (docs (bao_world s1)) path"
    and doc: "docs (bao_world s1) (data_url lib c path) = docs (bao_world s) (data_url lib c path) @ [Some (set_document v)]"
    and free: "indexed (docs (bao_world s1) (data_url lib c (index_path m (ns (bv_namespace v))))) y = None"
    using quiet_kv.quiet_set[OF assms(1-3) ready] assms(7,9,11) by auto
  obtain s2 where move: "writer_move lib c m sc (bv_namespace v) dst s1 = (Inr (), s2)" "bao_token s2 = bao_token s1"
    and moved: "kept_at lib c m dst (bv_key v) (docs (bao_world s2)) path"
    and same: "docs (bao_world s2) (data_url lib c path) = docs (bao_world s1) (data_url lib c path)"
    and gone: "Option.bind (current (docs (bao_world s2) (data_url lib c (index_path m (ns (bv_namespace v)))))) (index_collection x) = None"
    using quiet_kv.quiet_move[OF assms(1) _ assms(3,5-9) kept free] set(2) assms(2) by auto
  have "document_value dst (bv_key v) (set_document v) = document_value (bv_namespace v) (bv_key v) (set_document v)"
    using assms(7,8) by (simp add: document_value_def is_auth_namespace_def)
  then have doc': "document_value dst (bv_key v) (set_document v) = Inr (bv_value v, map_option (\<lambda>d. from_secs (as_secs d)) (bv_ttl v))"
    using set_document_roundtrip[OF assms(4)] by simp
  have token: "bao_token s2 \<noteq> None" using set(2) move(2) assms(2) by simp
  have "current (docs (bao_world s2) (data_url lib c path)) = Some (set_document v)" using same doc by simp
  from quiet_kv.quiet_query[OF assms(1) token assms(3) moved this doc', of qc]
    quiet_kv.quiet_query_unresolved[OF assms(1) token assms(3,7) gone, of qc "bv_key v"] set(1) move(1)
  show ?thesis by auto
qed

text \<open>
  A generated key that was deleted never comes back: the deletion keeps the version of the secret, the
  write that would create the key anew asks for a secret without a version, and every query ends in
  the error meant for a race with a deletion.
\<close>

theorem deleted_key_is_not_generated_again:
  assumes "quiet_kv lib docs c" and "bao_token s \<noteq> None" and "plain_path (bm_prefix m)"
    and "key_str (bv_key v) \<noteq> []" and "\<not> ends_with ''*'' (key_str (bv_key v))"
    and "\<And>x. ctx (bv_namespace v) = Some x \<Longrightarrow> index_ready x (docs (bao_world s) (data_url lib c (index_path m (ns (bv_namespace v)))))"
    and "generate_key (qc_on_missing qc)" and "\<not> record_created (qc_on_missing qc)"
  shows "\<exists>s1 s2 s3. writer_set lib c m v s = (Inr (), s1)
    \<and> writer_delete lib c m (bv_namespace v) (Some (KeyPattern (key_str (bv_key v)))) s1 = (Inr (), s2)
    \<and> provider_query lib c m qc (bv_namespace v) (bv_key v) s2
        = (Inl (Configuration ''OpenBao security-key creation raced with deletion''), s3)
    \<and> docs (bao_world s3) = docs (bao_world s2)"
proof -
  obtain path s1 where set: "writer_set lib c m v s = (Inr (), s1)" "bao_token s1 = bao_token s"
    and kept: "kept_at lib c m (bv_namespace v) (bv_key v) (docs (bao_world s1)) path"
    and doc: "docs (bao_world s1) (data_url lib c path) = docs (bao_world s) (data_url lib c path) @ [Some (set_document v)]"
    using quiet_kv.quiet_set[OF assms(1-3,6)] by blast
  obtain s2 where delete: "writer_delete lib c m (bv_namespace v) (Some (KeyPattern (key_str (bv_key v)))) s1 = (Inr (), s2)"
      "bao_token s2 = bao_token s1"
    and deleted: "docs (bao_world s2) = kv_delete (data_url lib c path) (docs (bao_world s1))"
    and kept2: "kept_at lib c m (bv_namespace v) (bv_key v) (docs (bao_world s2)) path"
    using quiet_kv.quiet_writer_delete[OF assms(1) _ assms(3) kept assms(4,5)] set(2) assms(2) by auto
  have "docs (bao_world s2) (data_url lib c path) = docs (bao_world s) (data_url lib c path) @ [None]"
    using deleted doc by (simp add: kv_delete_def)
  then have "docs (bao_world s2) (data_url lib c path) \<noteq> []" "current (docs (bao_world s2) (data_url lib c path)) = None"
    by simp_all
  from quiet_kv.quiet_not_generated[OF assms(1) _ assms(3) kept2 this assms(7,8)] set delete assms(2)
  show ?thesis by auto
qed

section \<open>The index under interference\<close>

text \<open>
  C21. Moving a context is atomic among the other clients of the server, whatever they do: the adapter writes nothing, or it writes the index
  exactly once, as the index it read at some moment with the context renamed and every other entry kept, and only while the
  version it read is the latest one. As long as nobody else erases the metadata of the index, so that version numbers start
  again, the index replaced is the one that was read; if that was marked as deleted in the meantime, it comes back
  with the write. Success is reported only if the index was written, or if at some moment it had no such context.
\<close>

theorem context_move_is_atomic:
  assumes "kv_server lib docs others" and "endpoint lib c (data_path c (index_path m (ns src))) = Inr url"
    and "writer_move lib c m sc src dst s = (r, s')"
  shows "index_done others url (index_moved (the (ctx src)) (the (ctx dst)))
    (\<lambda>index. Option.bind index (\<lambda>data. index_entry data (the (ctx src))) = None) (r = Inr ())
    (docs (bao_world s)) (docs (bao_world s'))"
proof -
  have idle: "index_done others url change absent False (docs (bao_world s)) (docs (bao_world s))" for change absent
    using kv_server.others_refl[OF assms(1)] by (simp add: index_done_def)
  show ?thesis
  proof (cases "sc_allow_context_move sc \<and> validate_context_move src dst = Inr ()")
    case False
    then show ?thesis
      using assms(3) idle
      by (cases "validate_context_move src dst")
        (auto simp: writer_move_def op_fail_def or_error_def op_bind_def op_lift_def split: if_splits)
  next
    case True
    then obtain x y where "ctx src = Some x" "ctx dst = Some y" by (auto simp: validate_context_move_def split: if_splits)
    with True assms(3) kv_server.move_tries_law[OF assms(1,2)] show ?thesis
      by (simp add: writer_move_def move_context_def or_error_def op_bind_def op_lift_def)
  qed
qed

text \<open>
  C24. Creating the collection of a context loses no entry of the index: among any other clients, the adapter writes nothing, or it writes the
  index exactly once, as the index it read at some moment, or the empty index if there was none, with the entry of the context
  added and every other entry kept, and only while the version it read is the latest one (none at all if there was no
  index). As long as nobody else erases the metadata of the index, what is replaced is that index, or no index. The path
  returned lies in the collection of that entry, or of the entry the index already had.
\<close>

theorem context_creation_keeps_entries:
  assumes "kv_server lib docs others" and "endpoint lib c (data_path c (index_path m (ns n))) = Inr url"
    and "ctx n = Some x" and "ensure_path lib c m n k s = (r, s')"
  shows "index_done others url (ensured lib m n x k r)
    (\<lambda>index. \<exists>collection. Option.bind index (index_collection x) = Some collection \<and> located_path lib m n k (Some collection) = r)
    (\<exists>p. r = Inr p) (docs (bao_world s)) (docs (bao_world s'))"
proof -
  obtain index s1 where rd: "bao_read lib c (index_path m (ns n)) s = (index, s1)" by fastforce
  note idle = kv_server.read_idle[OF assms(1) rd]
  consider e where "index = Inl e"
    | found where "index = Inr found" "Option.bind found (\<lambda>i. index_collection x (vd_value i)) = None"
    | i collection where "index = Inr (Some i)" "index_collection x (vd_value i) = Some collection"
    by (cases index) (fastforce simp: Option.bind_eq_Some_conv)+
  then show ?thesis
  proof cases
    case 1
    then show ?thesis
      using assms(3,4) rd idle by (auto simp: ensure_path_def resolve_path_optional_def op_bind_def index_done_def)
  next
    case 2
    then have "resolve_path_optional lib c m n k s = (Inr None, s1)"
      using assms(3) rd by (cases found) (simp_all add: resolve_path_optional_def op_bind_def op_return_def)
    then have "ensure_tries 8 lib c m n x k s1 = (r, s')"
      using assms(3,4) by (simp add: ensure_path_def op_bind_def)
    from kv_server.ensure_tries_law[OF assms(1,2) this] have "index_done others url (ensured lib m n x k r)
        (\<lambda>index. \<exists>collection. Option.bind index (index_collection x) = Some collection \<and> located_path lib m n k (Some collection) = r)
        (\<exists>p. r = Inr p) (docs (bao_world s1)) (docs (bao_world s'))"
      by (auto simp: index_done_def around_def)
    then show ?thesis using kv_server.index_done_before[OF assms(1) idle] by blast
  next
    case 3
    then have "r = located_path lib m n k (Some collection)" "s' = s1"
      using assms(3,4) rd
      by (auto simp: ensure_path_def resolve_path_optional_def op_bind_def op_lift_def op_return_def located_path_def locate_def)
    moreover have "around others (docs (bao_world s)) (\<lambda>m1 m2. m2 = m1 \<and> (\<exists>collection'.
        Option.bind (current (m1 url)) (index_collection x) = Some collection'
        \<and> located_path lib m n k (Some collection') = located_path lib m n k (Some collection))) (docs (bao_world s1))"
      using 3 assms(2) by (intro around_mono[OF kv_server.read_law[OF assms(1) rd]]) auto
    ultimately show ?thesis
      using assms(3) by (simp add: index_done_def located_path_def locate_def)
  qed
qed

section \<open>Principals for a sync\<close>

definition digest_segment :: "string \<Rightarrow> bool" where
  "digest_segment g \<longleftrightarrow> length g = 16 \<and> list_all (\<lambda>b. is_ascii_digit b \<or> byte_in 0x61 0x66 b) g"

text \<open>A collection below \<open>root\<close> at the depth of its segments, and a complete path.\<close>

definition below :: "string \<Rightarrow> string \<Rightarrow> string list \<Rightarrow> bool" where
  "below root path parts \<longleftrightarrow> path = root @ concat (map (\<lambda>g. CHR ''/'' # g) parts) \<and> list_all digest_segment parts"

lemma below_child: "below root path parts \<Longrightarrow> digest_segment g \<Longrightarrow> below root (path @ CHR ''/'' # g) (parts @ [g])"
  by (simp add: below_def)

definition scan_ok :: "string \<Rightarrow> pending_listing list \<times> (string \<times> string list) list \<Rightarrow> bool" where
  "scan_ok root acc \<longleftrightarrow>
     list_all (\<lambda>(q, d, ps). below root q ps \<and> length ps = d) (fst acc)
     \<and> list_all (\<lambda>(q, ps). below root q ps \<and> length ps = 4) (snd acc)"

lemma scan_children_ok:
  assumes "scan_children path depth parts children acc = Inr acc'"
    and "below root path parts" and "length parts = depth" and "scan_ok root acc"
  shows "scan_ok root acc'"
  using assms(1,4)
proof (induction children arbitrary: acc)
  case (Cons child rest)
  define g where "g = (case strip_suffix ''/'' child of Some s \<Rightarrow> s | None \<Rightarrow> child)"
  have "digest_segment g"
    using Cons.prems(1) by (auto simp: digest_segment_def g_def Let_def split: if_splits)
  then have child: "below root (path @ CHR ''/'' # g) (parts @ [g])" by (rule below_child[OF assms(2)])
  obtain acc1 where "scan_children path depth parts rest acc1 = Inr acc'"
    and "acc1 \<in> {((path @ CHR ''/'' # g, depth + 1, parts @ [g]) # fst acc, snd acc), acc}
      \<or> depth = 3 \<and> acc1 = (fst acc, snd acc @ [(path @ CHR ''/'' # g, parts @ [g])])"
    using Cons.prems(1) by (auto simp: Let_def g_def[symmetric] split: if_splits)
  moreover from this(2) have "scan_ok root acc1"
    using child Cons.prems(2) assms(3) by (auto simp: scan_ok_def)
  ultimately show ?case using Cons.IH by blast
qed simp

lemma list_auth_paths_ok:
  "list_auth_paths lib c pending paths s = (Inr paths', s') \<Longrightarrow> scan_ok root (pending, paths) \<Longrightarrow> scan_ok root ([], paths')"
proof (induction lib c pending paths s rule: list_auth_paths.induct)
  case (2 lib c path depth parts pending paths s)
  obtain children s1 pending' paths1 where steps: "bao_list lib c path s = (Inr children, s1)"
      "scan_children path depth parts (rev (sort children)) (pending, paths) = Inr (pending', paths1)"
      "list_auth_paths lib c pending' paths1 s1 = (Inr paths', s')"
    using "2.prems"(1) by (auto split: prod.splits sum.splits)
  moreover have "scan_ok root (pending', paths1)"
    using scan_children_ok[OF steps(2), of root] "2.prems"(2) by (simp add: scan_ok_def)
  ultimately show ?case using "2.IH"[OF steps(1)[symmetric] refl steps(2) refl steps(3)] by simp
qed simp

text \<open>Listing and reading leave the secrets alone.\<close>

lemma list_idle:
  assumes "kv_server lib docs Id" and "bao_list lib c path s = (r, s')"
  shows "docs (bao_world s') = docs (bao_world s)"
proof -
  obtain r1 where "request lib c ''LIST'' (bc_mount c @ ''/metadata/'' @ path) None True s = (r1, s')"
    using assms(2) by (auto simp: bao_list_def op_bind_def op_lift_def split: prod.splits sum.splits)
  from kv_server.request_law[OF assms(1) this] show ?thesis
    by (auto simp: around_def kv_apply_def plain_request_def)
qed

lemma list_auth_paths_idle:
  assumes "kv_server lib docs Id"
  shows "list_auth_paths lib c pending paths s = (r, s') \<Longrightarrow> docs (bao_world s') = docs (bao_world s)"
  using assms
proof (induction lib c pending paths s rule: list_auth_paths.induct)
  case (2 lib c path depth parts pending paths s)
  then show ?case
    using list_idle[OF "2.prems"(2)] by (fastforce split: prod.splits sum.splits)
qed simp

lemma fetch_auth_documents_stored:
  assumes "kv_server lib docs Id" and "fetch_auth_documents lib c n paths s = (Inr vs, s')" and "v \<in> set vs"
  shows "\<exists>path parts d doc. (path, parts) \<in> set paths \<and> parts = auth_key_parts (sha256 lib) (bv_key v)
    \<and> current (docs (bao_world s) (data_url lib c path)) = Some d
    \<and> decode_auth_document d = Inr doc \<and> Key_new (ad_key doc) = Inr (bv_key v)
    \<and> bv_namespace v = n \<and> bv_value v = ad_value doc \<and> bv_ttl v = ad_ttl doc"
  using assms(2,3)
proof (induction paths arbitrary: s vs)
  case (Cons entry rest)
  obtain index s1 where rd: "bao_read lib c (fst entry) s = (Inr index, s1)"
    using Cons.prems(1) by (auto simp: op_bind_def split: prod.splits sum.splits)
  have s1: "docs (bao_world s1) = docs (bao_world s)"
    using kv_server.read_idle[OF assms(1) rd] by simp
  show ?case
  proof (cases index)
    case None
    with Cons rd s1 show ?thesis by (fastforce simp: op_bind_def)
  next
    case (Some i)
    have stored: "current (docs (bao_world s) (data_url lib c (fst entry))) = Some (vd_value i)"
      using kv_server.read_law[OF assms(1) rd] by (auto simp: around_def Some data_url_def)
    obtain doc k vs' where parsed: "decode_auth_document (vd_value i) = Inr doc" "Key_new (ad_key doc) = Inr k"
        "auth_key_parts (sha256 lib) k = snd entry"
      and rest: "fetch_auth_documents lib c n rest s1 = (Inr vs', s')"
      and vs: "vs = \<lparr> bv_namespace = n, bv_key = k, bv_value = ad_value doc, bv_ttl = ad_ttl doc \<rparr> # vs'"
      using Cons.prems(1) rd Some
      by (auto simp: op_bind_def op_lift_def op_return_def op_fail_def or_error_def split: prod.splits sum.splits if_splits)
    show ?thesis
    proof (cases "v \<in> set vs'")
      case True
      from Cons.IH[OF rest this] s1 show ?thesis by fastforce
    next
      case False
      then have "v = \<lparr> bv_namespace = n, bv_key = k, bv_value = ad_value doc, bv_ttl = ad_ttl doc \<rparr>"
        using Cons.prems(2) vs by simp
      with stored parsed show ?thesis
        by (intro exI[of _ "fst entry"] exI[of _ "snd entry"] exI[of _ "vd_value i"] exI[of _ doc]) simp
    qed
  qed
qed (simp add: op_return_def)

text \<open>
  The principals fetched for a sync are the ones queries return: each is what its own document holds, at the path of
  the digest of its key and nowhere else, and they come in the order of their keys.
\<close>

theorem fetched_principals_are_stored:
  assumes "kv_server lib docs Id" and "is_auth_namespace n" and "fetch_provider_values lib c m n s = (Inr vs, s')"
  shows "sorted (map (\<lambda>v. key_str (bv_key v)) vs) \<and> (\<forall>v \<in> set vs. bv_namespace v = n \<and>
    (\<exists>d. current (docs (bao_world s) (data_url lib c (auth_path (sha256 lib) m (bv_key v)))) = Some d
       \<and> document_value n (bv_key v) d = Inr (bv_value v, bv_ttl v)))"
proof -
  have root: "ctx n = None" "root_collection_path m n = auth_collection_path m"
    using assms(2) by (auto simp: is_auth_namespace_def root_collection_path_def auth_collection_path_def)
  obtain paths s1 vs' where listed: "list_auth_paths lib c [(auth_collection_path m, 0, [])] [] s = (Inr paths, s1)"
    and fetched: "fetch_auth_documents lib c n paths s1 = (Inr vs', s')"
    and vs: "vs = sort_key (\<lambda>v. key_str (bv_key v)) vs'"
    using assms(2,3) root
    by (auto simp: fetch_provider_values_def fetch_collection_def fetch_auth_provider_values_def op_bind_def op_return_def
        split: prod.splits sum.splits)
  have ok: "scan_ok (auth_collection_path m) ([], paths)"
    by (rule list_auth_paths_ok[OF listed]) (simp add: scan_ok_def below_def)
  have stored: "bv_namespace v = n \<and> (\<exists>d. current (docs (bao_world s) (data_url lib c (auth_path (sha256 lib) m (bv_key v)))) = Some d
       \<and> document_value n (bv_key v) d = Inr (bv_value v, bv_ttl v))" if v: "v \<in> set vs'" for v
  proof -
    obtain path parts d doc where doc: "(path, parts) \<in> set paths" "parts = auth_key_parts (sha256 lib) (bv_key v)"
      "current (docs (bao_world s1) (data_url lib c path)) = Some d" "decode_auth_document d = Inr doc"
      "Key_new (ad_key doc) = Inr (bv_key v)" "bv_namespace v = n" "bv_value v = ad_value doc" "bv_ttl v = ad_ttl doc"
      using fetch_auth_documents_stored[OF assms(1) fetched v] by blast
    have "path = auth_path (sha256 lib) m (bv_key v)"
      using ok doc(1,2) by (auto simp: scan_ok_def below_def auth_path_def list_all_iff)
    moreover have "ad_key doc = key_str (bv_key v)" using doc(5) by (cases "bv_key v") (auto simp: Key_new_def split: if_splits)
    ultimately show ?thesis
      using doc assms(2) list_auth_paths_idle[OF assms(1) listed] by (simp add: document_value_def)
  qed
  show ?thesis using stored by (simp add: vs)
qed

section \<open>Answers to callbacks\<close>

text \<open>What an answer says of the operation it stands for.\<close>

fun answers :: "server_command \<Rightarrow> server_result \<Rightarrow> bool" where
  "answers (Query i n k) (QueryResult j v e ttl) \<longleftrightarrow> i = j \<and> (e \<noteq> None \<longrightarrow> v = None) \<and> (v = None \<longrightarrow> ttl = None)"
| "answers (Query i n k) (Operation j e) \<longleftrightarrow> False"
| "answers cmd (Operation j e) \<longleftrightarrow> request_id cmd = j"
| "answers cmd (QueryResult j v e ttl) \<longleftrightarrow> False"

text \<open>A store that the bridge chose carried the mutation of a command out.\<close>

fun carried_out :: "'w callback_bridge \<Rightarrow> server_command \<Rightarrow> 'w bao_state \<Rightarrow> 'w bao_state \<Rightarrow> bool" where
  "carried_out b (PersistSet i n k v ttl) s s' \<longleftrightarrow>
     (\<exists>w. bridge_store b n (case KeyPattern_new (key_str k) of Inr p \<Rightarrow> Some p | Inl _ \<Rightarrow> None) = Some w
        \<and> sw_set w \<lparr> bv_namespace = n, bv_key = k, bv_value = v, bv_ttl = map_option from_secs ttl \<rparr> s = (Inr (), s'))"
| "carried_out b (PersistDelete i n p) s s' \<longleftrightarrow> (\<exists>w. bridge_store b n p = Some w \<and> sw_delete w n p s = (Inr (), s'))"
| "carried_out b (PersistMove i src dst) s s' \<longleftrightarrow> (\<exists>w. bridge_store b src None = Some w \<and> sw_move w src dst s = (Inr (), s'))"
| "carried_out b _ s s' \<longleftrightarrow> False"

lemma settle_operation:
  "case settle (operation_answer lib i) f s of
     (Inl e, s') \<Rightarrow> (\<exists>t. e = AdapterPanic t)
   | (Inr answer, s') \<Rightarrow> (\<exists>err. answer = Operation i err \<and> (err = None \<longleftrightarrow> f s = (Inr (), s')))"
proof (cases "f s")
  case (Pair r s')
  then show ?thesis
    by (cases r; cases "projl r") (auto simp: settle_def operation_answer_def)
qed

lemma settle_query:
  "case settle (query_answer lib i) f s of
     (Inl e, s') \<Rightarrow> (\<exists>t. e = AdapterPanic t)
   | (Inr answer, s') \<Rightarrow> answers (Query i n k) answer"
proof (cases "f s")
  case (Pair r s')
  show ?thesis
  proof (cases r)
    case (Inl e)
    then show ?thesis by (cases e) (simp_all add: settle_def query_answer_def Pair)
  qed (auto simp: settle_def query_answer_def Pair split: option.splits)
qed

lemma with_store_Inr:
  "with_store w f s = (Inr (), s') \<longleftrightarrow> (\<exists>store. w = Some store \<and> f store s = (Inr (), s'))"
  by (cases w) (auto simp: with_store_def op_fail_def)

lemma settle_store:
  assumes "\<And>err. answers cmd (Operation i err)"
    and "\<And>s'. carried_out b cmd s s' \<longleftrightarrow> (\<exists>store. w = Some store \<and> f store s = (Inr (), s'))"
  shows "case settle (operation_answer lib i) (with_store w f) s of
     (Inl e, s') \<Rightarrow> (\<exists>t. e = AdapterPanic t)
   | (Inr answer, s') \<Rightarrow> answers cmd answer \<and> (\<exists>i. answer = Operation i None) = carried_out b cmd s s'"
  using settle_operation[where lib = lib and i = i and f = "with_store w f" and s = s] assms
  by (auto simp: with_store_Inr split: prod.splits sum.splits)

text \<open>
  The handler answers every callback with the result of its kind and its request id; a set, a deletion or a move is answered
  without an error exactly if a matching store, the last one that was configured, carried it out, and a
  batch never is. Only a panic leaves a callback without an answer.
\<close>

theorem bridge_answers_callbacks:
  "case bridge_handle lib b cmd s of
     (Inl e, s') \<Rightarrow> (\<exists>t. e = AdapterPanic t)
   | (Inr answer, s') \<Rightarrow> answers cmd answer \<and> (\<exists>i. answer = Operation i None) = carried_out b cmd s s'"
proof (cases cmd)
  case (Query i n k)
  then show ?thesis
    using settle_query[where i = i and n = n and k = k and lib = lib and s = s
        and f = "case find (\<lambda>q. qp_matches q n k) (cb_queries b) of Some q \<Rightarrow> qp_query q n k | None \<Rightarrow> op_return None"]
    by (auto split: prod.splits sum.splits server_result.splits)
next
  case (PersistSetBatch i n es ttl)
  then show ?thesis by (simp add: settle_def op_fail_def operation_answer_def)
qed (simp_all only: bridge_handle.simps, (rule settle_store; simp)+)

section \<open>Concrete runs\<close>

definition cache_mapping :: bao_mapping where
  "cache_mapping = \<lparr> bm_prefix = ''cache'' \<rparr>"

definition start :: "(string \<times> json) list \<Rightarrow> reference_world bao_state" where
  "start foreign = \<lparr> bao_world = \<lparr> rw_secrets = (\<lambda>_. []), rw_foreign = foreign, rw_draws = 0, rw_children = (\<lambda>_. []) \<rparr>, bao_token = Some ''token'' \<rparr>"

definition draft_value :: bao_value where
  "draft_value = \<lparr> bv_namespace = orders_ns (Some ''draft''), bv_key = Key ''a/b'', bv_value = JBool True, bv_ttl = Some 5500000000 \<rparr>"

definition open_query :: "bool \<Rightarrow> query_config" where
  "open_query generate = \<lparr> qc_namespace_pattern = ''*'', qc_key_pattern = ''*'',
     qc_on_missing = \<lparr> generate_key = generate, record_created = False \<rparr>,
     qc_provider_wait_timeout = None, qc_miss_cache_ttl = None \<rparr>"

lemma cache_plain: "plain_path (bm_prefix cache_mapping)" by code_simp

lemma start_facts:
  "index_ready x (rw_secrets (bao_world (start foreign)) url)" "indexed (rw_secrets (bao_world (start foreign)) url) y = None"
  "bao_token (start foreign) \<noteq> None"
  by (simp_all add: start_def index_ready_def indexed_def)

lemma draft_facts:
  "map_option (\<lambda>d. from_secs (as_secs d)) (bv_ttl draft_value) = Some 5000000000"
  "bv_namespace draft_value = orders_ns (Some ''draft'')" "bv_key draft_value = Key ''a/b''" "key_str (bv_key draft_value) \<noteq> []"
  by (simp_all add: draft_value_def from_secs_def as_secs_def nanos_per_sec_def)

lemma alone_quiet: "quiet_kv (reference_lib id) rw_secrets reference_client" by unfold_locales

theorem bao_set_then_query_witness:
  "\<exists>s1 s2. writer_set (reference_lib id) reference_client cache_mapping draft_value (start []) = (Inr (), s1)
    \<and> provider_query (reference_lib id) reference_client cache_mapping (open_query False) (orders_ns (Some ''draft'')) (Key ''a/b'') s1
        = (Inr (Some (draft_value\<lparr> bv_ttl := Some 5000000000 \<rparr>)), s2)"
  using bao_set_then_query[OF alone_quiet start_facts(3) cache_plain draft_facts(4) start_facts(1), of "[]" "open_query False"]
  by (simp only: draft_facts)

theorem bao_move_takes_values_witness:
  "\<exists>s1 s2 s3 s4. writer_set (reference_lib id) reference_client cache_mapping draft_value (start []) = (Inr (), s1)
    \<and> writer_move (reference_lib id) reference_client cache_mapping
        \<lparr> sc_namespace_pattern = ''*'', sc_key_pattern = ''*'', sc_allow_context_move = True \<rparr>
        (orders_ns (Some ''draft'')) (orders_ns (Some ''final'')) s1 = (Inr (), s2)
    \<and> provider_query (reference_lib id) reference_client cache_mapping (open_query False) (orders_ns (Some ''final'')) (Key ''a/b'') s2
        = (Inr (Some (draft_value\<lparr> bv_namespace := orders_ns (Some ''final''), bv_ttl := Some 5000000000 \<rparr>)), s3)
    \<and> provider_query (reference_lib id) reference_client cache_mapping (open_query False) (orders_ns (Some ''draft'')) (Key ''a/b'') s2
        = (Inl (Configuration ''missing context collection''), s4)"
proof -
  let ?sc = "\<lparr> sc_namespace_pattern = ''*'', sc_key_pattern = ''*'', sc_allow_context_move = True \<rparr>"
  have valid: "validate_context_move (orders_ns (Some ''draft'')) (orders_ns (Some ''final'')) = Inr ()"
    and ctxs: "ctx (orders_ns (Some ''draft'')) = Some ''draft''" "ctx (orders_ns (Some ''final'')) = Some ''final''"
    and differ: "''draft'' \<noteq> ''final''" "sc_allow_context_move ?sc"
    by code_simp+
  show ?thesis
    using bao_move_takes_values[OF alone_quiet start_facts(3) cache_plain draft_facts(4) differ(2), unfolded draft_facts,
        OF valid ctxs differ(1) start_facts(1,2), of "[]" "open_query False"] .
qed

text \<open>
  Another adapter adds the context \<open>new\<close> between the read and the write of a move, which has to try twice.
\<close>

definition orders_index :: string where
  "orders_index = data_url (reference_lib foreign_write) reference_client (index_path cache_mapping ''/orders'')"

definition index_of :: "(string \<times> string) list \<Rightarrow> json" where
  "index_of entries = JObject [(''contexts'', JObject (map (\<lambda>(x, d). (x, JString d)) entries))]"

definition contended :: "reference_world bao_state" where
  "contended = (start [([], JNull), (orders_index, index_of [(''draft'', ''u7''), (''new'', ''u9'')])])
     \<lparr> bao_world := (bao_world (start [([], JNull), (orders_index, index_of [(''draft'', ''u7''), (''new'', ''u9'')])]))
         \<lparr> rw_secrets := (\<lambda>_. [])(orders_index := [Some (index_of [(''draft'', ''u7'')])]) \<rparr> \<rparr>"

definition moving :: store_config where
  "moving = \<lparr> sc_namespace_pattern = ''*'', sc_key_pattern = ''*'', sc_allow_context_move = True \<rparr>"

lemma shared_server: "kv_server (reference_lib foreign_write) rw_secrets only_writes" by unfold_locales

theorem context_move_is_atomic_witness:
  "let (r, s') = writer_move (reference_lib foreign_write) reference_client cache_mapping moving
       (orders_ns (Some ''draft'')) (orders_ns (Some ''final'')) contended in
   r = Inr () \<and> current (rw_secrets (bao_world s') orders_index) = Some (index_of [(''final'', ''u7''), (''new'', ''u9'')])
   \<and> keeps_versions only_writes orders_index
   \<and> index_done only_writes orders_index (index_moved ''draft'' ''final'')
       (\<lambda>index. Option.bind index (\<lambda>data. index_entry data ''draft'') = None) True
       (rw_secrets (bao_world contended)) (rw_secrets (bao_world s'))"
proof -
  let ?run = "writer_move (reference_lib foreign_write) reference_client cache_mapping moving
       (orders_ns (Some ''draft'')) (orders_ns (Some ''final'')) contended"
  have url: "endpoint (reference_lib foreign_write) reference_client
      (data_path reference_client (index_path cache_mapping (ns (orders_ns (Some ''draft''))))) = Inr orders_index"
    and ctxs: "the (ctx (orders_ns (Some ''draft''))) = ''draft''" "the (ctx (orders_ns (Some ''final''))) = ''final''"
    and r: "fst ?run = Inr ()"
    and index: "current (rw_secrets (bao_world (snd ?run)) orders_index) = Some (index_of [(''final'', ''u7''), (''new'', ''u9'')])"
    by code_simp+
  from context_move_is_atomic[OF shared_server url, of moving "orders_ns (Some ''final'')" contended, OF prod.collapse[symmetric]] r index
  show ?thesis by (simp add: ctxs split_beta only_writes_keeps_versions)
qed

theorem context_creation_keeps_entries_witness:
  "let (r, s') = ensure_path (reference_lib foreign_write) reference_client cache_mapping (orders_ns (Some ''final'')) (Key ''k'') contended in
   r = Inr ''cache/values/%2Forders/contexts/u0/k''
   \<and> current (rw_secrets (bao_world s') orders_index) = Some (index_of [(''draft'', ''u7''), (''final'', ''u0''), (''new'', ''u9'')])
   \<and> keeps_versions only_writes orders_index
   \<and> index_done only_writes orders_index (ensured (reference_lib foreign_write) cache_mapping (orders_ns (Some ''final'')) ''final'' (Key ''k'') r)
       (\<lambda>index. \<exists>collection. Option.bind index (index_collection ''final'') = Some collection
          \<and> located_path (reference_lib foreign_write) cache_mapping (orders_ns (Some ''final'')) (Key ''k'') (Some collection) = r) True
       (rw_secrets (bao_world contended)) (rw_secrets (bao_world s'))"
proof -
  let ?run = "ensure_path (reference_lib foreign_write) reference_client cache_mapping (orders_ns (Some ''final'')) (Key ''k'') contended"
  have url: "endpoint (reference_lib foreign_write) reference_client
      (data_path reference_client (index_path cache_mapping (ns (orders_ns (Some ''final''))))) = Inr orders_index"
    and x: "ctx (orders_ns (Some ''final'')) = Some ''final''"
    and r: "fst ?run = Inr ''cache/values/%2Forders/contexts/u0/k''"
    and index: "current (rw_secrets (bao_world (snd ?run)) orders_index)
      = Some (index_of [(''draft'', ''u7''), (''final'', ''u0''), (''new'', ''u9'')])"
    by code_simp+
  from context_creation_keeps_entries[OF shared_server url x, of "Key ''k''" contended, OF prod.collapse[symmetric]] r index
  show ?thesis by (simp add: split_beta only_writes_keeps_versions)
qed

text \<open>
  The condition on the metadata is needed: after another client has erased the index with its metadata and a third has
  created it anew, the version number of the new index is that of the old one, and a move that read the old index overwrites
  the new one.
\<close>

definition foreign_recreation :: "reference_world \<Rightarrow> reference_world" where
  "foreign_recreation w =
     (case rw_foreign w of
        [] \<Rightarrow> w
      | (url, data) # rest \<Rightarrow> w\<lparr> rw_secrets := (rw_secrets w)(url := [Some data]), rw_foreign := rest \<rparr>)"

lemma erased_index_is_overwritten:
  "let (r, s') = writer_move (reference_lib foreign_recreation) reference_client cache_mapping moving
       (orders_ns (Some ''draft'')) (orders_ns (Some ''final'')) contended in
   r = Inr () \<and> current (rw_secrets (bao_world s') orders_index) = Some (index_of [(''final'', ''u7'')])"
  by code_simp

text \<open>One principal, below the four segments of its digest (the reference digest of a key is the key).\<close>

definition sync_key :: key where
  "sync_key = Key (replicate 32 CHR ''A'')"

definition sync_digest :: string where
  "sync_digest = ''4141414141414141''"

definition sync_start :: "reference_world bao_state" where
  "sync_start =
     \<lparr> bao_world = \<lparr> rw_secrets = (\<lambda>_. [Some (encode_auth_document sync_key JNull None)]), rw_foreign = [], rw_draws = 0,
         rw_children = (\<lambda>url. if count_list url CHR ''4'' < 24 then [sync_digest @ ''/''] else [sync_digest]) \<rparr>,
       bao_token = Some ''token'' \<rparr>"

lemma those_strings: "those (map json_as_str (map JString xs)) = Some xs"
  by (induction xs) simp_all

lemma reference_list:
  "bao_token s \<noteq> None \<Longrightarrow> bao_list (reference_lib id) reference_client path s =
    (Inr (rw_children (bao_world s) (''https://bao/v1/'' @ escape_percent (''secret/metadata/'' @ path))), s)"
  by (auto simp: bao_list_def request_def endpoint_def send_request_def reference_lib_def reference_send_def reference_client_def
      or_error_def op_bind_def op_lift_def list_response_def is_success_def json_pointer_def ok_or_else_def Let_def those_strings
      simp del: map_map)

lemma sync_listing:
  "bao_list (reference_lib id) reference_client path sync_start =
    (Inr (if count_list path CHR ''4'' < 24 then [sync_digest @ ''/''] else [sync_digest]), sync_start)"
proof -
  have "count_list (escape_percent t) CHR ''4'' = count_list t CHR ''4''" for t by (induction t) (auto simp: escape_percent_def)
  then have "count_list (''https://bao/v1/'' @ escape_percent (''secret/metadata/'' @ path)) CHR ''4'' = count_list path CHR ''4''"
    by simp
  then show ?thesis using reference_list[of sync_start path] by (simp add: sync_start_def)
qed

lemma sync_segment:
  "strip_suffix ''/'' (sync_digest @ ''/'') = Some sync_digest" "ends_with ''/'' (sync_digest @ ''/'')"
  "strip_suffix ''/'' sync_digest = None" "\<not> ends_with ''/'' sync_digest" "length sync_digest = 16"
  "list_all (\<lambda>b. is_ascii_digit b \<or> byte_in 0x61 0x66 b) sync_digest" "count_list sync_digest CHR ''4'' = 8"
  by code_simp+

lemma sync_paths:
  assumes "count_list root CHR ''4'' = 0"
  shows "list_auth_paths (reference_lib id) reference_client [(root, 0, [])] [] sync_start =
    (Inr [(root @ concat (replicate 4 (CHR ''/'' # sync_digest)), replicate 4 sync_digest)], sync_start)"
proof -
  have four: "concat (replicate 4 (CHR ''/'' # sync_digest)) = CHR ''/'' # sync_digest @ CHR ''/'' # sync_digest @ CHR ''/'' # sync_digest @ CHR ''/'' # sync_digest"
    "replicate 4 sync_digest = [sync_digest, sync_digest, sync_digest, sync_digest]"
    by (simp_all add: eval_nat_numeral)
  show ?thesis
    unfolding four using assms by (simp add: sync_listing sync_segment)
qed

definition auth_ns :: namespace_context where
  "auth_ns = \<lparr> ns_value = ''/__auth'', ctx_start = None \<rparr>"

lemma sync_documents:
  "\<exists>s'. fetch_auth_documents (reference_lib id) reference_client auth_ns [(path, auth_key_parts (\<lambda>s. s) sync_key)] sync_start =
    (Inr [\<lparr> bv_namespace = auth_ns, bv_key = sync_key, bv_value = JNull, bv_ttl = None \<rparr>], s')"
  if "plain_path path"
proof -
  have read: "\<exists>s'. bao_read (reference_lib id) reference_client path sync_start =
      (Inr (Some \<lparr> vd_value = encode_auth_document sync_key JNull None, vd_version = 1 \<rparr>), s')"
    using alone.quiet_read[OF _ that, of sync_start] by (auto simp: sync_start_def found_def current_def)
  have "sha256 (reference_lib id) = (\<lambda>s. s)" by (simp add: reference_lib_def)
  moreover have "decode_auth_document (encode_auth_document sync_key JNull None) = Inr \<lparr> ad_key = key_str sync_key, ad_value = JNull, ad_ttl = None \<rparr>"
    "key_str sync_key \<noteq> []"
    by code_simp+
  ultimately show ?thesis using read by (auto simp: op_bind_def op_lift_def op_return_def or_error_def Key_new_def)
qed

lemma sync_fetch:
  "\<exists>s'. fetch_provider_values (reference_lib id) reference_client cache_mapping auth_ns sync_start =
    (Inr [\<lparr> bv_namespace = auth_ns, bv_key = sync_key, bv_value = JNull, bv_ttl = None \<rparr>], s')"
proof -
  let ?root = "root_collection_path cache_mapping auth_ns"
  have auth: "is_auth_namespace auth_ns" "ctx auth_ns = None" "count_list ?root CHR ''4'' = 0" "plain_path ?root"
    and plain: "plain_path sync_digest"
    by code_simp+
  have "hex_digit 4 = CHR ''4''" "hex_digit 1 = CHR ''1''" by code_simp+
  then have "hex_text (key_str sync_key) = concat (replicate 32 ''41'')"
    by (simp add: hex_text_def sync_key_def)
  moreover have "slice 0 16 (concat (replicate 32 ''41'')) = sync_digest" "slice 16 32 (concat (replicate 32 ''41'')) = sync_digest"
    "slice 32 48 (concat (replicate 32 ''41'')) = sync_digest" "slice 48 64 (concat (replicate 32 ''41'')) = sync_digest"
    by code_simp+
  ultimately have parts: "replicate 4 sync_digest = auth_key_parts (\<lambda>s. s) sync_key"
    by (simp add: auth_key_parts_def Let_def eval_nat_numeral)
  have "plain_path (?root @ concat (replicate 4 (CHR ''/'' # sync_digest)))"
    using auth(4) plain by (simp add: eval_nat_numeral)
  from sync_documents[OF this] sync_paths[OF auth(3)] show ?thesis
    by (auto simp: fetch_provider_values_def fetch_collection_def fetch_auth_provider_values_def auth op_bind_def op_return_def parts)
qed

end
