(* ===== verification/Client.thy ===== *)
theory Client
  imports Line_Protocol Broker_State
begin

text \<open>
  The client library (\<open>valkyr-client/src/lib.rs\<close>): its errors, the builder with failover, and the
  ordinary \<open>Client\<close>, whose requests share one connection. What tokio and rustls do is the record
  \<open>net_lib\<close>, an argument. A connection is a number; clones of a client share it and its \<open>poisoned\<close> flag.
  An \<open>await\<close> gives up control, so the library's functions take the whole state: other tasks may act
  in that time, \<open>lock_wait\<close> included. \<open>Elapsed\<close> is a deadline that has passed.
\<close>

section \<open>Errors\<close>

datatype client_error =
    ConnectionError string
  | TlsError string
  | FrameError string
  | ProtocolError string
  | Closed
  | RequestTimeout
  | ServerError string
  | UnexpectedResponse string
  | ClientConfiguration string
  | NoHealthyEndpoints
  | AuthenticationError string
  | AuthenticationPending nat

fun client_error_display :: "client_error \<Rightarrow> string" where
  "client_error_display (ConnectionError e) = ''connection failed: '' @ e"
| "client_error_display (TlsError e) = ''TLS handshake failed: '' @ e"
| "client_error_display (FrameError e) = ''protocol frame failed: '' @ e"
| "client_error_display (ProtocolError e) = ''invalid server response: '' @ e"
| "client_error_display Closed = ''server closed the connection''"
| "client_error_display RequestTimeout = ''server did not respond before the request timeout''"
| "client_error_display (ServerError e) = ''server error: '' @ e"
| "client_error_display (UnexpectedResponse e) = ''unexpected server response: '' @ e"
| "client_error_display (ClientConfiguration e) = ''invalid client configuration: '' @ e"
| "client_error_display NoHealthyEndpoints = ''all configured endpoints failed''"
| "client_error_display (AuthenticationError e) = ''server authentication failed: '' @ e"
| "client_error_display (AuthenticationPending ms) = ''authentication is warming; retry after '' @ show_nat ms @ ''ms''"

fun is_connection_failure :: "client_error \<Rightarrow> bool" where
  "is_connection_failure (ConnectionError _) = True"
| "is_connection_failure (FrameError _) = True"
| "is_connection_failure Closed = True"
| "is_connection_failure RequestTimeout = True"
| "is_connection_failure _ = False"

definition is_retryable :: "client_error \<Rightarrow> bool" where
  "is_retryable e \<longleftrightarrow> is_connection_failure e \<or> (case e of AuthenticationPending _ \<Rightarrow> True | _ \<Rightarrow> False)"

datatype schedule_lease = Acquired nat | Unavailable

section \<open>The network\<close>

datatype 'e timed = Elapsed | Within 'e

text \<open>A TLS configuration: the certificates trusted beside the public ones.\<close>

type_synonym tls_config = "string list"

record 'w client_state =
  cs_world :: 'w
  cs_poisoned :: "nat \<Rightarrow> bool"

record 'w net_lib =
  tcp_connect :: "duration option \<Rightarrow> string \<Rightarrow> (string timed, 'w client_state, nat) effect"
  tls_handshake :: "duration option \<Rightarrow> tls_config \<Rightarrow> string \<Rightarrow> nat \<Rightarrow> (string timed, 'w client_state, nat) effect"
  server_name_from :: "string \<Rightarrow> string + string"
  pem_certificates :: "string \<Rightarrow> string + string list"
  root_accepted :: "string \<Rightarrow> string + unit"
  lock_wait :: "nat \<Rightarrow> 'w client_state \<Rightarrow> 'w client_state"
  send_line :: "duration \<Rightarrow> nat \<Rightarrow> string \<Rightarrow> (string timed, 'w client_state, unit) effect"
  next_line :: "duration \<Rightarrow> nat \<Rightarrow> (string timed, 'w client_state, string option) effect"
  shutdown_io :: "nat \<Rightarrow> 'w client_state \<Rightarrow> 'w client_state"

type_synonym ('w, 'a) client_op = "(client_error, 'w client_state, 'a) effect"
type_synonym ('w, 'a) timed_op = "(client_error timed, 'w client_state, 'a) effect"

definition map_failure :: "('x \<Rightarrow> 'e) \<Rightarrow> ('x, 'b, 'a) effect \<Rightarrow> ('e, 'b, 'a) effect" where
  "map_failure f m b = (case m b of (r, b') \<Rightarrow> (or_error f r, b'))"

lemma map_failure_Inr [simp]: "map_failure f m b = (Inr x, b') \<longleftrightarrow> m b = (Inr x, b')"
  by (auto simp: map_failure_def split: prod.splits)

primrec map_timed :: "('x \<Rightarrow> 'e) \<Rightarrow> 'x timed \<Rightarrow> 'e timed" where
  "map_timed f Elapsed = Elapsed"
| "map_timed f (Within e) = Within (f e)"

section \<open>TLS configuration\<close>

definition rsplit_once :: "char \<Rightarrow> string \<Rightarrow> (string \<times> string) option" where
  "rsplit_once c s =
     (if c \<in> set s then Some (rev (tl (dropWhile (\<lambda>x. x \<noteq> c) (rev s))), rev (takeWhile (\<lambda>x. x \<noteq> c) (rev s))) else None)"

definition tls_host :: "string \<Rightarrow> string" where
  "tls_host address =
     (case Option.bind (strip_prefix ''['' address) (\<lambda>rest. map_option fst (split_once '']'' rest)) of
        Some host \<Rightarrow> host
      | None \<Rightarrow> (case rsplit_once (CHR '':'') address of Some (host, _) \<Rightarrow> host | None \<Rightarrow> address))"

definition tls_server_name :: "'w net_lib \<Rightarrow> string \<Rightarrow> client_error + string" where
  "tls_server_name lib address =
     or_error (\<lambda>e. ClientConfiguration (''invalid TLS server name '' @ [CHR 0x27] @ tls_host address @ [CHR 0x27] @ '': '' @ e))
       (server_name_from lib (tls_host address))"

definition verified_tls_config :: "'w net_lib \<Rightarrow> string option \<Rightarrow> client_error + tls_config" where
  "verified_tls_config lib ca =
     (case ca of
        None \<Rightarrow> Inr []
      | Some pem \<Rightarrow>
          (case pem_certificates lib pem of
             Inl e \<Rightarrow> Inl (ClientConfiguration (''invalid CA certificate PEM: '' @ e))
           | Inr certificates \<Rightarrow>
               if certificates = [] then Inl (ClientConfiguration ''CA certificate PEM contains no certificates'')
               else or_error (\<lambda>e. ClientConfiguration (''invalid CA certificate: '' @ e))
                      (case first_failure (map (root_accepted lib) certificates) of Inl e \<Rightarrow> Inl e | Inr _ \<Rightarrow> Inr certificates)))"

section \<open>Connecting\<close>

definition DEFAULT_REQUEST_TIMEOUT :: duration where
  "DEFAULT_REQUEST_TIMEOUT = from_secs 30"

record client =
  connection :: nat
  cl_request_timeout :: duration

definition from_io :: "nat \<Rightarrow> ('w, client) timed_op" where
  "from_io stream s =
     (Inr \<lparr> connection = stream, cl_request_timeout = DEFAULT_REQUEST_TIMEOUT \<rparr>,
      s\<lparr> cs_poisoned := (cs_poisoned s)(stream := False) \<rparr>)"

definition client_connect :: "'w net_lib \<Rightarrow> duration option \<Rightarrow> string \<Rightarrow> ('w, client) timed_op" where
  "client_connect lib deadline address =
     op_bind (map_failure (map_timed ConnectionError) (tcp_connect lib deadline address)) from_io"

definition connect_tls_with_server_name ::
    "'w net_lib \<Rightarrow> duration option \<Rightarrow> string \<Rightarrow> string \<Rightarrow> tls_config \<Rightarrow> ('w, client) timed_op" where
  "connect_tls_with_server_name lib deadline address name config =
     op_bind (map_failure (map_timed ConnectionError) (tcp_connect lib deadline address)) (\<lambda>stream.
     op_bind (map_failure (map_timed TlsError) (tls_handshake lib deadline config name stream)) from_io)"

definition connect_tls_with_config ::
    "'w net_lib \<Rightarrow> duration option \<Rightarrow> string \<Rightarrow> tls_config \<Rightarrow> ('w, client) timed_op" where
  "connect_tls_with_config lib deadline address config =
     op_bind (op_lift (or_error Within (tls_server_name lib address))) (\<lambda>name.
       connect_tls_with_server_name lib deadline address name config)"

definition connect_tls :: "'w net_lib \<Rightarrow> duration option \<Rightarrow> string \<Rightarrow> ('w, client) timed_op" where
  "connect_tls lib deadline address =
     op_bind (op_lift (or_error Within (verified_tls_config lib None))) (connect_tls_with_config lib deadline address)"

section \<open>Requests\<close>

definition poison_connection :: "'w net_lib \<Rightarrow> nat \<Rightarrow> 'w client_state \<Rightarrow> 'w client_state" where
  "poison_connection lib c s = shutdown_io lib c (s\<lparr> cs_poisoned := (cs_poisoned s)(c := True) \<rparr>)"

text \<open>Sending a line and reading the next one, under one deadline.\<close>

definition exchange :: "'w net_lib \<Rightarrow> client \<Rightarrow> string \<Rightarrow> ('w, string) timed_op" where
  "exchange lib c line =
     op_bind (map_failure (map_timed FrameError) (send_line lib (cl_request_timeout c) (connection c) line)) (\<lambda>_.
     op_bind (map_failure (map_timed FrameError) (next_line lib (cl_request_timeout c) (connection c))) (\<lambda>answer.
       op_lift (ok_or_else (Within Closed) answer)))"

fun response_result :: "response \<Rightarrow> client_error + response" where
  "response_result (RError message) = Inl (ServerError message)"
| "response_result (AuthFailure message) = Inl (AuthenticationError message)"
| "response_result r = Inr r"

definition client_request :: "codec \<Rightarrow> 'w net_lib \<Rightarrow> client \<Rightarrow> command \<Rightarrow> ('w, response) client_op" where
  "client_request cd lib c cmd s =
     (if cs_poisoned s (connection c) then (Inl Closed, s)
      else case encode_command cd cmd of
        Inl e \<Rightarrow> (Inl (ProtocolError (error_display e)), s)
      | Inr encoded \<Rightarrow>
          (let s = lock_wait lib (connection c) s in
           if cs_poisoned s (connection c) then (Inl Closed, s)
           else case exchange lib c encoded s of
             (Inl (Within e), s) \<Rightarrow> (Inl e, poison_connection lib (connection c) s)
           | (Inl Elapsed, s) \<Rightarrow> (Inl RequestTimeout, poison_connection lib (connection c) s)
           | (Inr line, s) \<Rightarrow>
               (case decode_response cd cmd line of
                  Inl e \<Rightarrow> (Inl (ProtocolError (error_display e)), poison_connection lib (connection c) s)
                | Inr r \<Rightarrow> (response_result r, s))))"

text \<open>A request that expects one kind of response.\<close>

definition expect :: "string \<Rightarrow> (response \<Rightarrow> 'a option) \<Rightarrow> ('w, response) client_op \<Rightarrow> ('w, 'a) client_op" where
  "expect wanted f m = op_bind m (\<lambda>r. op_lift (ok_or_else (UnexpectedResponse wanted) (f r)))"

fun if_ok :: "response \<Rightarrow> unit option" where
  "if_ok ROk = Some ()"
| "if_ok _ = None"

definition client_authenticate :: "codec \<Rightarrow> 'w net_lib \<Rightarrow> client \<Rightarrow> string \<Rightarrow> uuid option \<Rightarrow> ('w, unit) client_op" where
  "client_authenticate cd lib c api_key instance' =
     op_bind (client_request cd lib c (Auth api_key instance')) (\<lambda>r.
       case r of
         AuthSuccess _ _ \<Rightarrow> op_return ()
       | AuthPending retry \<Rightarrow> op_fail (AuthenticationPending retry)
       | _ \<Rightarrow> op_fail (UnexpectedResponse ''authentication success''))"

definition client_provide ::
    "codec \<Rightarrow> 'w net_lib \<Rightarrow> client \<Rightarrow> namespace_pattern \<Rightarrow> key_pattern \<Rightarrow> nat option \<Rightarrow> ('w, unit) client_op" where
  "client_provide cd lib c n k rate = expect ''ok'' if_ok (client_request cd lib c (Provide n k rate None None))"

definition provide_with_options ::
    "codec \<Rightarrow> 'w net_lib \<Rightarrow> client \<Rightarrow> namespace_pattern \<Rightarrow> key_pattern \<Rightarrow> provide_options \<Rightarrow> ('w, unit) client_op" where
  "provide_with_options cd lib c n k options =
     expect ''ok'' if_ok
       (client_request cd lib c (Provide n k (max_rate options) (Some (timeout_ms options)) (Some (miss_ttl_seconds options))))"

definition client_store :: "codec \<Rightarrow> 'w net_lib \<Rightarrow> client \<Rightarrow> namespace_pattern \<Rightarrow> key_pattern \<Rightarrow> ('w, unit) client_op" where
  "client_store cd lib c n k = expect ''ok'' if_ok (client_request cd lib c (Store n k))"

definition client_get :: "codec \<Rightarrow> 'w net_lib \<Rightarrow> client \<Rightarrow> namespace_context \<Rightarrow> key \<Rightarrow> ('w, json) client_op" where
  "client_get cd lib c n k =
     expect ''value'' (\<lambda>r. case r of RValue v _ \<Rightarrow> Some v | _ \<Rightarrow> None) (client_request cd lib c (Get n k))"

text \<open>The name of the lease namespace is not empty, so the \<open>expect\<close> on it never fails.\<close>

definition lease_route :: "namespace_context \<Rightarrow> client_error + namespace_context \<times> key" where
  "lease_route n =
     (case NamespaceContext_new LEASE_NAMESPACE of
        Inl e \<Rightarrow> Inl (ClientConfiguration (error_display e))
      | Inr ln \<Rightarrow>
          (case Key_new (as_str n) of Inl e \<Rightarrow> Inl (ClientConfiguration (error_display e)) | Inr k \<Rightarrow> Inr (ln, k)))"

fun lease_answer :: "response \<Rightarrow> schedule_lease option" where
  "lease_answer (RValue (JBool True) (Some ttl)) = (if ttl > 0 then Some (Acquired ttl) else None)"
| "lease_answer (RValue (JBool False) _) = Some Unavailable"
| "lease_answer _ = None"

definition acquire_schedule_lease :: "codec \<Rightarrow> 'w net_lib \<Rightarrow> client \<Rightarrow> namespace_context \<Rightarrow> ('w, schedule_lease) client_op" where
  "acquire_schedule_lease cd lib c n =
     op_bind (op_lift (lease_route n)) (\<lambda>(ln, k).
       expect ''schedule lease response'' lease_answer (client_request cd lib c (Get ln k)))"

definition client_set ::
    "codec \<Rightarrow> 'w net_lib \<Rightarrow> client \<Rightarrow> namespace_context \<Rightarrow> key \<Rightarrow> json \<Rightarrow> duration option \<Rightarrow> ('w, unit) client_op" where
  "client_set cd lib c n k v ttl = expect ''ok'' if_ok (client_request cd lib c (Set n k v (map_option as_secs ttl)))"

definition release_schedule_lease :: "codec \<Rightarrow> 'w net_lib \<Rightarrow> client \<Rightarrow> namespace_context \<Rightarrow> ('w, unit) client_op" where
  "release_schedule_lease cd lib c n =
     op_bind (op_lift (lease_route n)) (\<lambda>(ln, k). client_set cd lib c ln k (JNumber (PosInt 0)) None)"

definition client_set_batch ::
    "codec \<Rightarrow> 'w net_lib \<Rightarrow> client \<Rightarrow> namespace_context \<Rightarrow> set_entry list \<Rightarrow> duration option \<Rightarrow> ('w, unit) client_op" where
  "client_set_batch cd lib c n entries ttl =
     expect ''ok'' if_ok (client_request cd lib c (SetBatch n entries (map_option as_secs ttl)))"

definition client_delete ::
    "codec \<Rightarrow> 'w net_lib \<Rightarrow> client \<Rightarrow> namespace_context \<Rightarrow> key_pattern option \<Rightarrow> ('w, unit) client_op" where
  "client_delete cd lib c n p = expect ''ok'' if_ok (client_request cd lib c (Delete n p))"

definition client_move ::
    "codec \<Rightarrow> 'w net_lib \<Rightarrow> client \<Rightarrow> namespace_context \<Rightarrow> namespace_context \<Rightarrow> ('w, unit) client_op" where
  "client_move cd lib c src dst = expect ''ok'' if_ok (client_request cd lib c (Move src dst))"

definition client_ping :: "codec \<Rightarrow> 'w net_lib \<Rightarrow> client \<Rightarrow> ('w, unit) client_op" where
  "client_ping cd lib c =
     expect ''pong'' (\<lambda>r. case r of Pong \<Rightarrow> Some () | _ \<Rightarrow> None) (client_request cd lib c Ping)"

definition client_stats :: "codec \<Rightarrow> 'w net_lib \<Rightarrow> client \<Rightarrow> ('w, stats) client_op" where
  "client_stats cd lib c =
     expect ''stats'' (\<lambda>r. case r of RStats st \<Rightarrow> Some st | _ \<Rightarrow> None) (client_request cd lib c StatsCmd)"

section \<open>Builder\<close>

record server_endpoint =
  se_address :: string
  use_tls :: bool

definition endpoint_tcp :: "string \<Rightarrow> server_endpoint" where
  "endpoint_tcp address = \<lparr> se_address = address, use_tls = False \<rparr>"

definition endpoint_tls :: "string \<Rightarrow> server_endpoint" where
  "endpoint_tls address = \<lparr> se_address = address, use_tls = True \<rparr>"

record client_builder =
  cb_endpoints :: "server_endpoint list"
  cb_tls_configs :: "tls_config option list"
  cb_api_key :: "string option"
  cb_adapter_instance :: "uuid option"
  cb_connection_timeout :: duration
  cb_request_timeout :: duration

definition ClientBuilder_new :: client_builder where
  "ClientBuilder_new =
     \<lparr> cb_endpoints = [], cb_tls_configs = [], cb_api_key = None, cb_adapter_instance = None,
       cb_connection_timeout = from_secs 10, cb_request_timeout = DEFAULT_REQUEST_TIMEOUT \<rparr>"

definition builder_server :: "string \<Rightarrow> client_builder \<Rightarrow> client_builder" where
  "builder_server address b =
     b\<lparr> cb_endpoints := cb_endpoints b @ [endpoint_tcp address], cb_tls_configs := cb_tls_configs b @ [None] \<rparr>"

definition builder_tls_server :: "string \<Rightarrow> client_builder \<Rightarrow> client_builder" where
  "builder_tls_server address b =
     b\<lparr> cb_endpoints := cb_endpoints b @ [endpoint_tls address], cb_tls_configs := cb_tls_configs b @ [None] \<rparr>"

definition builder_tls_server_with_config :: "string \<Rightarrow> tls_config \<Rightarrow> client_builder \<Rightarrow> client_builder" where
  "builder_tls_server_with_config address config b =
     b\<lparr> cb_endpoints := cb_endpoints b @ [endpoint_tls address], cb_tls_configs := cb_tls_configs b @ [Some config] \<rparr>"

definition builder_endpoints :: "server_endpoint list \<Rightarrow> client_builder \<Rightarrow> client_builder" where
  "builder_endpoints es b = b\<lparr> cb_endpoints := es, cb_tls_configs := replicate (length es) None \<rparr>"

definition builder_api_key :: "string \<Rightarrow> client_builder \<Rightarrow> client_builder" where
  "builder_api_key api_key b = b\<lparr> cb_api_key := Some api_key \<rparr>"

definition builder_adapter_instance :: "uuid \<Rightarrow> client_builder \<Rightarrow> client_builder" where
  "builder_adapter_instance i b = b\<lparr> cb_adapter_instance := Some i \<rparr>"

definition builder_request_timeout :: "duration \<Rightarrow> client_builder \<Rightarrow> client_builder" where
  "builder_request_timeout timeout' b = b\<lparr> cb_request_timeout := timeout' \<rparr>"

definition builder_connection_timeout :: "duration \<Rightarrow> client_builder \<Rightarrow> client_builder" where
  "builder_connection_timeout timeout' b = b\<lparr> cb_connection_timeout := timeout' \<rparr>"

definition open_endpoint ::
    "'w net_lib \<Rightarrow> duration \<Rightarrow> server_endpoint \<Rightarrow> tls_config option \<Rightarrow> ('w, client) timed_op" where
  "open_endpoint lib deadline e config =
     (if use_tls e
      then (case config of
              Some cfg \<Rightarrow> connect_tls_with_config lib (Some deadline) (se_address e) cfg
            | None \<Rightarrow> connect_tls lib (Some deadline) (se_address e))
      else client_connect lib (Some deadline) (se_address e))"

fun try_endpoints ::
    "codec \<Rightarrow> 'w net_lib \<Rightarrow> client_builder \<Rightarrow> string \<Rightarrow> (server_endpoint \<times> tls_config option) list \<Rightarrow> ('w, client) client_op" where
  "try_endpoints cd lib b api_key [] s = (Inl NoHealthyEndpoints, s)"
| "try_endpoints cd lib b api_key ((e, config) # rest) s =
     (case open_endpoint lib (cb_connection_timeout b) e config s of
        (Inl _, s) \<Rightarrow> try_endpoints cd lib b api_key rest s
      | (Inr c, s) \<Rightarrow>
          (let c = c\<lparr> cl_request_timeout := cb_request_timeout b \<rparr> in
           case client_authenticate cd lib c api_key (cb_adapter_instance b) s of
             (Inr _, s) \<Rightarrow> (Inr c, s)
           | (Inl _, s) \<Rightarrow> try_endpoints cd lib b api_key rest s))"

definition builder_connect :: "codec \<Rightarrow> 'w net_lib \<Rightarrow> client_builder \<Rightarrow> ('w, client) client_op" where
  "builder_connect cd lib b =
     (if cb_endpoints b = [] then op_fail (ClientConfiguration ''at least one endpoint is required'')
      else case cb_api_key b of
        None \<Rightarrow> op_fail (ClientConfiguration ''an API key is required'')
      | Some api_key \<Rightarrow> try_endpoints cd lib b api_key (zip (cb_endpoints b) (cb_tls_configs b)))"

end
