(* ===== verification/Client_Connection.thy ===== *)
theory Client_Connection
  imports Client Line_Codec "HOL-Library.Sublist"
begin

text \<open>
  The ordinary client over a connection to a server that answers every line with one line, in order
  (locale \<open>ordered_connection\<close>). While a client waits for the lock, other holders of the connection
  may use it. If they let their requests run to the end (locale \<open>shared_connection\<close>), they leave no line unanswered: that is the
  relation \<open>shared_step\<close>, which every request that runs to its end is shown to respect. A request that is
  dropped while it waits for its answer does not (\<open>dropped_request\<close>).
\<close>

lemma sample_answer:
  assumes "encode_response sample_codec c r = Inr f" and "answer_allowed c r" and "wf_response (\<lambda>v. v \<in> set sample_values) r"
    and "safe_response c r" and "length f \<le> MAX_FRAME_BYTES"
  shows "decode_response sample_codec c f = Inr r"
  using sample_codec.response_roundtrip[OF assms(2,3)] assms(1,4,5) by (metis sum.inject(2))

section \<open>The outcomes of a request\<close>

lemma client_request_cases:
  assumes req: "client_request cd lib cl cmd s = (r, s')"
  obtains (poisoned) "cs_poisoned s (connection cl)" "r = Inl Closed" "s' = s"
    | (unencoded) e where "\<not> cs_poisoned s (connection cl)" "encode_command cd cmd = Inl e" "r = Inl (ProtocolError (error_display e))"
        "s' = s"
    | (late) "\<not> cs_poisoned s (connection cl)" "cs_poisoned s' (connection cl)" "r = Inl Closed"
        "s' = lock_wait lib (connection cl) s"
    | (failed) e s2 line x where "\<not> cs_poisoned s (connection cl)" "r = Inl e" "s' = poison_connection lib (connection cl) s2"
        "exchange lib cl line (lock_wait lib (connection cl) s) = (x, s2)"
    | (answered) line answer resp where "\<not> cs_poisoned s (connection cl)" "encode_command cd cmd = Inr line"
        "\<not> cs_poisoned (lock_wait lib (connection cl) s) (connection cl)"
        "exchange lib cl line (lock_wait lib (connection cl) s) = (Inr answer, s')" "decode_response cd cmd answer = Inr resp"
        "r = response_result resp"
proof (cases "cs_poisoned s (connection cl)")
  case True
  with req have "r = Inl Closed" "s' = s" by (simp_all add: client_request_def)
  with True show ?thesis by (rule poisoned)
next
  case healthy: False
  show ?thesis
  proof (cases "encode_command cd cmd")
    case (Inl e)
    with healthy req have "r = Inl (ProtocolError (error_display e))" "s' = s" by (simp_all add: client_request_def)
    with healthy Inl show ?thesis by (rule unencoded)
  next
    case (Inr line)
    obtain x s2 where ex: "exchange lib cl line (lock_wait lib (connection cl) s) = (x, s2)" by force
    show ?thesis
    proof (cases "cs_poisoned (lock_wait lib (connection cl) s) (connection cl)")
      case True
      with healthy req Inr have "r = Inl Closed" "s' = lock_wait lib (connection cl) s" by (simp_all add: client_request_def Let_def)
      with healthy True show ?thesis by (intro late) simp_all
    next
      case lock: False
      have "(\<exists>e. r = Inl e \<and> s' = poison_connection lib (connection cl) s2)
        \<or> (\<exists>answer resp. x = Inr answer \<and> s' = s2 \<and> decode_response cd cmd answer = Inr resp \<and> r = response_result resp)"
        using req healthy lock Inr ex
        by (auto simp: client_request_def Let_def split: sum.splits timed.splits)
      then show ?thesis
        using failed[OF healthy] answered[OF healthy Inr lock] ex by blast
    qed
  qed
qed

section \<open>Interface\<close>

text \<open>Between requests of a healthy client every line sent has been answered.\<close>

definition settled ::
    "(nat \<Rightarrow> 'w \<Rightarrow> string list) \<Rightarrow> (nat \<Rightarrow> 'w \<Rightarrow> nat) \<Rightarrow> nat \<Rightarrow> 'w client_state \<Rightarrow> bool" where
  "settled sent taken c s \<longleftrightarrow> \<not> cs_poisoned s c \<longrightarrow> taken c (cs_world s) = length (sent c (cs_world s))"

definition shared_step ::
    "(nat \<Rightarrow> 'w \<Rightarrow> string list) \<Rightarrow> (nat \<Rightarrow> 'w \<Rightarrow> nat) \<Rightarrow> nat
      \<Rightarrow> 'w client_state \<Rightarrow> 'w client_state \<Rightarrow> bool" where
  "shared_step sent taken c s s' \<longleftrightarrow>
     (settled sent taken c s \<longrightarrow> settled sent taken c s')
     \<and> (cs_poisoned s c \<longrightarrow> cs_poisoned s' c \<and> sent c (cs_world s') = sent c (cs_world s))
     \<and> prefix (sent c (cs_world s)) (sent c (cs_world s'))"

lemma shared_step_refl [simp]: "shared_step sent taken c s s"
  by (simp add: shared_step_def)

lemma shared_step_trans:
  "shared_step sent taken c s s1 \<Longrightarrow> shared_step sent taken c s1 s2 \<Longrightarrow> shared_step sent taken c s s2"
  by (auto simp: shared_step_def intro: prefix_order.trans)

text \<open>A result that is the server's answer to the command's own line, which is the last of the lines sent.\<close>

definition own_answer ::
    "codec \<Rightarrow> (string list \<Rightarrow> string) \<Rightarrow> string list \<Rightarrow> command \<Rightarrow> client_error + response \<Rightarrow> bool" where
  "own_answer cd reply lines cmd r \<longleftrightarrow>
     (\<exists>before line resp. encode_command cd cmd = Inr line \<and> lines = before @ [line]
        \<and> decode_response cd cmd (reply lines) = Inr resp \<and> r = response_result resp)"

text \<open>Requests one after the other, each with the state it leaves.\<close>

fun run_requests ::
    "codec \<Rightarrow> 'w net_lib \<Rightarrow> client \<Rightarrow> command list \<Rightarrow> 'w client_state \<Rightarrow> ((client_error + response) \<times> 'w client_state) list" where
  "run_requests cd lib cl [] s = []"
| "run_requests cd lib cl (cmd # cmds) s =
     (case client_request cd lib cl cmd s of (r, s1) \<Rightarrow> (r, s1) # run_requests cd lib cl cmds s1)"

text \<open>
  A request whose future is dropped while it waits for the answer (by a caller's timeout or \<open>select!\<close>): its line is on the
  way, the lock is released and the connection is not poisoned.
\<close>

definition dropped_request :: "codec \<Rightarrow> 'w net_lib \<Rightarrow> client \<Rightarrow> command \<Rightarrow> 'w client_state \<Rightarrow> 'w client_state" where
  "dropped_request cd lib c cmd s =
     (if cs_poisoned s (connection c) then s
      else case encode_command cd cmd of
        Inl _ \<Rightarrow> s
      | Inr encoded \<Rightarrow>
          (let s = lock_wait lib (connection c) s in
           if cs_poisoned s (connection c) then s
           else snd (send_line lib (cl_request_timeout c) (connection c) encoded s)))"

lemma run_requests_length [simp]: "length (run_requests cd lib cl cmds s) = length cmds"
  by (induction cmds arbitrary: s) (auto split: prod.splits)

text \<open>
  \<open>sent\<close> are the lines written to a connection, \<open>taken\<close> the number of lines read from it and \<open>reply\<close>
  the server's answer to the last of the lines it was sent. Others may write lines while a client waits for the lock, and
  may leave them unanswered.
\<close>

locale ordered_connection =
  fixes lib :: "'w net_lib"
    and sent :: "nat \<Rightarrow> 'w \<Rightarrow> string list"
    and taken :: "nat \<Rightarrow> 'w \<Rightarrow> nat"
    and reply :: "nat \<Rightarrow> string list \<Rightarrow> string"
  assumes send_grows: "send_line lib d c line s = (x, s') \<Longrightarrow> prefix (sent c (cs_world s)) (sent c (cs_world s'))"
    and next_grows: "next_line lib d c s = (y, s') \<Longrightarrow> prefix (sent c (cs_world s)) (sent c (cs_world s'))"
    and send_ok: "\<lbrakk>send_line lib d c line s = (Inr (), s'); \<not> cs_poisoned s c\<rbrakk>
      \<Longrightarrow> \<not> cs_poisoned s' c \<and> sent c (cs_world s') = sent c (cs_world s) @ [line] \<and> taken c (cs_world s') = taken c (cs_world s)"
    and next_ok: "\<lbrakk>next_line lib d c s = (Inr (Some line), s'); \<not> cs_poisoned s c\<rbrakk>
      \<Longrightarrow> \<not> cs_poisoned s' c \<and> taken c (cs_world s) < length (sent c (cs_world s)) \<and> line = reply c (take (Suc (taken c (cs_world s))) (sent c (cs_world s)))
          \<and> sent c (cs_world s') = sent c (cs_world s) \<and> taken c (cs_world s') = Suc (taken c (cs_world s))"
    and shutdown_ok: "cs_poisoned s c \<Longrightarrow> cs_poisoned (shutdown_io lib c s) c \<and> sent c (cs_world (shutdown_io lib c s)) = sent c (cs_world s)"
    and lock_grows: "prefix (sent c (cs_world s)) (sent c (cs_world (lock_wait lib c s)))"
    and lock_poisoned: "cs_poisoned s c \<Longrightarrow> cs_poisoned (lock_wait lib c s) c \<and> sent c (cs_world (lock_wait lib c s)) = sent c (cs_world s)"
begin

lemma exchange_answer:
  assumes "exchange lib cl line s = (Inr answer, s')" and "\<not> cs_poisoned s (connection cl)"
    and "settled sent taken (connection cl) s"
  shows "\<not> cs_poisoned s' (connection cl) \<and> sent (connection cl) (cs_world s') = sent (connection cl) (cs_world s) @ [line]
    \<and> settled sent taken (connection cl) s' \<and> answer = reply (connection cl) (sent (connection cl) (cs_world s'))"
proof -
  obtain s1 where snd: "send_line lib (cl_request_timeout cl) (connection cl) line s = (Inr (), s1)"
    and nxt: "next_line lib (cl_request_timeout cl) (connection cl) s1 = (Inr (Some answer), s')"
    using assms(1) by (auto simp: exchange_def op_bind_Inr_iff op_lift_def ok_or_else_def split: option.splits)
  show ?thesis
    using send_ok[OF snd assms(2)] next_ok[OF nxt] assms(2,3) by (auto simp: settled_def)
qed

lemma exchange_grows:
  assumes "exchange lib cl line s = (x, s')"
  shows "prefix (sent (connection cl) (cs_world s)) (sent (connection cl) (cs_world s'))"
proof -
  obtain y s1 where snd: "send_line lib (cl_request_timeout cl) (connection cl) line s = (y, s1)" by force
  obtain z s2 where nxt: "next_line lib (cl_request_timeout cl) (connection cl) s1 = (z, s2)" by force
  have "s' = s1 \<or> s' = s2"
    using assms snd nxt by (auto simp: exchange_def op_bind_def map_failure_def op_lift_def split: sum.splits)
  then show ?thesis using send_grows[OF snd] next_grows[OF nxt] by (auto intro: prefix_order.trans)
qed

lemma poison_ok:
  "cs_poisoned (poison_connection lib c s) c" "settled sent taken c (poison_connection lib c s)"
  "sent c (cs_world (poison_connection lib c s)) = sent c (cs_world s)"
  using shutdown_ok[of "s\<lparr> cs_poisoned := (cs_poisoned s)(c := True) \<rparr>" c]
  by (auto simp: poison_connection_def settled_def)

text \<open>
  Whoever reads next gets the reply to the first line that is not answered yet, whoever sent it: behind a line that nobody waits
  for, an exchange returns that line's late reply.
\<close>

lemma exchange_reads_next:
  assumes "exchange lib cl line s = (Inr answer, s')" and "\<not> cs_poisoned s (connection cl)"
  shows "answer = reply (connection cl) (take (Suc (taken (connection cl) (cs_world s))) (sent (connection cl) (cs_world s) @ [line]))"
proof -
  obtain s1 where snd: "send_line lib (cl_request_timeout cl) (connection cl) line s = (Inr (), s1)"
    and nxt: "next_line lib (cl_request_timeout cl) (connection cl) s1 = (Inr (Some answer), s')"
    using assms(1) by (auto simp: exchange_def op_bind_Inr_iff op_lift_def ok_or_else_def split: option.splits)
  show ?thesis using send_ok[OF snd assms(2)] next_ok[OF nxt] by auto
qed

text \<open>After a dropped request, an answer to the next request on the connection is the one to the line of the dropped one.\<close>

lemma request_after_drop:
  assumes "settled sent taken (connection cl) s" and "\<not> cs_poisoned s (connection cl)"
    and lock: "\<And>t. lock_wait lib (connection cl) t = t"
    and "encode_command cd cmd0 = Inr line0"
    and "send_line lib (cl_request_timeout cl) (connection cl) line0 s = (Inr (), s1)"
    and "client_request cd lib cl cmd (dropped_request cd lib cl cmd0 s) = (Inr r, s')"
  shows "decode_response cd cmd (reply (connection cl) (sent (connection cl) (cs_world s) @ [line0])) = Inr r"
proof -
  have s1: "dropped_request cd lib cl cmd0 s = s1" using assms(2,4,5) by (simp add: dropped_request_def lock)
  note sent1 = send_ok[OF assms(5,2)]
  show ?thesis
  proof (rule client_request_cases[OF assms(6)[unfolded s1]])
    fix line answer resp
    assume "exchange lib cl line (lock_wait lib (connection cl) s1) = (Inr answer, s')"
      "decode_response cd cmd answer = Inr resp" "Inr r = response_result resp"
    then show ?thesis
      using exchange_reads_next[of cl line s1 answer s'] sent1 assms(1,2) lock
      by (cases resp) (auto simp: settled_def)
  qed simp_all
qed

end

section \<open>Holders that let their requests run to the end\<close>

locale shared_connection = ordered_connection +
  assumes lock_settled: "settled sent taken c s \<Longrightarrow> settled sent taken c (lock_wait lib c s)"
begin

lemma lock_ok: "shared_step sent taken c s (lock_wait lib c s)"
  using lock_settled lock_grows lock_poisoned by (simp add: shared_step_def)

text \<open>
  What one request does: its result is the server's reply to its own line; or its command cannot be
  encoded and nothing is sent; or it fails and the client is poisoned.
\<close>

lemma request_cases:
  assumes "client_request cd lib cl cmd s = (r, s')" and "settled sent taken (connection cl) s"
  shows "settled sent taken (connection cl) s'"
    and "cs_poisoned s (connection cl) \<Longrightarrow> r = Inl Closed \<and> s' = s"
proof -
  have lock: "settled sent taken (connection cl) (lock_wait lib (connection cl) s)"
    using lock_ok[of "connection cl" s] assms(2) by (simp add: shared_step_def)
  show "settled sent taken (connection cl) s'"
    by (rule client_request_cases[OF assms(1)]) (use lock assms(2) exchange_answer poison_ok in auto)
  show "cs_poisoned s (connection cl) \<Longrightarrow> r = Inl Closed \<and> s' = s"
    by (rule client_request_cases[OF assms(1)]) auto
qed

lemma request_outcome:
  assumes "client_request cd lib cl cmd s = (r, s')" and "settled sent taken (connection cl) s"
  shows "own_answer cd (reply (connection cl)) (sent (connection cl) (cs_world s')) cmd r
        \<and> prefix (sent (connection cl) (cs_world s)) (butlast (sent (connection cl) (cs_world s')))
    \<or> (\<exists>e. encode_command cd cmd = Inl e \<and> r = Inl (ProtocolError (error_display e)) \<and> s' = s)
    \<or> (\<exists>e. r = Inl e) \<and> cs_poisoned s' (connection cl)"
proof (rule client_request_cases[OF assms(1)])
  fix line answer resp
  assume "encode_command cd cmd = Inr line" "\<not> cs_poisoned (lock_wait lib (connection cl) s) (connection cl)"
    "decode_response cd cmd answer = Inr resp" "r = response_result resp"
    "exchange lib cl line (lock_wait lib (connection cl) s) = (Inr answer, s')"
  moreover have "settled sent taken (connection cl) (lock_wait lib (connection cl) s)"
    using lock_ok[of "connection cl" s] assms(2) by (simp add: shared_step_def)
  ultimately show ?thesis
    using exchange_answer[of cl line "lock_wait lib (connection cl) s" answer s'] lock_grows[of "connection cl" s]
    by (auto simp: own_answer_def)
qed (use poison_ok in auto)

lemma request_shared_step:
  assumes "client_request cd lib cl cmd s = (r, s')"
  shows "shared_step sent taken (connection cl) s s'"
proof -
  have lock: "prefix (sent (connection cl) (cs_world s)) (sent (connection cl) (cs_world (lock_wait lib (connection cl) s)))"
    using lock_ok[of "connection cl" s] by (simp add: shared_step_def)
  have "prefix (sent (connection cl) (cs_world s)) (sent (connection cl) (cs_world s'))"
  proof (rule client_request_cases[OF assms])
    fix e s2 line x
    assume "s' = poison_connection lib (connection cl) s2" "exchange lib cl line (lock_wait lib (connection cl) s) = (x, s2)"
    then show ?thesis using lock exchange_grows poison_ok(3) by (metis prefix_order.trans)
  next
    fix line answer resp
    assume "exchange lib cl line (lock_wait lib (connection cl) s) = (Inr answer, s')"
    then show ?thesis using lock exchange_grows by (metis prefix_order.trans)
  qed (use lock in simp_all)
  then show ?thesis
    using request_cases(1,2)[OF assms] by (auto simp: shared_step_def settled_def)
qed

text \<open>Requests one after the other; other holders of the connection run in between at the lock.\<close>

lemma poisoned_requests:
  "cs_poisoned s (connection cl) \<Longrightarrow> run_requests cd lib cl cmds s = replicate (length cmds) (Inl Closed, s)"
  by (induction cmds) (auto simp: client_request_def)

lemma requests_answered:
  assumes "settled sent taken (connection cl) s" and "i < length cmds"
    and "run_requests cd lib cl cmds s ! i = (r, t)"
    and "t0 = (if i = 0 then s else snd (run_requests cd lib cl cmds s ! (i - 1)))"
  shows "own_answer cd (reply (connection cl)) (sent (connection cl) (cs_world t)) (cmds ! i) r
        \<and> prefix (sent (connection cl) (cs_world t0)) (butlast (sent (connection cl) (cs_world t)))
    \<or> (\<exists>e. encode_command cd (cmds ! i) = Inl e \<and> r = Inl (ProtocolError (error_display e)) \<and> t = t0)
    \<or> ((\<exists>e. r = Inl e) \<and> cs_poisoned t (connection cl)
        \<and> (\<forall>j. i < j \<and> j < length cmds \<longrightarrow> run_requests cd lib cl cmds s ! j = (Inl Closed, t)))"
  using assms
proof (induction cmds arbitrary: s i)
  case (Cons cmd cmds)
  obtain r1 s1 where req: "client_request cd lib cl cmd s = (r1, s1)" by force
  then have run: "run_requests cd lib cl (cmd # cmds) s = (r1, s1) # run_requests cd lib cl cmds s1" by simp
  show ?case
  proof (cases i)
    case (Suc k)
    have "t0 = (if k = 0 then s1 else snd (run_requests cd lib cl cmds s1 ! (k - 1)))"
      using Cons.prems(4) Suc run by (cases k) simp_all
    moreover have "run_requests cd lib cl cmds s1 ! k = (r, t)" using Cons.prems(3) Suc run by simp
    ultimately show ?thesis
      using Cons.IH[OF request_cases(1)[OF req Cons.prems(1)], of k] Cons.prems(2) Suc run
      by (auto simp: nth_Cons' less_Suc_eq_0_disj)
  next
    case 0
    then have "r = r1" "t = s1" "t0 = s" using Cons.prems(3,4) run by simp_all
    then show ?thesis
      using request_outcome[OF req Cons.prems(1)] 0 run poisoned_requests[of s1 cl cd cmds]
      by (auto simp: nth_Cons')
  qed
qed simp

end

section \<open>Connecting\<close>

locale connecting = shared_connection +
  assumes tcp_fresh: "tcp_connect lib d address s = (Inr c, s') \<Longrightarrow> sent c (cs_world s') = [] \<and> taken c (cs_world s') = 0"
    and tls_fresh: "tls_handshake lib d config name stream s = (Inr c, s') \<Longrightarrow> sent c (cs_world s') = [] \<and> taken c (cs_world s') = 0"
begin

lemma from_io_settled:
  assumes "from_io c s = (Inr cl, s')" and "sent c (cs_world s) = []" and "taken c (cs_world s) = 0"
  shows "settled sent taken (connection cl) s'"
  using assms by (auto simp: from_io_def settled_def)

lemma open_settled:
  assumes "open_endpoint lib d e config s = (Inr cl, s')"
  shows "settled sent taken (connection cl) s'"
proof -
  obtain c s1 where "from_io c s1 = (Inr cl, s')" "sent c (cs_world s1) = []" "taken c (cs_world s1) = 0"
    using assms tcp_fresh tls_fresh
    by (auto simp: open_endpoint_def client_connect_def connect_tls_def connect_tls_with_config_def connect_tls_with_server_name_def
        op_bind_Inr_iff op_lift_def split: if_splits option.splits)
  then show ?thesis by (rule from_io_settled)
qed

lemma authenticate_accepted:
  assumes "client_authenticate cd lib cl api_key inst s = (Inr (), s')" and "settled sent taken (connection cl) s"
  shows "settled sent taken (connection cl) s'"
    and "\<exists>client_id ttl. own_answer cd (reply (connection cl)) (sent (connection cl) (cs_world s')) (Auth api_key inst)
      (Inr (AuthSuccess client_id ttl))"
proof -
  obtain client_id ttl where req: "client_request cd lib cl (Auth api_key inst) s = (Inr (AuthSuccess client_id ttl), s')"
  proof -
    obtain r s1 where req: "client_request cd lib cl (Auth api_key inst) s = (Inr r, s1)"
      and rest: "(case r of AuthSuccess _ _ \<Rightarrow> op_return () | AuthPending retry \<Rightarrow> op_fail (AuthenticationPending retry)
         | _ \<Rightarrow> op_fail (UnexpectedResponse ''authentication success'')) s1 = (Inr (), s')"
      using assms(1) unfolding client_authenticate_def op_bind_Inr_iff by blast
    from rest req show ?thesis by (cases r) (auto simp: op_return_def op_fail_def intro: that)
  qed
  show "settled sent taken (connection cl) s'" by (rule request_cases(1)[OF req assms(2)])
  show "\<exists>client_id ttl. own_answer cd (reply (connection cl)) (sent (connection cl) (cs_world s')) (Auth api_key inst)
      (Inr (AuthSuccess client_id ttl))"
    using request_outcome[OF req assms(2)] by auto
qed

lemma try_endpoints_accepted:
  assumes "try_endpoints cd lib b api_key es s = (Inr cl, s')"
  shows "cl_request_timeout cl = cb_request_timeout b \<and> settled sent taken (connection cl) s'
    \<and> (\<exists>client_id ttl. own_answer cd (reply (connection cl)) (sent (connection cl) (cs_world s'))
          (Auth api_key (cb_adapter_instance b)) (Inr (AuthSuccess client_id ttl)))"
  using assms
proof (induction es arbitrary: s)
  case (Cons p rest)
  obtain e config where p: "p = (e, config)" by force
  note prem = Cons.prems[unfolded p]
  obtain r s1 where conn: "open_endpoint lib (cb_connection_timeout b) e config s = (r, s1)" by force
  show ?case
  proof (cases r)
    case (Inl x)
    then show ?thesis using Cons.IH prem conn by simp
  next
    case (Inr c)
    let ?c = "c\<lparr> cl_request_timeout := cb_request_timeout b \<rparr>"
    obtain a s2 where auth: "client_authenticate cd lib ?c api_key (cb_adapter_instance b) s1 = (a, s2)" by force
    show ?thesis
    proof (cases a)
      case (Inl x)
      then show ?thesis using Cons.IH prem conn auth Inr by simp
    next
      case (Inr u)
      then have "cl = ?c" "s2 = s'" using prem conn auth \<open>r = Inr c\<close> by (simp_all add: Let_def)
      moreover have "settled sent taken (connection ?c) s1" using open_settled conn \<open>r = Inr c\<close> by simp
      ultimately show ?thesis using authenticate_accepted[of cd ?c api_key "cb_adapter_instance b" s1 s'] auth Inr by simp
    qed
  qed
qed simp

end

lemma try_endpoints_error: "try_endpoints cd lib b api_key es s = (Inl e, s') \<Longrightarrow> e = NoHealthyEndpoints"
  by (induction cd lib b api_key es s rule: try_endpoints.induct) (auto simp: Let_def split: prod.splits sum.splits)

end
