(* ===== verification/Streaming_Client.thy ===== *)
theory Streaming_Client
  imports Client_Connection
begin

text \<open>
  \<open>StreamingClient\<close> of \<open>valkyr-client/src/lib.rs\<close>: requests and the background reader \<open>read_stream\<close>, which answers
  callbacks and hands responses to the waiting request. A step is what one task does between two points
  where it gives up control; requests exclude each other by the lock on the response channel, so at most one
  is past it (\<open>st_phase\<close>). The server answers the lines of requests in order (\<open>reply\<close>) and may send
  callbacks at any time. A request may be dropped by its caller at every \<open>await\<close>.
\<close>

section \<open>State\<close>

datatype request_phase = Idle | Pushed command string | Awaiting command

record stream =
  st_open :: bool
  st_pending :: "command list"
  st_responses :: "response list"
  st_reader :: bool
  st_poisoned :: bool
  st_phase :: request_phase
  st_sent :: "string list"
  st_taken :: nat
  st_results :: "string list"

text \<open>\<open>st_results\<close> are the lines with callback results; they do not count among the lines of requests.\<close>

definition new_stream :: stream where
  "new_stream = \<lparr> st_open = True, st_pending = [], st_responses = [], st_reader = True, st_poisoned = False, st_phase = Idle,
     st_sent = [], st_taken = 0, st_results = [] \<rparr>"

definition is_closed :: "stream \<Rightarrow> bool" where
  "is_closed st \<longleftrightarrow> st_poisoned st \<or> \<not> st_reader st"

section \<open>Requests\<close>

text \<open>The checks before the lock and after it, and the line to send.\<close>

definition stream_admit :: "codec \<Rightarrow> stream \<Rightarrow> command \<Rightarrow> client_error + string" where
  "stream_admit cd st cmd =
     (if st_poisoned st then Inl Closed
      else or_error (\<lambda>e. ProtocolError (error_display e)) (encode_command cd cmd))"

definition push_command :: "command \<Rightarrow> string \<Rightarrow> stream \<Rightarrow> stream" where
  "push_command cmd line st = st\<lparr> st_pending := st_pending st @ [cmd], st_phase := Pushed cmd line \<rparr>"

definition sent_command :: "command \<Rightarrow> string \<Rightarrow> stream \<Rightarrow> stream" where
  "sent_command cmd line st = st\<lparr> st_sent := st_sent st @ [line], st_phase := Awaiting cmd \<rparr>"

definition expire_request :: "stream \<Rightarrow> stream" where
  "expire_request st = st\<lparr> st_poisoned := True, st_open := False, st_reader := False, st_phase := Idle \<rparr>"

text \<open>\<open>connect_with_io\<close> looks only for an error of the authentication request.\<close>

definition connect_outcome :: "client_error + response \<Rightarrow> client_error + unit" where
  "connect_outcome r = (case r of Inl e \<Rightarrow> Inl e | Inr _ \<Rightarrow> Inr ())"

definition stream_provide :: "namespace_pattern \<Rightarrow> key_pattern \<Rightarrow> nat option \<Rightarrow> command" where
  "stream_provide n k rate = Provide n k rate None None"

definition stream_provide_with_options :: "namespace_pattern \<Rightarrow> key_pattern \<Rightarrow> provide_options \<Rightarrow> command" where
  "stream_provide_with_options n k options =
     Provide n k (max_rate options) (Some (timeout_ms options)) (Some (miss_ttl_seconds options))"

definition stream_store :: "namespace_pattern \<Rightarrow> key_pattern \<Rightarrow> command" where
  "stream_store n k = Store n k"

text \<open>How the three registrations read the result of their request.\<close>

definition registration_outcome :: "client_error + response \<Rightarrow> client_error + unit" where
  "registration_outcome r = (case r of Inl e \<Rightarrow> Inl e | Inr resp \<Rightarrow> ok_or_else (UnexpectedResponse ''ok'') (if_ok resp))"

section \<open>The reader\<close>

definition stop_reader :: "stream \<Rightarrow> stream" where
  "stop_reader st = st\<lparr> st_reader := False \<rparr>"

text \<open>
  A callback with the handler's result; \<open>ok\<close> tells whether the result could be written. The reader reads no
  other line while the handler runs, so the step is the moment at which the result is written.
\<close>

definition read_callback :: "codec \<Rightarrow> server_command \<Rightarrow> server_result \<Rightarrow> bool \<Rightarrow> stream \<Rightarrow> stream" where
  "read_callback cd c result ok st =
     (case encode_server_result cd c result of
        Inl _ \<Rightarrow> stop_reader st
      | Inr line \<Rightarrow>
          if \<not> st_open st then stop_reader st
          else if \<not> ok then stop_reader st
          else st\<lparr> st_results := st_results st @ [line] \<rparr>)"

definition read_answer_line :: "codec \<Rightarrow> string \<Rightarrow> stream \<Rightarrow> stream" where
  "read_answer_line cd line st =
     (case st_pending st of
        [] \<Rightarrow> stop_reader st
      | cmd # rest \<Rightarrow>
          (case decode_response cd cmd line of
             Inl _ \<Rightarrow> stop_reader (st\<lparr> st_pending := rest \<rparr>)
           | Inr r \<Rightarrow> st\<lparr> st_pending := rest, st_responses := st_responses st @ [r] \<rparr>))"

definition read_frame :: "codec \<Rightarrow> (server_command \<Rightarrow> server_result) \<Rightarrow> bool \<Rightarrow> string \<Rightarrow> stream \<Rightarrow> stream" where
  "read_frame cd handler ok line st =
     (case decode_server_command cd line of
        Inr c \<Rightarrow> read_callback cd c (handler c) ok st
      | Inl _ \<Rightarrow> read_answer_line cd line st)"

section \<open>Steps\<close>

datatype stream_event = Silent | Returned command "client_error + response" | Dropped command

inductive stream_step ::
    "codec \<Rightarrow> (string list \<Rightarrow> string) \<Rightarrow> stream \<Rightarrow> stream_event \<Rightarrow> stream \<Rightarrow> bool" for cd reply where
  refuse: "stream_admit cd st cmd = Inl e \<Longrightarrow> stream_step cd reply st (Returned cmd (Inl e)) st"
| push: "st_phase st = Idle \<Longrightarrow> stream_admit cd st cmd = Inr line \<Longrightarrow> stream_step cd reply st Silent (push_command cmd line st)"
| no_sink: "st_phase st = Pushed cmd line \<Longrightarrow> \<not> st_open st
    \<Longrightarrow> stream_step cd reply st (Returned cmd (Inl Closed)) (st\<lparr> st_phase := Idle \<rparr>)"
| send: "st_phase st = Pushed cmd line \<Longrightarrow> st_open st \<Longrightarrow> stream_step cd reply st Silent (sent_command cmd line st)"
| send_fails: "st_phase st = Pushed cmd line \<Longrightarrow> st_open st
    \<Longrightarrow> stream_step cd reply st (Returned cmd (Inl (FrameError e))) (st\<lparr> st_phase := Idle \<rparr>)"
| receive: "st_phase st = Awaiting cmd \<Longrightarrow> st_responses st = r # rs
    \<Longrightarrow> stream_step cd reply st (Returned cmd (response_result r)) (st\<lparr> st_responses := rs, st_phase := Idle \<rparr>)"
| receive_closed: "st_phase st = Awaiting cmd \<Longrightarrow> st_responses st = [] \<Longrightarrow> \<not> st_reader st
    \<Longrightarrow> stream_step cd reply st (Returned cmd (Inl Closed)) (st\<lparr> st_phase := Idle \<rparr>)"
| expire_push: "st_phase st = Pushed cmd line \<Longrightarrow> stream_step cd reply st (Returned cmd (Inl RequestTimeout)) (expire_request st)"
| expire: "st_phase st = Awaiting cmd \<Longrightarrow> stream_step cd reply st (Returned cmd (Inl RequestTimeout)) (expire_request st)"
| drop_push: "st_phase st = Pushed cmd line \<Longrightarrow> stream_step cd reply st (Dropped cmd) (st\<lparr> st_phase := Idle \<rparr>)"
| drop: "st_phase st = Awaiting cmd \<Longrightarrow> stream_step cd reply st (Dropped cmd) (st\<lparr> st_phase := Idle \<rparr>)"
| read_answer: "st_reader st \<Longrightarrow> st_taken st < length (st_sent st)
    \<Longrightarrow> stream_step cd reply st Silent
          (read_frame cd handler ok (reply (take (Suc (st_taken st)) (st_sent st))) (st\<lparr> st_taken := Suc (st_taken st) \<rparr>))"
| read_command: "st_reader st \<Longrightarrow> decode_server_command cd line = Inr c
    \<Longrightarrow> stream_step cd reply st Silent (read_frame cd handler ok line st)"
| read_end: "st_reader st \<Longrightarrow> stream_step cd reply st Silent (stop_reader st)"

inductive stream_run ::
    "codec \<Rightarrow> (string list \<Rightarrow> string) \<Rightarrow> stream_event list \<Rightarrow> stream \<Rightarrow> bool" for cd reply where
  start: "stream_run cd reply [] new_stream"
| step: "stream_run cd reply es st \<Longrightarrow> stream_step cd reply st e st' \<Longrightarrow> stream_run cd reply (es @ [e]) st'"

inductive_cases stream_stepE: "stream_step cd reply st e st'"

section \<open>Answers and requests\<close>

lemma answer_is_no_callback:
  assumes "decode_response cd cmd line = Inr r"
  shows "decode_server_command cd line \<noteq> Inr c"
proof
  assume callback: "decode_server_command cd line = Inr c"
  obtain t where t: "frame_tokens cd line = Inr t"
    using assms by (auto simp: decode_response_def and_then_Inr_iff)
  obtain w where w: "word_arg t 0 = Inr w"
    using assms t by (auto simp: decode_response_def and_then_Inr_iff split: if_splits)
  from assms t w have "w \<in> set [''OK'', ''SET'', ''MISS'', ''UNKNOWN'', ''PONG'', ''STATS'', ''KO'']"
    by (auto simp: decode_response_def split: if_splits)
  moreover from callback t w
  have "w \<in> set [''QUERY'', ''PERSIST_SET'', ''PERSIST_SET_BATCH'', ''PERSIST_DELETE'', ''PERSIST_MOVE'']"
    by (auto simp: decode_server_command_def and_then_Inr_iff split: if_splits)
  ultimately show False by auto
qed

text \<open>An event after which the answers still belong to the requests: nothing was left behind by a failed send or a drop.\<close>

fun undisturbed :: "stream_event \<Rightarrow> bool" where
  "undisturbed (Dropped _) = False"
| "undisturbed (Returned _ (Inl (FrameError _))) = False"
| "undisturbed _ = True"

definition answered_by :: "codec \<Rightarrow> (string list \<Rightarrow> string) \<Rightarrow> string list \<Rightarrow> command \<Rightarrow> response \<Rightarrow> bool" where
  "answered_by cd reply sent cmd r \<longleftrightarrow>
     (\<exists>before line. sent = before @ [line] \<and> encode_command cd cmd = Inr line) \<and> decode_response cd cmd (reply sent) = Inr r"

text \<open>The invariant: at most one request is unanswered, and what the channel holds answers the waiting request.\<close>

definition stream_inv :: "codec \<Rightarrow> (string list \<Rightarrow> string) \<Rightarrow> stream \<Rightarrow> bool" where
  "stream_inv cd reply st \<longleftrightarrow>
     (st_open st \<or> st_poisoned st) \<and> (st_poisoned st \<longrightarrow> st_phase st = Idle) \<and>
     (case st_phase st of
        Idle \<Rightarrow> (st_poisoned st \<or> st_responses st = []) \<and> (st_reader st \<longrightarrow> st_pending st = [] \<and> st_taken st = length (st_sent st))
      | Pushed cmd line \<Rightarrow>
          encode_command cd cmd = Inr line \<and> st_responses st = []
          \<and> (st_reader st \<longrightarrow> st_pending st = [cmd] \<and> st_taken st = length (st_sent st))
      | Awaiting cmd \<Rightarrow>
          (\<exists>before line. st_sent st = before @ [line] \<and> encode_command cd cmd = Inr line)
          \<and> (st_responses st = [] \<and> (st_reader st \<longrightarrow> st_pending st = [cmd] \<and> Suc (st_taken st) = length (st_sent st))
             \<or> (\<exists>r. st_responses st = [r] \<and> answered_by cd reply (st_sent st) cmd r
                  \<and> (st_reader st \<longrightarrow> st_pending st = [] \<and> st_taken st = length (st_sent st)))))"

lemma read_callback_fields [simp]:
  "st_phase (read_callback cd c result ok st) = st_phase st" "st_pending (read_callback cd c result ok st) = st_pending st"
  "st_responses (read_callback cd c result ok st) = st_responses st" "st_sent (read_callback cd c result ok st) = st_sent st"
  "st_taken (read_callback cd c result ok st) = st_taken st" "st_open (read_callback cd c result ok st) = st_open st"
  "st_poisoned (read_callback cd c result ok st) = st_poisoned st"
  by (simp_all add: read_callback_def stop_reader_def split: sum.splits)

lemma read_callback_reader: "st_reader (read_callback cd c result ok st) \<Longrightarrow> st_reader st"
  by (auto simp: read_callback_def stop_reader_def split: sum.splits if_splits)

lemma stream_inv_weaken:
  assumes "stream_inv cd reply st" "st_reader st' \<Longrightarrow> st_reader st" "st_phase st' = st_phase st" "st_pending st' = st_pending st"
    "st_responses st' = st_responses st" "st_sent st' = st_sent st" "st_taken st' = st_taken st" "st_open st' = st_open st"
    "st_poisoned st' = st_poisoned st"
  shows "stream_inv cd reply st'"
  using assms by (auto simp: stream_inv_def split: request_phase.splits)

definition answers_only :: "codec \<Rightarrow> (string list \<Rightarrow> string) \<Rightarrow> bool" where
  "answers_only cd reply \<longleftrightarrow> (\<forall>sent. \<exists>cmd r. decode_response cd cmd (reply sent) = Inr r)"

lemma read_answer_inv:
  assumes inv: "stream_inv cd reply st" and "answers_only cd reply" and "st_reader st" "st_taken st < length (st_sent st)"
  shows "stream_inv cd reply
    (read_frame cd handler ok (reply (take (Suc (st_taken st)) (st_sent st))) (st\<lparr> st_taken := Suc (st_taken st) \<rparr>))"
proof -
  obtain cmd' r' where "decode_response cd cmd' (reply (take (Suc (st_taken st)) (st_sent st))) = Inr r'"
    using assms(2) unfolding answers_only_def by blast
  then obtain e where no: "decode_server_command cd (reply (take (Suc (st_taken st)) (st_sent st))) = Inl e"
    using answer_is_no_callback by (cases "decode_server_command cd (reply (take (Suc (st_taken st)) (st_sent st)))") blast+
  obtain cmd where cmd: "st_phase st = Awaiting cmd" "st_pending st = [cmd]" "Suc (st_taken st) = length (st_sent st)" "st_responses st = []"
    using inv assms(3,4) by (auto simp: stream_inv_def split: request_phase.splits)
  show ?thesis
    using inv cmd no
    by (auto simp: read_frame_def read_answer_line_def stop_reader_def stream_inv_def answered_by_def split: sum.splits)
qed

lemma stream_step_inv:
  assumes "stream_step cd reply st e st'" "stream_inv cd reply st" "answers_only cd reply" "undisturbed e"
  shows "stream_inv cd reply st'"
  using assms
proof cases
  case (read_answer handler ok)
  then show ?thesis using read_answer_inv assms(2,3) by simp
next
  case (read_command line c handler ok)
  then have "st' = read_callback cd c (handler c) ok st" by (simp add: read_frame_def)
  then show ?thesis using assms(2) read_callback_reader by (auto intro: stream_inv_weaken)
qed (auto simp: stream_inv_def stream_admit_def push_command_def sent_command_def expire_request_def stop_reader_def
       split: if_splits request_phase.splits)

lemma stream_run_inv:
  "stream_run cd reply es st \<Longrightarrow> answers_only cd reply \<Longrightarrow> list_all undisturbed es \<Longrightarrow> stream_inv cd reply st"
proof (induction rule: stream_run.induct)
  case start
  then show ?case by (simp add: stream_inv_def new_stream_def)
next
  case (step es st e st')
  then show ?case using stream_step_inv by simp
qed

section \<open>Properties\<close>

lemma returned_answer:
  assumes inv: "stream_inv cd reply st" and "stream_step cd reply st (Returned cmd result) st'"
  shows "(\<exists>r. answered_by cd reply (st_sent st) cmd r \<and> result = response_result r)
    \<or> result \<in> {Inl Closed, Inl RequestTimeout} \<or> (\<exists>e. result = Inl (FrameError e))
    \<or> (\<exists>e. encode_command cd cmd = Inl e \<and> result = Inl (ProtocolError (error_display e)))"
  using assms(2)
proof cases
  case refuse
  then show ?thesis by (auto simp: stream_admit_def or_error_def split: if_splits sum.splits)
next
  case (receive r rs)
  then show ?thesis using inv by (auto simp: stream_inv_def)
qed simp_all

text \<open>
  C14. Requests of a streaming client get their own answers: in every interleaving of requests, callbacks and the
  reader, as long as no request was dropped by its caller or failed to be written, a request returns what
  the server's answer to its own line, the last line sent, decodes to; or the command cannot be
  encoded, the write fails, the time runs out or the connection is closed.
\<close>

theorem streaming_answer_is_own:
  assumes "stream_run cd reply es st" and "answers_only cd reply" and "list_all undisturbed es"
    and "stream_step cd reply st (Returned cmd result) st'"
  shows "(\<exists>r. answered_by cd reply (st_sent st) cmd r \<and> result = response_result r)
    \<or> result \<in> {Inl Closed, Inl RequestTimeout} \<or> (\<exists>e. result = Inl (FrameError e))
    \<or> (\<exists>e. encode_command cd cmd = Inl e \<and> result = Inl (ProtocolError (error_display e)))"
  using returned_answer[OF stream_run_inv[OF assms(1-3)] assms(4)] .

text \<open>A server that refuses the first command and answers the others.\<close>

definition busy_once :: "string list \<Rightarrow> string" where
  "busy_once lines = (if length lines = 1 then ''KO busy'' else ''PONG'')"

lemma busy_once_answers:
  "decode_response sample_codec Ping ''KO busy'' = Inr (RError ''busy'')" "decode_response sample_codec Ping ''PONG'' = Inr Pong"
proof -
  show "decode_response sample_codec Ping ''KO busy'' = Inr (RError ''busy'')"
    by (rule sample_answer) (simp_all add: encode_response.simps quote_def is_bare_def is_ascii_alphanumeric_def is_ascii_alphabetic_def
        is_ascii_digit_def wire_safe_def wire_byte_def MAX_FRAME_BYTES_def)
  show "decode_response sample_codec Ping ''PONG'' = Inr Pong"
    by (rule sample_answer) (simp_all add: encode_response.simps MAX_FRAME_BYTES_def)
qed

lemma busy_once_answers_only: "answers_only sample_codec busy_once"
  using busy_once_answers by (auto simp: answers_only_def busy_once_def)

definition after_ping :: stream where
  "after_ping = sent_command Ping ''PING'' (push_command Ping ''PING'' new_stream)"

lemma after_ping_run: "stream_run sample_codec busy_once [Silent, Silent] after_ping"
proof -
  have "stream_step sample_codec busy_once new_stream Silent (push_command Ping ''PING'' new_stream)"
    by (rule stream_step.push) (simp_all add: stream_admit_def new_stream_def or_error_def)
  with stream_run.start have "stream_run sample_codec busy_once ([] @ [Silent]) (push_command Ping ''PING'' new_stream)"
    by (rule stream_run.step)
  moreover have "stream_step sample_codec busy_once (push_command Ping ''PING'' new_stream) Silent after_ping"
    unfolding after_ping_def by (rule stream_step.send) (simp_all add: push_command_def new_stream_def)
  ultimately have "stream_run sample_codec busy_once (([] @ [Silent]) @ [Silent]) after_ping" by (rule stream_run.step)
  then show ?thesis by simp
qed

lemma stream_run_steps:
  "stream_run cd reply es st \<Longrightarrow> stream_step cd reply st e st' \<Longrightarrow> fs = es @ [e] \<Longrightarrow> stream_run cd reply fs st'"
  by (auto intro: stream_run.step)

text \<open>After a first answer was read for a \<open>PING\<close> that stands first in the queue.\<close>

lemma read_busy:
  assumes "st_reader st" "st_taken st = 0" "st_sent st = ''PING'' # rest" "st_pending st = Ping # pending"
  shows "stream_step sample_codec busy_once st Silent
    (st\<lparr> st_taken := 1, st_pending := pending, st_responses := st_responses st @ [RError ''busy''] \<rparr>)"
proof -
  have "decode_server_command sample_codec ''KO busy'' \<noteq> Inr c" for c
    by (rule answer_is_no_callback[OF busy_once_answers(1)])
  then obtain e where "decode_server_command sample_codec ''KO busy'' = Inl e"
    by (cases "decode_server_command sample_codec ''KO busy''") blast+
  then show ?thesis
    using stream_step.read_answer[of st sample_codec busy_once "\<lambda>_. Operation 0 None" True] assms
    by (simp add: busy_once_def read_frame_def read_answer_line_def busy_once_answers)
qed

definition busy_ping :: stream where
  "busy_ping = after_ping\<lparr> st_taken := 1, st_pending := [], st_responses := [RError ''busy''] \<rparr>"

lemmas ping_defs = after_ping_def sent_command_def push_command_def new_stream_def

theorem streaming_answer_is_own_witness:
  "stream_run sample_codec busy_once [Silent, Silent, Silent] busy_ping \<and>
   stream_step sample_codec busy_once busy_ping (Returned Ping (Inl (ServerError ''busy'')))
     (busy_ping\<lparr> st_responses := [], st_phase := Idle \<rparr>) \<and>
   (\<exists>r. answered_by sample_codec busy_once (st_sent busy_ping) Ping r \<and> response_result r = Inl (ServerError ''busy''))"
proof -
  have run: "stream_run sample_codec busy_once [Silent, Silent, Silent] busy_ping"
    using stream_run_steps[OF after_ping_run read_busy[of after_ping "[]" "[]"]] by (simp add: ping_defs busy_ping_def)
  have step: "stream_step sample_codec busy_once busy_ping (Returned Ping (Inl (ServerError ''busy'')))
      (busy_ping\<lparr> st_responses := [], st_phase := Idle \<rparr>)"
    using stream_step.receive[of busy_ping Ping "RError ''busy''" "[]" sample_codec busy_once] by (simp add: ping_defs busy_ping_def)
  show ?thesis
    using streaming_answer_is_own[OF run busy_once_answers_only _ step] run step by auto
qed

text \<open>
  A request dropped by its caller while it waits shifts the answers: the next request is handed the answer
  to the dropped one. The server refuses the first \<open>PING\<close>, whose request was dropped, and accepts the second, and the
  second request reports the refusal.
\<close>

theorem dropped_request_shifts_answers:
  "\<exists>st st'. stream_run sample_codec busy_once [Silent, Silent, Dropped Ping, Silent, Silent, Silent] st
     \<and> stream_step sample_codec busy_once st (Returned Ping (Inl (ServerError ''busy''))) st'
     \<and> st_sent st = [''PING'', ''PING''] \<and> decode_response sample_codec Ping (busy_once (st_sent st)) = Inr Pong"
proof -
  let ?idle = "after_ping\<lparr> st_phase := Idle \<rparr>"
  let ?pushed = "push_command Ping ''PING'' ?idle"
  let ?sent = "sent_command Ping ''PING'' ?pushed"
  let ?read = "?sent\<lparr> st_taken := 1, st_pending := [Ping], st_responses := [RError ''busy''] \<rparr>"
  have "stream_run sample_codec busy_once [Silent, Silent, Dropped Ping] ?idle"
    using stream_run_steps[OF after_ping_run stream_step.drop[of after_ping Ping]] by (simp add: ping_defs)
  moreover have "stream_step sample_codec busy_once ?idle Silent ?pushed"
    by (rule stream_step.push) (simp_all add: stream_admit_def or_error_def ping_defs)
  ultimately have "stream_run sample_codec busy_once [Silent, Silent, Dropped Ping, Silent] ?pushed"
    by (rule stream_run_steps) simp
  moreover have "stream_step sample_codec busy_once ?pushed Silent ?sent"
    by (rule stream_step.send) (simp_all add: ping_defs)
  ultimately have "stream_run sample_codec busy_once [Silent, Silent, Dropped Ping, Silent, Silent] ?sent"
    by (rule stream_run_steps) simp
  moreover have "stream_step sample_codec busy_once ?sent Silent ?read"
    using read_busy[of ?sent "[''PING'']" "[Ping]"] by (simp add: ping_defs)
  ultimately have "stream_run sample_codec busy_once [Silent, Silent, Dropped Ping, Silent, Silent, Silent] ?read"
    by (rule stream_run_steps) simp
  moreover have "stream_step sample_codec busy_once ?read (Returned Ping (Inl (ServerError ''busy'')))
      (?read\<lparr> st_responses := [], st_phase := Idle \<rparr>)"
    using stream_step.receive[of ?read Ping "RError ''busy''" "[]"] by (simp add: ping_defs)
  moreover have "st_sent ?read = [''PING'', ''PING'']" by (simp add: ping_defs)
  moreover have "decode_response sample_codec Ping (busy_once [''PING'', ''PING'']) = Inr Pong"
    by (simp add: busy_once_def busy_once_answers)
  ultimately show ?thesis by metis
qed

end
