(* ===== verification/Client_Properties.thy ===== *)
theory Client_Properties
  imports Streaming_Client
begin

text \<open>
  The properties of the ordinary client and of the builder, and a network in memory on which the
  interface \<open>connecting\<close> is met.
\<close>

section \<open>A network in memory\<close>

record wire =
  wire_next :: nat
  wire_lines :: "nat \<Rightarrow> string list"
  wire_taken :: "nat \<Rightarrow> nat"

definition wire_open :: "(string timed, wire client_state, nat) effect" where
  "wire_open s =
     (let w = cs_world s; c = wire_next w in
      (Inr c, s\<lparr> cs_world := w\<lparr> wire_next := Suc c, wire_lines := (wire_lines w)(c := []), wire_taken := (wire_taken w)(c := 0) \<rparr> \<rparr>))"

definition wire_send :: "nat \<Rightarrow> string \<Rightarrow> (string timed, wire client_state, unit) effect" where
  "wire_send c line s =
     (let w = cs_world s in (Inr (), s\<lparr> cs_world := w\<lparr> wire_lines := (wire_lines w)(c := wire_lines w c @ [line]) \<rparr> \<rparr>))"

definition wire_receive :: "(string list \<Rightarrow> string) \<Rightarrow> nat \<Rightarrow> (string timed, wire client_state, string option) effect" where
  "wire_receive server c s =
     (let w = cs_world s in
      if wire_taken w c < length (wire_lines w c)
      then (Inr (Some (server (take (Suc (wire_taken w c)) (wire_lines w c)))),
            s\<lparr> cs_world := w\<lparr> wire_taken := (wire_taken w)(c := Suc (wire_taken w c)) \<rparr> \<rparr>)
      else (Inl Elapsed, s))"

definition wire_lib :: "(string list \<Rightarrow> string) \<Rightarrow> wire net_lib" where
  "wire_lib server =
     \<lparr> tcp_connect = (\<lambda>_ _. wire_open), tls_handshake = (\<lambda>_ _ _ _. wire_open), server_name_from = Inr,
       pem_certificates = (\<lambda>pem. Inr [pem]), root_accepted = (\<lambda>_. Inr ()), lock_wait = (\<lambda>_ s. s),
       send_line = (\<lambda>_. wire_send), next_line = (\<lambda>_. wire_receive server), shutdown_io = (\<lambda>_ s. s) \<rparr>"

interpretation wire: connecting "wire_lib server" "\<lambda>c w. wire_lines w c" "\<lambda>c w. wire_taken w c" "\<lambda>_. server" for server
  by unfold_locales
    (auto simp: wire_lib_def wire_open_def wire_send_def wire_receive_def Let_def split: if_splits)

definition wire_after :: "nat \<Rightarrow> string \<Rightarrow> wire client_state \<Rightarrow> wire client_state" where
  "wire_after c line s =
     (let w = cs_world s in
      s\<lparr> cs_world := w\<lparr> wire_lines := (wire_lines w)(c := wire_lines w c @ [line]), wire_taken := (wire_taken w)(c := Suc (wire_taken w c)) \<rparr> \<rparr>)"

lemma wire_request:
  assumes "\<not> cs_poisoned s (connection cl)" and "wire_taken (cs_world s) (connection cl) = length (wire_lines (cs_world s) (connection cl))"
    and "encode_command cd cmd = Inr line" and "decode_response cd cmd (server (wire_lines (cs_world s) (connection cl) @ [line])) = Inr r"
  shows "client_request cd (wire_lib server) cl cmd s = (response_result r, wire_after (connection cl) line s)"
proof -
  have "exchange (wire_lib server) cl line s
      = (Inr (server (wire_lines (cs_world s) (connection cl) @ [line])), wire_after (connection cl) line s)"
    using assms(2) by (simp add: exchange_def op_bind_def map_failure_def or_error_def wire_lib_def wire_send_def wire_receive_def Let_def
        op_lift_def ok_or_else_def wire_after_def)
  then show ?thesis using assms(1,3,4) by (simp add: client_request_def Let_def wire_lib_def)
qed

definition fresh_wire :: "wire client_state" where
  "fresh_wire = \<lparr> cs_world = \<lparr> wire_next = 0, wire_lines = (\<lambda>_. []), wire_taken = (\<lambda>_. 0) \<rparr>, cs_poisoned = (\<lambda>_. False) \<rparr>"

section \<open>The client\<close>

text \<open>
  C13. Every result of a client is the server's answer to its own request, as long as every holder of the connection lets its requests
  run to their end (none is dropped while it waits for its answer): over any sequence of requests on a healthy
  connection that other holders of it use in between, a request returns what the server's reply to
  its own line decodes to, where that line is the last one on the connection when the request returns and was added by the
  request itself; or its command cannot be encoded and nothing happens; or it fails, the connection is poisoned and every later
  request returns \<open>Closed\<close>. The answer to a request that failed is never taken for that of another one.
\<close>

theorem client_answers_are_own:
  assumes "ordered_connection lib sent taken reply"
    and "\<And>c t. settled sent taken c t \<Longrightarrow> settled sent taken c (lock_wait lib c t)"
    and "\<not> cs_poisoned s (connection cl)" "taken (connection cl) (cs_world s) = length (sent (connection cl) (cs_world s))"
    and "rs = run_requests cd lib cl cmds s" and "i < length cmds" and "rs ! i = (r, t)"
    and "t0 = (if i = 0 then s else snd (rs ! (i - 1)))"
  shows "own_answer cd (reply (connection cl)) (sent (connection cl) (cs_world t)) (cmds ! i) r
        \<and> prefix (sent (connection cl) (cs_world t0)) (butlast (sent (connection cl) (cs_world t)))
    \<or> (\<exists>e. encode_command cd (cmds ! i) = Inl e \<and> r = Inl (ProtocolError (error_display e)) \<and> t = t0)
    \<or> ((\<exists>e. r = Inl e) \<and> cs_poisoned t (connection cl)
        \<and> (\<forall>j. i < j \<and> j < length cmds \<longrightarrow> rs ! j = (Inl Closed, t)))"
proof -
  have "shared_connection lib sent taken reply"
    using assms(1,2) by (simp add: shared_connection_def shared_connection_axioms_def)
  moreover have "settled sent taken (connection cl) s" using assms(4) by (simp add: settled_def)
  ultimately show ?thesis
    using shared_connection.requests_answered assms(5-8) by blast
qed

definition ping_client :: client where
  "ping_client = \<lparr> connection = 0, cl_request_timeout = DEFAULT_REQUEST_TIMEOUT \<rparr>"

text \<open>The server refuses the first of two requests and answers the second.\<close>

definition two_pings :: "((client_error + response) \<times> wire client_state) list" where
  "two_pings = run_requests sample_codec (wire_lib busy_once) ping_client [Ping, Ping] fresh_wire"

lemma two_pings:
  "two_pings = [(Inl (ServerError ''busy''), wire_after 0 ''PING'' fresh_wire),
     (Inr Pong, wire_after 0 ''PING'' (wire_after 0 ''PING'' fresh_wire))]"
proof -
  have first: "client_request sample_codec (wire_lib busy_once) ping_client Ping fresh_wire
      = (Inl (ServerError ''busy''), wire_after 0 ''PING'' fresh_wire)"
    using wire_request[of fresh_wire ping_client sample_codec Ping "''PING''" busy_once "RError ''busy''"]
    by (simp add: ping_client_def fresh_wire_def busy_once_def busy_once_answers)
  have second: "client_request sample_codec (wire_lib busy_once) ping_client Ping (wire_after 0 ''PING'' fresh_wire)
      = (Inr Pong, wire_after 0 ''PING'' (wire_after 0 ''PING'' fresh_wire))"
    using wire_request[of "wire_after 0 ''PING'' fresh_wire" ping_client sample_codec Ping "''PING''" busy_once Pong]
    by (simp add: ping_client_def fresh_wire_def wire_after_def Let_def busy_once_def busy_once_answers)
  show ?thesis by (simp add: two_pings_def first second)
qed

theorem client_answers_are_own_witness:
  "own_answer sample_codec busy_once [''PING'', ''PING''] Ping (Inr Pong)"
proof -
  let ?t = "wire_after 0 ''PING'' fresh_wire"
  from client_answers_are_own[OF wire.ordered_connection_axioms[of busy_once] _ _ _ refl, where cd = sample_codec and cl = ping_client
      and cmds = "[Ping, Ping]" and s = fresh_wire and i = 1 and r = "Inr Pong" and t = "wire_after 0 ''PING'' ?t" and t0 = ?t]
  show ?thesis
    unfolding two_pings[unfolded two_pings_def]
    by (simp add: ping_client_def fresh_wire_def wire_after_def Let_def wire_lib_def)
qed

text \<open>
  Without that condition it is false: behind a request that is dropped while it waits, the next request is handed the
  dropped request's answer. Here a PING is dropped and the server refuses it; the server's \<open>Pong\<close> is the answer to the
  second PING, which returns the refusal.
\<close>

lemma answer_of_dropped_ping:
  "fst (client_request sample_codec (wire_lib busy_once) ping_client Ping
      (dropped_request sample_codec (wire_lib busy_once) ping_client Ping fresh_wire)) = Inl (ServerError ''busy'')"
  by (simp add: client_request_def dropped_request_def exchange_def op_bind_def map_failure_def or_error_def wire_lib_def wire_send_def
      wire_receive_def Let_def op_lift_def ok_or_else_def ping_client_def fresh_wire_def busy_once_def busy_once_answers)

section \<open>The builder\<close>

text \<open>
  C18. Connecting gives an authenticated client or an error that is not worth a retry: a client that the builder
  returns has the builder's request timeout, no line of its connection is unanswered, and the server accepted an
  \<open>AUTH\<close> with the builder's key on it; otherwise the builder has no endpoint or no key, or every
  endpoint failed, which is reported as \<open>NoHealthyEndpoints\<close>, also when an endpoint asked to retry.
\<close>

theorem connected_client_is_authenticated:
  assumes "connecting lib sent taken reply" and "builder_connect cd lib b s = (r, s')"
  shows "case r of
      Inr cl \<Rightarrow> \<exists>api_key client_id ttl. cb_api_key b = Some api_key \<and> cl_request_timeout cl = cb_request_timeout b
        \<and> settled sent taken (connection cl) s'
        \<and> own_answer cd (reply (connection cl)) (sent (connection cl) (cs_world s')) (Auth api_key (cb_adapter_instance b))
            (Inr (AuthSuccess client_id ttl))
    | Inl e \<Rightarrow> \<not> is_retryable e
        \<and> (if cb_endpoints b = [] \<or> cb_api_key b = None then \<exists>m. e = ClientConfiguration m else e = NoHealthyEndpoints)"
proof (cases "cb_endpoints b = [] \<or> cb_api_key b = None")
  case True
  then show ?thesis
    using assms(2) by (auto simp: builder_connect_def op_fail_def is_retryable_def split: if_splits)
next
  case False
  then obtain api_key where key: "cb_api_key b = Some api_key" by blast
  then have "try_endpoints cd lib b api_key (zip (cb_endpoints b) (cb_tls_configs b)) s = (r, s')"
    using assms(2) False by (simp add: builder_connect_def)
  note tried = this
  show ?thesis
  proof (cases r)
    case (Inl e)
    with tried have "e = NoHealthyEndpoints" by (simp add: try_endpoints_error)
    with Inl False show ?thesis by (simp add: is_retryable_def)
  next
    case (Inr cl)
    with tried have "try_endpoints cd lib b api_key (zip (cb_endpoints b) (cb_tls_configs b)) s = (Inr cl, s')" by simp
    from connecting.try_endpoints_accepted[OF assms(1) this] show ?thesis using Inr key by auto
  qed
qed

definition sample_builder :: client_builder where
  "sample_builder = builder_api_key ''k'' (builder_server ''a:1'' ClientBuilder_new)"

definition accepting :: "string list \<Rightarrow> string" where
  "accepting lines = ''OK ada TTL 60''"

lemma accepting_answer: "decode_response sample_codec (Auth ''k'' None) ''OK ada TTL 60'' = Inr (AuthSuccess ''ada'' 60)"
  by (rule sample_answer)
    (simp_all add: encode_response.simps quote_def is_bare_def is_ascii_alphanumeric_def is_ascii_alphabetic_def
      is_ascii_digit_def show_nat.simps digit_char_numerals[simplified] wire_safe_def wire_byte_def MAX_FRAME_BYTES_def u64_max_def)

theorem connected_client_is_authenticated_witness:
  "\<exists>cl s'. builder_connect sample_codec (wire_lib accepting) sample_builder fresh_wire = (Inr cl, s')
     \<and> (\<exists>client_id ttl. own_answer sample_codec accepting (wire_lines (cs_world s') (connection cl)) (Auth ''k'' None)
          (Inr (AuthSuccess client_id ttl)))"
proof -
  obtain s1 where conn: "open_endpoint (wire_lib accepting) (from_secs 10) (endpoint_tcp ''a:1'') None fresh_wire
      = (Inr ping_client, s1)" and fresh: "\<not> cs_poisoned s1 0" "wire_lines (cs_world s1) 0 = []" "wire_taken (cs_world s1) 0 = 0"
    by (simp add: open_endpoint_def endpoint_tcp_def client_connect_def op_bind_def map_failure_def or_error_def wire_lib_def wire_open_def
        from_io_def Let_def ping_client_def fresh_wire_def)
  have "encode_command sample_codec (Auth ''k'' None) = Inr ''AUTH k''"
    by (simp add: quote_def is_bare_def is_ascii_alphanumeric_def is_ascii_alphabetic_def)
  then have "client_authenticate sample_codec (wire_lib accepting) ping_client ''k'' None s1 = (Inr (), wire_after 0 ''AUTH k'' s1)"
    using wire_request[of s1 ping_client sample_codec "Auth ''k'' None" "''AUTH k''" accepting "AuthSuccess ''ada'' 60"] fresh
    by (simp add: client_authenticate_def op_bind_def op_return_def ping_client_def accepting_def accepting_answer)
  with conn have "\<exists>cl s'. builder_connect sample_codec (wire_lib accepting) sample_builder fresh_wire = (Inr cl, s')"
    by (simp add: builder_connect_def sample_builder_def builder_api_key_def builder_server_def ClientBuilder_new_def ping_client_def)
  then obtain cl s' where "builder_connect sample_codec (wire_lib accepting) sample_builder fresh_wire = (Inr cl, s')" by blast
  with connected_client_is_authenticated[OF wire.connecting_axioms this] show ?thesis
    by (auto simp: sample_builder_def builder_api_key_def builder_server_def ClientBuilder_new_def)
qed

end
