(* ===== verification/Db_Config.thy ===== *)
theory Db_Config
  imports Client Durations
begin

text \<open>
  The configuration of the database adapter (\<open>valkyr-db-adapter/src/config.rs\<close>): its records, loading the
  credentials of the endpoints and validation. What the file system and the libraries for YAML, TLS and cron
  expressions decide are arguments. A \<open>BTreeMap\<close> is the list of its entries in the order of their
  names; every error of validation is the text of \<open>AdapterError::Configuration\<close>.
\<close>

section \<open>Errors\<close>

datatype db_error =
    SqlError string
  | TaskError string
  | RouteError error
  | JsonError string
  | Publish client_error
  | Replication string
  | DbConfiguration string
  | ConfigurationFile string

fun db_error_display :: "db_error \<Rightarrow> string" where
  "db_error_display (SqlError e) = ''SQL database operation failed: '' @ e"
| "db_error_display (TaskError e) = ''database task failed: '' @ e"
| "db_error_display (RouteError e) = ''row has an invalid route: '' @ error_display e"
| "db_error_display (JsonError e) = ''row contains invalid JSON: '' @ e"
| "db_error_display (Publish e) = ''publish failed: '' @ client_error_display e"
| "db_error_display (Replication e) = ''replication failed for endpoint(s): '' @ e"
| "db_error_display (DbConfiguration e) = ''invalid adapter configuration: '' @ e"
| "db_error_display (ConfigurationFile e) = ''configuration file failed: '' @ e"

section \<open>Records\<close>

datatype log_format = Pretty | JsonLog

record logging_config =
  log_level :: string
  log_format :: log_format
  log_target :: bool
  log_thread_names :: bool
  log_ansi :: bool

definition default_logging :: logging_config where
  "default_logging = \<lparr> log_level = ''info'', log_format = Pretty, log_target = False, log_thread_names = False, log_ansi = True \<rparr>"

record database_config =
  db_url :: string
  max_connections :: nat
  connection_timeout_seconds :: nat
  query_timeout_seconds :: nat

record valkyr_endpoint =
  ep_url :: string
  api_key_file :: string
  ca_certificate_file :: "string option"
  ep_api_key :: string
  ep_tls_config :: "tls_config option"

record valkyr_config =
  endpoints :: "valkyr_endpoint list"
  vc_provider_wait_timeout :: "duration option"
  vc_miss_cache_ttl :: "duration option"
  request_timeout :: duration
  max_retries :: nat

datatype yaml = YNull | YBool bool | YNumber "int option" "string option" | YString string | YOther

record provider_config =
  pc_namespace_pattern :: "string option"
  pc_key_pattern :: "string option"
  pc_query :: string
  pc_parameters :: "(string \<times> yaml) list"
  frequency :: string
  run_on_startup :: bool
  pc_ttl_seconds :: "nat option"
  pc_description :: "string option"

record db_query_config =
  dq_namespace_pattern :: string
  dq_key_pattern :: string
  dq_query :: string
  dq_parameters :: "string list"
  dq_description :: "string option"
  dq_timeout_seconds :: "nat option"
  dq_ttl_seconds :: "nat option"
  dq_provider_wait_timeout :: "duration option"
  dq_miss_cache_ttl :: "duration option"

record db_store_config =
  ds_namespace_pattern :: string
  ds_key_pattern :: string
  set_query :: string
  set_parameters :: "string list"
  delete_query :: string
  delete_parameters :: "string list"
  move_ns_query :: "string option"
  move_ns_pattern :: "string option"
  move_ns_parameters :: "string list"
  delete_ns_query :: "string option"
  delete_ns_parameters :: "string list"
  ds_timeout_seconds :: nat

record init_config =
  init_name :: string
  init_sql :: string
  init_timeout_seconds :: nat

record db_adapter_config =
  database :: database_config
  valkyr :: valkyr_config
  logging :: logging_config
  db_providers :: "(string \<times> provider_config) list"
  queries :: "(string \<times> db_query_config) list"
  db_stores :: "(string \<times> db_store_config) list"
  init :: "init_config list"

section \<open>Endpoints\<close>

definition endpoint_address :: "valkyr_endpoint \<Rightarrow> string" where
  "endpoint_address e =
     (case strip_prefix ''tcp://'' (ep_url e) of
        Some a \<Rightarrow> a
      | None \<Rightarrow> (case strip_prefix ''tls://'' (ep_url e) of Some a \<Rightarrow> a | None \<Rightarrow> ep_url e))"

definition uses_tls :: "valkyr_endpoint \<Rightarrow> bool" where
  "uses_tls e \<longleftrightarrow> starts_with ''tls://'' (ep_url e)"

text \<open>\<open>Path::join\<close> for a relative path.\<close>

definition path_join :: "string \<Rightarrow> string \<Rightarrow> string" where
  "path_join base path = (if base = [] then path else if last base = CHR ''/'' then base @ path else base @ ''/'' @ path)"

definition resolve_file :: "string \<Rightarrow> string \<Rightarrow> string" where
  "resolve_file base path = (if starts_with ''/'' path then path else path_join base path)"

text \<open>What the operating system answers; a file that cannot be read gives an error text.\<close>

record file_system =
  is_file :: "string \<Rightarrow> bool"
  read_file :: "string \<Rightarrow> string + string"

definition load_endpoint :: "file_system \<Rightarrow> 'w net_lib \<Rightarrow> string \<Rightarrow> valkyr_endpoint \<Rightarrow> db_error + valkyr_endpoint" where
  "load_endpoint fs lib base e =
     (let key_file = resolve_file base (api_key_file e);
          ca_file = map_option (resolve_file base) (ca_certificate_file e);
          e = e\<lparr> api_key_file := key_file, ca_certificate_file := ca_file \<rparr> in
      case read_file fs key_file of
        Inl err \<Rightarrow> Inl (ConfigurationFile err)
      | Inr contents \<Rightarrow>
          if trim contents = [] then Inl (DbConfiguration (''Valkyr API key file must not be empty: '' @ key_file))
          else (case ca_file of
                  None \<Rightarrow> Inr (e\<lparr> ep_api_key := trim contents, ep_tls_config := None \<rparr>)
                | Some file \<Rightarrow>
                    (case read_file fs file of
                       Inl err \<Rightarrow> Inl (ConfigurationFile err)
                     | Inr certificate \<Rightarrow>
                         (case verified_tls_config lib (Some certificate) of
                            Inl err \<Rightarrow> Inl (DbConfiguration (client_error_display err))
                          | Inr config \<Rightarrow> Inr (e\<lparr> ep_api_key := trim contents, ep_tls_config := Some config \<rparr>)))))"

text \<open>The client of an endpoint.\<close>

definition endpoint_client_builder :: "valkyr_endpoint \<Rightarrow> uuid \<Rightarrow> duration \<Rightarrow> client_builder" where
  "endpoint_client_builder e i timeout' =
     (let b = builder_request_timeout timeout' (builder_connection_timeout timeout'
            (builder_adapter_instance i (builder_api_key (ep_api_key e) ClientBuilder_new)))
      in if uses_tls e
         then (case ep_tls_config e of
                 Some config \<Rightarrow> builder_tls_server_with_config (endpoint_address e) config b
               | None \<Rightarrow> builder_tls_server (endpoint_address e) b)
         else builder_server (endpoint_address e) b)"

section \<open>Validation\<close>

definition validate_endpoint :: "file_system \<Rightarrow> nat \<Rightarrow> valkyr_endpoint \<Rightarrow> string + unit" where
  "validate_endpoint fs index e =
     (case (case split_once ''://'' (ep_url e) of None \<Rightarrow> ([], ep_url e) | Some p \<Rightarrow> p) of (scheme, address) \<Rightarrow>
      first_failure
        [check_that (scheme = [] \<or> scheme = ''tcp'' \<or> scheme = ''tls'')
           (''Valkyr endpoint '' @ show_nat index @ '' uses unsupported URL scheme '' @ [CHR 0x27] @ scheme @ [CHR 0x27]),
         check_that (trim address \<noteq> []) (''Valkyr endpoint '' @ show_nat index @ '' URL must not be empty''),
         check_that (is_file fs (api_key_file e)) (''Valkyr API key file does not exist: '' @ api_key_file e),
         check_that (ep_api_key e = [] \<or> trim (ep_api_key e) \<noteq> []) (''Valkyr API key file must not be empty: '' @ api_key_file e),
         check_that (ca_certificate_file e = None \<or> uses_tls e)
           (''Valkyr endpoint '' @ show_nat index @ '' has a CA certificate but is not TLS''),
         (case ca_certificate_file e of
            None \<Rightarrow> Inr ()
          | Some path \<Rightarrow> check_that (is_file fs path) (''Valkyr CA certificate file does not exist: '' @ path))])"

definition validate_wire_duration :: "string \<Rightarrow> duration option \<Rightarrow> (duration \<Rightarrow> string + nat) \<Rightarrow> string + unit" where
  "validate_wire_duration name value converter =
     (case value of
        None \<Rightarrow> Inr ()
      | Some d \<Rightarrow> (case converter d of Inl e \<Rightarrow> Inl (name @ '': '' @ e) | Inr _ \<Rightarrow> Inr ()))"

definition quoted_name :: "string \<Rightarrow> string" where
  "quoted_name name = [CHR 0x27] @ name @ [CHR 0x27]"

definition validate_callback_config :: "string \<Rightarrow> string \<Rightarrow> string \<Rightarrow> string \<Rightarrow> string + unit" where
  "validate_callback_config name namespace key query =
     check_that (trim namespace \<noteq> [] \<and> trim key \<noteq> [] \<and> trim query \<noteq> [])
       (''callback '' @ quoted_name name @ '' needs namespace_pattern, key_pattern, and query'')"

definition declared_parameters :: "string \<Rightarrow> string \<Rightarrow> string set" where
  "declared_parameters namespace_pattern key_pattern =
     insert ''context'' (capture_names (Pattern_new namespace_pattern) \<union> capture_names (Pattern_new key_pattern))"

definition validate_parameter_names :: "string \<Rightarrow> string \<Rightarrow> string list \<Rightarrow> string set \<Rightarrow> string + unit" where
  "validate_parameter_names callback operation' names allowed =
     first_failure (map (\<lambda>name. check_that (name \<in> allowed)
       (callback @ '' '' @ operation' @ '' parameter '' @ quoted_name name @ '' is not declared by its route'')) names)"

definition validate_query_parameters :: "string \<Rightarrow> db_query_config \<Rightarrow> string + unit" where
  "validate_query_parameters name q =
     validate_parameter_names name ''query'' (dq_parameters q)
       (declared_parameters (dq_namespace_pattern q) (dq_key_pattern q) \<union> {''namespace'', ''key''})"

definition validate_store_parameters :: "string \<Rightarrow> db_store_config \<Rightarrow> string + unit" where
  "validate_store_parameters name st =
     (let captures = declared_parameters (ds_namespace_pattern st) (ds_key_pattern st) in
      first_failure
        [validate_parameter_names name ''set'' (set_parameters st)
           (captures \<union> {''namespace'', ''key'', ''value'', ''ttl_seconds''}),
         validate_parameter_names name ''delete'' (delete_parameters st) (captures \<union> {''namespace'', ''key_pattern''}),
         validate_parameter_names name ''move'' (move_ns_parameters st)
           (captures \<union> (case move_ns_pattern st of None \<Rightarrow> {} | Some p \<Rightarrow> capture_names (Pattern_new p))
             \<union> {''namespace'', ''source_namespace'', ''destination_namespace'', ''source_context'', ''destination_context''}),
         validate_parameter_names name ''namespace delete'' (delete_ns_parameters st) (captures \<union> {''namespace''})])"

definition validate_store_operations :: "string \<Rightarrow> db_store_config \<Rightarrow> string + unit" where
  "validate_store_operations name st =
     first_failure
       [(case (move_ns_query st, move_ns_pattern st) of
           (None, Some _) \<Rightarrow> Inl (''store '' @ quoted_name name @ '' has move_ns_pattern without move_ns_query'')
         | (Some query, _) \<Rightarrow> check_that (trim query \<noteq> []) (''store '' @ quoted_name name @ '' has an empty move_ns_query'')
         | _ \<Rightarrow> Inr ()),
        check_that (move_ns_query st \<noteq> None \<or> move_ns_parameters st = [])
          (''store '' @ quoted_name name @ '' has move_ns_parameters without move_ns_query''),
        check_that (case delete_ns_query st of None \<Rightarrow> True | Some query \<Rightarrow> trim query \<noteq> [])
          (''store '' @ quoted_name name @ '' has an empty delete_ns_query''),
        check_that (delete_ns_query st \<noteq> None \<or> delete_ns_parameters st = [])
          (''store '' @ quoted_name name @ '' has delete_ns_parameters without delete_ns_query'')]"

definition validate_provider :: "(string \<Rightarrow> string + 'c) \<Rightarrow> string \<times> provider_config \<Rightarrow> string + unit" where
  "validate_provider cron entry = (case entry of (name, provider) \<Rightarrow>
     first_failure
       [check_that (trim (pc_query provider) \<noteq> []) (''provider '' @ quoted_name name @ '' has no query''),
        (case cron (frequency provider) of
           Inl e \<Rightarrow> Inl (''invalid provider cron '' @ quoted_name (frequency provider) @ '': '' @ e)
         | Inr _ \<Rightarrow> Inr ())])"

definition validate_query :: "string \<times> db_query_config \<Rightarrow> string + unit" where
  "validate_query entry = (case entry of (name, q) \<Rightarrow>
     first_failure
       [validate_callback_config name (dq_namespace_pattern q) (dq_key_pattern q) (dq_query q),
        check_that (dq_timeout_seconds q \<noteq> Some 0) (''query '' @ quoted_name name @ '' has a zero timeout''),
        validate_wire_duration (''query '' @ quoted_name name @ '' provider_wait_timeout'') (dq_provider_wait_timeout q) to_millis,
        validate_wire_duration (''query '' @ quoted_name name @ '' miss_cache_ttl'') (dq_miss_cache_ttl q) to_seconds,
        validate_query_parameters name q])"

definition validate_store :: "string \<times> db_store_config \<Rightarrow> string + unit" where
  "validate_store entry = (case entry of (name, st) \<Rightarrow>
     first_failure
       [validate_callback_config name (ds_namespace_pattern st) (ds_key_pattern st) (set_query st),
        check_that (trim (delete_query st) \<noteq> []) (''store '' @ quoted_name name @ '' has no delete_query''),
        check_that (ds_timeout_seconds st \<noteq> 0) (''store '' @ quoted_name name @ '' has a zero timeout''),
        validate_store_operations name st,
        validate_store_parameters name st])"

fun validate_init :: "string list \<Rightarrow> init_config list \<Rightarrow> string + unit" where
  "validate_init names [] = Inr ()"
| "validate_init names (statement # rest) =
     (if trim (init_name statement) = [] \<or> trim (init_sql statement) = [] \<or> init_timeout_seconds statement = 0
      then Inl ''init statements require name, SQL, and a non-zero timeout''
      else if init_name statement \<in> set names then Inl (''duplicate init statement '' @ quoted_name (init_name statement))
      else validate_init (init_name statement # names) rest)"

definition db_validate :: "file_system \<Rightarrow> (string \<Rightarrow> string + 'c) \<Rightarrow> db_adapter_config \<Rightarrow> string + unit" where
  "db_validate fs cron cfg =
     first_failure
       ([check_that (trim (db_url (database cfg)) \<noteq> []) ''database.url is required'',
         check_that (max_connections (database cfg) \<noteq> 0 \<and> connection_timeout_seconds (database cfg) \<noteq> 0
           \<and> query_timeout_seconds (database cfg) \<noteq> 0) ''database connection limits must be greater than zero'',
         check_that (endpoints (valkyr cfg) \<noteq> []) ''at least one Valkyr endpoint is required'']
        @ map (\<lambda>(i, e). validate_endpoint fs i e) (enumerate 0 (endpoints (valkyr cfg)))
        @ [check_that (request_timeout (valkyr cfg) \<noteq> 0) ''request_timeout must be greater than zero'',
           validate_wire_duration ''provider_wait_timeout'' (vc_provider_wait_timeout (valkyr cfg)) to_millis,
           validate_wire_duration ''miss_cache_ttl'' (vc_miss_cache_ttl (valkyr cfg)) to_seconds,
           check_that (max_retries (valkyr cfg) \<noteq> 0) ''max_retries must be greater than zero'',
           check_that (trim (log_level (logging cfg)) \<noteq> []) ''logging.level must not be empty'']
        @ map (validate_provider cron) (db_providers cfg)
        @ map validate_query (queries cfg)
        @ map validate_store (db_stores cfg)
        @ [validate_init [] (init cfg)])"

definition from_file ::
    "file_system \<Rightarrow> 'w net_lib \<Rightarrow> (string \<Rightarrow> string + db_adapter_config) \<Rightarrow> (string \<Rightarrow> string + 'c) \<Rightarrow> string \<Rightarrow> string
      \<Rightarrow> db_error + db_adapter_config" where
  "from_file fs lib yaml_from_str cron base path =
     (case read_file fs path of
        Inl err \<Rightarrow> Inl (ConfigurationFile err)
      | Inr content \<Rightarrow>
          (case yaml_from_str content of
             Inl err \<Rightarrow> Inl (DbConfiguration err)
           | Inr cfg \<Rightarrow>
               (case collect_results (load_endpoint fs lib base) (endpoints (valkyr cfg)) of
                  Inl err \<Rightarrow> Inl err
                | Inr es \<Rightarrow>
                    (let cfg = cfg\<lparr> valkyr := (valkyr cfg)\<lparr> endpoints := es \<rparr> \<rparr> in
                     case db_validate fs cron cfg of Inl err \<Rightarrow> Inl (DbConfiguration err) | Inr _ \<Rightarrow> Inr cfg))))"

section \<open>Options of a query\<close>

definition first_set :: "duration option \<Rightarrow> duration option \<Rightarrow> duration" where
  "first_set a b = (case a of Some d \<Rightarrow> d | None \<Rightarrow> (case b of Some d \<Rightarrow> d | None \<Rightarrow> 0))"

definition provider_options :: "valkyr_config \<Rightarrow> db_query_config \<Rightarrow> string + provide_options" where
  "provider_options vc q =
     (case to_millis (first_set (dq_provider_wait_timeout q) (vc_provider_wait_timeout vc)) of
        Inl e \<Rightarrow> Inl (''provider_wait_timeout: '' @ e)
      | Inr timeout' \<Rightarrow>
          (case to_seconds (first_set (dq_miss_cache_ttl q) (vc_miss_cache_ttl vc)) of
             Inl e \<Rightarrow> Inl (''miss_cache_ttl: '' @ e)
           | Inr miss \<Rightarrow> Inr \<lparr> max_rate = None, timeout_ms = timeout', miss_ttl_seconds = miss \<rparr>))"

end
