(* ===== verification/Db_Bridge.thy ===== *)
theory Db_Bridge
  imports Db_Config
begin

text \<open>
  The callbacks of the database adapter: \<open>sqlx_impl.rs\<close> (parameters, rows, statements, the query provider and the
  store writer) and \<open>bridge.rs\<close> (routing of callbacks, forwarding). The SQL library is the record \<open>db_lib\<close>, an argument; a
  row is what its getters answer. A statement runs under a deadline. \<open>db_spawned\<close> are the forwarding tasks a
  callback has started and \<open>db_persists\<close> counts the callbacks that write.
\<close>

section \<open>The SQL library\<close>

datatype any_parameter = PText string | PInteger int | PFloat string | PBool bool | PNull

text \<open>
  What \<open>try_get\<close> answers for a column, by position or name: \<open>None\<close> or an error text when the column does not decode to
  the type. A floating-point number is its text, \<open>None\<close> when it is not finite.
\<close>

record row =
  row_columns :: "(string \<times> string) list"
  row_text :: "nat \<Rightarrow> string option option"
  row_bytes :: "nat \<Rightarrow> string option option"
  row_int :: "nat \<Rightarrow> int option option"
  row_float :: "nat \<Rightarrow> string option option option"
  row_bool :: "nat \<Rightarrow> bool option option"
  named_text :: "string \<Rightarrow> string option option"
  named_string :: "string \<Rightarrow> string + string"
  named_int :: "string \<Rightarrow> int option option"

type_synonym statement = "string \<times> any_parameter list"

record 'w db_lib =
  fetch_all :: "duration \<Rightarrow> statement \<Rightarrow> (string timed, 'w, row list) effect"
  fetch_optional :: "duration \<Rightarrow> statement \<Rightarrow> (string timed, 'w, row option) effect"
  execute_sql :: "duration \<Rightarrow> statement \<Rightarrow> (string timed, 'w, unit) effect"
  begin_transaction :: "duration \<Rightarrow> (string timed, 'w, nat) effect"
  transaction_execute :: "duration \<Rightarrow> nat \<Rightarrow> statement \<Rightarrow> (string timed, 'w, unit) effect"
  transaction_commit :: "duration \<Rightarrow> nat \<Rightarrow> (string timed, 'w, unit) effect"
  drop_transaction :: "nat \<Rightarrow> 'w \<Rightarrow> 'w"
  json_from_str :: "string \<Rightarrow> json option"
  json_to_string :: "json \<Rightarrow> string"
  utf8_failure :: "string \<Rightarrow> string"

section \<open>Values and effects\<close>

record db_value =
  dv_namespace :: namespace_context
  dv_key :: key
  dv_value :: json
  dv_ttl :: "duration option"

datatype db_mutation =
    MutationSet db_value
  | MutationSetBatch namespace_context "set_entry list" "duration option"
  | MutationDelete namespace_context "key_pattern option"
  | MutationMove namespace_context namespace_context

record 'w db_state =
  db_world :: 'w
  db_persists :: nat
  db_spawned :: "(nat \<times> db_mutation) list"

type_synonym ('w, 'a) db = "(db_error, 'w db_state, 'a) effect"

text \<open>A call of the library: a passed deadline is a configuration error with the given text, a failure an SQL error.\<close>

definition sql_failure :: "string \<Rightarrow> string timed \<Rightarrow> db_error" where
  "sql_failure message t = (case t of Elapsed \<Rightarrow> DbConfiguration message | Within e \<Rightarrow> SqlError e)"

definition sql_call :: "string \<Rightarrow> (string timed, 'w, 'a) effect \<Rightarrow> ('w, 'a) db" where
  "sql_call message m s = (case m (db_world s) of (r, w) \<Rightarrow> (or_error (sql_failure message) r, s\<lparr> db_world := w \<rparr>))"

section \<open>Parameters\<close>

fun yaml_parameter :: "yaml \<Rightarrow> db_error + any_parameter" where
  "yaml_parameter YNull = Inr PNull"
| "yaml_parameter (YBool b) = Inr (PBool b)"
| "yaml_parameter (YNumber i f) =
     (case i of
        Some n \<Rightarrow> Inr (PInteger n)
      | None \<Rightarrow> (case f of Some x \<Rightarrow> Inr (PFloat x) | None \<Rightarrow> Inl (DbConfiguration ''unsupported YAML numeric parameter'')))"
| "yaml_parameter (YString t) = Inr (PText t)"
| "yaml_parameter YOther = Inl (DbConfiguration ''provider parameters must be scalar YAML values'')"

definition unavailable :: "string \<Rightarrow> db_error" where
  "unavailable name = DbConfiguration (''parameter '' @ quoted_name name @ '' is unavailable'')"

text \<open>A time to live is cast from 64 unsigned to 64 signed bits.\<close>

definition as_i64 :: "nat \<Rightarrow> int" where
  "as_i64 n = sint (of_nat n :: 64 word)"

record sql_operation =
  op_query :: string
  op_parameters :: "string list"
  op_namespace :: namespace_context
  op_key :: "key option"
  op_key_pattern :: "key_pattern option"
  op_value :: "json option"
  op_ttl :: "duration option"
  op_captures :: "string \<rightharpoonup> string"

definition bind_parameter :: "'w db_lib \<Rightarrow> sql_operation \<Rightarrow> string \<Rightarrow> db_error + any_parameter" where
  "bind_parameter lib operation' name =
     (if name = ''namespace'' then Inr (PText (as_str (op_namespace operation')))
      else if name = ''key'' then ok_or_else (unavailable name) (map_option (\<lambda>k. PText (key_str k)) (op_key operation'))
      else if name = ''key_pattern'' then ok_or_else (unavailable name) (map_option (\<lambda>p. PText (kp_str p)) (op_key_pattern operation'))
      else if name = ''value'' then ok_or_else (unavailable name) (map_option (\<lambda>v. PText (json_to_string lib v)) (op_value operation'))
      else if name = ''ttl_seconds''
      then Inr (case op_ttl operation' of None \<Rightarrow> PNull | Some ttl \<Rightarrow> PInteger (as_i64 (as_secs ttl)))
      else if name \<in> {''source_namespace'', ''destination_namespace''}
      then ok_or_else (unavailable name) (map_option PText (op_captures operation' name))
      else if name \<in> {''source_context'', ''destination_context'', ''context''}
      then Inr (PText (case op_captures operation' name of Some v \<Rightarrow> v | None \<Rightarrow> []))
      else ok_or_else (DbConfiguration (''unknown SQL parameter '' @ quoted_name name)) (map_option PText (op_captures operation' name)))"

definition any_parameters :: "'w db_lib \<Rightarrow> sql_operation \<Rightarrow> db_error + any_parameter list" where
  "any_parameters lib operation' = collect_results (bind_parameter lib operation') (op_parameters operation')"

section \<open>Captures of a route\<close>

definition namespace_pattern_captures :: "string \<Rightarrow> string \<Rightarrow> (string \<rightharpoonup> string) option" where
  "namespace_pattern_captures p namespace =
     (case pattern_matches (Pattern_new p) namespace of
        Some m \<Rightarrow> Some m
      | None \<Rightarrow>
          if CHR ''*'' \<notin> set p \<and> CHR ''{'' \<notin> set p
          then (case strip_prefix p namespace of
                  Some suffix \<Rightarrow> if starts_with ''::'' suffix then Some Map.empty else None
                | None \<Rightarrow> None)
          else None)"

definition namespace_pattern_matches :: "string \<Rightarrow> string \<Rightarrow> bool" where
  "namespace_pattern_matches p namespace \<longleftrightarrow> namespace_pattern_captures p namespace \<noteq> None"

definition context_text :: "namespace_context \<Rightarrow> string" where
  "context_text n = (case ctx n of Some c \<Rightarrow> c | None \<Rightarrow> [])"

definition route_captures :: "string \<Rightarrow> string \<Rightarrow> namespace_context \<Rightarrow> key \<Rightarrow> (string \<rightharpoonup> string) option" where
  "route_captures np kp n k =
     (case namespace_pattern_captures np (as_str n) of
        None \<Rightarrow> None
      | Some m \<Rightarrow>
          (case pattern_matches (Pattern_new kp) (key_str k) of
             None \<Rightarrow> None
           | Some m' \<Rightarrow>
               Some ((m ++ m')(''namespace'' \<mapsto> as_str n, ''key'' \<mapsto> key_str k, ''context'' \<mapsto> context_text n))))"

section \<open>Rows\<close>

definition json_value_from_text :: "'w db_lib \<Rightarrow> string \<Rightarrow> json" where
  "json_value_from_text lib t = (case json_from_str lib t of Some v \<Rightarrow> v | None \<Rightarrow> JString t)"

definition column_context :: "row \<Rightarrow> nat \<Rightarrow> string" where
  "column_context r i =
     (if i < length (row_columns r)
      then ''column '' @ quoted_name (fst (row_columns r ! i)) @ '' (type '' @ snd (row_columns r ! i) @ '')''
      else ''column at index '' @ show_nat i)"

definition to_ascii_lowercase :: "char \<Rightarrow> char" where
  "to_ascii_lowercase c = (let b = of_char c :: nat in if 65 \<le> b \<and> b \<le> 90 then char_of (b + 32) else c)"

definition eq_ignore_ascii_case :: "string \<Rightarrow> string \<Rightarrow> bool" where
  "eq_ignore_ascii_case a b \<longleftrightarrow> map to_ascii_lowercase a = map to_ascii_lowercase b"

definition column_index :: "row \<Rightarrow> string \<Rightarrow> db_error + nat" where
  "column_index r name =
     ok_or_else (DbConfiguration (''database row has no '' @ quoted_name name @ '' column''))
       (find (\<lambda>i. eq_ignore_ascii_case (fst (row_columns r ! i)) name) [0..<length (row_columns r)])"

text \<open>\<open>Value::from\<close> of a signed integer.\<close>

definition json_from_int :: "int \<Rightarrow> json" where
  "json_from_int i = JNumber (if 0 \<le> i then PosInt (nat i) else NegInt i)"

definition or_null :: "('a \<Rightarrow> json) \<Rightarrow> 'a option \<Rightarrow> json" where
  "or_null f v = (case v of Some a \<Rightarrow> f a | None \<Rightarrow> JNull)"

definition any_json :: "'w db_lib \<Rightarrow> row \<Rightarrow> nat \<Rightarrow> db_error + json" where
  "any_json lib r i =
     (case row_text r i of
        Some v \<Rightarrow> Inr (or_null (json_value_from_text lib) v)
      | None \<Rightarrow>
     (case row_bytes r i of
        Some None \<Rightarrow> Inr JNull
      | Some (Some b) \<Rightarrow>
          if utf8_valid b then Inr (json_value_from_text lib b)
          else Inl (DbConfiguration (''database '' @ column_context r i @ '' contains non-UTF-8 binary data: '' @ utf8_failure lib b))
      | None \<Rightarrow>
     (case row_int r i of
        Some v \<Rightarrow> Inr (or_null json_from_int v)
      | None \<Rightarrow>
     (case row_float r i of
        Some (Some (Some x)) \<Rightarrow> Inr (JNumber (Float x))
      | Some _ \<Rightarrow> Inl (DbConfiguration ''database returned a non-finite number'')
      | None \<Rightarrow>
     (case row_bool r i of
        Some v \<Rightarrow> Inr (or_null JBool v)
      | None \<Rightarrow> Inl (DbConfiguration (''database '' @ column_context r i @ '' cannot be represented as JSON'')))))))"

section \<open>The database manager\<close>

definition flatten :: "'a option option \<Rightarrow> 'a option" where
  "flatten v = (case v of Some a \<Rightarrow> a | None \<Rightarrow> None)"

definition or_else :: "'a option \<Rightarrow> 'a option \<Rightarrow> 'a option" where
  "or_else a b = (case a of Some x \<Rightarrow> Some x | None \<Rightarrow> b)"

definition contains :: "string \<Rightarrow> string \<Rightarrow> bool" where
  "contains p s \<longleftrightarrow> find_str p s \<noteq> None"

definition row_namespace :: "provider_config \<Rightarrow> row \<Rightarrow> db_error + string" where
  "row_namespace provider r =
     (case ok_or_else (DbConfiguration ''provider row needs namespace/ns or provider.namespace_pattern'')
             (or_else (or_else (flatten (named_text r ''namespace'')) (flatten (named_text r ''ns''))) (pc_namespace_pattern provider)) of
        Inl e \<Rightarrow> Inl e
      | Inr namespace \<Rightarrow>
          (case flatten (named_text r ''context'') of
             Some context' \<Rightarrow>
               if context' \<noteq> []
               then if contains ''::'' namespace
                    then Inl (DbConfiguration ''provider row cannot combine a decorated namespace with context'')
                    else Inr (namespace @ ''::'' @ context')
               else Inr namespace
           | None \<Rightarrow> Inr namespace))"

definition row_ttl :: "provider_config \<Rightarrow> row \<Rightarrow> duration option" where
  "row_ttl provider r =
     or_else (map_option (\<lambda>ttl. from_secs (nat (max ttl 0))) (flatten (named_int r ''ttl_seconds'')))
       (map_option from_secs (pc_ttl_seconds provider))"

definition provider_row :: "'w db_lib \<Rightarrow> provider_config \<Rightarrow> row \<Rightarrow> db_error + db_value" where
  "provider_row lib provider r =
     (case row_namespace provider r of Inl e \<Rightarrow> Inl e | Inr namespace \<Rightarrow>
      case named_string r ''key'' of Inl e \<Rightarrow> Inl (SqlError e) | Inr key' \<Rightarrow>
      case column_index r ''value'' of Inl e \<Rightarrow> Inl e | Inr i \<Rightarrow>
      case any_json lib r i of Inl e \<Rightarrow> Inl e | Inr v \<Rightarrow>
      case NamespaceContext_new namespace of Inl e \<Rightarrow> Inl (RouteError e) | Inr n \<Rightarrow>
      case Key_new key' of Inl e \<Rightarrow> Inl (RouteError e) | Inr k \<Rightarrow>
        Inr \<lparr> dv_namespace = n, dv_key = k, dv_value = v, dv_ttl = row_ttl provider r \<rparr>)"

definition provider_values :: "'w db_lib \<Rightarrow> duration \<Rightarrow> provider_config \<Rightarrow> ('w, db_value list) db" where
  "provider_values lib query_timeout provider =
     op_bind (op_lift (collect_results (\<lambda>(_, v). yaml_parameter v) (pc_parameters provider))) (\<lambda>parameters.
     op_bind (sql_call ''provider query timed out'' (fetch_all lib query_timeout (pc_query provider, parameters))) (\<lambda>rows.
       op_lift (collect_results (provider_row lib provider) rows)))"

definition execute_init :: "'w db_lib \<Rightarrow> init_config \<Rightarrow> ('w, unit) db" where
  "execute_init lib statement =
     sql_call (''init statement '' @ quoted_name (init_name statement) @ '' timed out'')
       (execute_sql lib (from_secs (init_timeout_seconds statement)) (init_sql statement, []))"

definition query_value :: "'w db_lib \<Rightarrow> duration \<Rightarrow> statement \<Rightarrow> nat option \<Rightarrow> ('w, json option) db" where
  "query_value lib query_timeout st timeout' =
     op_bind (sql_call ''query callback timed out''
       (fetch_optional lib (case timeout' of Some t \<Rightarrow> from_secs t | None \<Rightarrow> query_timeout) st)) (\<lambda>r.
       case r of
         None \<Rightarrow> op_return None
       | Some found \<Rightarrow> op_lift (map_sum id Some (any_json lib found 0)))"

definition db_execute :: "'w db_lib \<Rightarrow> statement \<Rightarrow> duration \<Rightarrow> ('w, unit) db" where
  "db_execute lib st timeout' = sql_call ''storage query timed out'' (execute_sql lib timeout' st)"

fun execute_statements :: "'w db_lib \<Rightarrow> duration \<Rightarrow> nat \<Rightarrow> statement list \<Rightarrow> (string timed, 'w, unit) effect" where
  "execute_statements lib timeout' tx [] = op_return ()"
| "execute_statements lib timeout' tx (st # sts) =
     op_bind (transaction_execute lib timeout' tx st) (\<lambda>_. execute_statements lib timeout' tx sts)"

text \<open>The transaction of a batch; one that is not committed is rolled back when it is dropped.\<close>

definition batch_transaction :: "'w db_lib \<Rightarrow> duration \<Rightarrow> statement list \<Rightarrow> (string timed, 'w, unit) effect" where
  "batch_transaction lib timeout' sts =
     op_bind (begin_transaction lib timeout') (\<lambda>tx w.
       case op_bind (execute_statements lib timeout' tx sts) (\<lambda>_. transaction_commit lib timeout' tx) w of
         (Inl e, w') \<Rightarrow> (Inl e, drop_transaction lib tx w')
       | (Inr _, w') \<Rightarrow> (Inr (), w'))"

definition execute_batch :: "'w db_lib \<Rightarrow> statement list \<Rightarrow> duration \<Rightarrow> ('w, unit) db" where
  "execute_batch lib sts timeout' = sql_call ''storage batch timed out'' (batch_transaction lib timeout' sts)"

section \<open>The query provider\<close>

definition new_query_provider :: "db_query_config \<Rightarrow> db_error + db_query_config" where
  "new_query_provider q =
     or_error DbConfiguration
       (case first_failure
               [validate_callback_config ''query'' (dq_namespace_pattern q) (dq_key_pattern q) (dq_query q),
                validate_query_parameters ''query'' q] of
          Inl e \<Rightarrow> Inl e
        | Inr _ \<Rightarrow> Inr q)"

definition query_captures :: "db_query_config \<Rightarrow> namespace_context \<Rightarrow> key \<Rightarrow> (string \<rightharpoonup> string) option" where
  "query_captures q n k = route_captures (dq_namespace_pattern q) (dq_key_pattern q) n k"

definition query_operation :: "db_query_config \<Rightarrow> namespace_context \<Rightarrow> key \<Rightarrow> (string \<rightharpoonup> string) \<Rightarrow> sql_operation" where
  "query_operation q n k captures =
     \<lparr> op_query = dq_query q, op_parameters = dq_parameters q, op_namespace = n, op_key = Some k, op_key_pattern = None,
       op_value = None, op_ttl = None, op_captures = captures \<rparr>"

definition db_query :: "'w db_lib \<Rightarrow> duration \<Rightarrow> db_query_config \<Rightarrow> namespace_context \<Rightarrow> key \<Rightarrow> ('w, db_value option) db" where
  "db_query lib query_timeout q n k =
     (case query_captures q n k of
        None \<Rightarrow> op_return None
      | Some captures \<Rightarrow>
          op_bind (op_lift (any_parameters lib (query_operation q n k captures))) (\<lambda>parameters.
          op_bind (query_value lib query_timeout (dq_query q, parameters) (dq_timeout_seconds q)) (\<lambda>value.
            op_return (map_option (\<lambda>v. \<lparr> dv_namespace = n, dv_key = k, dv_value = v,
              dv_ttl = map_option from_secs (dq_ttl_seconds q) \<rparr>) value))))"

section \<open>The store writer\<close>

definition new_store_writer :: "db_store_config \<Rightarrow> db_error + db_store_config" where
  "new_store_writer st =
     or_error DbConfiguration
       (case first_failure
               [validate_callback_config ''store'' (ds_namespace_pattern st) (ds_key_pattern st) (set_query st),
                check_that (trim (delete_query st) \<noteq> []) ''store has no delete_query'',
                validate_store_operations ''store'' st,
                validate_store_parameters ''store'' st] of
          Inl e \<Rightarrow> Inl e
        | Inr _ \<Rightarrow> Inr st)"

definition store_captures :: "db_store_config \<Rightarrow> namespace_context \<Rightarrow> key \<Rightarrow> (string \<rightharpoonup> string) option" where
  "store_captures st n k = route_captures (ds_namespace_pattern st) (ds_key_pattern st) n k"

definition store_execute :: "'w db_lib \<Rightarrow> db_store_config \<Rightarrow> sql_operation \<Rightarrow> ('w, unit) db" where
  "store_execute lib st operation' =
     op_bind (op_lift (any_parameters lib operation')) (\<lambda>parameters.
       db_execute lib (op_query operation', parameters) (from_secs (ds_timeout_seconds st)))"

definition set_operation :: "db_store_config \<Rightarrow> db_value \<Rightarrow> db_error + sql_operation" where
  "set_operation st v =
     (case store_captures st (dv_namespace v) (dv_key v) of
        None \<Rightarrow> Inl (DbConfiguration ''set route does not match store'')
      | Some captures \<Rightarrow>
          Inr \<lparr> op_query = set_query st, op_parameters = set_parameters st, op_namespace = dv_namespace v, op_key = Some (dv_key v),
            op_key_pattern = None, op_value = Some (dv_value v), op_ttl = dv_ttl v, op_captures = captures \<rparr>)"

definition db_matches :: "db_store_config \<Rightarrow> namespace_context \<Rightarrow> key_pattern option \<Rightarrow> bool" where
  "db_matches st n p =
     (case p of
        Some pattern' \<Rightarrow>
          (case Key_new (kp_str pattern') of Inr k \<Rightarrow> store_captures st n k \<noteq> None | Inl _ \<Rightarrow> False)
      | None \<Rightarrow> namespace_pattern_matches (ds_namespace_pattern st) (as_str n))"

definition db_set :: "'w db_lib \<Rightarrow> db_store_config \<Rightarrow> db_value \<Rightarrow> ('w, unit) db" where
  "db_set lib st v = op_bind (op_lift (set_operation st v)) (store_execute lib st)"

definition batch_statement ::
    "'w db_lib \<Rightarrow> db_store_config \<Rightarrow> namespace_context \<Rightarrow> duration option \<Rightarrow> key \<times> json \<Rightarrow> db_error + statement" where
  "batch_statement lib st n ttl entry =
     (case set_operation st \<lparr> dv_namespace = n, dv_key = fst entry, dv_value = snd entry, dv_ttl = ttl \<rparr> of
        Inl e \<Rightarrow> Inl e
      | Inr operation' \<Rightarrow>
          (case any_parameters lib operation' of Inl e \<Rightarrow> Inl e | Inr parameters \<Rightarrow> Inr (op_query operation', parameters)))"

definition db_set_batch ::
    "'w db_lib \<Rightarrow> db_store_config \<Rightarrow> namespace_context \<Rightarrow> (key \<times> json) list \<Rightarrow> duration option \<Rightarrow> ('w, unit) db" where
  "db_set_batch lib st n entries ttl =
     op_bind (op_lift (collect_results (batch_statement lib st n ttl) entries)) (\<lambda>sts.
       execute_batch lib sts (from_secs (ds_timeout_seconds st)))"

definition delete_target :: "db_store_config \<Rightarrow> key_pattern option \<Rightarrow> db_error + string \<times> string list" where
  "delete_target st p =
     (case p of
        Some _ \<Rightarrow> Inr (delete_query st, delete_parameters st)
      | None \<Rightarrow> ok_or_else (DbConfiguration ''store does not support namespace deletes'')
                  (map_option (\<lambda>query. (query, delete_ns_parameters st)) (delete_ns_query st)))"

definition delete_captures :: "db_store_config \<Rightarrow> namespace_context \<Rightarrow> key_pattern option \<Rightarrow> string \<rightharpoonup> string" where
  "delete_captures st n p =
     (case Option.bind p (\<lambda>pattern'. case Key_new (kp_str pattern') of Inr k \<Rightarrow> store_captures st n k | Inl _ \<Rightarrow> None) of
        Some m \<Rightarrow> m
      | None \<Rightarrow> Map.empty)"

definition db_delete :: "'w db_lib \<Rightarrow> db_store_config \<Rightarrow> namespace_context \<Rightarrow> key_pattern option \<Rightarrow> ('w, unit) db" where
  "db_delete lib st n p =
     op_bind (op_lift (delete_target st p)) (\<lambda>(query, parameters).
       store_execute lib st
         \<lparr> op_query = query, op_parameters = parameters, op_namespace = n, op_key = None, op_key_pattern = p, op_value = None,
           op_ttl = None, op_captures = delete_captures st n p \<rparr>)"

definition move_captures :: "db_store_config \<Rightarrow> namespace_context \<Rightarrow> namespace_context \<Rightarrow> string \<rightharpoonup> string" where
  "move_captures st src dst =
     ((case namespace_pattern_captures (ds_namespace_pattern st) (as_str src) of Some m \<Rightarrow> m | None \<Rightarrow> Map.empty)
      ++ (case move_ns_pattern st of
            None \<Rightarrow> Map.empty
          | Some p \<Rightarrow> (case namespace_pattern_captures p (as_str dst) of Some m \<Rightarrow> m | None \<Rightarrow> Map.empty)))
     (''source_namespace'' \<mapsto> as_str src, ''destination_namespace'' \<mapsto> as_str dst,
      ''source_context'' \<mapsto> context_text src, ''destination_context'' \<mapsto> context_text dst)"

definition move_operation :: "db_store_config \<Rightarrow> namespace_context \<Rightarrow> namespace_context \<Rightarrow> db_error + sql_operation" where
  "move_operation st src dst =
     (case first_failure
             [(case move_ns_pattern st of
                 Some p \<Rightarrow> check_that (namespace_pattern_captures p (as_str dst) \<noteq> None)
                   (DbConfiguration ''store does not support moves to this namespace'')
               | None \<Rightarrow> Inr ())] of
        Inl e \<Rightarrow> Inl e
      | Inr _ \<Rightarrow>
          ok_or_else (DbConfiguration ''store does not support namespace moves'')
            (map_option (\<lambda>query.
               \<lparr> op_query = query, op_parameters = move_ns_parameters st, op_namespace = src, op_key = None, op_key_pattern = None,
                 op_value = None, op_ttl = None, op_captures = move_captures st src dst \<rparr>) (move_ns_query st)))"

definition db_move :: "'w db_lib \<Rightarrow> db_store_config \<Rightarrow> namespace_context \<Rightarrow> namespace_context \<Rightarrow> ('w, unit) db" where
  "db_move lib st src dst = op_bind (op_lift (move_operation st src dst)) (store_execute lib st)"

section \<open>Callbacks\<close>

text \<open>The trait objects of \<open>traits.rs\<close> as tables of functions.\<close>

record 'w db_provider =
  dp_matches :: "namespace_context \<Rightarrow> key \<Rightarrow> bool"
  dp_query :: "namespace_context \<Rightarrow> key \<Rightarrow> ('w, db_value option) db"

record 'w db_writer =
  dw_matches :: "namespace_context \<Rightarrow> key_pattern option \<Rightarrow> bool"
  dw_set :: "db_value \<Rightarrow> ('w, unit) db"
  dw_set_batch :: "namespace_context \<Rightarrow> (key \<times> json) list \<Rightarrow> duration option \<Rightarrow> ('w, unit) db"
  dw_delete :: "namespace_context \<Rightarrow> key_pattern option \<Rightarrow> ('w, unit) db"
  dw_move :: "namespace_context \<Rightarrow> namespace_context \<Rightarrow> ('w, unit) db"

definition DatabaseQueryProvider :: "'w db_lib \<Rightarrow> duration \<Rightarrow> db_query_config \<Rightarrow> 'w db_provider" where
  "DatabaseQueryProvider lib query_timeout q =
     \<lparr> dp_matches = (\<lambda>n k. query_captures q n k \<noteq> None), dp_query = db_query lib query_timeout q \<rparr>"

definition DatabaseStoreWriter :: "'w db_lib \<Rightarrow> db_store_config \<Rightarrow> 'w db_writer" where
  "DatabaseStoreWriter lib st =
     \<lparr> dw_matches = db_matches st, dw_set = db_set lib st, dw_set_batch = db_set_batch lib st, dw_delete = db_delete lib st,
       dw_move = db_move lib st \<rparr>"

record 'w db_bridge =
  db_bridge_queries :: "'w db_provider list"
  db_bridge_stores :: "'w db_writer list"
  persist_counter :: bool

definition CallbackBridge_new :: "'w db_provider list \<Rightarrow> 'w db_writer list \<Rightarrow> 'w db_bridge" where
  "CallbackBridge_new qs sts = \<lparr> db_bridge_queries = qs, db_bridge_stores = sts, persist_counter = False \<rparr>"

definition with_persist_counter :: "'w db_bridge \<Rightarrow> 'w db_bridge" where
  "with_persist_counter b = b\<lparr> persist_counter := True \<rparr>"

definition database_callback_bridge ::
    "'w db_lib \<Rightarrow> db_adapter_config \<Rightarrow> db_error + 'w db_bridge" where
  "database_callback_bridge lib cfg =
     (let query_timeout = from_secs (query_timeout_seconds (database cfg)) in
      case collect_results (\<lambda>(_, q). map_sum id (DatabaseQueryProvider lib query_timeout) (new_query_provider q)) (queries cfg) of
        Inl e \<Rightarrow> Inl e
      | Inr qs \<Rightarrow>
          (case collect_results (\<lambda>(_, st). map_sum id (DatabaseStoreWriter lib) (new_store_writer st)) (db_stores cfg) of
             Inl e \<Rightarrow> Inl e
           | Inr sts \<Rightarrow> Inr (CallbackBridge_new qs sts)))"

section \<open>Forwarding\<close>

definition spawn_forwards :: "nat \<Rightarrow> nat \<Rightarrow> db_mutation \<Rightarrow> 'w db_state \<Rightarrow> 'w db_state" where
  "spawn_forwards endpoint_count source_endpoint mutation s =
     s\<lparr> db_spawned := db_spawned s @ map (\<lambda>i. (i, mutation)) (filter (\<lambda>i. i \<noteq> source_endpoint) [0..<endpoint_count]) \<rparr>"

definition then_forward :: "nat \<Rightarrow> nat \<Rightarrow> db_mutation \<Rightarrow> ('w, unit) db \<Rightarrow> ('w, unit) db" where
  "then_forward endpoint_count source_endpoint mutation m =
     op_bind m (\<lambda>_ s. (Inr (), spawn_forwards endpoint_count source_endpoint mutation s))"

definition db_ForwardingStorageWriter :: "nat \<Rightarrow> nat \<Rightarrow> 'w db_writer \<Rightarrow> 'w db_writer" where
  "db_ForwardingStorageWriter endpoint_count source_endpoint store =
     \<lparr> dw_matches = dw_matches store,
       dw_set = (\<lambda>v. then_forward endpoint_count source_endpoint (MutationSet v) (dw_set store v)),
       dw_set_batch = (\<lambda>n entries ttl.
         then_forward endpoint_count source_endpoint
           (MutationSetBatch n (map (\<lambda>(k, v). \<lparr> entry_key = k, entry_value = v \<rparr>) entries) ttl) (dw_set_batch store n entries ttl)),
       dw_delete = (\<lambda>n p. then_forward endpoint_count source_endpoint (MutationDelete n p) (dw_delete store n p)),
       dw_move = (\<lambda>src dst. then_forward endpoint_count source_endpoint (MutationMove src dst) (dw_move store src dst)) \<rparr>"

definition db_with_forwarding :: "nat \<Rightarrow> nat \<Rightarrow> 'w db_bridge \<Rightarrow> 'w db_bridge" where
  "db_with_forwarding endpoint_count source_endpoint b =
     b\<lparr> db_bridge_stores := map (db_ForwardingStorageWriter endpoint_count source_endpoint) (db_bridge_stores b) \<rparr>"

text \<open>What a forwarding task sends, on a connection of its own; a failure is only logged.\<close>

fun send_mutation :: "codec \<Rightarrow> 'n net_lib \<Rightarrow> client \<Rightarrow> db_mutation \<Rightarrow> ('n, unit) client_op" where
  "send_mutation cd net c (MutationSet v) = client_set cd net c (dv_namespace v) (dv_key v) (dv_value v) (dv_ttl v)"
| "send_mutation cd net c (MutationSetBatch n entries ttl) = client_set_batch cd net c n entries ttl"
| "send_mutation cd net c (MutationDelete n p) = client_delete cd net c n p"
| "send_mutation cd net c (MutationMove src dst) = client_move cd net c src dst"

definition run_forward :: "codec \<Rightarrow> 'n net_lib \<Rightarrow> client_builder list \<Rightarrow> nat \<times> db_mutation \<Rightarrow> 'n client_state \<Rightarrow> 'n client_state" where
  "run_forward cd net builders task s =
     snd (op_bind (builder_connect cd net (builders ! fst task)) (\<lambda>c. send_mutation cd net c (snd task)) s)"

section \<open>The handler\<close>

definition db_bridge_store :: "'w db_bridge \<Rightarrow> namespace_context \<Rightarrow> key_pattern option \<Rightarrow> 'w db_writer option" where
  "db_bridge_store b n p = find (\<lambda>store. dw_matches store n p) (rev (db_bridge_stores b))"

fun is_persist :: "server_command \<Rightarrow> bool" where
  "is_persist (Query _ _ _) = False"
| "is_persist _ = True"

definition db_operation_answer :: "uuid \<Rightarrow> db_error + unit \<Rightarrow> server_result" where
  "db_operation_answer i r = Operation i (case r of Inl e \<Rightarrow> Some (db_error_display e) | Inr _ \<Rightarrow> None)"

definition db_query_answer :: "uuid \<Rightarrow> db_error + db_value option \<Rightarrow> server_result" where
  "db_query_answer i r =
     (case r of
        Inr (Some v) \<Rightarrow> QueryResult i (Some (dv_value v)) None (map_option as_secs (dv_ttl v))
      | Inr None \<Rightarrow> QueryResult i None None None
      | Inl e \<Rightarrow> QueryResult i None (Some (db_error_display e)) None)"

definition db_with_store :: "'w db_writer option \<Rightarrow> ('w db_writer \<Rightarrow> ('w, unit) db) \<Rightarrow> ('w, unit) db" where
  "db_with_store store f = (case store of Some w \<Rightarrow> f w | None \<Rightarrow> op_fail (Publish (ServerError ''no matching store'')))"

definition answer_with :: "('e + 'a \<Rightarrow> server_result) \<Rightarrow> ('e, 'b, 'a) effect \<Rightarrow> 'b \<Rightarrow> server_result \<times> 'b" where
  "answer_with f m s = (case m s of (r, s') \<Rightarrow> (f r, s'))"

definition count_persist :: "'w db_bridge \<Rightarrow> server_command \<Rightarrow> 'w db_state \<Rightarrow> 'w db_state" where
  "count_persist b c s = (if persist_counter b \<and> is_persist c then s\<lparr> db_persists := db_persists s + 1 \<rparr> else s)"

definition key_route :: "key \<Rightarrow> key_pattern option" where
  "key_route k = (case KeyPattern_new (key_str k) of Inr p \<Rightarrow> Some p | Inl _ \<Rightarrow> None)"

text \<open>
  A key is never empty, so the \<open>expect\<close> on its pattern does not fail (\<open>key_route_key\<close>).
\<close>

fun db_dispatch :: "'w db_bridge \<Rightarrow> server_command \<Rightarrow> 'w db_state \<Rightarrow> server_result \<times> 'w db_state" where
  "db_dispatch b (Query i n k) =
     answer_with (db_query_answer i)
       (case find (\<lambda>q. dp_matches q n k) (db_bridge_queries b) of Some q \<Rightarrow> dp_query q n k | None \<Rightarrow> op_return None)"
| "db_dispatch b (PersistSet i n k v ttl) =
     answer_with (db_operation_answer i)
       (db_with_store (db_bridge_store b n (key_route k)) (\<lambda>w.
          dw_set w \<lparr> dv_namespace = n, dv_key = k, dv_value = v, dv_ttl = map_option from_secs ttl \<rparr>))"
| "db_dispatch b (PersistSetBatch i n entries ttl) =
     answer_with (db_operation_answer i)
       (db_with_store
          (case entries of
             [] \<Rightarrow> None
           | e # _ \<Rightarrow> Option.bind (key_route (entry_key e)) (\<lambda>p. db_bridge_store b n (Some p)))
          (\<lambda>w. dw_set_batch w n (map (\<lambda>e. (entry_key e, entry_value e)) entries) (map_option from_secs ttl)))"
| "db_dispatch b (PersistDelete i n p) =
     answer_with (db_operation_answer i) (db_with_store (db_bridge_store b n p) (\<lambda>w. dw_delete w n p))"
| "db_dispatch b (PersistMove i src dst) =
     answer_with (db_operation_answer i) (db_with_store (db_bridge_store b src None) (\<lambda>w. dw_move w src dst))"

definition db_handle :: "'w db_bridge \<Rightarrow> server_command \<Rightarrow> 'w db_state \<Rightarrow> server_result \<times> 'w db_state" where
  "db_handle b c s = db_dispatch b c (count_persist b c s)"

lemma key_route_key [simp]: "key_str k \<noteq> [] \<Longrightarrow> key_route k = Some (KeyPattern (key_str k))"
  by (simp add: key_route_def KeyPattern_new_def)

end
