(* ===== verification/Db_Parameters.thy ===== *)
theory Db_Parameters
  imports Db_Bridge
begin

text \<open>
  What validation of the database adapter's configuration is worth: a validated configuration always starts, and
  which of the declared parameters a callback can bind.
\<close>

section \<open>The names a match captures\<close>

definition capture_name :: "token \<Rightarrow> string option" where
  "capture_name t = (case t of Capture name \<Rightarrow> Some name | _ \<Rightarrow> None)"

lemma token_match_names: "token_match ts v cs \<Longrightarrow> map fst cs = List.map_filter capture_name ts"
  by (induction rule: token_match.induct) (simp_all add: capture_name_def map_filter_simps)

lemma pattern_matches_dom:
  assumes "pattern_matches p v = Some m"
  shows "dom m = capture_names p"
proof -
  obtain cs where cs: "match_tokens (pat_tokens p) v = Some cs" and m: "m = map_of (rev cs)"
    using assms by (auto simp: pattern_matches_def)
  have "dom m = set (map fst cs)" by (simp add: m dom_map_of_conv_image_fst)
  then show ?thesis
    using token_match_names[OF match_tokens_sound[OF cs]] by (simp add: capture_names_def capture_name_def[abs_def])
qed

lemma literal_captures_nothing:
  assumes "CHR ''*'' \<notin> set p" and "CHR ''{'' \<notin> set p"
  shows "capture_names (Pattern_new p) = {}"
proof (cases "p = []")
  case True
  then show ?thesis by (simp add: capture_names_def Pattern_new_def tokens.simps map_filter_simps)
next
  case False
  then show ?thesis
    using tokens_literal[OF False assms] by (simp add: capture_names_def Pattern_new_def map_filter_simps)
qed

lemma namespace_captures_dom:
  assumes "namespace_pattern_captures p n = Some m"
  shows "dom m = capture_names (Pattern_new p)"
  using assms pattern_matches_dom literal_captures_nothing
  by (auto simp: namespace_pattern_captures_def split: option.splits if_splits)

lemma route_captures_dom:
  assumes "route_captures np kp n k = Some m"
  shows "dom m = declared_parameters np kp \<union> {''namespace'', ''key''}"
proof -
  obtain m1 m2 where "namespace_pattern_captures np (as_str n) = Some m1" "pattern_matches (Pattern_new kp) (key_str k) = Some m2"
    and m: "m = (m1 ++ m2)(''namespace'' \<mapsto> as_str n, ''key'' \<mapsto> key_str k, ''context'' \<mapsto> context_text n)"
    using assms by (auto simp: route_captures_def split: option.splits)
  then have "dom m1 = capture_names (Pattern_new np)" "dom m2 = capture_names (Pattern_new kp)"
    using namespace_captures_dom pattern_matches_dom by blast+
  then show ?thesis unfolding m by (auto simp: declared_parameters_def)
qed

lemma route_captures_context: "route_captures np kp n k = Some m \<Longrightarrow> m ''context'' = Some (context_text n)"
  by (auto simp: route_captures_def split: option.splits)

lemma route_captures_route:
  "route_captures np kp n k = Some m \<Longrightarrow> m ''namespace'' = Some (as_str n)"
  "route_captures np kp n k = Some m \<Longrightarrow> m ''key'' = Some (key_str k)"
  by (auto simp: route_captures_def split: option.splits)

section \<open>Binding\<close>

lemma collect_results_Inl_iff: "(\<exists>e. collect_results f xs = Inl e) \<longleftrightarrow> (\<exists>x \<in> set xs. \<exists>e. f x = Inl e)"
  by (induction xs) (auto split: sum.splits)

lemma validate_parameter_names_Inr [simp]:
  "validate_parameter_names callback operation' names allowed = Inr () \<longleftrightarrow> set names \<subseteq> allowed"
  by (auto simp: validate_parameter_names_def first_failure_Inr)

definition reserved_names :: "string set" where
  "reserved_names = {''namespace'', ''key'', ''key_pattern'', ''value'', ''ttl_seconds'', ''source_context'', ''destination_context'', ''context''}"

lemma bind_parameter_reserved [simp]:
  "bind_parameter lib o' ''namespace'' = Inr (PText (as_str (op_namespace o')))"
  "bind_parameter lib o' ''key'' = ok_or_else (unavailable ''key'') (map_option (\<lambda>k. PText (key_str k)) (op_key o'))"
  "bind_parameter lib o' ''key_pattern'' = ok_or_else (unavailable ''key_pattern'') (map_option (\<lambda>p. PText (kp_str p)) (op_key_pattern o'))"
  "bind_parameter lib o' ''value'' = ok_or_else (unavailable ''value'') (map_option (\<lambda>v. PText (json_to_string lib v)) (op_value o'))"
  "bind_parameter lib o' ''ttl_seconds'' = Inr (case op_ttl o' of None \<Rightarrow> PNull | Some ttl \<Rightarrow> PInteger (as_i64 (as_secs ttl)))"
  "bind_parameter lib o' ''context'' = Inr (PText (case op_captures o' ''context'' of Some v \<Rightarrow> v | None \<Rightarrow> []))"
  "bind_parameter lib o' ''source_context'' = Inr (PText (case op_captures o' ''source_context'' of Some v \<Rightarrow> v | None \<Rightarrow> []))"
  "bind_parameter lib o' ''destination_context'' = Inr (PText (case op_captures o' ''destination_context'' of Some v \<Rightarrow> v | None \<Rightarrow> []))"
  by (simp_all add: bind_parameter_def)

lemma bind_parameter_capture:
  assumes "name \<notin> reserved_names"
  shows "(\<exists>e. bind_parameter lib o' name = Inl e) \<longleftrightarrow> op_captures o' name = None"
    and "op_captures o' name = Some v \<Longrightarrow> bind_parameter lib o' name = Inr (PText v)"
proof -
  note ne = assms[unfolded reserved_names_def insert_iff de_Morgan_disj]
  have eq: "bind_parameter lib o' name = ok_or_else (if name \<in> {''source_namespace'', ''destination_namespace''} then unavailable name
      else DbConfiguration (''unknown SQL parameter '' @ quoted_name name)) (map_option PText (op_captures o' name))"
  proof (cases "name \<in> {''source_namespace'', ''destination_namespace''}")
    case True
    then show ?thesis using ne by (simp only: bind_parameter_def if_True if_False)
  next
    case False
    moreover have "name \<notin> {''source_context'', ''destination_context'', ''context''}"
      using ne by (simp only: insert_iff empty_iff simp_thms)
    ultimately show ?thesis using ne by (simp only: bind_parameter_def if_True if_False)
  qed
  show "(\<exists>e. bind_parameter lib o' name = Inl e) \<longleftrightarrow> op_captures o' name = None"
    and "op_captures o' name = Some v \<Longrightarrow> bind_parameter lib o' name = Inr (PText v)"
    unfolding eq by (simp_all add: ok_or_else_def split: option.split del: insert_iff)
qed

text \<open>The value of a parameter of a query: its capture, or \<open>NULL\<close> for the name of a time to live.\<close>

definition bound_text :: "(string \<rightharpoonup> string) \<Rightarrow> string \<Rightarrow> any_parameter" where
  "bound_text captures name = (if name = ''ttl_seconds'' then PNull else PText (the (captures name)))"

lemma query_parameter:
  assumes "query_captures q n k = Some m" and "name \<in> dom m"
  shows "bind_parameter lib (query_operation q n k m) name =
    (if name \<in> {''value'', ''key_pattern''} then Inl (unavailable name) else Inr (bound_text m name))"
proof -
  obtain v where v: "m name = Some v" using assms(2) by blast
  have route: "m ''namespace'' = Some (as_str n)" "m ''key'' = Some (key_str k)"
    using assms(1) route_captures_route unfolding query_captures_def by blast+
  show ?thesis
  proof (cases "name \<in> reserved_names")
    case True
    then show ?thesis
      unfolding reserved_names_def
      by (elim insertE emptyE) (use route v in \<open>simp_all add: query_operation_def bound_text_def ok_or_else_def\<close>)
  next
    case False
    note ne = this[unfolded reserved_names_def insert_iff de_Morgan_disj]
    have "bind_parameter lib (query_operation q n k m) name = Inr (PText v)"
      using bind_parameter_capture(2)[OF False, of "query_operation q n k m" v] v by (simp add: query_operation_def)
    then show ?thesis using ne v by (simp only: bound_text_def insert_iff empty_iff simp_thms if_False option.sel)
  qed
qed

lemma validated_query_dom:
  assumes "validate_query_parameters name q = Inr ()" and "query_captures q n k = Some m"
  shows "set (dq_parameters q) \<subseteq> dom m"
  using assms route_captures_dom unfolding validate_query_parameters_def query_captures_def by simp

section \<open>Starting with a validated configuration\<close>

lemma trim_empty [simp]: "trim [] = []"
  by (simp add: trim_def)

lemma validated_patterns:
  assumes "validate_callback_config name np kp query = Inr ()"
  shows "NamespacePattern_new np = Inr (NamespacePattern np)" "KeyPattern_new kp = Inr (KeyPattern kp)"
  using assms by (auto simp: validate_callback_config_def NamespacePattern_new_def KeyPattern_new_def)

lemma validate_store_operations_Inr:
  "validate_store_operations name st = Inr () \<longleftrightarrow>
     (case move_ns_query st of None \<Rightarrow> move_ns_pattern st = None | Some query \<Rightarrow> trim query \<noteq> [])
     \<and> (move_ns_query st \<noteq> None \<or> move_ns_parameters st = [])
     \<and> (case delete_ns_query st of None \<Rightarrow> True | Some query \<Rightarrow> trim query \<noteq> [])
     \<and> (delete_ns_query st \<noteq> None \<or> delete_ns_parameters st = [])"
  by (simp add: validate_store_operations_def split: option.split)

lemma validated_query_builds:
  assumes "validate_query (name, q) = Inr ()"
  shows "new_query_provider q = Inr q"
proof -
  have "first_failure [validate_callback_config ''query'' (dq_namespace_pattern q) (dq_key_pattern q) (dq_query q),
      validate_query_parameters ''query'' q] = Inr ()"
    using assms by (simp add: validate_query_def validate_callback_config_def validate_query_parameters_def)
  then show ?thesis by (simp only: new_query_provider_def or_error_def sum.case)
qed

lemma validated_store_builds:
  assumes "validate_store (name, st) = Inr ()"
  shows "new_store_writer st = Inr st"
proof -
  have "first_failure [validate_callback_config ''store'' (ds_namespace_pattern st) (ds_key_pattern st) (set_query st),
      check_that (trim (delete_query st) \<noteq> []) ''store has no delete_query'',
      validate_store_operations ''store'' st, validate_store_parameters ''store'' st] = Inr ()"
    using assms
    by (simp add: validate_store_def validate_callback_config_def validate_store_parameters_def Let_def validate_store_operations_Inr)
  then show ?thesis by (simp only: new_store_writer_def or_error_def sum.case)
qed

lemma wire_zero: "to_millis 0 = Inr 0" "to_seconds 0 = Inr 0"
  by (simp_all add: to_millis_def to_seconds_def to_wire_unit_def)

lemma validated_options:
  assumes "validate_query (name, q) = Inr ()"
    and "validate_wire_duration a (vc_provider_wait_timeout vc) to_millis = Inr ()"
    and "validate_wire_duration b (vc_miss_cache_ttl vc) to_seconds = Inr ()"
  shows "\<exists>options. provider_options vc q = Inr options"
proof -
  have "\<exists>t. to_millis (first_set (dq_provider_wait_timeout q) (vc_provider_wait_timeout vc)) = Inr t"
    using assms by (auto simp: validate_query_def validate_wire_duration_def first_set_def wire_zero split: option.splits sum.splits)
  moreover have "\<exists>t. to_seconds (first_set (dq_miss_cache_ttl q) (vc_miss_cache_ttl vc)) = Inr t"
    using assms by (auto simp: validate_query_def validate_wire_duration_def first_set_def wire_zero split: option.splits sum.splits)
  ultimately show ?thesis by (auto simp: provider_options_def)
qed

lemma db_validate_parts:
  assumes "db_validate fs cron cfg = Inr ()"
  shows "validate_wire_duration ''provider_wait_timeout'' (vc_provider_wait_timeout (valkyr cfg)) to_millis = Inr ()"
    and "validate_wire_duration ''miss_cache_ttl'' (vc_miss_cache_ttl (valkyr cfg)) to_seconds = Inr ()"
    and "entry \<in> set (queries cfg) \<Longrightarrow> validate_query entry = Inr ()"
    and "store_entry \<in> set (db_stores cfg) \<Longrightarrow> validate_store store_entry = Inr ()"
    and "provider_entry \<in> set (db_providers cfg) \<Longrightarrow> validate_provider cron provider_entry = Inr ()"
  using assms unfolding db_validate_def first_failure_Inr set_append set_map by auto

text \<open>
  C17. A validated configuration starts: the constructors of all callback handlers accept it, in the order of the
  configuration, every query and store has patterns that can be registered and options that fit the
  protocol, and every provider has a schedule.
\<close>

theorem validated_config_starts:
  assumes "db_validate fs cron cfg = Inr ()"
  shows "database_callback_bridge lib cfg = Inr (CallbackBridge_new
      (map (\<lambda>(_, q). DatabaseQueryProvider lib (from_secs (query_timeout_seconds (database cfg))) q) (queries cfg))
      (map (\<lambda>(_, st). DatabaseStoreWriter lib st) (db_stores cfg)))
    \<and> list_all (\<lambda>(_, q). (\<exists>options. provider_options (valkyr cfg) q = Inr options)
        \<and> NamespacePattern_new (dq_namespace_pattern q) = Inr (NamespacePattern (dq_namespace_pattern q))
        \<and> KeyPattern_new (dq_key_pattern q) = Inr (KeyPattern (dq_key_pattern q))) (queries cfg)
    \<and> list_all (\<lambda>(_, st). NamespacePattern_new (ds_namespace_pattern st) = Inr (NamespacePattern (ds_namespace_pattern st))
        \<and> KeyPattern_new (ds_key_pattern st) = Inr (KeyPattern (ds_key_pattern st))) (db_stores cfg)
    \<and> list_all (\<lambda>(_, provider). \<exists>schedule. cron (frequency provider) = Inr schedule) (db_providers cfg)"
proof (intro conjI)
  note parts = db_validate_parts[OF assms]
  show "database_callback_bridge lib cfg = Inr (CallbackBridge_new
      (map (\<lambda>(_, q). DatabaseQueryProvider lib (from_secs (query_timeout_seconds (database cfg))) q) (queries cfg))
      (map (\<lambda>(_, st). DatabaseStoreWriter lib st) (db_stores cfg)))"
  proof -
    let ?query = "\<lambda>(_, q). DatabaseQueryProvider lib (from_secs (query_timeout_seconds (database cfg))) q"
    have "collect_results (\<lambda>(_, q). map_sum id (DatabaseQueryProvider lib (from_secs (query_timeout_seconds (database cfg))))
        (new_query_provider q)) (queries cfg) = Inr (map ?query (queries cfg))"
      by (rule collect_results_map) (use validated_query_builds[OF parts(3)] in \<open>clarsimp split: prod.split\<close>)
    moreover have "collect_results (\<lambda>(_, st). map_sum id (DatabaseStoreWriter lib) (new_store_writer st)) (db_stores cfg)
        = Inr (map (\<lambda>(_, st). DatabaseStoreWriter lib st) (db_stores cfg))"
      by (rule collect_results_map) (use validated_store_builds[OF parts(4)] in \<open>clarsimp split: prod.split\<close>)
    ultimately show ?thesis by (simp add: database_callback_bridge_def Let_def)
  qed
  show "list_all (\<lambda>(_, q). (\<exists>options. provider_options (valkyr cfg) q = Inr options)
        \<and> NamespacePattern_new (dq_namespace_pattern q) = Inr (NamespacePattern (dq_namespace_pattern q))
        \<and> KeyPattern_new (dq_key_pattern q) = Inr (KeyPattern (dq_key_pattern q))) (queries cfg)"
    unfolding list_all_iff
  proof (rule ballI, simp only: split_paired_all prod.case)
    fix name q assume "(name, q) \<in> set (queries cfg)"
    then have valid: "validate_query (name, q) = Inr ()" by (rule parts(3))
    then have "validate_callback_config name (dq_namespace_pattern q) (dq_key_pattern q) (dq_query q) = Inr ()"
      by (simp add: validate_query_def)
    then show "(\<exists>options. provider_options (valkyr cfg) q = Inr options)
        \<and> NamespacePattern_new (dq_namespace_pattern q) = Inr (NamespacePattern (dq_namespace_pattern q))
        \<and> KeyPattern_new (dq_key_pattern q) = Inr (KeyPattern (dq_key_pattern q))"
      using validated_options[OF valid parts(1,2)] validated_patterns by blast
  qed
  show "list_all (\<lambda>(_, st). NamespacePattern_new (ds_namespace_pattern st) = Inr (NamespacePattern (ds_namespace_pattern st))
        \<and> KeyPattern_new (ds_key_pattern st) = Inr (KeyPattern (ds_key_pattern st))) (db_stores cfg)"
    unfolding list_all_iff
  proof (rule ballI, simp only: split_paired_all prod.case)
    fix name st assume "(name, st) \<in> set (db_stores cfg)"
    then have "validate_store (name, st) = Inr ()" by (rule parts(4))
    then have "validate_callback_config name (ds_namespace_pattern st) (ds_key_pattern st) (set_query st) = Inr ()"
      by (simp add: validate_store_def)
    then show "NamespacePattern_new (ds_namespace_pattern st) = Inr (NamespacePattern (ds_namespace_pattern st))
        \<and> KeyPattern_new (ds_key_pattern st) = Inr (KeyPattern (ds_key_pattern st))"
      using validated_patterns by blast
  qed
  show "list_all (\<lambda>(_, provider). \<exists>schedule. cron (frequency provider) = Inr schedule) (db_providers cfg)"
    unfolding list_all_iff
  proof (rule ballI, simp only: split_paired_all prod.case)
    fix name provider assume "(name, provider) \<in> set (db_providers cfg)"
    then have "validate_provider cron (name, provider) = Inr ()" by (rule parts(5))
    then show "\<exists>schedule. cron (frequency provider) = Inr schedule"
      by (cases "cron (frequency provider)") (simp_all add: validate_provider_def)
  qed
qed

section \<open>A database in memory and a small configuration\<close>

text \<open>The committed statements, those of the open transactions and the next transaction.\<close>

record mem_db =
  mem_log :: "statement list"
  mem_open :: "nat \<Rightarrow> statement list"
  mem_next :: nat

definition mem_lib :: "mem_db db_lib" where
  "mem_lib =
     \<lparr> fetch_all = (\<lambda>_ _. op_return []), fetch_optional = (\<lambda>_ _. op_return None),
       execute_sql = (\<lambda>_ st w. (Inr (), w\<lparr> mem_log := mem_log w @ [st] \<rparr>)),
       begin_transaction = (\<lambda>_ w. (Inr (mem_next w), w\<lparr> mem_next := Suc (mem_next w), mem_open := (mem_open w)(mem_next w := []) \<rparr>)),
       transaction_execute = (\<lambda>_ tx st w. (Inr (), w\<lparr> mem_open := (mem_open w)(tx := mem_open w tx @ [st]) \<rparr>)),
       transaction_commit = (\<lambda>_ tx w. (Inr (), w\<lparr> mem_log := mem_log w @ mem_open w tx \<rparr>)),
       drop_transaction = (\<lambda>_ w. w), json_from_str = (\<lambda>_. None), json_to_string = (\<lambda>_. ''1''), utf8_failure = (\<lambda>_. []) \<rparr>"

definition people :: namespace_context where
  "people = \<lparr> ns_value = ''/p'', ctx_start = None \<rparr>"

definition empty_db :: "mem_db db_state" where
  "empty_db = \<lparr> db_world = \<lparr> mem_log = [], mem_open = (\<lambda>_. []), mem_next = 0 \<rparr>, db_persists = 0, db_spawned = [] \<rparr>"

text \<open>A small configuration: one query and one store of the people of a directory.\<close>

definition people_query :: db_query_config where
  "people_query =
     \<lparr> dq_namespace_pattern = ''/p'', dq_key_pattern = ''{id}'', dq_query = ''SELECT'', dq_parameters = [''id'', ''context''],
       dq_description = None, dq_timeout_seconds = None, dq_ttl_seconds = None, dq_provider_wait_timeout = None, dq_miss_cache_ttl = None \<rparr>"

definition people_store :: db_store_config where
  "people_store =
     \<lparr> ds_namespace_pattern = ''/p'', ds_key_pattern = ''{id}'', set_query = ''INSERT'', set_parameters = [''id'', ''value''],
       delete_query = ''DELETE'', delete_parameters = [], move_ns_query = None, move_ns_pattern = None, move_ns_parameters = [],
       delete_ns_query = Some ''DELETE'', delete_ns_parameters = [''namespace'', ''context''], ds_timeout_seconds = 1 \<rparr>"

definition people_config :: db_adapter_config where
  "people_config =
     \<lparr> database = \<lparr> db_url = ''sqlite:'', max_connections = 1, connection_timeout_seconds = 1, query_timeout_seconds = 1 \<rparr>,
       valkyr = \<lparr> endpoints = [\<lparr> ep_url = ''a:1'', api_key_file = ''/k'', ca_certificate_file = None, ep_api_key = ''k'', ep_tls_config = None \<rparr>],
         vc_provider_wait_timeout = None, vc_miss_cache_ttl = None, request_timeout = 1, max_retries = 1 \<rparr>,
       logging = default_logging, db_providers = [], queries = [(''q'', people_query)], db_stores = [(''s'', people_store)], init = [] \<rparr>"

definition any_file :: file_system where
  "any_file = \<lparr> is_file = (\<lambda>_. True), read_file = Inr \<rparr>"

definition any_schedule :: "string \<Rightarrow> string + unit" where
  "any_schedule frequency' = Inr ()"

lemma people_query_valid: "validate_query (''q'', people_query) = Inr ()"
  by code_simp

lemma people_store_valid: "validate_store (''s'', people_store) = Inr ()"
  by code_simp

lemma people_config_valid: "db_validate any_file any_schedule people_config = Inr ()"
  by code_simp

theorem validated_config_starts_witness:
  "database_callback_bridge mem_lib people_config = Inr (CallbackBridge_new
     [DatabaseQueryProvider mem_lib (from_secs 1) people_query] [DatabaseStoreWriter mem_lib people_store])"
  using validated_config_starts[OF people_config_valid, of mem_lib] by (simp add: people_config_def)

text \<open>
  C19. Which parameters a validated query binds: every declared parameter gets the text its pattern captured, or the
  namespace, key or context of the route, except that a capture named \<open>value\<close> or \<open>key_pattern\<close>, which
  validation accepts, makes every query fail and one named \<open>ttl_seconds\<close> is \<open>NULL\<close>.
\<close>

theorem validated_query_binds_parameters:
  assumes "validate_query (name, q) = Inr ()" and "query_captures q n k = Some m"
  shows "if set (dq_parameters q) \<inter> {''value'', ''key_pattern''} = {}
    then any_parameters lib (query_operation q n k m) = Inr (map (bound_text m) (dq_parameters q))
      \<and> set (dq_parameters q) \<subseteq> dom m
      \<and> m ''namespace'' = Some (as_str n) \<and> m ''key'' = Some (key_str k) \<and> m ''context'' = Some (context_text n)
    else \<exists>e. db_query lib timeout' q n k s = (Inl e, s)"
proof (cases "set (dq_parameters q) \<inter> {''value'', ''key_pattern''} = {}")
  case True
  have dom: "set (dq_parameters q) \<subseteq> dom m"
    using validated_query_dom[OF _ assms(2), of name] assms(1) by (simp add: validate_query_def)
  have "bind_parameter lib (query_operation q n k m) x = Inr (bound_text m x)" if "x \<in> set (dq_parameters q)" for x
  proof -
    have "x \<in> dom m" "x \<notin> {''value'', ''key_pattern''}" using that dom True by blast+
    then show ?thesis using query_parameter[OF assms(2), of x lib] by (simp only: if_False)
  qed
  then have "any_parameters lib (query_operation q n k m) = Inr (map (bound_text m) (dq_parameters q))"
    by (simp add: any_parameters_def query_operation_def)
  then show ?thesis
    using True dom route_captures_route route_captures_context assms(2) unfolding query_captures_def by auto
next
  case False
  have "set (dq_parameters q) \<subseteq> dom m"
    using validated_query_dom[OF _ assms(2), of name] assms(1) by (simp add: validate_query_def)
  with False obtain x where "x \<in> set (dq_parameters q)" "\<exists>e. bind_parameter lib (query_operation q n k m) x = Inl e"
    using query_parameter[OF assms(2)] by fastforce
  then obtain e where "any_parameters lib (query_operation q n k m) = Inl e"
    using collect_results_Inl_iff[of "bind_parameter lib (query_operation q n k m)" "dq_parameters q"]
    by (auto simp: any_parameters_def query_operation_def)
  with False show ?thesis using assms(2) by (simp add: db_query_def)
qed

theorem validated_query_binds_parameters_witness:
  "\<exists>m. query_captures people_query people (Key ''ada'') = Some m \<and>
     any_parameters mem_lib (query_operation people_query people (Key ''ada'') m)
       = Inr [bound_text m ''id'', bound_text m ''context'']"
proof -
  have "query_captures people_query people (Key ''ada'') \<noteq> None" by code_simp
  then obtain m where m: "query_captures people_query people (Key ''ada'') = Some m" by blast
  from validated_query_binds_parameters[OF people_query_valid m, of mem_lib] have
    "any_parameters mem_lib (query_operation people_query people (Key ''ada'') m)
      = Inr (map (bound_text m) (dq_parameters people_query))"
    by (simp add: people_query_def)
  with m show ?thesis by (simp add: people_query_def)
qed

text \<open>What a namespace delete can bind: the namespace itself, and of the other names only those with a value for want of one.\<close>

definition delete_bindings :: "namespace_context \<Rightarrow> string \<rightharpoonup> any_parameter" where
  "delete_bindings n =
     [''namespace'' \<mapsto> PText (as_str n), ''ttl_seconds'' \<mapsto> PNull, ''context'' \<mapsto> PText [],
      ''source_context'' \<mapsto> PText [], ''destination_context'' \<mapsto> PText []]"

lemma delete_bindings_reserved:
  "delete_bindings n ''namespace'' = Some (PText (as_str n))" "delete_bindings n ''ttl_seconds'' = Some PNull"
  "delete_bindings n ''context'' = Some (PText [])" "delete_bindings n ''source_context'' = Some (PText [])"
  "delete_bindings n ''destination_context'' = Some (PText [])"
  "delete_bindings n ''key'' = None" "delete_bindings n ''key_pattern'' = None" "delete_bindings n ''value'' = None"
  by (simp_all add: delete_bindings_def)

lemma delete_bindings_other:
  assumes "name \<notin> reserved_names"
  shows "delete_bindings n name = None"
proof -
  have "dom (delete_bindings n) \<subseteq> reserved_names" by (simp add: delete_bindings_def reserved_names_def)
  then show ?thesis using assms by blast
qed

lemma bind_delete_parameter:
  assumes "op_namespace o' = n" "op_key o' = None" "op_key_pattern o' = None" "op_value o' = None" "op_ttl o' = None"
    "op_captures o' = Map.empty"
  shows "case delete_bindings n name of
      Some v \<Rightarrow> bind_parameter lib o' name = Inr v
    | None \<Rightarrow> \<exists>e. bind_parameter lib o' name = Inl e"
proof (cases "name \<in> reserved_names")
  case True
  then show ?thesis
    unfolding reserved_names_def
    by (elim insertE emptyE) (simp_all add: delete_bindings_reserved assms ok_or_else_def)
next
  case False
  then show ?thesis
    using bind_parameter_capture(1)[OF False, of lib o'] by (simp add: delete_bindings_other assms(6))
qed



end
