(* ===== verification/Db_Properties.thy ===== *)
theory Db_Properties
  imports Db_Parameters Line_Codec
begin

text \<open>
  Properties of the database adapter's callbacks: a batch is written as a whole or not at all over a database with
  transactions (locale \<open>transactional_db\<close>), a write is forwarded exactly when it succeeded, and what a namespace
  delete can bind.
\<close>

section \<open>Transactions\<close>

text \<open>
  \<open>contents\<close> is the committed state, \<open>pending\<close> are the statements of an open transaction and \<open>others\<close> what other
  sessions may do to the committed state at any time. A commit applies its statements at one moment; if it
  reports a failure, it did or it did not.
\<close>

locale transactional_db =
  fixes lib :: "'w db_lib"
    and contents :: "'w \<Rightarrow> 'd"
    and pending :: "nat \<Rightarrow> 'w \<Rightarrow> statement list"
    and run_statement :: "statement \<Rightarrow> 'd \<Rightarrow> 'd"
    and others :: "('d \<times> 'd) set"
  assumes begin_ok: "begin_transaction lib d w = (started, w') \<Longrightarrow> (contents w, contents w') \<in> others\<^sup>*"
    and begin_empty: "begin_transaction lib d w = (Inr tx, w') \<Longrightarrow> pending tx w' = []"
    and execute_ok: "transaction_execute lib d tx st w = (r, w') \<Longrightarrow> (contents w, contents w') \<in> others\<^sup>*"
    and execute_pending: "transaction_execute lib d tx st w = (Inr (), w') \<Longrightarrow> pending tx w' = pending tx w @ [st]"
    and commit_ok: "transaction_commit lib d tx w = (Inr (), w')
      \<Longrightarrow> \<exists>c. (contents w, c) \<in> others\<^sup>* \<and> (fold run_statement (pending tx w) c, contents w') \<in> others\<^sup>*"
    and commit_failed: "transaction_commit lib d tx w = (Inl e, w')
      \<Longrightarrow> (contents w, contents w') \<in> others\<^sup>*
        \<or> (\<exists>c. (contents w, c) \<in> others\<^sup>* \<and> (fold run_statement (pending tx w) c, contents w') \<in> others\<^sup>*)"
    and drop_ok: "(contents w, contents (drop_transaction lib tx w)) \<in> others\<^sup>*"
begin

definition applied :: "statement list \<Rightarrow> 'w \<Rightarrow> 'w \<Rightarrow> bool" where
  "applied sts w w' \<longleftrightarrow> (\<exists>c. (contents w, c) \<in> others\<^sup>* \<and> (fold run_statement sts c, contents w') \<in> others\<^sup>*)"

lemma statements_ok:
  "execute_statements lib d tx sts w = (r, w') \<Longrightarrow> (contents w, contents w') \<in> others\<^sup>*
     \<and> (r = Inr () \<longrightarrow> pending tx w' = pending tx w @ sts)"
proof (induction sts arbitrary: w)
  case Nil
  then show ?case by (simp add: op_return_def)
next
  case (Cons st sts)
  obtain r1 w1 where first: "transaction_execute lib d tx st w = (r1, w1)" by force
  show ?case
  proof (cases r1)
    case (Inl e)
    then show ?thesis using Cons.prems first execute_ok[OF first] by (auto simp: op_bind_def)
  next
    case (Inr u)
    then have rest: "execute_statements lib d tx sts w1 = (r, w')" and "pending tx w1 = pending tx w @ [st]"
      using Cons.prems first execute_pending by (auto simp: op_bind_def)
    then show ?thesis using Cons.IH[OF rest] execute_ok[OF first] by (auto intro: rtrancl_trans)
  qed
qed

lemma applied_before: "(contents w, contents w1) \<in> others\<^sup>* \<Longrightarrow> applied sts w1 w' \<Longrightarrow> applied sts w w'"
  unfolding applied_def by (meson rtrancl_trans)

lemma applied_after: "applied sts w w1 \<Longrightarrow> (contents w1, contents w') \<in> others\<^sup>* \<Longrightarrow> applied sts w w'"
  unfolding applied_def by (meson rtrancl_trans)

lemma work_atomic:
  assumes "op_bind (execute_statements lib d tx sts) (\<lambda>_. transaction_commit lib d tx) w = (r, w')" and "pending tx w = []"
  shows "applied sts w w' \<or> (\<exists>e. r = Inl e) \<and> (contents w, contents w') \<in> others\<^sup>*"
proof -
  obtain r1 w1 where work: "execute_statements lib d tx sts w = (r1, w1)" by force
  note step = statements_ok[OF work]
  show ?thesis
  proof (cases r1)
    case (Inl e)
    then show ?thesis using assms(1) work step by (auto simp: op_bind_def)
  next
    case (Inr u)
    then have commit: "transaction_commit lib d tx w1 = (r, w')" and p: "pending tx w1 = sts"
      using assms work step by (auto simp: op_bind_def)
    show ?thesis
    proof (cases r)
      case (Inl e)
      then show ?thesis
        using commit_failed[of d tx w1 e w'] commit p step applied_before[of w w1 sts w']
        by (auto simp: applied_def intro: rtrancl_trans)
    next
      case (Inr v)
      then show ?thesis
        using commit_ok[of d tx w1 w'] commit p step applied_before[of w w1 sts w'] by (auto simp: applied_def)
    qed
  qed
qed

lemma batch_atomic:
  assumes "batch_transaction lib d sts w = (r, w')"
  shows "applied sts w w' \<or> (\<exists>e. r = Inl e) \<and> (contents w, contents w') \<in> others\<^sup>*"
proof -
  obtain r1 w1 where start: "begin_transaction lib d w = (r1, w1)" by force
  show ?thesis
  proof (cases r1)
    case (Inl e)
    then show ?thesis using assms start begin_ok[OF start] by (auto simp: batch_transaction_def op_bind_def)
  next
    case (Inr tx)
    obtain r2 w2 where work: "op_bind (execute_statements lib d tx sts) (\<lambda>_. transaction_commit lib d tx) w1 = (r2, w2)" by force
    have atomic: "applied sts w1 w2 \<or> (\<exists>e. r2 = Inl e) \<and> (contents w1, contents w2) \<in> others\<^sup>*"
      using work_atomic[OF work] begin_empty[of d w tx w1] start Inr by simp
    have "(r, w') = (case (r2, w2) of (Inl e, w2) \<Rightarrow> (Inl e, drop_transaction lib tx w2) | (Inr _, w2) \<Rightarrow> (Inr (), w2))"
      using assms start Inr work by (simp add: batch_transaction_def op_bind_def[of "begin_transaction lib d"])
    then have "(w' = w2 \<and> r = Inr ()) \<or> (w' = drop_transaction lib tx w2 \<and> (\<exists>e. r = Inl e))" and "(\<exists>e. r2 = Inl e) \<longrightarrow> (\<exists>e. r = Inl e)"
      by (auto split: sum.splits)
    then show ?thesis
      using atomic begin_ok[OF start] drop_ok[of w2 tx] applied_before[of w w1 sts] applied_after[of sts w w2]
      by (meson rtrancl_trans sum.simps(4))
  qed
qed

end

section \<open>A database in memory\<close>

lemma fold_append: "fold (\<lambda>st log. log @ [st]) sts log = log @ sts"
  by (induction sts arbitrary: log) simp_all

interpretation mem: transactional_db mem_lib mem_log "\<lambda>tx w. mem_open w tx" "\<lambda>st log. log @ [st]" "{}"
  by unfold_locales (auto simp: mem_lib_def fold_append)

section \<open>Batches\<close>

text \<open>
  C15. A batch is written as a whole or not at all: whatever other sessions do, the statements of a batch, one for each
  entry in order, take effect together at one moment or none does, and then the adapter reports an error; after a
  success they did take effect.
\<close>

theorem db_batch_is_atomic:
  assumes "transactional_db lib contents pending run_statement others"
    and "db_set_batch lib st n entries ttl s = (r, s')"
  shows "(\<exists>sts c. list_all2 (\<lambda>e stm. batch_statement lib st n ttl e = Inr stm) entries sts
        \<and> (contents (db_world s), c) \<in> others\<^sup>* \<and> (fold run_statement sts c, contents (db_world s')) \<in> others\<^sup>*)
    \<or> (\<exists>e. r = Inl e) \<and> (contents (db_world s), contents (db_world s')) \<in> others\<^sup>*"
proof (cases "collect_results (batch_statement lib st n ttl) entries")
  case (Inl e)
  then show ?thesis using assms(2) by (auto simp: db_set_batch_def)
next
  case (Inr sts)
  obtain r1 w1 where work: "batch_transaction lib (from_secs (ds_timeout_seconds st)) sts (db_world s) = (r1, w1)" by force
  have s': "db_world s' = w1" "(\<exists>e. r1 = Inl e) \<longrightarrow> (\<exists>e. r = Inl e)"
    using assms(2) Inr work by (auto simp: db_set_batch_def execute_batch_def sql_call_def or_error_def)
  have "list_all2 (\<lambda>e stm. batch_statement lib st n ttl e = Inr stm) entries sts"
    using Inr by (simp add: collect_results_Inr_iff)
  then show ?thesis
    using transactional_db.batch_atomic[OF assms(1) work] s' unfolding transactional_db.applied_def[OF assms(1)] by blast
qed

lemma people_statement: "batch_statement mem_lib people_store people None (Key ''a'', JNull) = Inr (''INSERT'', [PText ''a'', PText ''1''])"
  by code_simp

theorem db_batch_is_atomic_witness:
  "\<exists>sts c. list_all2 (\<lambda>e stm. batch_statement mem_lib people_store people None e = Inr stm) [(Key ''a'', JNull)] sts
     \<and> ([], c) \<in> {}\<^sup>* \<and> (fold (\<lambda>st log. log @ [st]) sts c, [(''INSERT'', [PText ''a'', PText ''1''])]) \<in> {}\<^sup>*"
proof -
  have batch: "execute_batch mem_lib [st] d empty_db = (Inr (), empty_db\<lparr> db_world :=
      \<lparr> mem_log = [st], mem_open = (\<lambda>_. [])(0 := [st]), mem_next = 1 \<rparr> \<rparr>)" for st d
    by (simp add: execute_batch_def sql_call_def batch_transaction_def op_bind_def op_return_def mem_lib_def empty_db_def or_error_def)
  obtain s' where run: "db_set_batch mem_lib people_store people [(Key ''a'', JNull)] None empty_db = (Inr (), s')"
    and log: "mem_log (db_world s') = [(''INSERT'', [PText ''a'', PText ''1''])]"
    by (simp add: db_set_batch_def people_statement batch)
  from db_batch_is_atomic[OF mem.transactional_db_axioms run] log show ?thesis by (simp add: empty_db_def)
qed

section \<open>Forwarding\<close>

text \<open>The mutation a writing callback asks for.\<close>

fun callback_mutation :: "server_command \<Rightarrow> db_mutation option" where
  "callback_mutation (Query _ _ _) = None"
| "callback_mutation (PersistSet _ n k v ttl) =
     Some (MutationSet \<lparr> dv_namespace = n, dv_key = k, dv_value = v, dv_ttl = map_option from_secs ttl \<rparr>)"
| "callback_mutation (PersistSetBatch _ n entries ttl) = Some (MutationSetBatch n entries (map_option from_secs ttl))"
| "callback_mutation (PersistDelete _ n p) = Some (MutationDelete n p)"
| "callback_mutation (PersistMove _ src dst) = Some (MutationMove src dst)"

definition keeps_spawned :: "('w, 'a) db \<Rightarrow> bool" where
  "keeps_spawned m \<longleftrightarrow> (\<forall>s. db_spawned (snd (m s)) = db_spawned s)"

lemma keeps_spawned_ops [simp]:
  "keeps_spawned (op_return x)" "keeps_spawned (op_fail e)" "keeps_spawned (op_lift r)" "keeps_spawned (sql_call message m)"
  by (simp_all add: keeps_spawned_def op_return_def op_fail_def op_lift_def sql_call_def split: prod.split)

lemma keeps_spawned_bind [intro]:
  assumes "keeps_spawned m" and "\<And>x. keeps_spawned (f x)"
  shows "keeps_spawned (op_bind m f)"
  using assms unfolding keeps_spawned_def op_bind_def by (auto split: prod.split sum.split) (metis snd_conv)+

lemma query_keeps_spawned: "keeps_spawned (db_query lib timeout' q n k)"
  by (auto simp: db_query_def query_value_def split: option.split intro!: keeps_spawned_bind)

lemma writer_keeps_spawned:
  "keeps_spawned (db_set lib st v)" "keeps_spawned (db_set_batch lib st n entries ttl)" "keeps_spawned (db_delete lib st n p)"
  "keeps_spawned (db_move lib st src dst)"
  by (auto simp: db_set_def db_set_batch_def db_delete_def db_move_def store_execute_def db_execute_def execute_batch_def
      intro!: keeps_spawned_bind split: prod.split)

definition forward_tasks :: "nat \<Rightarrow> nat \<Rightarrow> db_mutation \<Rightarrow> (nat \<times> db_mutation) list" where
  "forward_tasks endpoint_count source_endpoint mutation = map (\<lambda>i. (i, mutation)) (filter (\<lambda>i. i \<noteq> source_endpoint) [0..<endpoint_count])"

lemma then_forward_spawned:
  assumes "keeps_spawned m" and "then_forward e src mutation m s = (r, s')"
  shows "db_spawned s' = db_spawned s @ (if r = Inr () then forward_tasks e src mutation else [])"
proof -
  obtain r1 s1 where m: "m s = (r1, s1)" by force
  then have "db_spawned s1 = db_spawned s" using assms(1) by (metis keeps_spawned_def snd_conv)
  then show ?thesis
    using assms(2) m by (cases r1) (auto simp: then_forward_def op_bind_def spawn_forwards_def forward_tasks_def)
qed

lemma db_bridge_store_forwarding:
  "db_bridge_store (db_with_forwarding e src b) n p = map_option (db_ForwardingStorageWriter e src) (db_bridge_store b n p)"
proof -
  have "find (\<lambda>store. dw_matches store n p) (map (db_ForwardingStorageWriter e src) ws)
      = map_option (db_ForwardingStorageWriter e src) (find (\<lambda>store. dw_matches store n p) ws)" for ws :: "'a db_writer list"
    by (induction ws) (simp_all add: db_ForwardingStorageWriter_def)
  then show ?thesis by (simp add: db_bridge_store_def db_with_forwarding_def rev_map)
qed

text \<open>The handlers of a bridge that was built from a configuration start no task of their own.\<close>

definition quiet_bridge :: "'w db_bridge \<Rightarrow> bool" where
  "quiet_bridge b \<longleftrightarrow>
     (\<forall>q \<in> set (db_bridge_queries b). \<forall>n k. keeps_spawned (dp_query q n k)) \<and>
     (\<forall>w \<in> set (db_bridge_stores b). (\<forall>v. keeps_spawned (dw_set w v)) \<and> (\<forall>n es ttl. keeps_spawned (dw_set_batch w n es ttl))
        \<and> (\<forall>n p. keeps_spawned (dw_delete w n p)) \<and> (\<forall>src dst. keeps_spawned (dw_move w src dst)))"

lemma map_sum_Inr_iff: "map_sum id f r = Inr y \<longleftrightarrow> (\<exists>x. r = Inr x \<and> y = f x)"
  by (cases r) auto

lemma built_bridge_quiet:
  assumes "database_callback_bridge lib cfg = Inr b"
  shows "quiet_bridge b"
proof -
  obtain qs sts where qs: "collect_results (\<lambda>(_, q). map_sum id (DatabaseQueryProvider lib (from_secs (query_timeout_seconds (database cfg))))
        (new_query_provider q)) (queries cfg) = Inr qs"
    and sts: "collect_results (\<lambda>(_, st). map_sum id (DatabaseStoreWriter lib) (new_store_writer st)) (db_stores cfg) = Inr sts"
    and b: "b = CallbackBridge_new qs sts"
    using assms by (auto simp: database_callback_bridge_def Let_def split: sum.splits)
  have "\<exists>q. p = DatabaseQueryProvider lib (from_secs (query_timeout_seconds (database cfg))) q" if "p \<in> set qs" for p
    using collect_results_in[OF qs that] by (auto simp: map_sum_Inr_iff split: prod.splits)
  moreover have "\<exists>st. w = DatabaseStoreWriter lib st" if "w \<in> set sts" for w
    using collect_results_in[OF sts that] by (auto simp: map_sum_Inr_iff split: prod.splits)
  ultimately show ?thesis
    unfolding quiet_bridge_def b CallbackBridge_new_def
    using query_keeps_spawned writer_keeps_spawned by (fastforce simp: DatabaseQueryProvider_def DatabaseStoreWriter_def)
qed

lemma db_bridge_store_in: "db_bridge_store b n p = Some w \<Longrightarrow> w \<in> set (db_bridge_stores b)"
  unfolding db_bridge_store_def using find_in by fastforce

lemma answer_spawned:
  assumes "answer_with (db_operation_answer i) (db_with_store (map_option (db_ForwardingStorageWriter e src) store) f) s = (r, s')"
    and "\<And>w. store = Some w \<Longrightarrow> keeps_spawned (g w)"
    and "\<And>w. f (db_ForwardingStorageWriter e src w) = then_forward e src mutation (g w)"
  shows "r = Operation i None \<and> db_spawned s' = db_spawned s @ forward_tasks e src mutation
    \<or> (\<exists>t. r = Operation i (Some t)) \<and> db_spawned s' = db_spawned s"
proof (cases store)
  case None
  then show ?thesis using assms(1) by (auto simp: answer_with_def db_with_store_def op_fail_def db_operation_answer_def)
next
  case (Some w)
  then have m: "keeps_spawned (g w)" "f (db_ForwardingStorageWriter e src w) = then_forward e src mutation (g w)"
    using assms(2,3) by blast+
  obtain r1 where run: "then_forward e src mutation (g w) s = (r1, s')" and r: "r = db_operation_answer i r1"
    using assms(1) Some m(2) by (auto simp: answer_with_def db_with_store_def split: prod.splits)
  show ?thesis using then_forward_spawned[OF m(1) run] r by (cases r1) (auto simp: db_operation_answer_def)
qed

lemma count_persist_spawned [simp]: "db_spawned (count_persist b c s) = db_spawned s"
  by (simp add: count_persist_def)

lemma forwarding_writer_fields [simp]:
  "dw_set (db_ForwardingStorageWriter e src w) v = then_forward e src (MutationSet v) (dw_set w v)"
  "dw_delete (db_ForwardingStorageWriter e src w) n p = then_forward e src (MutationDelete n p) (dw_delete w n p)"
  "dw_move (db_ForwardingStorageWriter e src w) n n' = then_forward e src (MutationMove n n') (dw_move w n n')"
  "dw_set_batch (db_ForwardingStorageWriter e src w) n es ttl = then_forward e src
     (MutationSetBatch n (map (\<lambda>(k, v). \<lparr> entry_key = k, entry_value = v \<rparr>) es) ttl) (dw_set_batch w n es ttl)"
  by (simp_all add: db_ForwardingStorageWriter_def)

lemma entries_again: "map (\<lambda>(k, v). \<lparr> entry_key = k, entry_value = v \<rparr>) (map (\<lambda>e. (entry_key e, entry_value e)) es) = es"
  by (induction es) auto

lemma quiet_stores:
  assumes "quiet_bridge b" and "db_bridge_store b n p = Some w"
  shows "keeps_spawned (dw_set w v)" "keeps_spawned (dw_set_batch w n' es ttl)" "keeps_spawned (dw_delete w n' p')"
    "keeps_spawned (dw_move w src dst)"
  using assms db_bridge_store_in unfolding quiet_bridge_def by blast+

lemma persist_spawned:
  assumes quiet: "quiet_bridge b" and run: "db_dispatch (db_with_forwarding e src b) c s = (r, s')"
    and mutation: "callback_mutation c = Some mutation"
  shows "r = Operation (request_id c) None \<and> db_spawned s' = db_spawned s @ forward_tasks e src mutation
    \<or> (\<exists>t. r = Operation (request_id c) (Some t)) \<and> db_spawned s' = db_spawned s"
proof (cases c)
  case (Query i n k)
  then show ?thesis using mutation by simp
next
  case (PersistSet i n k v ttl)
  have "answer_with (db_operation_answer i) (db_with_store (map_option (db_ForwardingStorageWriter e src) (db_bridge_store b n (key_route k))) (\<lambda>w. dw_set w \<lparr> dv_namespace = n, dv_key = k, dv_value = v, dv_ttl = map_option from_secs ttl \<rparr>)) s = (r, s')"
    using run by (simp only: PersistSet db_dispatch.simps db_bridge_store_forwarding)
  then have "r = Operation i None \<and> db_spawned s' = db_spawned s @ forward_tasks e src mutation
      \<or> (\<exists>t. r = Operation i (Some t)) \<and> db_spawned s' = db_spawned s"
    by (rule answer_spawned[where g = "(\<lambda>w. dw_set w \<lparr> dv_namespace = n, dv_key = k, dv_value = v, dv_ttl = map_option from_secs ttl \<rparr>)"]) (use mutation quiet_stores(1)[OF quiet] in \<open>simp_all add: PersistSet\<close>)
  then show ?thesis by (simp add: PersistSet)
next
  case (PersistDelete i n p)
  have "answer_with (db_operation_answer i) (db_with_store (map_option (db_ForwardingStorageWriter e src) (db_bridge_store b n p)) (\<lambda>w. dw_delete w n p)) s = (r, s')"
    using run by (simp only: PersistDelete db_dispatch.simps db_bridge_store_forwarding)
  then have "r = Operation i None \<and> db_spawned s' = db_spawned s @ forward_tasks e src mutation
      \<or> (\<exists>t. r = Operation i (Some t)) \<and> db_spawned s' = db_spawned s"
    by (rule answer_spawned[where g = "(\<lambda>w. dw_delete w n p)"]) (use mutation quiet_stores(3)[OF quiet] in \<open>simp_all add: PersistDelete\<close>)
  then show ?thesis by (simp add: PersistDelete)
next
  case (PersistMove i m n)
  have "answer_with (db_operation_answer i) (db_with_store (map_option (db_ForwardingStorageWriter e src) (db_bridge_store b m None)) (\<lambda>w. dw_move w m n)) s = (r, s')"
    using run by (simp only: PersistMove db_dispatch.simps db_bridge_store_forwarding)
  then have "r = Operation i None \<and> db_spawned s' = db_spawned s @ forward_tasks e src mutation
      \<or> (\<exists>t. r = Operation i (Some t)) \<and> db_spawned s' = db_spawned s"
    by (rule answer_spawned[where g = "(\<lambda>w. dw_move w m n)"]) (use mutation quiet_stores(4)[OF quiet] in \<open>simp_all add: PersistMove\<close>)
  then show ?thesis by (simp add: PersistMove)
next
  case (PersistSetBatch i n es ttl)
  define route where "route = (case es of [] \<Rightarrow> None | x # _ \<Rightarrow> Option.bind (key_route (entry_key x)) (\<lambda>p. db_bridge_store b n (Some p)))"
  have "(case es of [] \<Rightarrow> None | x # _ \<Rightarrow> Option.bind (key_route (entry_key x)) (\<lambda>p. db_bridge_store (db_with_forwarding e src b) n (Some p)))
      = map_option (db_ForwardingStorageWriter e src) route"
    unfolding route_def by (cases es) (simp_all add: db_bridge_store_forwarding split: bind_split)
  moreover have quiet_route: "keeps_spawned (dw_set_batch w n' es' ttl')" if "route = Some w" for w n' es' ttl'
    using that quiet_stores(2)[OF quiet] unfolding route_def by (cases es) (auto split: bind_splits)
  ultimately have "answer_with (db_operation_answer i) (db_with_store (map_option (db_ForwardingStorageWriter e src) route)
      (\<lambda>w. dw_set_batch w n (map (\<lambda>e. (entry_key e, entry_value e)) es) (map_option from_secs ttl))) s = (r, s')"
    using run by (simp only: PersistSetBatch db_dispatch.simps)
  then have "r = Operation i None \<and> db_spawned s' = db_spawned s @ forward_tasks e src mutation
      \<or> (\<exists>t. r = Operation i (Some t)) \<and> db_spawned s' = db_spawned s"
    by (rule answer_spawned[where g = "\<lambda>w. dw_set_batch w n (map (\<lambda>e. (entry_key e, entry_value e)) es) (map_option from_secs ttl)"])
      (use mutation quiet_route entries_again[of es] in \<open>simp_all add: PersistSetBatch\<close>)
  then show ?thesis by (simp add: PersistSetBatch)
qed

text \<open>
  C16. The bridge answers and forwards: every callback is answered with the result of its kind and its request id, and
  a mutation is handed to a task for every other endpoint, in order and exactly once, when the database
  carried it out; after an error, and for a query, nothing is forwarded.
\<close>

theorem write_forwarded_exactly_on_success:
  assumes "database_callback_bridge lib cfg = Inr b" and "db_handle (db_with_forwarding endpoint_count source_endpoint b) c s = (r, s')"
  shows "result_id r = request_id c \<and> result_fits c r
    \<and> db_spawned s' = db_spawned s @ (case callback_mutation c of
        Some mutation \<Rightarrow> if r = Operation (request_id c) None then forward_tasks endpoint_count source_endpoint mutation else []
      | None \<Rightarrow> [])"
proof (cases "callback_mutation c")
  case (Some mutation)
  have "r = Operation (request_id c) None \<and> db_spawned s' = db_spawned s @ forward_tasks endpoint_count source_endpoint mutation
    \<or> (\<exists>t. r = Operation (request_id c) (Some t)) \<and> db_spawned s' = db_spawned s"
    using persist_spawned[OF built_bridge_quiet[OF assms(1)] _ Some] assms(2) unfolding db_handle_def by fastforce
  then show ?thesis using Some by (cases c) auto
next
  case None
  then obtain i n k where c: "c = Query i n k" by (cases c) auto
  let ?m = "case find (\<lambda>q. dp_matches q n k) (db_bridge_queries b) of Some q \<Rightarrow> dp_query q n k | None \<Rightarrow> op_return None"
  have "keeps_spawned ?m"
    using built_bridge_quiet[OF assms(1)] by (auto simp: quiet_bridge_def find_Some_iff split: option.split)
  moreover have "answer_with (db_query_answer i) ?m s = (r, s')"
    using assms(2) c by (simp add: db_handle_def count_persist_def db_with_forwarding_def)
  ultimately show ?thesis
    using c unfolding keeps_spawned_def
    by (auto simp: answer_with_def db_query_answer_def split: prod.splits sum.splits option.splits) (metis snd_conv)+
qed

lemma people_bridge:
  "database_callback_bridge mem_lib people_config = Inr (CallbackBridge_new
     [DatabaseQueryProvider mem_lib (from_secs 1) people_query] [DatabaseStoreWriter mem_lib people_store])"
  using validated_query_builds[OF people_query_valid] validated_store_builds[OF people_store_valid]
  by (simp add: database_callback_bridge_def people_config_def)

theorem write_forwarded_exactly_on_success_witness:
  "db_spawned (snd (db_handle (db_with_forwarding 3 1 (CallbackBridge_new
       [DatabaseQueryProvider mem_lib (from_secs 1) people_query] [DatabaseStoreWriter mem_lib people_store]))
     (PersistDelete 7 people None) empty_db)) = [(0, MutationDelete people None), (2, MutationDelete people None)]"
proof -
  let ?b = "CallbackBridge_new [DatabaseQueryProvider mem_lib (from_secs 1) people_query] [DatabaseStoreWriter mem_lib people_store]"
  obtain r s' where run: "db_handle (db_with_forwarding 3 1 ?b) (PersistDelete 7 people None) empty_db = (r, s')" by force
  have "db_matches people_store people None" by code_simp
  then have "r = Operation 7 None"
    using run
    by (simp add: db_handle_def count_persist_def db_with_forwarding_def CallbackBridge_new_def db_bridge_store_def answer_with_def
        db_ForwardingStorageWriter_def DatabaseStoreWriter_def db_with_store_def then_forward_def op_bind_def
        db_delete_def delete_target_def people_store_def store_execute_def op_lift_def ok_or_else_def any_parameters_def
        db_execute_def sql_call_def mem_lib_def or_error_def db_operation_answer_def)
  then show ?thesis
    using write_forwarded_exactly_on_success[OF people_bridge run] run
    by (simp add: forward_tasks_def empty_db_def upt_rec)
qed

end
