(* ===== verification/OpenBao_Config.thy ===== *)
theory OpenBao_Config
  imports OpenBao_Bridge Db_Config
begin

text \<open>
  The configuration of the OpenBao adapter (\<open>valkyr-openbao-adapter/src/config.rs\<close>): its records, loading the credentials of
  the endpoints, validation, and the construction of the client and of the callback bridge. Its \<open>ValkyrEndpoint\<close> and
  \<open>ValkyrConfig\<close>, with \<open>address\<close>, \<open>uses_tls\<close>, \<open>client_builder\<close> and \<open>validate_wire_duration\<close>, are the same text as
  those of the database adapter and are taken from \<open>Db_Config\<close>, as are the file system and the
  cron library.
\<close>

section \<open>Records\<close>

record app_role_config =
  ar_kind :: string
  ar_role_id :: string
  secret_id_file :: string
  renew_before_seconds :: nat

record openbao_config =
  bao_address :: string
  kv_mount :: string
  bao_prefix :: string
  request_timeout_seconds :: nat
  bao_ca_certificate_file :: "string option"
  bao_auth :: app_role_config

record bao_logging_config =
  bao_log_level :: string
  bao_log_format :: log_format

definition default_bao_logging :: bao_logging_config where
  "default_bao_logging = \<lparr> bao_log_level = ''info'', bao_log_format = Pretty \<rparr>"

record bao_provider_config =
  bp_namespace :: string
  bp_frequency :: string
  bp_run_on_startup :: bool

record bao_adapter_config =
  openbao :: openbao_config
  bao_valkyr :: valkyr_config
  bao_logging :: bao_logging_config
  bao_queries :: "(string \<times> query_config) list"
  bao_stores :: "(string \<times> store_config) list"
  bao_providers :: "(string \<times> bao_provider_config) list"

section \<open>Loading\<close>

definition bao_secret :: "file_system \<Rightarrow> string \<Rightarrow> string adapter_result" where
  "bao_secret fs path =
     (case read_file fs path of
        Inl e \<Rightarrow> Inl (adapter_error.ConfigurationFile e)
      | Inr contents \<Rightarrow>
          if trim contents = [] then Inl (Configuration (''credential file is empty: '' @ path)) else Inr (trim contents))"

definition optional_file :: "file_system \<Rightarrow> string option \<Rightarrow> string option adapter_result" where
  "optional_file fs file =
     (case file of
        None \<Rightarrow> Inr None
      | Some path \<Rightarrow> (case read_file fs path of Inl e \<Rightarrow> Inl (adapter_error.ConfigurationFile e) | Inr contents \<Rightarrow> Inr (Some contents)))"

definition load_bao_endpoint :: "file_system \<Rightarrow> 'w net_lib \<Rightarrow> string \<Rightarrow> valkyr_endpoint \<Rightarrow> valkyr_endpoint adapter_result" where
  "load_bao_endpoint fs lib base e =
     (let key_file = resolve_file base (api_key_file e);
          ca_file = map_option (resolve_file base) (ca_certificate_file e);
          e = e\<lparr> api_key_file := key_file, ca_certificate_file := ca_file \<rparr> in
      case bao_secret fs key_file of
        Inl err \<Rightarrow> Inl err
      | Inr api_key \<Rightarrow>
          (case optional_file fs ca_file of
             Inl err \<Rightarrow> Inl err
           | Inr None \<Rightarrow> Inr (e\<lparr> ep_api_key := api_key, ep_tls_config := None \<rparr>)
           | Inr (Some certificate) \<Rightarrow>
               (case verified_tls_config lib (Some certificate) of
                  Inl err \<Rightarrow> Inl (Configuration (client_error_display err))
                | Inr config \<Rightarrow> Inr (e\<lparr> ep_api_key := api_key, ep_tls_config := Some config \<rparr>))))"

definition resolve_paths :: "string \<Rightarrow> bao_adapter_config \<Rightarrow> bao_adapter_config" where
  "resolve_paths base cfg =
     (let bao = openbao cfg; auth = bao_auth bao in
      cfg\<lparr> openbao := bao\<lparr> bao_ca_certificate_file := map_option (resolve_file base) (bao_ca_certificate_file bao),
        bao_auth := auth\<lparr> secret_id_file := resolve_file base (secret_id_file auth) \<rparr> \<rparr> \<rparr>)"

section \<open>Validation\<close>

definition validate_optional_file :: "file_system \<Rightarrow> string \<Rightarrow> string option \<Rightarrow> string + unit" where
  "validate_optional_file fs message file =
     (case file of None \<Rightarrow> Inr () | Some path \<Rightarrow> check_that (is_file fs path) (message @ path))"

definition bao_validate_endpoint :: "file_system \<Rightarrow> nat \<Rightarrow> valkyr_endpoint \<Rightarrow> string + unit" where
  "bao_validate_endpoint fs index e =
     (case (case split_once ''://'' (ep_url e) of None \<Rightarrow> ([], ep_url e) | Some p \<Rightarrow> p) of (scheme, address) \<Rightarrow>
      first_failure
        [check_that (scheme = [] \<or> scheme = ''tcp'' \<or> scheme = ''tls'')
           (''Valkyr endpoint '' @ show_nat index @ '' uses unsupported URL scheme '' @ quoted_name scheme),
         check_that (trim address \<noteq> []) (''Valkyr endpoint '' @ show_nat index @ '' URL must not be empty''),
         check_that (is_file fs (api_key_file e)) (''Valkyr API key file does not exist: '' @ api_key_file e),
         check_that (ca_certificate_file e = None \<or> uses_tls e)
           (''Valkyr endpoint '' @ show_nat index @ '' has a CA certificate but is not TLS''),
         validate_optional_file fs ''Valkyr CA certificate file does not exist: '' (ca_certificate_file e)])"

definition validate_route :: "string \<Rightarrow> string \<Rightarrow> string \<Rightarrow> string + unit" where
  "validate_route name namespace key =
     check_that (trim namespace \<noteq> [] \<and> trim key \<noteq> [] \<and> starts_with ''/'' namespace)
       (''route '' @ quoted_name name @ '' has malformed patterns'')"

definition bao_validate_query :: "string \<times> query_config \<Rightarrow> string + unit" where
  "bao_validate_query entry = (case entry of (name, q) \<Rightarrow>
     first_failure
       [validate_route name (qc_namespace_pattern q) (qc_key_pattern q),
        validate_wire_duration (''query '' @ quoted_name name @ '' provider_wait_timeout'') (qc_provider_wait_timeout q) to_millis,
        validate_wire_duration (''query '' @ quoted_name name @ '' miss_cache_ttl'') (qc_miss_cache_ttl q) to_seconds])"

definition bao_validate_store :: "string \<times> store_config \<Rightarrow> string + unit" where
  "bao_validate_store entry = (case entry of (name, st) \<Rightarrow> validate_route name (sc_namespace_pattern st) (sc_key_pattern st))"

definition bao_schedule :: "(string \<Rightarrow> string + 'c) \<Rightarrow> bao_provider_config \<Rightarrow> string + 'c" where
  "bao_schedule cron p = or_error (\<lambda>e. ''invalid provider cron '' @ quoted_name (bp_frequency p) @ '': '' @ e) (cron (bp_frequency p))"

definition bao_validate_provider :: "(string \<Rightarrow> string + 'c) \<Rightarrow> string \<times> bao_provider_config \<Rightarrow> string + unit" where
  "bao_validate_provider cron entry = (case entry of (name, p) \<Rightarrow>
     first_failure
       [check_that (starts_with ''/'' (bp_namespace p) \<and> trim (bp_namespace p) \<noteq> [])
          (''provider '' @ quoted_name name @ '' has an invalid namespace''),
        map_sum id (\<lambda>_. ()) (bao_schedule cron p)])"

text \<open>Every error of validation is the text of \<open>AdapterError::Configuration\<close>.\<close>

definition bao_validate :: "file_system \<Rightarrow> (string \<Rightarrow> string + 'c) \<Rightarrow> bao_adapter_config \<Rightarrow> string + unit" where
  "bao_validate fs cron cfg =
     (let bao = openbao cfg; auth = bao_auth bao; vc = bao_valkyr cfg in
      first_failure
       ([check_that (starts_with ''http://'' (bao_address bao) \<or> starts_with ''https://'' (bao_address bao))
           ''openbao.address must be an HTTP(S) URL'',
         check_that (trim (kv_mount bao) \<noteq> [] \<and> request_timeout_seconds bao \<noteq> 0)
           ''openbao.kv_mount and request_timeout_seconds are required'',
         check_that (trim_slashes (bao_prefix bao) \<noteq> []) ''openbao.prefix is required'',
         check_that (ar_kind auth = ''approle'' \<and> trim (ar_role_id auth) \<noteq> [] \<and> renew_before_seconds auth \<noteq> 0)
           ''only AppRole auth with role_id and a positive renewal window is supported'',
         check_that (is_file fs (secret_id_file auth)) (''credential file does not exist: '' @ secret_id_file auth)]
        @ map (\<lambda>(i, e). bao_validate_endpoint fs i e) (enumerate 0 (endpoints vc))
        @ [validate_optional_file fs ''CA certificate file does not exist: '' (bao_ca_certificate_file bao),
           check_that (endpoints vc \<noteq> [] \<and> request_timeout vc \<noteq> 0 \<and> max_retries vc \<noteq> 0)
             ''Valkyr endpoints, request_timeout, and max_retries must be set'',
           validate_wire_duration ''provider_wait_timeout'' (vc_provider_wait_timeout vc) to_millis,
           validate_wire_duration ''miss_cache_ttl'' (vc_miss_cache_ttl vc) to_seconds]
        @ map bao_validate_query (bao_queries cfg)
        @ map bao_validate_store (bao_stores cfg)
        @ map (bao_validate_provider cron) (bao_providers cfg)))"

text \<open>\<open>base\<close> is the directory of the file.\<close>

definition bao_from_file ::
    "file_system \<Rightarrow> 'w net_lib \<Rightarrow> (string \<Rightarrow> string + bao_adapter_config) \<Rightarrow> (string \<Rightarrow> string + 'c) \<Rightarrow> string \<Rightarrow> string
      \<Rightarrow> bao_adapter_config adapter_result" where
  "bao_from_file fs lib yaml_from_str cron base path =
     (case read_file fs path of
        Inl e \<Rightarrow> Inl (adapter_error.ConfigurationFile e)
      | Inr content \<Rightarrow>
          (case yaml_from_str content of
             Inl e \<Rightarrow> Inl (Configuration e)
           | Inr cfg \<Rightarrow>
               (let cfg = resolve_paths base cfg in
                case collect_results (load_bao_endpoint fs lib base) (endpoints (bao_valkyr cfg)) of
                  Inl e \<Rightarrow> Inl e
                | Inr es \<Rightarrow>
                    (let cfg = cfg\<lparr> bao_valkyr := (bao_valkyr cfg)\<lparr> endpoints := es \<rparr> \<rparr> in
                     case bao_validate fs cron cfg of Inl e \<Rightarrow> Inl (Configuration e) | Inr _ \<Rightarrow> Inr cfg))))"

section \<open>Construction\<close>

definition bao_provider_options :: "valkyr_config \<Rightarrow> query_config \<Rightarrow> string + provide_options" where
  "bao_provider_options vc q =
     (case to_millis (first_set (qc_provider_wait_timeout q) (vc_provider_wait_timeout vc)) of
        Inl e \<Rightarrow> Inl (''provider_wait_timeout: '' @ e)
      | Inr timeout' \<Rightarrow>
          (case to_seconds (first_set (qc_miss_cache_ttl q) (vc_miss_cache_ttl vc)) of
             Inl e \<Rightarrow> Inl (''miss_cache_ttl: '' @ e)
           | Inr miss \<Rightarrow> Inr \<lparr> max_rate = None, timeout_ms = timeout', miss_ttl_seconds = miss \<rparr>))"

definition openbao_client :: "'w bao_lib \<Rightarrow> file_system \<Rightarrow> bao_adapter_config \<Rightarrow> bao_client adapter_result" where
  "openbao_client lib fs cfg =
     (let bao = openbao cfg in
      case bao_secret fs (secret_id_file (bao_auth bao)) of
        Inl e \<Rightarrow> Inl e
      | Inr secret' \<Rightarrow>
          (case optional_file fs (bao_ca_certificate_file bao) of
             Inl e \<Rightarrow> Inl e
           | Inr ca \<Rightarrow>
               OpenBaoClient_new lib (bao_address bao) (kv_mount bao) (from_secs (request_timeout_seconds bao))
                 \<lparr> role_id = ar_role_id (bao_auth bao), secret_id = secret' \<rparr> ca))"

definition bao_callback_bridge :: "'w bao_lib \<Rightarrow> bao_client \<Rightarrow> bao_adapter_config \<Rightarrow> 'w callback_bridge adapter_result" where
  "bao_callback_bridge lib c cfg =
     (case OpenBaoMapping_new (bao_prefix (openbao cfg)) of
        Inl e \<Rightarrow> Inl e
      | Inr m \<Rightarrow> Inr \<lparr> cb_queries = map (\<lambda>(_, q). OpenBaoQueryProvider lib c m q) (bao_queries cfg),
                        cb_stores = map (\<lambda>(_, st). OpenBaoStoreWriter lib c m st) (bao_stores cfg) \<rparr>)"

section \<open>A validated configuration starts\<close>

lemma bao_validate_parts:
  assumes "bao_validate fs cron cfg = Inr ()"
  shows "trim_slashes (bao_prefix (openbao cfg)) \<noteq> []"
    and "validate_wire_duration ''provider_wait_timeout'' (vc_provider_wait_timeout (bao_valkyr cfg)) to_millis = Inr ()"
    and "validate_wire_duration ''miss_cache_ttl'' (vc_miss_cache_ttl (bao_valkyr cfg)) to_seconds = Inr ()"
    and "entry \<in> set (bao_queries cfg) \<Longrightarrow> bao_validate_query entry = Inr ()"
    and "store_entry \<in> set (bao_stores cfg) \<Longrightarrow> bao_validate_store store_entry = Inr ()"
  using assms unfolding bao_validate_def Let_def first_failure_Inr set_append set_map by auto

lemma bridge_of_validated:
  assumes "bao_validate fs cron cfg = Inr ()"
  shows "\<exists>m. OpenBaoMapping_new (bao_prefix (openbao cfg)) = Inr m
    \<and> bao_callback_bridge lib c cfg = Inr \<lparr> cb_queries = map (\<lambda>(_, q). OpenBaoQueryProvider lib c m q) (bao_queries cfg),
        cb_stores = map (\<lambda>(_, st). OpenBaoStoreWriter lib c m st) (bao_stores cfg) \<rparr>"
  using bao_validate_parts(1)[OF assms] by (simp add: bao_callback_bridge_def OpenBaoMapping_new_def Let_def)

end
