(* ===== verification/Db_Publisher.thy ===== *)
theory Db_Publisher
  imports Db_Bridge Client_Properties "HOL-Library.Char_ord" "HOL-Library.List_Lexorder"
begin

text \<open>
  Publishing what the database holds: \<open>publisher.rs\<close> (a client per endpoint that is opened again after a lost
  connection) and \<open>sync_scheduled_provider\<close> of \<open>main.rs\<close>. The publisher's clients are
  the function \<open>pub_clients\<close> from the number of an endpoint. The operations are those of one scheduled task; another task
  may use a kept connection in between (\<open>lock_wait\<close> of the client), but a replacement of the kept clients by
  another task in the middle of an operation is not modelled.
\<close>

section \<open>The publisher\<close>

record 'n publisher =
  pub_net :: "'n client_state"
  pub_clients :: "nat \<Rightarrow> client option"

type_synonym ('n, 'a) pub_op = "(db_error, 'n publisher, 'a) effect"

definition on_net :: "('n, 'a) client_op \<Rightarrow> (client_error, 'n publisher, 'a) effect" where
  "on_net m s = (case m (pub_net s) of (r, net) \<Rightarrow> (r, s\<lparr> pub_net := net \<rparr>))"

definition publisher_from_builders :: "'n client_state \<Rightarrow> 'n publisher" where
  "publisher_from_builders net = \<lparr> pub_net = net, pub_clients = (\<lambda>_. None) \<rparr>"

definition endpoint_connection :: "codec \<Rightarrow> 'n net_lib \<Rightarrow> client_builder list \<Rightarrow> nat \<Rightarrow> ('n, client) pub_op" where
  "endpoint_connection cd net builders i s =
     (case pub_clients s i of
        Some c \<Rightarrow> (Inr c, s)
      | None \<Rightarrow>
          (case on_net (builder_connect cd net (builders ! i)) s of
             (Inl e, s) \<Rightarrow> (Inl (Publish e), s)
           | (Inr c, s) \<Rightarrow> (Inr c, s\<lparr> pub_clients := (pub_clients s)(i := Some c) \<rparr>)))"

definition send_value :: "codec \<Rightarrow> 'n net_lib \<Rightarrow> db_value \<Rightarrow> client \<Rightarrow> (client_error, 'n publisher, unit) effect" where
  "send_value cd net v c = on_net (client_set cd net c (dv_namespace v) (dv_key v) (dv_value v) (dv_ttl v))"

definition forget_client :: "nat \<Rightarrow> 'n publisher \<Rightarrow> 'n publisher" where
  "forget_client i s = s\<lparr> pub_clients := (pub_clients s)(i := None) \<rparr>"

definition publish_endpoint :: "codec \<Rightarrow> 'n net_lib \<Rightarrow> client_builder list \<Rightarrow> db_value \<Rightarrow> nat \<Rightarrow> ('n, unit) pub_op" where
  "publish_endpoint cd net builders v i =
     op_bind (endpoint_connection cd net builders i) (\<lambda>c s.
       case send_value cd net v c s of
         (Inr _, s) \<Rightarrow> (Inr (), s)
       | (Inl e, s) \<Rightarrow>
           if \<not> is_connection_failure e then (Inl (Publish e), s)
           else op_bind (endpoint_connection cd net builders i) (\<lambda>c. map_failure Publish (send_value cd net v c)) (forget_client i s))"

definition invalidate :: "nat \<Rightarrow> 'n publisher \<Rightarrow> 'n publisher" where
  "invalidate endpoint_count s = fold forget_client [0..<endpoint_count] s"

fun acquire_leases ::
    "codec \<Rightarrow> 'n net_lib \<Rightarrow> client_builder list \<Rightarrow> namespace_context \<Rightarrow> nat list \<Rightarrow> 'n publisher \<Rightarrow> client list \<times> 'n publisher" where
  "acquire_leases cd net builders n [] s = ([], s)"
| "acquire_leases cd net builders n (i # rest) s =
     (case endpoint_connection cd net builders i s of
        (Inl _, s) \<Rightarrow> acquire_leases cd net builders n rest s
      | (Inr c, s) \<Rightarrow>
          (case on_net (acquire_schedule_lease cd net c n) s of
             (Inr (Acquired _), s) \<Rightarrow> (case acquire_leases cd net builders n rest s of (owners, s) \<Rightarrow> (c # owners, s))
           | (Inr Unavailable, s) \<Rightarrow> acquire_leases cd net builders n rest s
           | (Inl _, s) \<Rightarrow> acquire_leases cd net builders n rest (forget_client i s)))"

definition acquire_schedule_leases ::
    "codec \<Rightarrow> 'n net_lib \<Rightarrow> client_builder list \<Rightarrow> namespace_context \<Rightarrow> 'n publisher \<Rightarrow> client list \<times> 'n publisher" where
  "acquire_schedule_leases cd net builders n = acquire_leases cd net builders n [0..<length builders]"

definition release_schedule_leases ::
    "codec \<Rightarrow> 'n net_lib \<Rightarrow> namespace_context \<Rightarrow> client list \<Rightarrow> 'n publisher \<Rightarrow> 'n publisher" where
  "release_schedule_leases cd net n owners s = fold (\<lambda>c s. snd (on_net (release_schedule_lease cd net c n) s)) owners s"

fun publish_to_leased :: "codec \<Rightarrow> 'n net_lib \<Rightarrow> client list \<Rightarrow> db_value \<Rightarrow> ('n, unit) pub_op" where
  "publish_to_leased cd net [] v = op_return ()"
| "publish_to_leased cd net (owner # owners) v =
     op_bind (map_failure Publish (send_value cd net v owner)) (\<lambda>_. publish_to_leased cd net owners v)"

fun publish_all :: "codec \<Rightarrow> 'n net_lib \<Rightarrow> client_builder list \<Rightarrow> db_value \<Rightarrow> nat list \<Rightarrow> 'n publisher \<Rightarrow> string list \<times> 'n publisher" where
  "publish_all cd net builders v [] s = ([], s)"
| "publish_all cd net builders v (i # rest) s =
     (case publish_endpoint cd net builders v i s of (r, s) \<Rightarrow>
      case publish_all cd net builders v rest s of (failures, s) \<Rightarrow>
        ((case r of Inl e \<Rightarrow> [show_nat i @ '': '' @ db_error_display e] | Inr _ \<Rightarrow> []) @ failures, s))"

fun join_texts :: "string list \<Rightarrow> string" where
  "join_texts [] = []"
| "join_texts [t] = t"
| "join_texts (t # ts) = t @ '', '' @ join_texts ts"

definition publish :: "codec \<Rightarrow> 'n net_lib \<Rightarrow> client_builder list \<Rightarrow> db_value \<Rightarrow> ('n, unit) pub_op" where
  "publish cd net builders v s =
     (case publish_all cd net builders v [0..<length builders] s of (failures, s) \<Rightarrow>
        (if failures = [] then Inr () else Inl (Replication (join_texts failures)), s))"

section \<open>Synchronization\<close>

text \<open>A source and a publisher together; the source is read before anything is published.\<close>

fun publish_each :: "(db_value \<Rightarrow> ('n, unit) pub_op) \<Rightarrow> db_value list \<Rightarrow> ('n, unit) pub_op" where
  "publish_each f [] = op_return ()"
| "publish_each f (v # vs) = op_bind (f v) (\<lambda>_. publish_each f vs)"

definition sync_once ::
    "'w db_lib \<Rightarrow> duration \<Rightarrow> provider_config \<Rightarrow> (db_value \<Rightarrow> ('n, unit) pub_op) \<Rightarrow> (db_error, 'w db_state \<times> 'n publisher, nat) effect" where
  "sync_once lib query_timeout provider f st =
     (case provider_values lib query_timeout provider (fst st) of
        (Inl e, s) \<Rightarrow> (Inl e, (s, snd st))
      | (Inr values', s) \<Rightarrow>
          (case publish_each f values' (snd st) of
             (Inl e, p) \<Rightarrow> (Inl e, (s, p))
           | (Inr _, p) \<Rightarrow> (Inr (length values'), (s, p))))"

text \<open>The \<open>BTreeMap\<close> of the values of each namespace: entries in the order of their keys, values in the order of arrival.\<close>

fun group_insert :: "string \<Rightarrow> db_value \<Rightarrow> (string \<times> db_value list) list \<Rightarrow> (string \<times> db_value list) list" where
  "group_insert n v [] = [(n, [v])]"
| "group_insert n v ((m, vs) # groups) =
     (if n = m then (m, vs @ [v]) # groups
      else if n < m then (n, [v]) # (m, vs) # groups
      else (m, vs) # group_insert n v groups)"

definition group_values :: "db_value list \<Rightarrow> (string \<times> db_value list) list" where
  "group_values vs = fold (\<lambda>v. group_insert (as_str (dv_namespace v)) v) vs []"

definition publish_group ::
    "codec \<Rightarrow> 'n net_lib \<Rightarrow> client_builder list \<Rightarrow> namespace_context \<Rightarrow> db_value list \<Rightarrow> ('n, unit) pub_op" where
  "publish_group cd net builders n vs s =
     (case acquire_schedule_leases cd net builders n s of (owners, s) \<Rightarrow>
      case publish_each (publish_to_leased cd net owners) vs s of (r, s) \<Rightarrow>
        (r, release_schedule_leases cd net n owners s))"

fun publish_groups :: "codec \<Rightarrow> 'n net_lib \<Rightarrow> client_builder list \<Rightarrow> (string \<times> db_value list) list \<Rightarrow> ('n, unit) pub_op" where
  "publish_groups cd net builders [] = op_return ()"
| "publish_groups cd net builders ((namespace, vs) # groups) =
     op_bind (op_lift (or_error RouteError (NamespaceContext_new namespace))) (\<lambda>n.
     op_bind (publish_group cd net builders n vs) (\<lambda>_. publish_groups cd net builders groups))"

definition sync_scheduled_provider ::
    "'w db_lib \<Rightarrow> duration \<Rightarrow> provider_config \<Rightarrow> codec \<Rightarrow> 'n net_lib \<Rightarrow> client_builder list
      \<Rightarrow> (db_error, 'w db_state \<times> 'n publisher, nat) effect" where
  "sync_scheduled_provider lib query_timeout provider cd net builders st =
     (case provider_values lib query_timeout provider (fst st) of
        (Inl e, s) \<Rightarrow> (Inl e, (s, snd st))
      | (Inr values', s) \<Rightarrow>
          (case publish_groups cd net builders (group_values values') (snd st) of
             (Inl e, p) \<Rightarrow> (Inl e, (s, p))
           | (Inr _, p) \<Rightarrow> (Inr (length values'), (s, p))))"

section \<open>Groups\<close>

text \<open>What the fold builds: the values of each namespace, in the order of the source.\<close>

definition grouped :: "db_value list \<Rightarrow> (string \<times> db_value list) list" where
  "grouped vs = map (\<lambda>n. (n, filter (\<lambda>v. as_str (dv_namespace v) = n) vs)) (sorted_list_of_set ((\<lambda>v. as_str (dv_namespace v)) ` set vs))"

abbreviation value_namespace :: "db_value \<Rightarrow> string" where
  "value_namespace v \<equiv> as_str (dv_namespace v)"

lemma group_insert_sorted:
  assumes "sorted_wrt (<) names" and "value_namespace v \<in> set names \<or> filter (\<lambda>x. value_namespace x = value_namespace v) vs = []"
  shows "group_insert (value_namespace v) v (map (\<lambda>n. (n, filter (\<lambda>x. value_namespace x = n) vs)) names)
    = map (\<lambda>n. (n, filter (\<lambda>x. value_namespace x = n) (vs @ [v]))) (insort_insert (value_namespace v) names)"
  using assms
proof (induction names)
  case Nil
  then show ?case by (simp add: insort_insert_key_def)
next
  case (Cons m names)
  let ?n = "value_namespace v"
  consider "?n = m" | "?n < m" | "m < ?n" using linorder_less_linear by blast
  then show ?case
  proof cases
    case 1
    then have "m \<notin> set names" using Cons.prems(1) by auto
    with 1 show ?thesis by (auto simp: insort_insert_key_def)
  next
    case 2
    then have "?n \<notin> set (m # names)" using Cons.prems(1) by auto
    with 2 Cons.prems(2) show ?thesis by (auto simp: insort_insert_key_def)
  next
    case 3
    then have "insort_insert ?n (m # names) = m # insort_insert ?n names" by (auto simp: insort_insert_key_def)
    with 3 Cons show ?thesis by auto
  qed
qed

lemma group_values_grouped: "group_values vs = grouped vs"
proof (induction vs rule: rev_induct)
  case Nil
  then show ?case by (simp add: group_values_def grouped_def)
next
  case (snoc v vs)
  let ?names = "sorted_list_of_set (value_namespace ` set vs)"
  have "value_namespace v \<in> set ?names \<or> filter (\<lambda>x. value_namespace x = value_namespace v) vs = []"
    by (auto simp: filter_empty_conv) (metis imageI)
  moreover have "sorted_wrt (<) ?names" by (rule strict_sorted_list_of_set)
  moreover have "insort_insert (value_namespace v) ?names = sorted_list_of_set (insert (value_namespace v) (value_namespace ` set vs))"
    by (cases "value_namespace v \<in> value_namespace ` set vs")
      (simp_all add: insort_insert_triv insort_insert_insort insert_absorb)
  moreover have "group_values (vs @ [v]) = group_insert (value_namespace v) v (group_values vs)"
    by (simp add: group_values_def)
  ultimately show ?case
    unfolding snoc.IH by (simp add: group_insert_sorted grouped_def)
qed

section \<open>Acknowledgements\<close>

context connecting
begin

lemma set_acknowledged:
  assumes "client_set cd lib cl n k v ttl s = (Inr (), s')" and "settled sent taken (connection cl) s"
  shows "own_answer cd (reply (connection cl)) (sent (connection cl) (cs_world s')) (Set n k v (map_option as_secs ttl)) (Inr ROk)"
proof -
  obtain r where req: "client_request cd lib cl (Set n k v (map_option as_secs ttl)) s = (Inr r, s')" and "if_ok r = Some ()"
    using assms(1) by (auto simp: client_set_def expect_def op_bind_Inr_iff op_lift_def ok_or_else_def split: option.splits)
  then have "r = ROk" by (cases r) simp_all
  then show ?thesis using request_outcome[OF req assms(2)] by auto
qed

lemma connected_settled:
  assumes "builder_connect cd lib b s = (Inr cl, s')"
  shows "settled sent taken (connection cl) s'"
proof -
  obtain key where "try_endpoints cd lib b key (zip (cb_endpoints b) (cb_tls_configs b)) s = (Inr cl, s')"
    using assms by (auto simp: builder_connect_def op_fail_def split: if_splits option.splits)
  then show ?thesis using try_endpoints_accepted by blast
qed

text \<open>The connection of an endpoint is healthy when the one that is kept is.\<close>

definition kept_settled :: "nat \<Rightarrow> 'a publisher \<Rightarrow> bool" where
  "kept_settled i s \<longleftrightarrow> (\<forall>c. pub_clients s i = Some c \<longrightarrow> settled sent taken (connection c) (pub_net s))"

lemma endpoint_connection_settled:
  assumes "endpoint_connection cd lib builders i s = (Inr c, s')" and "kept_settled i s"
  shows "pub_clients s' i = Some c \<and> settled sent taken (connection c) (pub_net s')"
  using assms connected_settled
  by (auto simp: endpoint_connection_def kept_settled_def on_net_def split: option.splits prod.splits sum.splits)

lemma send_value_acknowledged:
  assumes "send_value cd lib v c s = (Inr (), s')" and "settled sent taken (connection c) (pub_net s)"
  shows "pub_clients s' = pub_clients s
    \<and> own_answer cd (reply (connection c)) (sent (connection c) (cs_world (pub_net s')))
        (Set (dv_namespace v) (dv_key v) (dv_value v) (map_option as_secs (dv_ttl v))) (Inr ROk)"
  using assms set_acknowledged by (auto simp: send_value_def on_net_def split: prod.splits)

lemma publish_endpoint_acknowledged:
  assumes "publish_endpoint cd lib builders v i s = (Inr (), s')" and "kept_settled i s"
  shows "\<exists>c. pub_clients s' i = Some c
    \<and> own_answer cd (reply (connection c)) (sent (connection c) (cs_world (pub_net s')))
        (Set (dv_namespace v) (dv_key v) (dv_value v) (map_option as_secs (dv_ttl v))) (Inr ROk)"
proof -
  obtain c s1 where conn: "endpoint_connection cd lib builders i s = (Inr c, s1)"
    and rest: "(case send_value cd lib v c s1 of
         (Inr _, s) \<Rightarrow> (Inr (), s)
       | (Inl e, s) \<Rightarrow>
           if \<not> is_connection_failure e then (Inl (Publish e), s)
           else op_bind (endpoint_connection cd lib builders i) (\<lambda>c. map_failure Publish (send_value cd lib v c)) (forget_client i s)) = (Inr (), s')"
    using assms(1) by (auto simp: publish_endpoint_def op_bind_Inr_iff)
  note first = endpoint_connection_settled[OF conn assms(2)]
  obtain r s2 where sent': "send_value cd lib v c s1 = (r, s2)" by force
  show ?thesis
  proof (cases r)
    case (Inr u)
    then show ?thesis using rest sent' first send_value_acknowledged[of cd v c s1 s2] by auto
  next
    case (Inl e)
    with rest sent' obtain c' s3 where again: "endpoint_connection cd lib builders i (forget_client i s2) = (Inr c', s3)"
      and snd: "send_value cd lib v c' s3 = (Inr (), s')"
      by (auto simp: op_bind_Inr_iff split: if_splits)
    have "kept_settled i (forget_client i s2)" by (simp add: kept_settled_def forget_client_def)
    from endpoint_connection_settled[OF again this] send_value_acknowledged[OF snd] show ?thesis by auto
  qed
qed

end

text \<open>
  C36. A publish that reports success was acknowledged: when the publisher returns success for an endpoint whose kept
  connection, if any, has no unanswered line, the server answered OK to the SET of exactly this value on the connection that
  is kept afterwards, whether that is the old one or the one opened after a lost connection.
\<close>

theorem published_value_is_acknowledged:
  assumes "connecting lib sent taken reply" and "publish_endpoint cd lib builders v i s = (Inr (), s')"
    and "\<forall>c. pub_clients s i = Some c \<longrightarrow> settled sent taken (connection c) (pub_net s)"
  shows "\<exists>c. pub_clients s' i = Some c
    \<and> own_answer cd (reply (connection c)) (sent (connection c) (cs_world (pub_net s')))
        (Set (dv_namespace v) (dv_key v) (dv_value v) (map_option as_secs (dv_ttl v))) (Inr ROk)"
  using connecting.publish_endpoint_acknowledged[OF assms(1,2)] assms(3) by (simp add: connecting.kept_settled_def[OF assms(1)])

definition ada_value :: db_value where
  "ada_value = \<lparr> dv_namespace = \<lparr> ns_value = ''/p'', ctx_start = None \<rparr>, dv_key = Key ''ada'', dv_value = JNull, dv_ttl = None \<rparr>"

abbreviation ada_command :: command where
  "ada_command \<equiv> Set (dv_namespace ada_value) (dv_key ada_value) (dv_value ada_value) (map_option as_secs (dv_ttl ada_value))"

definition agreeing :: "string list \<Rightarrow> string" where
  "agreeing lines = ''OK''"

definition kept_publisher :: "wire publisher" where
  "kept_publisher = \<lparr> pub_net = fresh_wire, pub_clients = (\<lambda>_. Some ping_client) \<rparr>"

lemma agreeing_answer: "decode_response sample_codec ada_command ''OK'' = Inr ROk"
  by (rule sample_answer) (simp_all add: ada_value_def encode_response.simps MAX_FRAME_BYTES_def)

lemma ada_published:
  "\<exists>s'. publish_endpoint sample_codec (wire_lib agreeing) [sample_builder] ada_value 0 kept_publisher = (Inr (), s')"
proof -
  obtain line where "encode_command sample_codec ada_command = Inr line"
    by (simp add: ada_value_def value_text_def sample_codec_def)
  then have "client_request sample_codec (wire_lib agreeing) ping_client ada_command fresh_wire = (Inr ROk, wire_after 0 line fresh_wire)"
    using wire_request[of fresh_wire ping_client sample_codec ada_command line agreeing ROk] agreeing_answer
    by (simp add: fresh_wire_def ping_client_def agreeing_def)
  then have "client_set sample_codec (wire_lib agreeing) ping_client (dv_namespace ada_value) (dv_key ada_value) (dv_value ada_value)
      (dv_ttl ada_value) fresh_wire = (Inr (), wire_after 0 line fresh_wire)"
    by (simp add: client_set_def expect_def op_bind_def op_lift_def ok_or_else_def)
  then show ?thesis
    by (simp add: publish_endpoint_def endpoint_connection_def kept_publisher_def op_bind_def send_value_def on_net_def)
qed

theorem published_value_is_acknowledged_witness:
  "\<exists>s' c. publish_endpoint sample_codec (wire_lib agreeing) [sample_builder] ada_value 0 kept_publisher = (Inr (), s')
     \<and> pub_clients s' 0 = Some c
     \<and> own_answer sample_codec agreeing (wire_lines (cs_world (pub_net s')) (connection c)) ada_command (Inr ROk)"
proof -
  obtain s' where run: "publish_endpoint sample_codec (wire_lib agreeing) [sample_builder] ada_value 0 kept_publisher = (Inr (), s')"
    using ada_published by blast
  from published_value_is_acknowledged[OF wire.connecting_axioms run] run show ?thesis
    by (auto simp: kept_publisher_def settled_def fresh_wire_def)
qed

section \<open>Lost connections\<close>

lemma poisoned_lease:
  assumes "cs_poisoned s (connection c)"
  shows "\<exists>e. acquire_schedule_lease cd lib c n s = (Inl e, s)"
  using assms by (auto simp: acquire_schedule_lease_def client_request_def expect_def op_bind_def op_lift_def split: sum.splits prod.splits)

lemma acquire_leases_lost:
  assumes "\<forall>i\<in>set is. \<exists>c. pub_clients s i = Some c \<and> cs_poisoned (pub_net s) (connection c)" and "distinct is"
  shows "acquire_leases cd lib builders n is s = ([], fold forget_client is s)"
  using assms
proof (induction "is" arbitrary: s)
  case (Cons i rest)
  obtain c where c: "pub_clients s i = Some c" "cs_poisoned (pub_net s) (connection c)" using Cons.prems by auto
  then obtain e where "on_net (acquire_schedule_lease cd lib c n) s = (Inl e, s)"
    using poisoned_lease[of "pub_net s" c cd lib n] by (auto simp: on_net_def)
  moreover have "acquire_leases cd lib builders n rest (forget_client i s) = ([], fold forget_client rest (forget_client i s))"
    using Cons.prems by (intro Cons.IH) (auto simp: forget_client_def)
  ultimately show ?case using c by (simp add: endpoint_connection_def)
qed simp

lemma publish_to_none: "publish_each (publish_to_leased cd lib []) vs s = (Inr (), s)"
  by (induction vs) (simp_all add: op_return_def op_bind_def)

text \<open>
  C37. A group published right after all connections were lost is lost too, and reported as a success: if every endpoint
  keeps a client whose connection was closed, publishing a group opens no connection and sends nothing, forgets
  the clients and returns success, so that the scheduled run counts values that no server has got.
\<close>

theorem group_after_lost_connections_is_dropped:
  assumes "\<forall>i < length builders. \<exists>c. pub_clients s i = Some c \<and> cs_poisoned (pub_net s) (connection c)"
  shows "publish_group cd lib builders n vs s = (Inr (), invalidate (length builders) s)"
  using assms acquire_leases_lost[of "[0..<length builders]" s cd lib builders n]
  by (simp add: publish_group_def acquire_schedule_leases_def publish_to_none release_schedule_leases_def invalidate_def)

theorem group_after_lost_connections_is_dropped_witness:
  "publish_group sample_codec (wire_lib agreeing) [sample_builder] (dv_namespace ada_value) [ada_value]
     (kept_publisher\<lparr> pub_net := fresh_wire\<lparr> cs_poisoned := (\<lambda>_. True) \<rparr> \<rparr>)
   = (Inr (), \<lparr> pub_net = fresh_wire\<lparr> cs_poisoned := (\<lambda>_. True) \<rparr>, pub_clients = (\<lambda>_. Some ping_client)(0 := None) \<rparr>)"
proof -
  let ?s = "kept_publisher\<lparr> pub_net := fresh_wire\<lparr> cs_poisoned := (\<lambda>_. True) \<rparr> \<rparr>"
  have "publish_group sample_codec (wire_lib agreeing) [sample_builder] (dv_namespace ada_value) [ada_value] ?s
      = (Inr (), invalidate (length [sample_builder]) ?s)"
    by (rule group_after_lost_connections_is_dropped) (simp add: kept_publisher_def)
  then show ?thesis by (simp add: invalidate_def forget_client_def kept_publisher_def)
qed

end
