(* ===== verification/Db_Process.thy ===== *)
theory Db_Process
  imports Db_Publisher Db_Parameters
begin

text \<open>
  The callback connections of an adapter process: the connecting functions of \<open>StreamingClient\<close>, and
  registration, backoff and reconnection of \<open>valkyr-db-adapter/src/main.rs\<close>. What the operating system and a request of a
  streaming client do to the world are arguments; what a request may answer is the subject of
  \<open>Streaming_Client\<close>. The loop that connects again until it succeeds may run forever.
\<close>

section \<open>Streaming connections\<close>

record 'w stream_io =
  io_tcp :: "string \<Rightarrow> (string, 'w, nat) effect"
  io_tls :: "tls_config \<Rightarrow> string \<Rightarrow> nat \<Rightarrow> (string, 'w, nat) effect"
  io_request :: "client \<Rightarrow> command \<Rightarrow> (client_error, 'w, response) effect"
  io_closed :: "client \<Rightarrow> 'w \<Rightarrow> bool"
  io_sleep :: "duration \<Rightarrow> 'w \<Rightarrow> 'w"

definition connect_with_io :: "'w stream_io \<Rightarrow> string \<Rightarrow> uuid \<Rightarrow> nat \<Rightarrow> (client_error, 'w, client) effect" where
  "connect_with_io io api_key adapter_id stream =
     (let c = \<lparr> connection = stream, cl_request_timeout = DEFAULT_REQUEST_TIMEOUT \<rparr> in
      op_bind (io_request io c (Auth api_key (Some adapter_id))) (\<lambda>_. op_return c))"

definition stream_connect :: "'w stream_io \<Rightarrow> string \<Rightarrow> string \<Rightarrow> uuid \<Rightarrow> (client_error, 'w, client) effect" where
  "stream_connect io address api_key adapter_id =
     op_bind (map_failure ConnectionError (io_tcp io address)) (connect_with_io io api_key adapter_id)"

definition stream_connect_tls_with_config ::
    "'n net_lib \<Rightarrow> 'w stream_io \<Rightarrow> string \<Rightarrow> tls_config \<Rightarrow> string \<Rightarrow> uuid \<Rightarrow> (client_error, 'w, client) effect" where
  "stream_connect_tls_with_config net io address config api_key adapter_id =
     op_bind (map_failure ConnectionError (io_tcp io address)) (\<lambda>stream.
     op_bind (op_lift (tls_server_name net address)) (\<lambda>server_name.
     op_bind (map_failure TlsError (io_tls io config server_name stream)) (connect_with_io io api_key adapter_id)))"

definition stream_connect_tls ::
    "'n net_lib \<Rightarrow> 'w stream_io \<Rightarrow> string \<Rightarrow> string \<Rightarrow> uuid \<Rightarrow> (client_error, 'w, client) effect" where
  "stream_connect_tls net io address api_key adapter_id =
     op_bind (op_lift (verified_tls_config net None)) (\<lambda>config.
       stream_connect_tls_with_config net io address config api_key adapter_id)"

section \<open>Registration\<close>

definition namespace_pattern_of :: "string \<Rightarrow> string \<Rightarrow> string + namespace_pattern" where
  "namespace_pattern_of value kind = or_error (\<lambda>e. ''invalid '' @ kind @ '': '' @ error_display e) (NamespacePattern_new value)"

definition key_pattern_of :: "string \<Rightarrow> string \<Rightarrow> string + key_pattern" where
  "key_pattern_of value kind = or_error (\<lambda>e. ''invalid '' @ kind @ '': '' @ error_display e) (KeyPattern_new value)"

text \<open>The command a query and a store are registered with; options outside the range of the wire are an error.\<close>

definition query_registration :: "valkyr_config \<Rightarrow> db_query_config \<Rightarrow> string + command" where
  "query_registration vc q =
     (case namespace_pattern_of (dq_namespace_pattern q) ''query namespace pattern'' of
        Inl e \<Rightarrow> Inl e
      | Inr n \<Rightarrow>
          (case key_pattern_of (dq_key_pattern q) ''query key pattern'' of
             Inl e \<Rightarrow> Inl e
           | Inr k \<Rightarrow>
               (case provider_options vc q of
                  Inl e \<Rightarrow> Inl (db_error_display (DbConfiguration e))
                | Inr options \<Rightarrow> Inr (stream_provide_with_options n k options))))"

definition db_store_registration :: "db_store_config \<Rightarrow> string + command" where
  "db_store_registration st =
     (case namespace_pattern_of (ds_namespace_pattern st) ''store namespace pattern'' of
        Inl e \<Rightarrow> Inl e
      | Inr n \<Rightarrow>
          (case key_pattern_of (ds_key_pattern st) ''store key pattern'' of
             Inl e \<Rightarrow> Inl e
           | Inr k \<Rightarrow> Inr (stream_store n k)))"

definition register :: "'w stream_io \<Rightarrow> client \<Rightarrow> (client_error \<Rightarrow> string) \<Rightarrow> command \<Rightarrow> (string, 'w, unit) effect" where
  "register io c describe cmd w = (case io_request io c cmd w of (r, w) \<Rightarrow> (or_error describe (registration_outcome r), w))"

text \<open>The loops over the queries and the stores.\<close>

fun register_each ::
    "'w stream_io \<Rightarrow> client \<Rightarrow> ('a \<Rightarrow> string + command) \<Rightarrow> ('a \<Rightarrow> client_error \<Rightarrow> string) \<Rightarrow> 'a list \<Rightarrow> (string, 'w, unit) effect" where
  "register_each io c registration describe [] = op_return ()"
| "register_each io c registration describe (x # rest) =
     op_bind (op_lift (registration x)) (\<lambda>cmd.
     op_bind (register io c (describe x) cmd) (\<lambda>_. register_each io c registration describe rest))"

definition register_queries :: "'w stream_io \<Rightarrow> valkyr_config \<Rightarrow> client \<Rightarrow> (string \<times> db_query_config) list \<Rightarrow> (string, 'w, unit) effect" where
  "register_queries io vc c =
     register_each io c (\<lambda>(_, q). query_registration vc q)
       (\<lambda>(name, _) e. ''could not register query '' @ quoted_name name @ '': '' @ client_error_display e)"

definition register_stores :: "'w stream_io \<Rightarrow> client \<Rightarrow> (string \<times> db_store_config) list \<Rightarrow> (string, 'w, unit) effect" where
  "register_stores io c =
     register_each io c (\<lambda>(_, st). db_store_registration st)
       (\<lambda>(name, _) e. ''could not register store '' @ quoted_name name @ '': '' @ client_error_display e)"

definition connect_endpoint :: "'n net_lib \<Rightarrow> 'w stream_io \<Rightarrow> uuid \<Rightarrow> valkyr_endpoint \<Rightarrow> (client_error, 'w, client) effect" where
  "connect_endpoint net io adapter_id e =
     (if uses_tls e
      then (case ep_tls_config e of
              Some config \<Rightarrow> stream_connect_tls_with_config net io (endpoint_address e) config (ep_api_key e) adapter_id
            | None \<Rightarrow> stream_connect_tls net io (endpoint_address e) (ep_api_key e) adapter_id)
      else stream_connect io (endpoint_address e) (ep_api_key e) adapter_id)"

definition connect_and_register ::
    "'n net_lib \<Rightarrow> 'w stream_io \<Rightarrow> db_adapter_config \<Rightarrow> uuid \<Rightarrow> valkyr_endpoint \<Rightarrow> (string, 'w, client) effect" where
  "connect_and_register net io cfg adapter_id e =
     op_bind (map_failure client_error_display (connect_endpoint net io adapter_id e)) (\<lambda>c.
     op_bind (register_queries io (valkyr cfg) c (queries cfg)) (\<lambda>_.
     op_bind (register_stores io c (db_stores cfg)) (\<lambda>_. op_return c)))"

section \<open>Backoff\<close>

text \<open>The arithmetic of \<open>u64\<close>; the shift is at most 16.\<close>

definition saturating_mul_u64 :: "nat \<Rightarrow> nat \<Rightarrow> nat" where
  "saturating_mul_u64 a b = min (a * b) u64_max"

definition from_millis :: "nat \<Rightarrow> duration" where
  "from_millis ms = ms * 1000000"

definition reconnect_delay :: "nat \<Rightarrow> duration" where
  "reconnect_delay attempt = from_millis (min (saturating_mul_u64 250 (2 ^ min (attempt - 1) 16)) 30000)"

text \<open>The attempts \<open>attempt ..= max_retries\<close> with the error of the last one.\<close>

function backoff_attempts ::
    "(string, 'w, client) effect \<Rightarrow> (duration \<Rightarrow> 'w \<Rightarrow> 'w) \<Rightarrow> nat \<Rightarrow> nat \<Rightarrow> string \<Rightarrow> (string, 'w, client) effect" where
  "backoff_attempts connect sleep retries attempt last_error w =
     (if retries < attempt
      then (Inl (''callback reconnection failed after '' @ show_nat retries @ '' attempts: '' @ last_error), w)
      else case connect w of
          (Inr c, w) \<Rightarrow> (Inr c, w)
        | (Inl e, w) \<Rightarrow>
            backoff_attempts connect sleep retries (attempt + 1) e (if attempt < retries then sleep (reconnect_delay attempt) w else w))"
  by pat_completeness auto
termination
  by (relation "measure (\<lambda>(_, _, retries, attempt, _, _). Suc retries - attempt)") auto

declare backoff_attempts.simps [simp del]

definition connect_with_backoff :: "(string, 'w, client) effect \<Rightarrow> (duration \<Rightarrow> 'w \<Rightarrow> 'w) \<Rightarrow> nat \<Rightarrow> (string, 'w, client) effect" where
  "connect_with_backoff connect sleep retries = backoff_attempts connect sleep retries 1 []"

partial_function (option) reconnect_until_connected ::
    "(string, 'w, client) effect \<Rightarrow> (duration \<Rightarrow> 'w \<Rightarrow> 'w) \<Rightarrow> nat \<Rightarrow> 'w \<Rightarrow> (client \<times> 'w) option" where
  "reconnect_until_connected connect sleep retries w =
     (let rw = connect_with_backoff connect sleep retries w in
      case fst rw of
        Inr c \<Rightarrow> Some (c, snd rw)
      | Inl e \<Rightarrow> reconnect_until_connected connect sleep retries (sleep (reconnect_delay retries) (snd rw)))"

text \<open>One tick of the monitor: every closed connection is opened again; a connection that cannot be opened stops the tick.\<close>

fun monitor_tick ::
    "'n net_lib \<Rightarrow> 'w stream_io \<Rightarrow> db_adapter_config \<Rightarrow> uuid \<Rightarrow> (valkyr_endpoint \<times> client) list \<Rightarrow> 'w \<Rightarrow> (client list \<times> 'w) option" where
  "monitor_tick net io cfg adapter_id [] w = Some ([], w)"
| "monitor_tick net io cfg adapter_id ((e, c) # rest) w =
     Option.bind
       (if io_closed io c w
        then reconnect_until_connected (connect_and_register net io cfg adapter_id e) (io_sleep io) (max_retries (valkyr cfg)) w
        else Some (c, w)) (\<lambda>(c, w).
     Option.bind (monitor_tick net io cfg adapter_id rest w) (\<lambda>(cs, w). Some (c # cs, w)))"

section \<open>Delays\<close>

lemma reconnect_delay_first: "reconnect_delay 1 = from_millis 250"
  by (simp add: reconnect_delay_def saturating_mul_u64_def u64_max_def)

lemma reconnect_delay_capped: "8 \<le> attempt \<Longrightarrow> reconnect_delay attempt = from_millis 30000"
proof -
  assume "8 \<le> attempt"
  then have "(2::nat) ^ 7 \<le> 2 ^ min (attempt - 1) 16" by (intro power_increasing) auto
  then show ?thesis by (auto simp: reconnect_delay_def saturating_mul_u64_def u64_max_def min_def)
qed

section \<open>Attempts\<close>

text \<open>The world after a number of failed attempts of one cycle or of several, each followed by its delay.\<close>

primrec failed_attempts ::
    "(string, 'w, client) effect \<Rightarrow> (duration \<Rightarrow> 'w \<Rightarrow> 'w) \<Rightarrow> nat \<Rightarrow> nat \<Rightarrow> 'w \<Rightarrow> 'w option" where
  "failed_attempts connect sleep retries 0 w = Some w"
| "failed_attempts connect sleep retries (Suc k) w =
     Option.bind (failed_attempts connect sleep retries k w) (\<lambda>w.
       case connect w of (Inl e, w) \<Rightarrow> Some (sleep (reconnect_delay (Suc (k mod retries))) w) | (Inr c, _) \<Rightarrow> None)"

lemma failed_attempts_stop:
  assumes "failed_attempts connect sleep retries i w = Some v" and "connect v = (Inr c, v')" and "i < j"
  shows "failed_attempts connect sleep retries j w = None"
  using assms(3)
proof (induction j)
  case (Suc j)
  then show ?case using assms(1,2) by (cases "i = j") auto
qed simp

lemma failed_cycle_then:
  "0 < retries \<Longrightarrow> failed_attempts connect sleep retries (retries + k) w
     = Option.bind (failed_attempts connect sleep retries retries w) (failed_attempts connect sleep retries k)"
  by (cases "failed_attempts connect sleep retries retries w"; induction k) (auto cong: sum.case_cong prod.case_cong)

text \<open>What a cycle does from its attempt \<open>Suc j\<close> on.\<close>

lemma backoff_attempts_cases:
  assumes "failed_attempts connect sleep retries j w = Some v" and "j < retries"
    and "backoff_attempts connect sleep retries (Suc j) last_error v = (r, v')"
  shows "(\<exists>c i vi. r = Inr c \<and> i < retries \<and> failed_attempts connect sleep retries i w = Some vi \<and> connect vi = (Inr c, v'))
    \<or> (\<exists>e. r = Inl e) \<and> failed_attempts connect sleep retries retries w = Some (sleep (reconnect_delay retries) v')"
  using assms
proof (induction "retries - j" arbitrary: j v last_error)
  case (Suc m)
  obtain x v1 where conn: "connect v = (x, v1)" by force
  show ?case
  proof (cases x)
    case (Inr c)
    with Suc.prems conn show ?thesis by (auto simp: backoff_attempts.simps[of _ _ _ "Suc j"])
  next
    case (Inl e)
    let ?v = "sleep (reconnect_delay (Suc j)) v1"
    have next_state: "failed_attempts connect sleep retries (Suc j) w = Some ?v"
      using Suc.prems(1,2) conn Inl by simp
    show ?thesis
    proof (cases "Suc j < retries")
      case True
      then have "backoff_attempts connect sleep retries (Suc (Suc j)) e ?v = (r, v')"
        using Suc.prems(3) conn Inl by (simp add: backoff_attempts.simps[of _ _ _ "Suc j"])
      then show ?thesis using Suc.hyps(1)[of "Suc j", OF _ next_state True] Suc.hyps(2) by simp
    next
      case False
      then have "retries = Suc j" using Suc.prems(2) by simp
      then show ?thesis
        using Suc.prems(3) conn Inl next_state
        by (auto simp: backoff_attempts.simps[of _ _ _ "Suc j"] backoff_attempts.simps[of _ _ _ "Suc (Suc j)"])
    qed
  qed
qed simp

lemma cycle_cases:
  assumes "0 < retries" and "connect_with_backoff connect sleep retries w = (r, v)"
  shows "(\<exists>c i vi. r = Inr c \<and> i < retries \<and> failed_attempts connect sleep retries i w = Some vi \<and> connect vi = (Inr c, v))
    \<or> (\<exists>e. r = Inl e) \<and> failed_attempts connect sleep retries retries w = Some (sleep (reconnect_delay retries) v)"
  using backoff_attempts_cases[of connect sleep retries 0 w w] assms by (simp add: connect_with_backoff_def)

lemma reconnect_sound:
  assumes "reconnect_until_connected connect sleep retries w = Some (c, w')" and "0 < retries"
  shows "\<exists>k wk. failed_attempts connect sleep retries k w = Some wk \<and> connect wk = (Inr c, w')"
proof -
  let ?P = "\<lambda>connect sleep retries w y. 0 < retries
    \<longrightarrow> (\<exists>k wk. failed_attempts connect sleep retries k w = Some wk \<and> connect wk = (Inr (fst y), snd y))"
  have "?P connect sleep retries w (c, w')"
  proof (rule reconnect_until_connected.raw_induct[where P = ?P, OF _ assms(1)], rule impI)
    fix reconnect :: "(string, 'a, client) effect \<Rightarrow> (duration \<Rightarrow> 'a \<Rightarrow> 'a) \<Rightarrow> nat \<Rightarrow> 'a \<Rightarrow> (client \<times> 'a) option"
      and connect :: "(string, 'a, client) effect" and sleep retries w y
    assume IH: "\<And>connect sleep retries w y. reconnect connect sleep retries w = Some y \<Longrightarrow> ?P connect sleep retries w y"
      and result: "(let rw = connect_with_backoff connect sleep retries w in
        case fst rw of Inr c \<Rightarrow> Some (c, snd rw)
          | Inl e \<Rightarrow> reconnect connect sleep retries (sleep (reconnect_delay retries) (snd rw))) = Some y"
      and pos: "0 < retries"
    obtain r v where cycle: "connect_with_backoff connect sleep retries w = (r, v)" by force
    from cycle_cases[OF pos cycle]
    show "\<exists>k wk. failed_attempts connect sleep retries k w = Some wk \<and> connect wk = (Inr (fst y), snd y)"
    proof (elim disjE conjE exE)
      fix e
      assume "r = Inl e" and failed: "failed_attempts connect sleep retries retries w = Some (sleep (reconnect_delay retries) v)"
      then obtain k wk where "failed_attempts connect sleep retries k (sleep (reconnect_delay retries) v) = Some wk"
        "connect wk = (Inr (fst y), snd y)"
        using IH[of connect sleep retries "sleep (reconnect_delay retries) v" y] result cycle pos by (auto simp: Let_def)
      then show ?thesis using failed failed_cycle_then[OF pos, of connect sleep k w] by auto
    qed (use result cycle in \<open>fastforce simp: Let_def\<close>)
  qed
  then show ?thesis using assms(2) by simp
qed

lemma reconnect_complete:
  assumes "failed_attempts connect sleep retries k w = Some wk" and "connect wk = (Inr c, w')" and "0 < retries"
  shows "reconnect_until_connected connect sleep retries w = Some (c, w')"
  using assms(1)
proof (induction k arbitrary: w rule: less_induct)
  case (less k)
  obtain r v where cycle: "connect_with_backoff connect sleep retries w = (r, v)" by force
  from cycle_cases[OF assms(3) cycle] show ?case
  proof (elim disjE conjE exE)
    fix c' i vi
    assume ok: "r = Inr c'" "failed_attempts connect sleep retries i w = Some vi" "connect vi = (Inr c', v)"
    then have "i = k"
      using failed_attempts_stop[OF ok(2,3), of k] failed_attempts_stop[OF less.prems assms(2), of i] less.prems
      by (cases i k rule: linorder_cases) auto
    with ok less.prems assms(2) cycle show ?thesis by (simp add: reconnect_until_connected.simps[of _ _ _ w])
  next
    fix e
    assume bad: "r = Inl e" and full: "failed_attempts connect sleep retries retries w = Some (sleep (reconnect_delay retries) v)"
    then have "retries \<le> k"
      using failed_attempts_stop[OF less.prems assms(2), of retries] by (auto simp: not_le[symmetric])
    then obtain m where k: "k = retries + m" using le_Suc_ex by blast
    then have "failed_attempts connect sleep retries m (sleep (reconnect_delay retries) v) = Some wk"
      using less.prems full failed_cycle_then[OF assms(3), of connect sleep m w] by simp
    then show ?thesis
      using less.IH[of m] k assms(3) bad cycle by (simp add: reconnect_until_connected.simps[of _ _ _ w])
  qed
qed

section \<open>Registrations\<close>

text \<open>A history of the requests of all connections: what was asked of whom, and the outcome.\<close>

type_synonym request_log = "(client \<times> command \<times> (client_error + response)) list"

locale logged_io =
  fixes io :: "'w stream_io" and log :: "'w \<Rightarrow> request_log"
  assumes request_logged: "io_request io c cmd w = (r, w') \<Longrightarrow> log w' = log w @ [(c, cmd, r)]"
    and tcp_silent: "io_tcp io address w = (s, w') \<Longrightarrow> log w' = log w"
    and tls_silent: "io_tls io config name stream w = (s, w') \<Longrightarrow> log w' = log w"
begin

lemma connect_with_io_logged:
  assumes "connect_with_io io api_key adapter_id stream w = (Inr c, w')"
  shows "\<exists>answer. log w' = log w @ [(c, Auth api_key (Some adapter_id), Inr answer)]"
  using assms request_logged by (auto simp: connect_with_io_def Let_def op_bind_Inr_iff op_return_def)

lemma connect_endpoint_logged:
  assumes "connect_endpoint net io adapter_id e w = (Inr c, w')"
  shows "\<exists>answer. log w' = log w @ [(c, Auth (ep_api_key e) (Some adapter_id), Inr answer)]"
proof -
  obtain stream w1 where "connect_with_io io (ep_api_key e) adapter_id stream w1 = (Inr c, w')" "log w1 = log w"
    using assms tcp_silent tls_silent
    by (fastforce simp: connect_endpoint_def stream_connect_def stream_connect_tls_def stream_connect_tls_with_config_def
        op_bind_Inr_iff op_lift_def split: if_splits option.splits)
  then show ?thesis using connect_with_io_logged by metis
qed

lemma register_logged:
  assumes "register io c describe cmd w = (Inr (), w')"
  shows "log w' = log w @ [(c, cmd, Inr ROk)]"
proof -
  obtain r where r: "io_request io c cmd w = (r, w')" "registration_outcome r = Inr ()"
    using assms by (auto simp: register_def or_error_def split: prod.splits sum.splits)
  then have "r = Inr ROk"
    by (auto simp: registration_outcome_def ok_or_else_def split: sum.splits option.splits elim!: if_ok.elims)
  then show ?thesis using request_logged[OF r(1)] by simp
qed

lemma register_each_logged:
  assumes "register_each io c registration describe xs w = (Inr (), w')"
  shows "\<exists>cmds. list_all2 (\<lambda>x cmd. registration x = Inr cmd) xs cmds \<and> log w' = log w @ map (\<lambda>cmd. (c, cmd, Inr ROk)) cmds"
  using assms
proof (induction xs arbitrary: w)
  case (Cons x rest)
  then obtain cmd w1 where cmd: "registration x = Inr cmd" and reg: "register io c (describe x) cmd w = (Inr (), w1)"
    and rest: "register_each io c registration describe rest w1 = (Inr (), w')"
    by (auto simp: op_bind_Inr_iff op_lift_def)
  from Cons.IH[OF rest] register_logged[OF reg] cmd show ?case by fastforce
qed (simp add: op_return_def)

lemma connect_and_register_logged:
  assumes "connect_and_register net io cfg adapter_id e w = (Inr c, w')"
  shows "\<exists>answer provides stores'.
    list_all2 (\<lambda>(_, q) cmd. query_registration (valkyr cfg) q = Inr cmd) (queries cfg) provides
    \<and> list_all2 (\<lambda>(_, st) cmd. db_store_registration st = Inr cmd) (db_stores cfg) stores'
    \<and> log w' = log w @ (c, Auth (ep_api_key e) (Some adapter_id), Inr answer) # map (\<lambda>cmd. (c, cmd, Inr ROk)) (provides @ stores')"
proof -
  obtain w1 w2 where conn: "connect_endpoint net io adapter_id e w = (Inr c, w1)"
    and qs: "register_queries io (valkyr cfg) c (queries cfg) w1 = (Inr (), w2)"
    and sts: "register_stores io c (db_stores cfg) w2 = (Inr (), w')"
    using assms by (auto simp: connect_and_register_def op_bind_Inr_iff op_return_def)
  from connect_endpoint_logged[OF conn] register_each_logged[OF qs[unfolded register_queries_def]]
    register_each_logged[OF sts[unfolded register_stores_def]] show ?thesis
    by (force simp: case_prod_unfold)
qed

end

section \<open>A network in memory\<close>

text \<open>The state counts the attempts that are still to fail and keeps the history and the time slept.\<close>

record flaky =
  to_fail :: nat
  history :: request_log
  slept :: duration

definition flaky_io :: "flaky stream_io" where
  "flaky_io =
     \<lparr> io_tcp = (\<lambda>_ w. if to_fail w = 0 then (Inr 0, w) else (Inl ''connection refused'', w\<lparr> to_fail := to_fail w - 1 \<rparr>)),
       io_tls = (\<lambda>_ _ stream w. (Inr stream, w)),
       io_request = (\<lambda>c cmd w. (Inr ROk, w\<lparr> history := history w @ [(c, cmd, Inr ROk)] \<rparr>)),
       io_closed = (\<lambda>_ _. False),
       io_sleep = (\<lambda>d w. w\<lparr> slept := slept w + d \<rparr>) \<rparr>"

interpretation flaky: logged_io flaky_io history
  by unfold_locales (auto simp: flaky_io_def split: if_splits)

text \<open>An adapter with one query and one store whose endpoint refuses the first two attempts.\<close>

definition flaky_connect :: "(string, flaky, client) effect" where
  "flaky_connect = connect_and_register (wire_lib accepting) flaky_io people_config 7 (hd (endpoints (valkyr people_config)))"

definition refusing_twice :: flaky where
  "refusing_twice = \<lparr> to_fail = 2, history = [], slept = 0 \<rparr>"

lemma flaky_refused: "0 < to_fail w \<Longrightarrow> flaky_connect w = (Inl ''connection failed: connection refused'', w\<lparr> to_fail := to_fail w - 1 \<rparr>)"
  by (simp add: flaky_connect_def connect_and_register_def connect_endpoint_def uses_tls_def starts_with_def people_config_def stream_connect_def
      flaky_io_def op_bind_def map_failure_def or_error_def)

definition people_provide :: command where
  "people_provide = Provide (NamespacePattern ''/p'') (KeyPattern ''{id}'') None (Some 0) (Some 0)"

definition people_store_command :: command where
  "people_store_command = Store (NamespacePattern ''/p'') (KeyPattern ''{id}'')"

lemma people_registered:
  "query_registration (valkyr people_config) people_query = Inr people_provide"
  "db_store_registration people_store = Inr people_store_command"
  by (simp_all add: query_registration_def db_store_registration_def namespace_pattern_of_def key_pattern_of_def or_error_def NamespacePattern_new_def
      KeyPattern_new_def people_query_def people_store_def people_config_def provider_options_def first_set_def wire_zero
      stream_provide_with_options_def stream_store_def people_provide_def people_store_command_def)

definition registered_history :: request_log where
  "registered_history = [(ping_client, Auth ''k'' (Some 7), Inr ROk), (ping_client, people_provide, Inr ROk),
     (ping_client, people_store_command, Inr ROk)]"

lemma flaky_accepted:
  "to_fail w = 0 \<Longrightarrow> flaky_connect w = (Inr ping_client, w\<lparr> history := history w @ registered_history \<rparr>)"
  using people_registered
  by (simp add: flaky_connect_def connect_and_register_def connect_endpoint_def uses_tls_def starts_with_def people_config_def stream_connect_def
      connect_with_io_def register_queries_def register_stores_def register_def registration_outcome_def ok_or_else_def flaky_io_def op_bind_def op_lift_def op_return_def map_failure_def
      or_error_def ping_client_def registered_history_def Let_def)

lemma flaky_failed: "failed_attempts flaky_connect (io_sleep flaky_io) 1 2 refusing_twice = Some \<lparr> to_fail = 0, history = [], slept = from_millis 500 \<rparr>"
  by (simp add: numeral_2_eq_2 refusing_twice_def flaky_refused reconnect_delay_first[simplified] flaky_io_def from_millis_def)

section \<open>Properties\<close>

text \<open>
  C38. Reconnection ends with the first attempt that succeeds and with nothing else: \<open>reconnect_until_connected\<close> returns
  a client exactly if after some number of failed attempts, each followed by its delay (the delay grows within
  a cycle of \<open>max_retries\<close> attempts and starts again with the next cycle), an attempt connects; it is that
  attempt's client, and otherwise the loop runs forever.
\<close>

theorem reconnection_ends_with_first_success:
  assumes "0 < retries"
  shows "reconnect_until_connected connect sleep retries w = Some (c, w')
    \<longleftrightarrow> (\<exists>k wk. failed_attempts connect sleep retries k w = Some wk \<and> connect wk = (Inr c, w'))"
  using reconnect_sound reconnect_complete assms by metis

theorem reconnection_ends_with_first_success_witness:
  "reconnect_until_connected flaky_connect (io_sleep flaky_io) 1 refusing_twice
     = Some (ping_client, \<lparr> to_fail = 0, history = registered_history, slept = from_millis 500 \<rparr>)"
proof (rule iffD2[OF reconnection_ends_with_first_success])
  show "\<exists>k wk. failed_attempts flaky_connect (io_sleep flaky_io) 1 k refusing_twice = Some wk
      \<and> flaky_connect wk = (Inr ping_client, \<lparr> to_fail = 0, history = registered_history, slept = from_millis 500 \<rparr>)"
    using flaky_failed flaky_accepted[of "\<lparr> to_fail = 0, history = [], slept = from_millis 500 \<rparr>"] by fastforce
qed simp

text \<open>
  C39. A restored callback connection has all its registrations: the last requests before
  \<open>reconnect_until_connected\<close> returns are, on the returned client's connection and in this order, the
  authentication with the endpoint's own key, one PROVIDE per configured query and one STORE per configured store, and the server
  answered each of the registrations with OK.
\<close>

theorem restored_connection_is_registered:
  assumes "logged_io io log" and "0 < max_retries (valkyr cfg)"
    and "reconnect_until_connected (connect_and_register net io cfg adapter_id e) (io_sleep io) (max_retries (valkyr cfg)) w = Some (c, w')"
  shows "\<exists>before answer provides stores'.
    list_all2 (\<lambda>(_, q) cmd. query_registration (valkyr cfg) q = Inr cmd) (queries cfg) provides
    \<and> list_all2 (\<lambda>(_, st) cmd. db_store_registration st = Inr cmd) (db_stores cfg) stores'
    \<and> log w' = before @ (c, Auth (ep_api_key e) (Some adapter_id), Inr answer) # map (\<lambda>cmd. (c, cmd, Inr ROk)) (provides @ stores')"
proof -
  obtain wk where "connect_and_register net io cfg adapter_id e wk = (Inr c, w')"
    using reconnect_sound[OF assms(3,2)] by blast
  from logged_io.connect_and_register_logged[OF assms(1) this] show ?thesis by blast
qed

theorem restored_connection_is_registered_witness:
  "\<exists>c w' before answer. reconnect_until_connected flaky_connect (io_sleep flaky_io) 1 refusing_twice = Some (c, w')
     \<and> history w' = before @ [(c, Auth ''k'' (Some 7), Inr answer), (c, people_provide, Inr ROk), (c, people_store_command, Inr ROk)]"
proof -
  have "reconnect_until_connected flaky_connect (io_sleep flaky_io) 1 refusing_twice
      = Some (ping_client, \<lparr> to_fail = 0, history = registered_history, slept = from_millis 500 \<rparr>)" (is "?run = Some (_, ?w)")
    by (rule reconnect_complete[OF flaky_failed]) (simp_all add: flaky_accepted)
  note run = this
  have one: "max_retries (valkyr people_config) = 1" by (simp add: people_config_def)
  have "\<exists>before answer provides stores'.
      list_all2 (\<lambda>(_, q) cmd. query_registration (valkyr people_config) q = Inr cmd) (queries people_config) provides
      \<and> list_all2 (\<lambda>(_, st) cmd. db_store_registration st = Inr cmd) (db_stores people_config) stores'
      \<and> history ?w = before @ (ping_client, Auth (ep_api_key (hd (endpoints (valkyr people_config)))) (Some 7), Inr answer)
          # map (\<lambda>cmd. (ping_client, cmd, Inr ROk)) (provides @ stores')"
    by (rule restored_connection_is_registered[OF flaky.logged_io_axioms])
      (use run one in \<open>simp_all add: flaky_connect_def\<close>)
  then have "\<exists>before answer. history ?w = before @ [(ping_client, Auth ''k'' (Some 7), Inr answer), (ping_client, people_provide, Inr ROk),
      (ping_client, people_store_command, Inr ROk)]"
    using people_registered by (auto simp: people_config_def list_all2_Cons1)
  with run show ?thesis by blast
qed

end
