(* ===== verification/OpenBao_Process.thy ===== *)
theory OpenBao_Process
  imports OpenBao_Config Db_Process
begin

text \<open>
  The OpenBao adapter's process (\<open>valkyr-openbao-adapter/src/main.rs\<close>): registration of its queries and stores, reconnection that
  a shutdown interrupts, the check of the callback connections, and the scheduled synchronization. Its \<open>delay\<close>
  is the same expression as \<open>reconnect_delay\<close> of the database adapter.
\<close>

section \<open>Registration\<close>

definition bao_query_registration :: "valkyr_config \<Rightarrow> query_config \<Rightarrow> string + command" where
  "bao_query_registration vc q =
     (case NamespacePattern_new (qc_namespace_pattern q) of
        Inl e \<Rightarrow> Inl (error_display e)
      | Inr n \<Rightarrow>
          (case KeyPattern_new (qc_key_pattern q) of
             Inl e \<Rightarrow> Inl (error_display e)
           | Inr k \<Rightarrow>
               (case bao_provider_options vc q of
                  Inl e \<Rightarrow> Inl (''invalid adapter configuration: '' @ e)
                | Inr options \<Rightarrow> Inr (stream_provide_with_options n k options))))"

definition bao_store_registration :: "store_config \<Rightarrow> string + command" where
  "bao_store_registration st =
     (case NamespacePattern_new (sc_namespace_pattern st) of
        Inl e \<Rightarrow> Inl (error_display e)
      | Inr n \<Rightarrow> (case KeyPattern_new (sc_key_pattern st) of Inl e \<Rightarrow> Inl (error_display e) | Inr k \<Rightarrow> Inr (stream_store n k)))"

definition bao_connect :: "'n net_lib \<Rightarrow> 'w stream_io \<Rightarrow> bao_adapter_config \<Rightarrow> uuid \<Rightarrow> valkyr_endpoint \<Rightarrow> (string, 'w, client) effect" where
  "bao_connect net io cfg adapter_id e =
     op_bind (map_failure client_error_display (connect_endpoint net io adapter_id e)) (\<lambda>c.
     let c = c\<lparr> cl_request_timeout := request_timeout (bao_valkyr cfg) \<rparr> in
     op_bind (register_each io c (\<lambda>(_, q). bao_query_registration (bao_valkyr cfg) q) (\<lambda>_. client_error_display) (bao_queries cfg)) (\<lambda>_.
     op_bind (register_each io c (\<lambda>(_, st). bao_store_registration st) (\<lambda>_. client_error_display) (bao_stores cfg)) (\<lambda>_.
       op_return c)))"

section \<open>Reconnection\<close>

text \<open>
  The shutdown channel: whether a shutdown is requested, whether it overtakes a connection attempt (and what the dropped attempt
  left behind), and how a wait of some duration ends: \<open>False\<close> when the shutdown comes first.
\<close>

record 'w shutdown =
  sd_requested :: "'w \<Rightarrow> bool"
  sd_overtakes :: "'w \<Rightarrow> 'w option"
  sd_wait :: "duration \<Rightarrow> 'w \<Rightarrow> bool \<times> 'w"

datatype reconnect = Connected client | Shutdown

definition wait_for_retry :: "'w shutdown \<Rightarrow> duration \<Rightarrow> 'w \<Rightarrow> bool \<times> 'w" where
  "wait_for_retry sd d w = (if sd_requested sd w then (False, w) else sd_wait sd d w)"

text \<open>The attempts \<open>attempt ..= max_retries\<close> of one turn of the loop; \<open>None\<close> starts the next turn.\<close>

function reconnect_attempts ::
    "'w shutdown \<Rightarrow> (string, 'w, client) effect \<Rightarrow> nat \<Rightarrow> nat \<Rightarrow> 'w \<Rightarrow> reconnect option \<times> 'w" where
  "reconnect_attempts sd connect retries attempt w =
     (if retries < attempt then (None, w)
      else case sd_overtakes sd w of
          Some w \<Rightarrow> (Some Shutdown, w)
        | None \<Rightarrow>
            (case connect w of
               (Inr c, w) \<Rightarrow> (Some (if sd_requested sd w then Shutdown else Connected c), w)
             | (Inl _, w) \<Rightarrow>
                 (case wait_for_retry sd (reconnect_delay attempt) w of
                    (False, w) \<Rightarrow> (Some Shutdown, w)
                  | (True, w) \<Rightarrow> reconnect_attempts sd connect retries (attempt + 1) w)))"
  by pat_completeness auto
termination
  by (relation "measure (\<lambda>(_, _, retries, attempt, _). Suc retries - attempt)") auto

declare reconnect_attempts.simps [simp del]

partial_function (option) bao_reconnect ::
    "'w shutdown \<Rightarrow> (string, 'w, client) effect \<Rightarrow> nat \<Rightarrow> 'w \<Rightarrow> (reconnect \<times> 'w) option" where
  "bao_reconnect sd connect retries w =
     (if sd_requested sd w then Some (Shutdown, w)
      else let rw = reconnect_attempts sd connect retries 1 w in
           case fst rw of
             Some r \<Rightarrow> Some (r, snd rw)
           | None \<Rightarrow> bao_reconnect sd connect retries (snd rw))"

text \<open>
  The check of the connections: the new connections and whether one was restored, or \<open>None\<close> as the inner result when the
  process ends. After a restored connection every provider is synchronized in a task of its own.
\<close>

fun bao_monitor_tick ::
    "'w shutdown \<Rightarrow> (valkyr_endpoint \<Rightarrow> (string, 'w, client) effect) \<Rightarrow> (client \<Rightarrow> 'w \<Rightarrow> bool) \<Rightarrow> nat
      \<Rightarrow> (valkyr_endpoint \<times> client) list \<Rightarrow> 'w \<Rightarrow> ((client list \<times> bool) option \<times> 'w) option" where
  "bao_monitor_tick sd connect closed retries [] w = Some (Some ([], False), w)"
| "bao_monitor_tick sd connect closed retries ((e, c) # rest) w =
     Option.bind (if closed c w then bao_reconnect sd (connect e) retries w else Some (Connected c, w)) (\<lambda>(r, w').
       case r of
         Shutdown \<Rightarrow> Some (None, w')
       | Connected c' \<Rightarrow>
           Option.bind (bao_monitor_tick sd connect closed retries rest w') (\<lambda>(cs, w'').
             Some (map_option (\<lambda>(cs, restored). (c' # cs, restored \<or> closed c w)) cs, w'')))"

section \<open>Synchronization\<close>

fun acquire_owners ::
    "codec \<Rightarrow> 'n net_lib \<Rightarrow> namespace_context \<Rightarrow> client_builder list \<Rightarrow> 'n client_state \<Rightarrow> client list \<times> 'n client_state" where
  "acquire_owners cd net n [] s = ([], s)"
| "acquire_owners cd net n (b # rest) s =
     (case builder_connect cd net b s of
        (Inl _, s) \<Rightarrow> acquire_owners cd net n rest s
      | (Inr c, s) \<Rightarrow>
          (case acquire_schedule_lease cd net c n s of
             (Inr (Acquired _), s) \<Rightarrow> (case acquire_owners cd net n rest s of (owners, s) \<Rightarrow> (c # owners, s))
           | (_, s) \<Rightarrow> acquire_owners cd net n rest s))"

fun set_owners :: "codec \<Rightarrow> 'n net_lib \<Rightarrow> bao_value \<Rightarrow> client list \<Rightarrow> ('n, unit) client_op" where
  "set_owners cd net v [] = op_return ()"
| "set_owners cd net v (owner # rest) =
     op_bind (client_set cd net owner (bv_namespace v) (bv_key v) (bv_value v) (bv_ttl v)) (\<lambda>_. set_owners cd net v rest)"

fun set_values :: "codec \<Rightarrow> 'n net_lib \<Rightarrow> client list \<Rightarrow> bao_value list \<Rightarrow> ('n, unit) client_op" where
  "set_values cd net owners [] = op_return ()"
| "set_values cd net owners (v # rest) = op_bind (set_owners cd net v owners) (\<lambda>_. set_values cd net owners rest)"

definition release_owners :: "codec \<Rightarrow> 'n net_lib \<Rightarrow> namespace_context \<Rightarrow> client list \<Rightarrow> 'n client_state \<Rightarrow> 'n client_state" where
  "release_owners cd net n owners s = fold (\<lambda>c s. snd (release_schedule_lease cd net c n s)) owners s"

definition sync_provider ::
    "'w bao_lib \<Rightarrow> bao_client \<Rightarrow> bao_mapping \<Rightarrow> codec \<Rightarrow> 'n net_lib \<Rightarrow> namespace_context \<Rightarrow> client_builder list
      \<Rightarrow> (string, 'w bao_state \<times> 'n client_state, nat) effect" where
  "sync_provider lib c m cd net n endpoints' st =
     (case acquire_owners cd net n endpoints' (snd st) of (owners, net_state) \<Rightarrow>
      if owners = [] then (Inr 0, (fst st, net_state))
      else case fetch_provider_values lib c m n (fst st) of
          (Inl e, s) \<Rightarrow> (Inl (adapter_error_display (status_text lib) e), (s, release_owners cd net n owners net_state))
        | (Inr values', s) \<Rightarrow>
            (case set_values cd net owners values' net_state of (r, net_state) \<Rightarrow>
               (map_sum client_error_display (\<lambda>_. length values') r, (s, release_owners cd net n owners net_state))))"

definition sync_configured_provider ::
    "'w bao_lib \<Rightarrow> bao_client \<Rightarrow> bao_mapping \<Rightarrow> codec \<Rightarrow> 'n net_lib \<Rightarrow> bao_provider_config \<Rightarrow> client_builder list
      \<Rightarrow> 'w bao_state \<times> 'n client_state \<Rightarrow> 'w bao_state \<times> 'n client_state" where
  "sync_configured_provider lib c m cd net p endpoints' st =
     (case NamespaceContext_new (bp_namespace p) of
        Inl _ \<Rightarrow> st
      | Inr n \<Rightarrow> snd (sync_provider lib c m cd net n endpoints' st))"

section \<open>What reconnection returns\<close>

lemma reconnect_attempts_connected:
  assumes "reconnect_attempts sd connect retries attempt w = (Some (Connected c), w')"
  shows "\<not> sd_requested sd w' \<and> (\<exists>wk. connect wk = (Inr c, w'))"
  using assms
proof (induction sd connect retries attempt w rule: reconnect_attempts.induct)
  case (1 sd connect retries attempt w)
  show ?case
    using 1(2) unfolding reconnect_attempts.simps[of sd connect retries attempt w]
    by (auto split: if_splits option.splits prod.splits sum.splits bool.splits dest: 1(1)[unfolded Suc_eq_plus1[symmetric]])
qed

lemma bao_reconnect_connected:
  assumes "bao_reconnect sd connect retries w = Some (Connected c, w')"
  shows "\<not> sd_requested sd w' \<and> (\<exists>wk. connect wk = (Inr c, w'))"
proof -
  let ?P = "\<lambda>sd connect (retries :: nat) w y. \<forall>c. fst y = Connected c \<longrightarrow> \<not> sd_requested sd (snd y) \<and> (\<exists>wk. connect wk = (Inr c, snd y))"
  have "?P sd connect retries w (Connected c, w')"
  proof (rule bao_reconnect.raw_induct[where P = ?P, OF _ assms])
    fix reconnect :: "'a shutdown \<Rightarrow> (string, 'a, client) effect \<Rightarrow> nat \<Rightarrow> 'a \<Rightarrow> (reconnect \<times> 'a) option"
      and sd :: "'a shutdown" and connect :: "(string, 'a, client) effect" and retries w y
    assume IH: "\<And>sd connect retries w y. reconnect sd connect retries w = Some y \<Longrightarrow> ?P sd connect retries w y"
      and result: "(if sd_requested sd w then Some (Shutdown, w)
        else let rw = reconnect_attempts sd connect retries 1 w in
             case fst rw of Some r \<Rightarrow> Some (r, snd rw) | None \<Rightarrow> reconnect sd connect retries (snd rw)) = Some y"
    obtain x v where turn: "reconnect_attempts sd connect retries 1 w = (x, v)" by force
    show "?P sd connect retries w y"
      using result turn IH[of sd connect retries v y] reconnect_attempts_connected[of sd connect retries 1 w _ v]
      by (cases x) (auto simp: Let_def split: if_splits)
  qed
  then show ?thesis by simp
qed

context logged_io
begin

lemma bao_connect_logged:
  assumes "bao_connect net io cfg adapter_id e w = (Inr c, w')"
  shows "\<exists>first answer provides stores'. connection first = connection c \<and> cl_request_timeout c = request_timeout (bao_valkyr cfg)
    \<and> list_all2 (\<lambda>(_, q) cmd. bao_query_registration (bao_valkyr cfg) q = Inr cmd) (bao_queries cfg) provides
    \<and> list_all2 (\<lambda>(_, st) cmd. bao_store_registration st = Inr cmd) (bao_stores cfg) stores'
    \<and> log w' = log w @ (first, Auth (ep_api_key e) (Some adapter_id), Inr answer) # map (\<lambda>cmd. (c, cmd, Inr ROk)) (provides @ stores')"
proof -
  obtain first w1 w2 where conn: "connect_endpoint net io adapter_id e w = (Inr first, w1)"
    and c: "c = first\<lparr> cl_request_timeout := request_timeout (bao_valkyr cfg) \<rparr>"
    and qs: "register_each io c (\<lambda>(_, q). bao_query_registration (bao_valkyr cfg) q) (\<lambda>_. client_error_display) (bao_queries cfg) w1 = (Inr (), w2)"
    and sts: "register_each io c (\<lambda>(_, st). bao_store_registration st) (\<lambda>_. client_error_display) (bao_stores cfg) w2 = (Inr (), w')"
    using assms by (auto simp: bao_connect_def op_bind_Inr_iff op_return_def Let_def)
  from connect_endpoint_logged[OF conn] register_each_logged[OF qs] register_each_logged[OF sts] c show ?thesis
    by (force simp: case_prod_unfold)
qed

end

section \<open>A validated configuration can be registered\<close>

lemma bao_validated_registers:
  assumes "bao_validate fs cron cfg = Inr ()"
  shows "\<forall>(name, q) \<in> set (bao_queries cfg). \<exists>cmd. bao_query_registration (bao_valkyr cfg) q = Inr cmd"
    and "\<forall>(name, st) \<in> set (bao_stores cfg). \<exists>cmd. bao_store_registration st = Inr cmd"
proof -
  note parts = bao_validate_parts[OF assms]
  show "\<forall>(name, q) \<in> set (bao_queries cfg). \<exists>cmd. bao_query_registration (bao_valkyr cfg) q = Inr cmd"
    using parts(2,3) parts(4)
    by (fastforce simp: bao_validate_query_def validate_route_def validate_wire_duration_def bao_query_registration_def NamespacePattern_new_def
        KeyPattern_new_def bao_provider_options_def first_set_def wire_zero split: option.splits sum.splits)
  show "\<forall>(name, st) \<in> set (bao_stores cfg). \<exists>cmd. bao_store_registration st = Inr cmd"
    using parts(5) by (fastforce simp: bao_validate_store_def validate_route_def bao_store_registration_def NamespacePattern_new_def KeyPattern_new_def)
qed

end
