(* ===== verification/Server_Config.thy ===== *)
theory Server_Config
  imports Broker_Access Db_Config
begin

text \<open>
  The server's configuration (\<open>valkyr-server/src/config.rs\<close>) and the server it starts (\<open>configured_server\<close> of \<open>main.rs\<close>). Reading files,
  parsing YAML and the cache library's constructor are arguments; socket addresses are kept as text. An error is its kind and its
  message.
\<close>

datatype error_kind = InvalidData | OtherKind string

type_synonym io_error = "error_kind \<times> string"

definition DEFAULT_SESSION_TTL_SECONDS :: nat where
  "DEFAULT_SESSION_TTL_SECONDS = 3600"

definition MOKA_MAX_TIME_TO_IDLE_SECONDS :: nat where
  "MOKA_MAX_TIME_TO_IDLE_SECONDS = 1000 * 365 * 24 * 3600"

record cache_config =
  cc_max_capacity :: "nat option"
  time_to_idle_seconds :: "nat option"

record server_tls_config =
  tls_listen :: string
  certificate_file :: string
  private_key_file :: string

record auth_config =
  bootstrap_api_key_file :: string
  session_ttl_seconds :: nat

record server_config =
  native_listen :: string
  http_listen :: string
  metrics_listen :: string
  log_filter :: string
  tls :: "server_tls_config option"
  auth :: "auth_config option"
  cache :: cache_config

definition default_server_config :: server_config where
  "default_server_config =
     \<lparr> native_listen = ''127.0.0.1:8081'', http_listen = ''127.0.0.1:8080'', metrics_listen = ''127.0.0.1:8090'', log_filter = ''info'',
       tls = None, auth = None, cache = \<lparr> cc_max_capacity = None, time_to_idle_seconds = None \<rparr> \<rparr>"

definition invalid_data :: "string \<Rightarrow> io_error" where
  "invalid_data message = (InvalidData, message)"

definition validate_config :: "server_config \<Rightarrow> io_error + unit" where
  "validate_config c =
     first_failure
       [check_that (trim (log_filter c) \<noteq> []) (invalid_data ''log_filter must not be empty''),
        (case auth c of
           None \<Rightarrow> Inl (invalid_data ''auth.bootstrap_api_key_file is required'')
         | Some a \<Rightarrow> check_that (2 \<le> session_ttl_seconds a) (invalid_data ''auth.session_ttl_seconds must be at least 2'')),
        check_that (cc_max_capacity (cache c) \<noteq> Some 0) (invalid_data ''cache.max_capacity must be greater than 0''),
        check_that (time_to_idle_seconds (cache c) \<noteq> Some 0) (invalid_data ''cache.time_to_idle_seconds must be greater than 0''),
        check_that (case time_to_idle_seconds (cache c) of None \<Rightarrow> True | Some s \<Rightarrow> s \<le> MOKA_MAX_TIME_TO_IDLE_SECONDS)
          (invalid_data (''cache.time_to_idle_seconds must be at most '' @ show_nat MOKA_MAX_TIME_TO_IDLE_SECONDS
             @ '' (Moka'' @ [CHR 0x27] @ ''s 1000-year limit)''))]"

text \<open>\<open>resolve_relative_path\<close> is \<open>resolve_file\<close> of the adapters' configuration.\<close>

definition resolve_file_paths :: "string \<Rightarrow> server_config \<Rightarrow> server_config" where
  "resolve_file_paths directory c =
     c\<lparr> tls := map_option (\<lambda>t. t\<lparr> certificate_file := resolve_file directory (certificate_file t),
                                 private_key_file := resolve_file directory (private_key_file t) \<rparr>) (tls c),
        auth := map_option (\<lambda>a. a\<lparr> bootstrap_api_key_file := resolve_file directory (bootstrap_api_key_file a) \<rparr>) (auth c) \<rparr>"

definition load_config ::
    "(string \<Rightarrow> io_error + string) \<Rightarrow> (string \<Rightarrow> string + server_config) \<Rightarrow> (string \<Rightarrow> string) \<Rightarrow> string option \<Rightarrow> io_error + server_config" where
  "load_config read yaml_from_str parent path =
     (case (case path of
              None \<Rightarrow> Inr default_server_config
            | Some p \<Rightarrow>
                (case read p of
                   Inl (kind, e) \<Rightarrow> Inl (kind, ''failed to read configuration file '' @ p @ '': '' @ e)
                 | Inr content \<Rightarrow>
                     (case yaml_from_str content of
                        Inl e \<Rightarrow> Inl (invalid_data (''invalid configuration file '' @ p @ '': '' @ e))
                      | Inr c \<Rightarrow> Inr (resolve_file_paths (parent p) c)))) of
        Inl e \<Rightarrow> Inl e
      | Inr c \<Rightarrow> (case validate_config c of Inl e \<Rightarrow> Inl e | Inr _ \<Rightarrow> Inr c))"

definition bootstrap_api_key :: "(string \<Rightarrow> io_error + string) \<Rightarrow> auth_config \<Rightarrow> io_error + string" where
  "bootstrap_api_key read a =
     (case read (bootstrap_api_key_file a) of
        Inl (kind, e) \<Rightarrow> Inl (kind, ''failed to read bootstrap API key file '' @ bootstrap_api_key_file a @ '': '' @ e)
      | Inr value \<Rightarrow>
          if trim value = [] then Inl (invalid_data (''bootstrap API key file '' @ bootstrap_api_key_file a @ '' is empty''))
          else Inr (trim value))"

definition configured_server ::
    "(string \<Rightarrow> io_error + string) \<Rightarrow> ('s, 'm) broker_env \<Rightarrow> (memory_store_config \<Rightarrow> 's) \<Rightarrow> auth_config \<Rightarrow> cache_config
      \<Rightarrow> io_error + ('s, 'm) broker" where
  "configured_server read env with_config a c =
     (case bootstrap_api_key read a of
        Inl e \<Rightarrow> Inl e
      | Inr key \<Rightarrow>
          Inr (Broker_new env
            (with_config \<lparr> max_capacity = cc_max_capacity c, time_to_idle = map_option from_secs (time_to_idle_seconds c) \<rparr>)
            (Some (AuthManager_with_bootstrap_admin (Some key) (from_secs (session_ttl_seconds a))))))"

text \<open>The arguments after the program's name; \<open>None\<close> is the end of the process after the usage text.\<close>

definition config_path_from_args :: "string list \<Rightarrow> (string + string option) option" where
  "config_path_from_args arguments =
     (case arguments of
        [] \<Rightarrow> Some (Inr None)
      | argument # rest \<Rightarrow>
          if argument = ''--help'' then None
          else if argument \<noteq> ''--config'' then Some (Inl (''unknown argument: '' @ argument))
          else (case rest of
                  [] \<Rightarrow> Some (Inl ''--config requires a path'')
                | [path] \<Rightarrow> Some (Inr (Some path))
                | _ \<Rightarrow> Some (Inl ''only one --config <path> argument is supported'')))"

section \<open>Loaded configurations\<close>

lemma load_config_validated:
  assumes "load_config read yaml_from_str parent path = Inr c"
  shows "validate_config c = Inr () \<and> path \<noteq> None"
  using assms
  by (auto simp: load_config_def default_server_config_def validate_config_def first_failure_Cons
      split: option.splits sum.splits if_splits)

lemma validate_config_auth:
  assumes "validate_config c = Inr ()"
  obtains a where "auth c = Some a" "2 \<le> session_ttl_seconds a"
  using assms by (auto simp: validate_config_def split: option.splits)

lemma validate_config_cache:
  assumes "validate_config c = Inr ()"
  shows "cc_max_capacity (cache c) \<noteq> Some 0 \<and> time_to_idle_seconds (cache c) \<noteq> Some 0
    \<and> (\<forall>t. time_to_idle_seconds (cache c) = Some t \<longrightarrow> t \<le> MOKA_MAX_TIME_TO_IDLE_SECONDS)"
  using assms by (auto simp: validate_config_def split: option.splits)

lemma configured_server_auth:
  assumes "configured_server read env with_config a c = Inr b"
  obtains contents where "read (bootstrap_api_key_file a) = Inr contents" "trim contents \<noteq> []"
    "b_auth b = Some (AuthManager_with_bootstrap_admin (Some (trim contents)) (from_secs (session_ttl_seconds a)))"
  using assms by (auto simp: configured_server_def bootstrap_api_key_def Broker_new_def split: sum.splits prod.splits if_splits)

text \<open>
  C40. A server that starts has a secured configuration. Whatever the YAML library makes of the file, loading succeeds only when there is a
  configuration file and what it says names a bootstrap key file, a session time to live of at least two seconds, and cache limits that are
  not zero and an idle time that moka accepts. Whenever a server is then built from that section, its sessions last the configured time,
  and whoever asks first is authenticated exactly with the key of the bootstrap file, which is not empty and stands without the white
  space around it, and is the bootstrap administrator.
\<close>

theorem started_server_trusts_only_its_key:
  assumes "load_config read yaml_from_str parent path = Inr c"
  shows "path \<noteq> None \<and> cc_max_capacity (cache c) \<noteq> Some 0 \<and> time_to_idle_seconds (cache c) \<noteq> Some 0
    \<and> (\<forall>t. time_to_idle_seconds (cache c) = Some t \<longrightarrow> t \<le> MOKA_MAX_TIME_TO_IDLE_SECONDS)
    \<and> (\<exists>a. auth c = Some a \<and> 2 \<le> session_ttl_seconds a
        \<and> (\<forall>b. configured_server read env with_config a (cache c) = Inr b \<longrightarrow>
            (\<exists>contents m. read (bootstrap_api_key_file a) = Inr contents \<and> trim contents \<noteq> [] \<and> b_auth b = Some m
              \<and> timeout m = from_secs (session_ttl_seconds a)
              \<and> (\<forall>now api_key. (case am_authenticate m now api_key of
                    (Authenticated info, m') \<Rightarrow> api_key = trim contents \<and> is_bootstrap_admin info \<and> m' = m
                  | (Pending, _) \<Rightarrow> api_key \<noteq> trim contents
                  | (RejectedLookup, _) \<Rightarrow> False)))))"
proof -
  have valid: "validate_config c = Inr ()" "path \<noteq> None" using load_config_validated[OF assms] by auto
  obtain a where a: "auth c = Some a" "2 \<le> session_ttl_seconds a" using validate_config_auth[OF valid(1)] .
  have "\<exists>contents m. read (bootstrap_api_key_file a) = Inr contents \<and> trim contents \<noteq> [] \<and> b_auth b = Some m
      \<and> timeout m = from_secs (session_ttl_seconds a)
      \<and> (\<forall>now api_key. (case am_authenticate m now api_key of
            (Authenticated info, m') \<Rightarrow> api_key = trim contents \<and> is_bootstrap_admin info \<and> m' = m
          | (Pending, _) \<Rightarrow> api_key \<noteq> trim contents
          | (RejectedLookup, _) \<Rightarrow> False))"
    if "configured_server read env with_config a (cache c) = Inr b" for b
    by (rule configured_server_auth[OF that], intro exI conjI, assumption+)
      (auto simp: AuthManager_with_bootstrap_admin_def am_authenticate_def is_bootstrap_admin_def)
  then show ?thesis using a valid(2) validate_config_cache[OF valid(1)] by blast
qed

definition one_file :: "string \<Rightarrow> io_error + string" where
  "one_file path = Inr '' k ''"

definition small_config :: server_config where
  "small_config = default_server_config\<lparr> auth := Some \<lparr> bootstrap_api_key_file = ''/key'', session_ttl_seconds = DEFAULT_SESSION_TTL_SECONDS \<rparr> \<rparr>"

theorem started_server_trusts_only_its_key_witness:
  "\<exists>b m. configured_server one_file sample_env (\<lambda>_. []) \<lparr> bootstrap_api_key_file = ''/key'', session_ttl_seconds = 3600 \<rparr> (cache small_config)
       = Inr b \<and> b_auth b = Some m \<and> timeout m = from_secs 3600"
proof -
  let ?a = "\<lparr> bootstrap_api_key_file = ''/key'', session_ttl_seconds = 3600 \<rparr>"
  have texts: "trim ''info'' \<noteq> []" "trim '' k '' = ''k''" by code_simp+
  then have loaded: "load_config one_file (\<lambda>_. Inr small_config) (\<lambda>_. ''/'') (Some ''/c'') = Inr small_config"
    by (simp add: load_config_def one_file_def small_config_def default_server_config_def resolve_file_paths_def resolve_file_def starts_with_def
        validate_config_def first_failure.simps check_that_def DEFAULT_SESSION_TTL_SECONDS_def)
  have a: "auth small_config = Some ?a" by (simp add: small_config_def DEFAULT_SESSION_TTL_SECONDS_def)
  obtain b where b: "configured_server one_file sample_env (\<lambda>_. []) ?a (cache small_config) = Inr b"
    using texts by (simp add: configured_server_def bootstrap_api_key_def one_file_def)
  from started_server_trusts_only_its_key[OF loaded] a b
  show ?thesis by fastforce
qed

end
