(* ===== verification/Server_Stores.thy ===== *)
theory Server_Stores
  imports Server_Session Broker_Data
begin

text \<open>
  Mutations and durable stores: the way of a mutation from \<open>Broker::prepare_mutation\<close> over the callback of the
  storage adapter (\<open>finish_outcome\<close> of \<open>valkyr-server/src/lib.rs\<close>) to \<open>Broker::commit\<close>. The specification
  says which registered store answers for a mutation: the last one registered among those that overlap every
  key pattern the mutation names.
\<close>

section \<open>The stores that answer for a mutation\<close>

text \<open>What of a mutation is compared with the stores: a move is looked up by its source only.\<close>

fun mutation_scope :: "pending_mutation \<Rightarrow> namespace_context \<times> key_pattern list" where
  "mutation_scope (PSet n k v ttl) = (n, [KeyPattern (key_str k)])"
| "mutation_scope (PSetBatch n es ttl) = (n, map (\<lambda>e. KeyPattern (key_str (entry_key e))) es)"
| "mutation_scope (PDelete n p) = (n, [case p of None \<Rightarrow> KeyPattern ''*'' | Some q \<Rightarrow> q])"
| "mutation_scope (PMove src dst) = (src, [KeyPattern ''*''])"

definition overlaps_all :: "pending_mutation \<Rightarrow> store_registration \<Rightarrow> bool" where
  "overlaps_all m st = (case mutation_scope m of (n, ps) \<Rightarrow> list_all (store_overlaps n st) ps)"

definition overlaps_part :: "pending_mutation \<Rightarrow> store_registration \<Rightarrow> bool" where
  "overlaps_part m st = (case mutation_scope m of (n, ps) \<Rightarrow> list_ex (store_overlaps n st) ps)"

fun persist_command :: "uuid \<Rightarrow> pending_mutation \<Rightarrow> server_command" where
  "persist_command i (PSet n k v ttl) = PersistSet i n k v (map_option as_secs ttl)"
| "persist_command i (PSetBatch n es ttl) = PersistSetBatch i n es (map_option as_secs ttl)"
| "persist_command i (PDelete n p) = PersistDelete i n p"
| "persist_command i (PMove src dst) = PersistMove i src dst"

text \<open>A \<open>Key\<close> is never empty.\<close>

fun named_keys :: "pending_mutation \<Rightarrow> bool" where
  "named_keys (PSet n k v ttl) \<longleftrightarrow> key_str k \<noteq> []"
| "named_keys (PSetBatch n es ttl) \<longleftrightarrow> list_all (\<lambda>e. key_str (entry_key e) \<noteq> []) es"
| "named_keys _ \<longleftrightarrow> True"

text \<open>
  What becomes of a mutation that waits for its store: whenever the callback \<open>d\<close> returns, at whatever moment and whatever was done
  to the broker meanwhile, a success commits the mutation then, and any other answer is an error without effect.
\<close>

definition committed_on_success ::
    "('s, 'm) broker_env \<Rightarrow> pending_mutation \<Rightarrow> broker_outcome \<Rightarrow> dispatch \<Rightarrow> ('s, 'm) broker \<Rightarrow> bool" where
  "committed_on_success env m oc d b \<longleftrightarrow>
     (\<forall>later w answer b2. call w d b = (answer, b2) \<longrightarrow>
       (if \<exists>i. answer = Inr (Operation i None)
        then finish_outcome env later w oc b =
          (map_sum id (\<lambda>_. ROk) (fst (commit env later m b2)), snd (commit env later m b2))
        else \<exists>e. finish_outcome env later w oc b = (Inl e, b2)))"

section \<open>The registry's choice\<close>

lemma find_rev_last: "find P (rev xs) = (if filter P xs = [] then None else Some (last (filter P xs)))"
  by (induction xs rule: rev_induct) auto

lemma store_for_newest:
  "store_for r n p = (let ss = filter (\<lambda>st. store_overlaps n st p) (stores r) in if ss = [] then None else Some (last ss))"
  by (simp add: store_for_def find_rev_last Let_def)

lemma store_for_batch_newest:
  "store_for_batch r n ps =
     (let ss = filter (\<lambda>st. list_all (store_overlaps n st) ps) (stores r) in
      if ss \<noteq> [] then OneStore (last ss)
      else if filter (\<lambda>st. list_ex (store_overlaps n st) ps) (stores r) \<noteq> [] then Mixed else NoStore)"
  by (auto simp: store_for_batch_def find_rev_last Let_def list_ex_iff filter_empty_conv)

lemma collect_key_patterns:
  "list_all (\<lambda>e. key_str (entry_key e) \<noteq> []) es \<Longrightarrow>
     collect_results (\<lambda>e. KeyPattern_new (key_str (entry_key e))) es = Inr (map (\<lambda>e. KeyPattern (key_str (entry_key e))) es)"
  by (induction es) (simp_all add: KeyPattern_new_def)

lemma single_covers: "\<not> (\<exists>n es ttl. m = PSetBatch n es ttl) \<Longrightarrow> overlaps_part m = overlaps_all m"
  by (cases m) (auto simp: overlaps_part_def overlaps_all_def)

lemma mutation_target_scope:
  assumes "named_keys m" and "\<not> (\<exists>n es ttl. m = PSetBatch n es ttl)"
  obtains n p where "mutation_target m i = Inr (n, p, persist_command i m)" and "mutation_scope m = (n, [p])"
  using assms by (cases m) (auto simp: KeyPattern_new_def split: option.splits)

text \<open>What \<open>prepare_mutation\<close> does with a mutation of a client, in terms of the stores that answer for it.\<close>

lemma prepare_client_mutation:
  assumes "named_keys m" and "ss = filter (overlaps_all m) (stores (b_registry b))"
    and "ts = filter (overlaps_part m) (stores (b_registry b))"
  shows "\<exists>i. prepare_mutation env now m False b =
    (if ss \<noteq> [] then (Inr (persist_outcome (s_owner (last ss)) (persist_command (b_draws b) m) m), b\<lparr> b_draws := i \<rparr>)
     else if ts \<noteq> [] then (Inl (Protocol ''SET batch keys require different storage adapters''), b\<lparr> b_draws := i \<rparr>)
     else commit_now env now m (b\<lparr> b_draws := i \<rparr>))"
proof (cases "\<exists>n es ttl. m = PSetBatch n es ttl")
  case True
  then obtain n es ttl where m: "m = PSetBatch n es ttl" by blast
  let ?i = "if ss = [] then b_draws b else Suc (b_draws b)"
  have "overlaps_all m = (\<lambda>st. list_all (store_overlaps n st) (map (\<lambda>e. KeyPattern (key_str (entry_key e))) es))"
    "overlaps_part m = (\<lambda>st. list_ex (store_overlaps n st) (map (\<lambda>e. KeyPattern (key_str (entry_key e))) es))"
    by (simp_all add: m overlaps_all_def[abs_def] overlaps_part_def[abs_def])
  then have "store_for_batch (b_registry b) n (map (\<lambda>e. KeyPattern (key_str (entry_key e))) es) =
      (if ss \<noteq> [] then OneStore (last ss) else if ts \<noteq> [] then Mixed else NoStore)"
    by (simp add: store_for_batch_newest assms(2,3))
  then show ?thesis
    using assms(1) by (intro exI[of _ ?i])
      (simp add: m prepare_mutation_def prepare_batch_def collect_key_patterns op_lift_def op_bind_def draw_def)
next
  case False
  obtain n p where "mutation_target m (b_draws b) = Inr (n, p, persist_command (b_draws b) m)"
    and scope: "mutation_scope m = (n, [p])" using mutation_target_scope[OF assms(1) False] .
  moreover have "prepare_mutation env now m False b = prepare_single env now m b"
    using False by (cases m) (auto simp: prepare_mutation_def)
  moreover have "store_for (b_registry b) n p = (if ss = [] then None else Some (last ss))"
    using scope by (simp add: store_for_newest Let_def assms(2) overlaps_all_def[abs_def])
  moreover have "ts = ss" using assms(2,3) single_covers[OF False] by simp
  ultimately show ?thesis
    by (auto simp: prepare_single_def draw_def op_bind_def op_lift_def)
qed

lemma finish_persisted:
  assumes "call w (persist_dispatch owner (persist_command i m)) b = (answer, b')"
  shows "finish_outcome env now w (persist_outcome owner (persist_command i m) m) b =
     finish_persist env now ROk (Some m) answer b'"
  using assms by (cases m) (simp_all add: finish_outcome_def persist_outcome_def persist_dispatch_def)

lemma finish_persist_commits:
  "finish_persist env now ROk (Some m) (Inr (Operation i None)) b =
     (map_sum id (\<lambda>_. ROk) (fst (commit env now m b)), snd (commit env now m b))"
  by (cases "commit env now m b"; cases "fst (commit env now m b)")
    (auto simp: finish_persist_def op_bind_def op_lift_def op_return_def)

lemma finish_persist_fails:
  "\<nexists>i. answer = Inr (Operation i None) \<Longrightarrow> \<exists>e. finish_persist env now response' (Some m) answer b = (Inl e, b)"
  by (auto simp: finish_persist_def op_bind_def op_lift_def op_fail_def split: sum.splits server_result.splits option.splits)

lemma persist_outcome_committed_on_success:
  fixes env :: "('s, 'm) broker_env"
  shows "committed_on_success env m (persist_outcome owner (persist_command i m) m) (persist_dispatch owner (persist_command i m)) b"
  unfolding committed_on_success_def
proof (intro allI impI)
  fix later and w :: "('s, 'm) waits" and answer b2
  assume "call w (persist_dispatch owner (persist_command i m)) b = (answer, b2)"
  note eq = finish_persisted[OF this, of env later]
  show "if \<exists>i. answer = Inr (Operation i None)
      then finish_outcome env later w (persist_outcome owner (persist_command i m) m) b =
        (map_sum id (\<lambda>_. ROk) (fst (commit env later m b2)), snd (commit env later m b2))
      else \<exists>e. finish_outcome env later w (persist_outcome owner (persist_command i m) m) b = (Inl e, b2)"
    using finish_persist_fails[of answer env later ROk m b2] by (auto simp: eq finish_persist_commits)
qed

section \<open>Properties\<close>


section \<open>Witness\<close>

text \<open>Two stores that overlap the namespace: the second one, of connection 9, answers.\<close>

definition store_broker :: memory_broker where
  "store_broker = sample_broker\<lparr> b_registry :=
     snd (register_store (snd (register_store Registry_new 6 0 8 ''/users*'' ''*'')) 7 0 9 ''/users*'' ''*'') \<rparr>"


end
