(* ===== verification/Spec2Isabelle.thy ===== *)
theory Spec2Isabelle
  imports Key_Variables Broker_Coordination Broker_Misses Durations Server_Waits Server_Flights Http_Requests OpenBao_Properties Client_Properties
    Db_Properties OpenBao_Process Server_Config Server_Stores
begin

text \<open>
  A verification library of Valkyr, a memory-first key/value broker.

  \<^bold>\<open>The program.\<close> Clients send commands over a line protocol (TCP, TLS, WebSocket) or HTTP. The server
  hands every command to the broker, which checks the caller's authority, resolves variables in
  the key, reads or writes the cache and decides whether an adapter has to be asked: a provider
  for a value that is missing, a store that must persist a mutation first, a provider of
  principals or of encryption keys. The server carries those callbacks to the adapter's connection,
  waits for the answers and completes the request. Keys between tildes are encrypted at rest. Programs reach
  the server with the client library, whose streaming client also serves callbacks; two adapters are built on it,
  one for SQL databases and one for the secret store OpenBao. An adapter registers its queries and stores, answers
  callbacks, forwards what it persisted to the other servers, and publishes values on a schedule under leases.

  \<^bold>\<open>Theories and sources.\<close>
  \<^item> \<open>Prelude\<close>: text, number and duration functions of the standard library with their lemmas.
  \<^item> \<open>Route\<close> (\<open>valkyr-core/src/route.rs\<close>, \<open>error.rs\<close>): namespaces with their context, keys and errors.
  \<^item> \<open>Pattern\<close> (\<open>pattern.rs\<close>): the tokenizer and the backtracking matcher, equal to a denotation.
  \<^item> \<open>Protocol\<close> (\<open>protocol.rs\<close>): commands, responses, callbacks and their results.
  \<^item> \<open>Line_Protocol\<close> (\<open>line_protocol.rs\<close>): scanner, the eight encoders and decoders. \<open>Line_Scanner\<close>,
    \<open>Line_Roundtrip\<close> and \<open>Line_Answers\<close> prove their round trips in the locale \<open>codec_laws\<close>, the
    contract of the JSON and UUID libraries; \<open>Line_Codec\<close> interprets it and states the properties.
  \<^item> \<open>Durations\<close> (\<open>duration.rs\<close>): duration texts in checked 128-bit arithmetic.
  \<^item> \<open>Registry\<close> (\<open>registry.rs\<close>): registrations of providers and stores and their selection.
  \<^item> \<open>Cache\<close>, \<open>Store_Interface\<close> (\<open>store.rs\<close>), \<open>Memory\<close> (\<open>memory.rs\<close>), \<open>Miss_Cache\<close> (\<open>miss_cache.rs\<close>): the
    interface of the cache library, the contract \<open>store_spec\<close> of a store as a map of values with
    deadlines, and the proof that the memory store implements it.
  \<^item> \<open>Security\<close>, \<open>Cipher\<close> (\<open>security.rs\<close>): roles, records, the session cache, value encryption over the
    cryptographic libraries (locale \<open>crypto_laws\<close>).
  \<^item> \<open>Mutation_Shards\<close>, \<open>Broker_State\<close>, \<open>Broker\<close> (\<open>broker.rs\<close>): the broker's state and one definition per
    method up to \<open>execute\<close>. \<open>Broker_Access\<close> opens the locale \<open>broker_store\<close> (a broker over any store
    that meets \<open>store_spec\<close>) and shows what a denied command leaves alone; \<open>Broker_Data\<close> relates
    mutations to their effect on the map; \<open>Broker_Roundtrip\<close> writes and reads; \<open>Key_Variables\<close> the
    key expansion; \<open>Broker_Coordination\<close> leases and rate limits; \<open>Broker_Misses\<close> the race between
    confirming a miss and writing.
  \<^item> \<open>Server_Callbacks\<close> (\<open>valkyr-server/src/lib.rs\<close>): connections and pending callback results, every lock
    section an operation and every interleaving a run of \<open>callback_step\<close>; \<open>Server_Correlation\<close> and
    \<open>Server_Waits\<close> prove its invariants by rule induction.
  \<^item> \<open>Server_Refresh\<close> (\<open>lib.rs\<close>): provider refreshes, interleaved by \<open>refresh_step\<close>; \<open>lost_step\<close> ends a task without its
    publication, a request that is dropped or a refresh that panics. \<open>Server_Flights\<close> shows single flight, that a pending refresh can
    always complete as long as no task is lost, and that a lost one blocks its route.
  \<^item> \<open>Server_Session\<close> (\<open>lib.rs\<close>): the path of a request and the worker and reader of a session;
    \<open>Server_Requests\<close> its properties; \<open>Server_Stores\<close> the way of a mutation through the durable stores to its commit.
  \<^item> \<open>Http_Api\<close> (\<open>http_api.rs\<close>): the REST handler; \<open>Http_Requests\<close> its properties up to PUT then GET.
  \<^item> \<open>Server_Config\<close> (\<open>valkyr-server/src/config.rs\<close>, \<open>main.rs\<close>): the configuration and the server it starts.
  \<^item> \<open>Client\<close> (\<open>valkyr-client/src/lib.rs\<close>): errors, TLS settings, requests and the builder with failover.
    \<open>Client_Connection\<close> states what the client relies on as the locales \<open>ordered_connection\<close>, \<open>shared_connection\<close> (every holder
    of the connection lets its requests run to the end) and \<open>connecting\<close>, shows in the second that every result is the answer to its own
    request, and in the first what a dropped request does to the next one; \<open>Streaming_Client\<close> is the streaming client with its
    reader as the step relation \<open>stream_step\<close> and its invariant; \<open>Client_Properties\<close> holds the properties and a network in
    memory that meets the three locales.
  \<^item> \<open>Db_Config\<close>, \<open>Db_Bridge\<close> (\<open>valkyr-db-adapter/src/config.rs\<close>, \<open>error.rs\<close>, \<open>traits.rs\<close>, \<open>bridge.rs\<close>, \<open>sqlx_impl.rs\<close>): the
    configuration with its validation, and the SQL statements, transactions and callbacks; \<open>Db_Parameters\<close> and
    \<open>Db_Properties\<close> (locale \<open>transactional_db\<close>) show what a validated configuration guarantees, that
    batches are atomic and when writes are forwarded. \<open>Db_Publisher\<close> (\<open>publisher.rs\<close>, \<open>main.rs\<close>) is scheduled publishing,
    \<open>Db_Process\<close> (\<open>main.rs\<close>) the callback connections with backoff and reconnection (locale \<open>logged_io\<close>).
  \<^item> \<open>OpenBao_Mapping\<close>, \<open>OpenBao_Client\<close>, \<open>OpenBao_Bridge\<close> (\<open>valkyr-openbao-adapter/src/mapping.rs\<close>, \<open>client.rs\<close>, \<open>bridge.rs\<close>): paths
    and documents, the KV v2 client, the context index and the callbacks. \<open>OpenBao_Kv\<close> and \<open>OpenBao_Index\<close> state
    the KV v2 engine as the locale \<open>kv_server\<close> and prove the compare-and-set loops under interference of any kind, with the one
    condition under which version numbers identify documents (\<open>keeps_versions\<close>: nobody erases the metadata) explicit where it is needed;
    \<open>OpenBao_Quiet\<close> and
    \<open>OpenBao_Adapter\<close> the operations when nobody interferes; \<open>OpenBao_Reference\<close> an engine in memory that meets the
    locale; \<open>OpenBao_Properties\<close> the properties. \<open>OpenBao_Config\<close> (\<open>config.rs\<close>) is the configuration, \<open>OpenBao_Process\<close>
    (\<open>main.rs\<close>) registration, reconnection under a shutdown signal and synchronization.

  \<^bold>\<open>State and effects.\<close> The broker is the record \<open>broker\<close>; a method that can fail is a function
  \<open>('b, 'a) op\<close> from a broker to a result and a broker. What the broker calls but does not own (the
  store, the cache library, JSON, cryptography, the route hash) is the record \<open>broker_env\<close> or an
  argument, with the facts relied on as a locale that is interpreted on a concrete instance.
  Counters and generations are 64-bit words and wrap. An instant and a duration are nanoseconds
  as natural numbers; a method reads the clock once. Drawn UUIDs are a counter in the state.

  \<^bold>\<open>Concurrency.\<close> Methods of the broker are atomic except \<open>confirm_provider_miss\<close>, which is split at
  its gate (\<open>Broker_Misses\<close>); operations of the memory store are single steps too, although \<open>memory.rs\<close> looks an
  expired entry up before it removes it and inserts the entries of a batch one by one. A panic is an error value (\<open>Panic\<close>), and ends
  the task where that matters (\<open>lost_step\<close>). The server's methods are split at every \<open>await\<close> where other tasks can
  interfere (\<open>Server_Callbacks\<close>, \<open>Server_Refresh\<close>); in \<open>Server_Session\<close> what the others do during a wait is
  an argument (\<open>waits\<close>), so that the properties hold whatever they do. Requests of a client run while other
  holders of its connection use it (\<open>shared_step\<close>, when they are not dropped), those of a streaming client interleave with its reader and may be dropped
  at every \<open>await\<close>; a request to OpenBao runs among those of other writers, the relation \<open>others\<close> of \<open>kv_server\<close>.

  \<^bold>\<open>Loops.\<close> Scanners, matchers and the key expansion are total functions with termination proofs. The
  compare-and-set loops count down their eight tries, and the listing of principals terminates by a multiset order. The
  two loops that connect until they succeed may run forever and are partial functions into \<open>option\<close>; \<open>Db_Process\<close> shows
  exactly when the first returns. No definition needs fuel.

  \<^bold>\<open>Not modelled.\<close> Sockets, TLS, WebSocket framing, listeners, logging, waiting for the next run of a schedule and
  process exit are input and output, as is the wrapper of the client for C callers (\<open>capi.rs\<close>). \<open>router.rs\<close> is
  not part of the crate.
\<close>

end
